(* ===== verification/Prelude.thy ===== *)
theory Prelude
  imports Main "HOL-Library.Word" "HOL-Library.AList" "HOL-Library.Char_ord"
    "HOL-Library.List_Lexorder"
begin

text \<open>
  Facts that every component shares, on the pieces of Go's language and standard library the
  program uses: \<open>strings.Split\<close> with a one-byte separator, decimal formatting (\<open>%d\<close>), maps as
  association lists with distinct keys (listed in the order in which a \<open>range\<close> loop happens to
  visit them), slices, and results of fallible calls as sums, \<open>Inl\<close> for the error.
  The collections \<open>go_simps\<close> and \<open>go_intros\<close> gather the rewrite and introduction rules that
  the component theories use.
\<close>

named_theorems go_simps
named_theorems go_intros

section \<open>Strings\<close>

text \<open>\<open>strings.Split(s, sep)\<close> for a separator of one byte: a non-empty list, \<open>[s]\<close> when the
  separator does not occur.\<close>

fun split_on :: "'a \<Rightarrow> 'a list \<Rightarrow> 'a list list" where
  "split_on c [] = [[]]"
| "split_on c (x # xs) =
     (if x = c then [] # split_on c xs
      else (case split_on c xs of [] \<Rightarrow> [[x]] | p # ps \<Rightarrow> (x # p) # ps))"

lemma split_on_nonempty [simp]: "split_on c xs \<noteq> []"
  by (induction xs) (auto split: list.splits)

lemma length_split_on: "length (split_on c xs) = Suc (count_list xs c)"
  by (induction xs) (auto split: list.splits)

lemma split_on_absent [simp]: "c \<notin> set xs \<Longrightarrow> split_on c xs = [xs]"
  by (induction xs) auto

lemma split_on_append [simp]:
  "split_on c (xs @ c # ys) =
     butlast (split_on c xs) @ last (split_on c xs) # split_on c ys"
proof (induction xs)
  case (Cons x xs)
  then show ?case by (cases "split_on c xs") auto
qed simp

lemma split_on_first: "c \<notin> set xs \<Longrightarrow> split_on c (xs @ c # ys) = xs # split_on c ys"
  by simp

lemma split_on_pieces: "p \<in> set (split_on c xs) \<Longrightarrow> c \<notin> set p"
proof (induction xs arbitrary: p)
  case (Cons x xs)
  then show ?case
    by (cases "split_on c xs") (auto split: if_splits)
qed simp

lemma count_list_0_iff: "count_list xs c = 0 \<longleftrightarrow> c \<notin> set xs"
  by (induction xs) auto

section \<open>Decimal formatting\<close>

text \<open>\<open>fmt.Sprintf("%d", n)\<close> on naturals and integers; a \<open>uint32\<close> is read with
  \<open>unat\<close>, an \<open>int32\<close> with \<open>sint\<close>.\<close>

definition digit_char :: "nat \<Rightarrow> char" where
  "digit_char d = char_of (48 + d)"

fun nat_str :: "nat \<Rightarrow> string" where
  "nat_str n = (if n < 10 then [digit_char n] else nat_str (n div 10) @ [digit_char (n mod 10)])"

declare nat_str.simps [simp del]

definition int_str :: "int \<Rightarrow> string" where
  "int_str i = (if i < 0 then CHR ''-'' # nat_str (nat (- i)) else nat_str (nat i))"

definition uint32_str :: "32 word \<Rightarrow> string" where
  "uint32_str w = nat_str (unat w)"

definition int32_str :: "32 word \<Rightarrow> string" where
  "int32_str w = int_str (sint w)"

text \<open>Reading the digits back is a left inverse, so formatting is injective.\<close>

definition digits_val :: "string \<Rightarrow> nat" where
  "digits_val s = foldl (\<lambda>acc c. 10 * acc + (of_char c - 48)) 0 s"

lemma of_char_digit [simp]: "d < 10 \<Longrightarrow> (of_char (digit_char d) :: nat) = 48 + d"
  by (simp add: digit_char_def of_char_of)

lemma digits_val_nat_str [simp]: "digits_val (nat_str n) = n"
proof (induction n rule: nat_str.induct)
  case (1 n)
  show ?case
  proof (cases "n < 10")
    case True
    then show ?thesis by (simp add: nat_str.simps [of n] digits_val_def)
  next
    case False
    with 1 have "foldl (\<lambda>acc c. 10 * acc + (of_char c - 48)) 0 (nat_str (n div 10)) = n div 10"
      by (simp add: digits_val_def)
    with False show ?thesis by (simp add: nat_str.simps [of n] digits_val_def)
  qed
qed

lemma nat_str_inject [simp]: "nat_str m = nat_str n \<longleftrightarrow> m = n"
  by (metis digits_val_nat_str)

lemma nat_str_digits: "c \<in> set (nat_str n) \<Longrightarrow> 48 \<le> (of_char c :: nat) \<and> (of_char c :: nat) < 58"
proof (induction n rule: nat_str.induct)
  case (1 n)
  then show ?case
    by (cases "n < 10") (auto simp: nat_str.simps [of n])
qed

lemma nat_str_no_minus [simp]: "CHR ''-'' \<notin> set (nat_str n)"
  using nat_str_digits [of "CHR ''-''" n] by auto

lemma nat_str_nonempty [simp]: "nat_str n \<noteq> []"
  by (simp add: nat_str.simps [of n])

lemma int_str_inject [simp]: "int_str i = int_str j \<longleftrightarrow> i = j"
proof -
  have minus: "CHR ''-'' # s \<noteq> nat_str k" for s k
    using nat_str_no_minus [of k] by (metis list.set_intros(1))
  show ?thesis
    by (auto simp: int_str_def minus minus [symmetric] eq_commute [of "nat_str _" "CHR ''-'' # _"])
qed

lemma uint32_str_inject [simp]: "uint32_str v = uint32_str w \<longleftrightarrow> v = w"
  by (simp add: uint32_str_def word_unat_eq_iff)

lemma int32_str_inject [simp]: "int32_str v = int32_str w \<longleftrightarrow> v = w"
  by (auto simp: int32_str_def intro: signed_word_eqI)

lemma uint32_str_no_minus [simp]: "CHR ''-'' \<notin> set (uint32_str w)"
  by (simp add: uint32_str_def)

text \<open>A separator that occurs in neither prefix cuts a concatenation in one way only.\<close>

lemma append_sep_inject:
  assumes "c \<notin> set xs" and "c \<notin> set ys"
  shows "xs @ c # us = ys @ c # vs \<longleftrightarrow> xs = ys \<and> us = vs"
proof
  assume eq: "xs @ c # us = ys @ c # vs"
  then have "takeWhile (\<lambda>x. x \<noteq> c) (xs @ c # us) = takeWhile (\<lambda>x. x \<noteq> c) (ys @ c # vs)"
    by simp
  moreover have "takeWhile (\<lambda>x. x \<noteq> c) (xs @ c # us) = xs"
    using assms(1) by (induction xs) auto
  moreover have "takeWhile (\<lambda>x. x \<noteq> c) (ys @ c # vs) = ys"
    using assms(2) by (induction ys) auto
  ultimately show "xs = ys \<and> us = vs" using eq by simp
qed simp

section \<open>Maps as association lists\<close>

type_synonym gomap = "(string \<times> string) list"

text \<open>A Go map holds each key once.\<close>

definition go_map :: "('k \<times> 'v) list \<Rightarrow> bool" where
  "go_map m \<longleftrightarrow> distinct (map fst m)"

lemma go_map_Nil [simp]: "go_map []"
  by (simp add: go_map_def)

lemma go_map_Cons [simp]: "go_map ((k, v) # m) \<longleftrightarrow> k \<notin> fst ` set m \<and> go_map m"
  by (simp add: go_map_def)

lemma go_map_update [simp, go_intros]: "go_map m \<Longrightarrow> go_map (AList.update k v m)"
  by (simp add: go_map_def distinct_update)

lemma go_map_delete [simp, go_intros]: "go_map m \<Longrightarrow> go_map (AList.delete k m)"
  by (simp add: go_map_def distinct_delete)

lemma go_map_same: "go_map m \<Longrightarrow> go_map m' \<Longrightarrow> map_of m = map_of m' \<longleftrightarrow> set m = set m'"
  by (simp add: go_map_def map_of_inject_set)

lemma map_of_update [simp]: "map_of (AList.update k v m) = (map_of m)(k \<mapsto> v)"
  by (simp add: update_conv')

lemma map_of_delete [simp]: "map_of (AList.delete k m) = (map_of m)(k := None)"
  by (simp add: delete_conv')

lemma update_new: "k \<notin> fst ` set m \<Longrightarrow> AList.update k v m = m @ [(k, v)]"
  by (induction m) auto

lemma update_setD: "x \<in> set (AList.update k v m) \<Longrightarrow> x = (k, v) \<or> x \<in> set m"
  by (induction m) (auto split: if_splits)

text \<open>Writing every entry of \<open>m\<close> into \<open>base\<close> in iteration order: the loop
  \<open>for k, v := range m { base[k] = v }\<close>.\<close>

definition range_store :: "('k \<times> 'v) list \<Rightarrow> ('k \<times> 'v) list \<Rightarrow> ('k \<times> 'v) list" where
  "range_store base m = fold (\<lambda>(k, v) acc. AList.update k v acc) m base"

lemma range_store_Nil [simp]: "range_store base [] = base"
  by (simp add: range_store_def)

lemma range_store_Cons [simp]:
  "range_store base ((k, v) # m) = range_store (AList.update k v base) m"
  by (simp add: range_store_def)

lemma go_map_range_store [simp, go_intros]: "go_map base \<Longrightarrow> go_map (range_store base m)"
  by (induction m arbitrary: base) (auto split: prod.splits)

lemma map_of_range_store: "go_map m \<Longrightarrow> map_of (range_store base m) = map_of base ++ map_of m"
proof (induction m arbitrary: base)
  case (Cons kv m)
  obtain k v where kv: "kv = (k, v)" by force
  with Cons.prems have "map_of m k = None"
    by (auto simp: map_of_eq_None_iff)
  with Cons kv show ?case
    by (auto simp: map_add_def fun_eq_iff split: option.splits)
qed simp

section \<open>Lists\<close>

text \<open>The last element of a list that satisfies a condition: what repeated assignment in a loop
  leaves behind.\<close>

definition find_last :: "('a \<Rightarrow> bool) \<Rightarrow> 'a list \<Rightarrow> 'a option" where
  "find_last P xs = List.find P (rev xs)"

lemma find_append: "List.find P (xs @ ys) = (case List.find P xs of None \<Rightarrow> List.find P ys | r \<Rightarrow> r)"
  by (induction xs) auto

lemma find_last_Nil [simp]: "find_last P [] = None"
  by (simp add: find_last_def)

lemma find_last_Cons [simp]:
  "find_last P (x # xs) =
     (case find_last P xs of None \<Rightarrow> (if P x then Some x else None) | r \<Rightarrow> r)"
  by (simp add: find_last_def find_append split: option.splits)

lemma find_last_None_iff: "find_last P xs = None \<longleftrightarrow> (\<forall>x \<in> set xs. \<not> P x)"
  by (auto simp: find_last_def find_None_iff)

lemma find_last_SomeD: "find_last P xs = Some x \<Longrightarrow> P x \<and> x \<in> set xs"
  by (metis find_last_def find_Some_iff nth_mem set_rev)

lemma map_of_rev_find_last:
  "map_of (rev (map (\<lambda>x. (f x, x)) xs)) k = find_last (\<lambda>x. f x = k) xs"
  by (induction xs) (auto simp: map_add_def split: option.splits)

lemma distinct_map_inj: "distinct xs \<Longrightarrow> inj_on f (set xs) \<Longrightarrow> distinct (map f xs)"
  by (simp add: distinct_map)

section \<open>Fallible calls\<close>

definition is_ok :: "'e + 'a \<Rightarrow> bool" where
  "is_ok r = (case r of Inl _ \<Rightarrow> False | Inr _ \<Rightarrow> True)"

lemma is_ok_simps [simp]: "is_ok (Inr x)" "\<not> is_ok (Inl e)"
  by (simp_all add: is_ok_def)

lemma is_ok_iff: "is_ok r \<longleftrightarrow> (\<exists>x. r = Inr x)"
  by (cases r) auto

text \<open>A call that may also panic.\<close>

datatype ('e, 'a) outcome = Panics | Fails 'e | Returns 'a

fun outcome_of :: "'a option \<Rightarrow> ('e, 'a) outcome" where
  "outcome_of None = Panics"
| "outcome_of (Some x) = Returns x"

lemma outcome_of_iff [simp]:
  "outcome_of r = Returns x \<longleftrightarrow> r = Some x" "outcome_of r = Panics \<longleftrightarrow> r = None"
  "outcome_of r \<noteq> Fails e"
  by (cases r; simp)+

lemmas result_splits = sum.splits option.splits if_splits prod.splits

end
