(* ===== verification/EnvoyBootstrap.thy ===== *)
theory EnvoyBootstrap
  imports Prelude
begin

text \<open>
  The side-car's entry point (\<open>cmd/envoy-bootstrap/envoy-bootstrap.go\<close>): it parses its flags, builds
  the bootstrap configuration from them and the pod's environment, renders the template
  \<open>envoy-bootstrap-template.yaml\<close> and runs Envoy. \<open>flag.Parse\<close> and the escaping of
  \<open>html/template\<close> are Go's standard library; the files and the child process are arguments.
\<close>

section \<open>Flags\<close>

record bootstrap_flags =
  envoyBinary :: string
  bootstrapTemplate :: string
  bootstrapConfig :: string
  logLevel :: string
  discoveryAddress :: string
  discoveryPort :: string
  serviceCluster :: string
  base64Encoded :: bool

definition init_flags :: bootstrap_flags where
  "init_flags = \<lparr>envoyBinary = [], bootstrapTemplate = [], bootstrapConfig = [], logLevel = ''info'',
     discoveryAddress = [], discoveryPort = [], serviceCluster = [], base64Encoded = False\<rparr>"

text \<open>Setting a registered string flag; \<open>None\<close> for a name that is not registered.\<close>

definition set_string_flag :: "string \<Rightarrow> string \<Rightarrow> bootstrap_flags \<Rightarrow> bootstrap_flags option" where
  "set_string_flag name value f =
     (if name = ''envoyBinary'' then Some (f\<lparr>envoyBinary := value\<rparr>)
      else if name = ''logLevel'' then Some (f\<lparr>logLevel := value\<rparr>)
      else if name = ''bootstrapTemplate'' then Some (f\<lparr>bootstrapTemplate := value\<rparr>)
      else if name = ''bootstrapConfig'' then Some (f\<lparr>bootstrapConfig := value\<rparr>)
      else if name = ''discoveryAddress'' then Some (f\<lparr>discoveryAddress := value\<rparr>)
      else if name = ''discoveryPort'' then Some (f\<lparr>discoveryPort := value\<rparr>)
      else if name = ''serviceCluster'' then Some (f\<lparr>serviceCluster := value\<rparr>)
      else None)"

definition ParseBool :: "string \<Rightarrow> bool option" where
  "ParseBool s =
     (if s \<in> {''1'', ''t'', ''T'', ''TRUE'', ''true'', ''True''} then Some True
      else if s \<in> {''0'', ''f'', ''F'', ''FALSE'', ''false'', ''False''} then Some False
      else None)"

text \<open>The name and, after an equals sign, the value of a flag argument without its dashes.\<close>

fun split_flag :: "string \<Rightarrow> string \<times> string option" where
  "split_flag [] = ([], None)"
| "split_flag (c # cs) =
     (if c = CHR ''='' then ([], Some cs) else (let (n, v) = split_flag cs in (c # n, v)))"

text \<open>
  \<open>flag.Parse\<close>: arguments are consumed up to the first that is no flag, or a lone double dash; an
  error makes the program exit with status 2.
\<close>

fun flag_Parse :: "string list \<Rightarrow> bootstrap_flags \<Rightarrow> string + bootstrap_flags" where
  "flag_Parse [] f = Inr f"
| "flag_Parse (s # args) f =
     (if length s < 2 \<or> s ! 0 \<noteq> CHR ''-'' then Inr f
      else if s = ''--'' then Inr f
      else
        (let name0 = (if s ! 1 = CHR ''-'' then drop 2 s else drop 1 s)
         in if name0 ! 0 = CHR ''-'' \<or> name0 ! 0 = CHR ''='' then Inl ''bad flag syntax''
            else
              (case split_flag name0 of
                 (name, hasValue) \<Rightarrow>
                   if name = ''base64'' then
                     (case hasValue of
                        None \<Rightarrow> flag_Parse args (f\<lparr>base64Encoded := True\<rparr>)
                      | Some v \<Rightarrow>
                          (case ParseBool v of
                             None \<Rightarrow> Inl ''invalid boolean value''
                           | Some b \<Rightarrow> flag_Parse args (f\<lparr>base64Encoded := b\<rparr>)))
                   else if set_string_flag name [] f = None then Inl ''flag provided but not defined''
                   else
                     (case hasValue of
                        Some v \<Rightarrow> flag_Parse args (the (set_string_flag name v f))
                      | None \<Rightarrow>
                          (case args of
                             [] \<Rightarrow> Inl ''flag needs an argument''
                           | v # args' \<Rightarrow> flag_Parse args' (the (set_string_flag name v f)))))))"

section \<open>The bootstrap configuration\<close>

record XdsConfig =
  DiscoveryType :: string
  ConnectionTimeout :: string
  Address :: string
  Port :: string

record BootstrapConfig =
  NodeId :: string
  ServiceCluster :: string
  Xds :: XdsConfig

definition buildNodeId :: "(string \<Rightarrow> string) \<Rightarrow> string" where
  "buildNodeId Getenv = Getenv ''POD_IP'' @ ''@'' @ Getenv ''POD_NAME''"

definition buildArgs :: "string \<Rightarrow> string \<Rightarrow> string list" where
  "buildArgs configPath level = [''--v2-config-only'', ''-l'', level, ''-c'', configPath]"

definition build_config :: "(string \<Rightarrow> string) \<Rightarrow> bootstrap_flags \<Rightarrow> BootstrapConfig" where
  "build_config Getenv f =
     \<lparr>NodeId = buildNodeId Getenv, ServiceCluster = serviceCluster f,
      Xds = \<lparr>DiscoveryType = ''STATIC'', ConnectionTimeout = ''5s'',
        Address = discoveryAddress f, Port = discoveryPort f\<rparr>\<rparr>"

text \<open>A template is text, fields of the configuration, which are escaped for HTML text, and actions that
  cannot be evaluated on it, such as a field that it does not have.\<close>

datatype template_node = Text string | Field "BootstrapConfig \<Rightarrow> string" | Broken

definition escape_char :: "char \<Rightarrow> string" where
  "escape_char c =
     (if c = CHR 0x22 then ''&#34;''
      else if c = CHR ''&'' then ''&amp;''
      else if c = CHR 0x27 then ''&#39;''
      else if c = CHR ''+'' then ''&#43;''
      else if c = CHR ''<'' then ''&lt;''
      else if c = CHR ''>'' then ''&gt;''
      else if c = CHR 0x00 then [CHR 0xEF, CHR 0xBF, CHR 0xBD]
      else [c])"

definition html_escape :: "string \<Rightarrow> string" where
  "html_escape s = concat (map escape_char s)"

text \<open>The text of a template, up to an action that cannot be evaluated.\<close>

fun render :: "BootstrapConfig \<Rightarrow> template_node list \<Rightarrow> string" where
  "render cfg [] = []"
| "render cfg (Text t # ns) = t @ render cfg ns"
| "render cfg (Field f # ns) = html_escape (f cfg) @ render cfg ns"
| "render cfg (Broken # ns) = []"

text \<open>
  \<open>t.Execute\<close>: the nodes are written to the file one after the other, and the first error ends it. A
  file takes any text (\<open>None\<close>) or a number of characters, of which a write takes what it can; a write
  that leaves something out is an error. The result is the text in the file and the error.
\<close>

datatype execute_error = EscapeError | ExecError | WriteError

definition write_text :: "nat option \<Rightarrow> string \<Rightarrow> string \<times> nat option \<times> bool" where
  "write_text room s =
     (case room of
        None \<Rightarrow> (s, None, True)
      | Some n \<Rightarrow> (take n s, Some (n - length s), length s \<le> n))"

fun exec_nodes :: "BootstrapConfig \<Rightarrow> nat option \<Rightarrow> template_node list \<Rightarrow> string \<times> execute_error option" where
  "exec_nodes cfg room [] = ([], None)"
| "exec_nodes cfg room (Broken # ns) = ([], Some ExecError)"
| "exec_nodes cfg room (Text t # ns) =
     (case write_text room t of
        (out, room', ok) \<Rightarrow>
          if \<not> ok then (out, Some WriteError)
          else (case exec_nodes cfg room' ns of (out', err) \<Rightarrow> (out @ out', err)))"
| "exec_nodes cfg room (Field f # ns) =
     (case write_text room (html_escape (f cfg)) of
        (out, room', ok) \<Rightarrow>
          if \<not> ok then (out, Some WriteError)
          else (case exec_nodes cfg room' ns of (out', err) \<Rightarrow> (out @ out', err)))"

section \<open>The program\<close>

text \<open>
  What the operating system and the template package answer: the parsed template, whether
  \<open>html/template\<close> can escape it, whether the output file can be created and how much it takes, whether
  Envoy starts, and whether it ends well on the text that it finds in the file.
\<close>

record os_answers =
  os_Template :: "string \<Rightarrow> template_node list option"
  os_Escapes :: "template_node list \<Rightarrow> bool"
  os_Create :: "string \<Rightarrow> bool"
  os_Room :: "string \<Rightarrow> nat option"
  os_Start :: "string \<Rightarrow> string list \<Rightarrow> bool"
  os_Wait :: "string \<Rightarrow> bool"

definition Execute :: "os_answers \<Rightarrow> string \<Rightarrow> template_node list \<Rightarrow> BootstrapConfig \<Rightarrow> string \<times> execute_error option" where
  "Execute os path t cfg =
     (if os_Escapes os t then exec_nodes cfg (os_Room os path) t else ([], Some EscapeError))"

datatype main_end =
    Exited nat
  | TemplatePanic
  | Returned

text \<open>What the program does to its surroundings, in order.\<close>

datatype main_effect =
    CreateFile string
  | WriteFile string string
  | StartEnvoy string "string list"

definition bootstrap_main ::
  "(string \<Rightarrow> string) \<Rightarrow> os_answers \<Rightarrow> string list \<Rightarrow> main_end \<times> main_effect list" where
  "bootstrap_main Getenv os args =
     (case flag_Parse args init_flags of
        Inl err \<Rightarrow> (Exited 2, [])
      | Inr f \<Rightarrow>
          (let cfg = build_config Getenv f
           in case os_Template os (bootstrapTemplate f) of
                None \<Rightarrow> (TemplatePanic, [])
              | Some t \<Rightarrow>
                  if \<not> os_Create os (bootstrapConfig f) then (Exited 1, [])
                  else
                    (case Execute os (bootstrapConfig f) t cfg of
                       (text, ignored) \<Rightarrow>
                         let effects = [CreateFile (bootstrapConfig f), WriteFile (bootstrapConfig f) text];
                             cmd = buildArgs (bootstrapConfig f) (logLevel f)
                         in if \<not> os_Start os (envoyBinary f) cmd then (Exited 1, effects)
                            else (if os_Wait os text then Returned else Exited 1,
                                  effects @ [StartEnvoy (envoyBinary f) cmd]))))"

section \<open>Facts\<close>

definition html_plain :: "string \<Rightarrow> bool" where
  "html_plain s \<longleftrightarrow> list_all (\<lambda>c. escape_char c = [c]) s"

lemma html_escape_plain [simp]: "html_plain s \<Longrightarrow> html_escape s = s"
  unfolding html_escape_def html_plain_def by (induction s) auto

lemma escape_char_length: "length (escape_char c) = 1 \<longleftrightarrow> escape_char c = [c]"
  by (auto simp: escape_char_def)

lemma escape_char_nonempty: "length (escape_char c) \<ge> 1"
  by (simp add: escape_char_def)

lemma html_escape_identity: "html_escape s = s \<longleftrightarrow> html_plain s"
proof
  have len: "length (html_escape s) \<ge> length s" for s
    unfolding html_escape_def
  proof (induction s)
    case (Cons c s)
    with escape_char_nonempty [of c] show ?case by simp
  qed simp
  show "html_plain s" if "html_escape s = s"
    using that
  proof (induction s)
    case (Cons c s)
    have split: "html_escape (c # s) = escape_char c @ html_escape s" by (simp add: html_escape_def)
    have "length (escape_char c) + length (html_escape s) = Suc (length s)"
      using arg_cong [OF Cons.prems, of length] by (simp add: split)
    then have "length (escape_char c) = 1"
      using len [of s] escape_char_nonempty [of c] by linarith
    then have one: "escape_char c = [c]" using escape_char_length [of c] by simp
    with Cons.prems split have "html_escape s = s" by simp
    with Cons.IH one show ?case by (simp add: html_plain_def)
  qed (simp add: html_plain_def)
qed simp

lemma set_string_flag_None: "set_string_flag name w f = None \<longleftrightarrow> set_string_flag name v f = None"
  by (simp add: set_string_flag_def del: list.inject)

text \<open>A registered string flag written as two arguments takes the second as its value, whatever it is.\<close>

lemma split_flag_plain: "CHR ''='' \<notin> set s \<Longrightarrow> split_flag s = (s, None)"
  by (induction s) auto

lemma flag_Parse_pair:
  assumes "set_string_flag name v f = Some f'" "CHR ''='' \<notin> set name" "name \<noteq> []" "hd name \<noteq> CHR ''-''"
    "name \<noteq> ''base64''"
  shows "flag_Parse ((''--'' @ name) # v # args) f = flag_Parse args f'"
proof -
  have f0: "set_string_flag name [] f \<noteq> None"
    using assms(1) set_string_flag_None [of name "[]" f v] by simp
  have "name ! 0 \<noteq> CHR ''=''" using assms(2,3) by (cases name) auto
  moreover have "name ! 0 \<noteq> CHR ''-''" using assms(3,4) by (simp add: hd_conv_nth)
  ultimately show ?thesis
    by (subst flag_Parse.simps(2))
      (simp del: flag_Parse.simps add: split_flag_plain [OF assms(2)] assms(1,3,5) f0)
qed

lemma flag_Parse_known:
  "flag_Parse (''--envoyBinary'' # v # args) f = flag_Parse args (f\<lparr>envoyBinary := v\<rparr>)"
  "flag_Parse (''--logLevel'' # v # args) f = flag_Parse args (f\<lparr>logLevel := v\<rparr>)"
  "flag_Parse (''--bootstrapTemplate'' # v # args) f = flag_Parse args (f\<lparr>bootstrapTemplate := v\<rparr>)"
  "flag_Parse (''--bootstrapConfig'' # v # args) f = flag_Parse args (f\<lparr>bootstrapConfig := v\<rparr>)"
  "flag_Parse (''--discoveryAddress'' # v # args) f = flag_Parse args (f\<lparr>discoveryAddress := v\<rparr>)"
  "flag_Parse (''--discoveryPort'' # v # args) f = flag_Parse args (f\<lparr>discoveryPort := v\<rparr>)"
  "flag_Parse (''--serviceCluster'' # v # args) f = flag_Parse args (f\<lparr>serviceCluster := v\<rparr>)"
  using flag_Parse_pair [of "''envoyBinary''" v f "f\<lparr>envoyBinary := v\<rparr>" args]
      flag_Parse_pair [of "''logLevel''" v f "f\<lparr>logLevel := v\<rparr>" args]
      flag_Parse_pair [of "''bootstrapTemplate''" v f "f\<lparr>bootstrapTemplate := v\<rparr>" args]
      flag_Parse_pair [of "''bootstrapConfig''" v f "f\<lparr>bootstrapConfig := v\<rparr>" args]
      flag_Parse_pair [of "''discoveryAddress''" v f "f\<lparr>discoveryAddress := v\<rparr>" args]
      flag_Parse_pair [of "''discoveryPort''" v f "f\<lparr>discoveryPort := v\<rparr>" args]
      flag_Parse_pair [of "''serviceCluster''" v f "f\<lparr>serviceCluster := v\<rparr>" args]
  by (simp_all add: set_string_flag_def del: flag_Parse.simps)

definition envoy_template :: "template_node list" where
  "envoy_template =
     [Text ''node:
  id: '', Field NodeId, Text ''
  cluster: '', Field ServiceCluster, Text ''
admin:
  access_log_path: /dev/stdout
  address:
    socket_address:
      protocol: TCP
      address: 127.0.0.1
      port_value: 15000
static_resources:
  clusters:
  - name: xds_cluster
    connect_timeout: '', Field (ConnectionTimeout \<circ> Xds), Text ''
    type: '', Field (DiscoveryType \<circ> Xds), Text ''
    http2_protocol_options: {}
    hosts:
    - socket_address:
        address: '', Field (Address \<circ> Xds), Text ''
        port_value: '', Field (Port \<circ> Xds), Text ''
dynamic_resources:
  ads_config:
    api_type: GRPC
    grpc_services:
      envoy_grpc:
        cluster_name: xds_cluster
  lds_config: {ads: {}}
  cds_config: {ads: {}}
'']"

definition config_plain :: "BootstrapConfig \<Rightarrow> bool" where
  "config_plain cfg \<longleftrightarrow> html_plain (NodeId cfg) \<and> html_plain (ServiceCluster cfg) \<and>
     html_plain (ConnectionTimeout (Xds cfg)) \<and> html_plain (DiscoveryType (Xds cfg)) \<and>
     html_plain (Address (Xds cfg)) \<and> html_plain (Port (Xds cfg))"

text \<open>The rendered text with the fields as they are.\<close>

fun render_raw :: "BootstrapConfig \<Rightarrow> template_node list \<Rightarrow> string" where
  "render_raw cfg [] = []"
| "render_raw cfg (Text t # ns) = t @ render_raw cfg ns"
| "render_raw cfg (Field f # ns) = f cfg @ render_raw cfg ns"
| "render_raw cfg (Broken # ns) = []"

text \<open>What \<open>Execute\<close> leaves in the file: as much of the rendering as the file takes. It reports no error
  exactly when the template can be escaped and evaluated and the file takes all of it.\<close>

definition fits :: "nat option \<Rightarrow> string \<Rightarrow> bool" where
  "fits room s \<longleftrightarrow> (case room of None \<Rightarrow> True | Some n \<Rightarrow> length s \<le> n)"

definition cut :: "nat option \<Rightarrow> string \<Rightarrow> string" where
  "cut room s = (case room of None \<Rightarrow> s | Some n \<Rightarrow> take n s)"

lemma exec_nodes_text: "fst (exec_nodes cfg room ns) = cut room (render cfg ns)"
proof (induction ns arbitrary: room)
  case (Cons x ns)
  then show ?case by (cases x; cases room) (auto simp: write_text_def cut_def case_prod_beta)
qed (simp add: cut_def split: option.split)

lemma exec_nodes_error:
  "snd (exec_nodes cfg room ns) = None \<longleftrightarrow> Broken \<notin> set ns \<and> fits room (render cfg ns)"
proof (induction ns arbitrary: room)
  case (Cons x ns)
  then show ?case by (cases x; cases room) (auto simp: write_text_def fits_def case_prod_beta)
qed (simp add: fits_def split: option.split)

lemma exec_nodes_WriteError: "snd (exec_nodes cfg room ns) = Some WriteError \<Longrightarrow> \<not> fits room (render cfg ns)"
proof (induction ns arbitrary: room)
  case (Cons x ns)
  then show ?case
    by (cases x; cases room) (force simp: write_text_def fits_def case_prod_beta split: if_splits)+
qed simp

lemma Execute_text:
  "fst (Execute os path t cfg) = (if os_Escapes os t then cut (os_Room os path) (render cfg t) else [])"
  "snd (Execute os path t cfg) = None \<longleftrightarrow>
     os_Escapes os t \<and> Broken \<notin> set t \<and> fits (os_Room os path) (render cfg t)"
  by (simp_all add: Execute_def exec_nodes_text exec_nodes_error)

lemma cut_prefix: "\<exists>rest. s = cut room s @ rest" "cut room s = s \<longleftrightarrow> fits room s"
  by (auto simp: cut_def fits_def split: option.split intro: exI [of _ "drop n s" for n] sym [OF append_take_drop_id])

lemma Execute_prefix:
  "\<exists>text rest error. Execute os p t cfg = (text, error) \<and> render cfg t = text @ rest \<and>
     (error = None \<longleftrightarrow> os_Escapes os t \<and> Broken \<notin> set t \<and> fits (os_Room os p) (text @ rest)) \<and>
     (error = None \<longrightarrow> rest = []) \<and> (error = Some WriteError \<longrightarrow> rest \<noteq> [])"
proof -
  let ?r = "render cfg t" and ?room = "os_Room os p" and ?e = "snd (Execute os p t cfg)"
  show ?thesis
  proof (cases "os_Escapes os t")
    case True
    with cut_prefix(1) [of ?r ?room] obtain rest where rest: "?r = fst (Execute os p t cfg) @ rest"
      by (auto simp: Execute_text)
    have "?e = None \<longrightarrow> rest = []" "?e = Some WriteError \<longrightarrow> rest \<noteq> []"
      using rest True cut_prefix(2) [of ?room ?r] exec_nodes_WriteError [of cfg ?room t]
      by (auto simp: Execute_text) (auto simp: Execute_def)
    then show ?thesis using rest Execute_text(2) [of os p t cfg]
      by (intro exI [of _ "fst (Execute os p t cfg)"] exI [of _ rest] exI [of _ ?e]) auto
  qed (auto simp: Execute_def)
qed

section \<open>Properties\<close>

text \<open>C27: the program's exit and what it does on the way. It exits with status 2 exactly on a flag error
  and panics exactly when the template cannot be parsed, both before it touches anything. Otherwise it
  creates the file, writes to it and starts Envoy, in this order and with this file; it exits with
  status 1 when the creation or the start fails or Envoy ends badly, and returns when all went well. The
  error of the rendering is ignored: the file gets a beginning of the template's text (up to an action
  that cannot be evaluated). There is no error exactly when the template can be escaped and evaluated and
  the file takes all of its text, and then the text is complete; after a failed write it is not. Envoy is
  started on the file whether there was an error or not.\<close>

theorem bootstrap_main_outcome:
  "case bootstrap_main Getenv os args of (r, effects) \<Rightarrow>
     (case flag_Parse args init_flags of
        Inl e \<Rightarrow> r = Exited 2 \<and> effects = []
      | Inr f \<Rightarrow>
          (case os_Template os (bootstrapTemplate f) of
             None \<Rightarrow> r = TemplatePanic \<and> effects = []
           | Some t \<Rightarrow>
               \<exists>text rest error. Execute os (bootstrapConfig f) t (build_config Getenv f) = (text, error) \<and>
                 render (build_config Getenv f) t = text @ rest \<and>
                 (error = None \<longleftrightarrow> os_Escapes os t \<and> Broken \<notin> set t \<and> fits (os_Room os (bootstrapConfig f)) (text @ rest)) \<and>
                 (error = None \<longrightarrow> rest = []) \<and> (error = Some WriteError \<longrightarrow> rest \<noteq> []) \<and>
                 (let created = os_Create os (bootstrapConfig f);
                      started = (created \<and> os_Start os (envoyBinary f)
                        [''--v2-config-only'', ''-l'', logLevel f, ''-c'', bootstrapConfig f])
                  in r = (if started \<and> os_Wait os text then Returned else Exited 1) \<and>
                     effects = (if created then [CreateFile (bootstrapConfig f), WriteFile (bootstrapConfig f) text] else []) @
                       (if started then [StartEnvoy (envoyBinary f)
                          [''--v2-config-only'', ''-l'', logLevel f, ''-c'', bootstrapConfig f]] else []))))"
proof (cases "flag_Parse args init_flags")
  case (Inr f)
  show ?thesis
  proof (cases "os_Template os (bootstrapTemplate f)")
    case (Some t)
    obtain out error where e: "Execute os (bootstrapConfig f) t (build_config Getenv f) = (out, error)" by fastforce
    with Execute_prefix [of os "bootstrapConfig f" t "build_config Getenv f"] show ?thesis
      by (simp add: bootstrap_main_def Let_def buildArgs_def Inr Some)
  qed (simp add: bootstrap_main_def Inr)
qed (simp add: bootstrap_main_def)

definition ok_answers :: os_answers where
  "ok_answers = \<lparr>os_Template = (\<lambda>_. Some envoy_template), os_Escapes = (\<lambda>_. True), os_Create = (\<lambda>_. True),
     os_Room = (\<lambda>_. None), os_Start = (\<lambda>_ _. True), os_Wait = (\<lambda>_. True)\<rparr>"

text \<open>Envoy is started on a file that took only three characters.\<close>

definition full_disk :: os_answers where
  "full_disk = ok_answers\<lparr>os_Template := (\<lambda>_. Some [Text ''id: '', Field NodeId]), os_Room := (\<lambda>_. Some 3)\<rparr>"

theorem bootstrap_main_outcome_witness:
  "bootstrap_main (\<lambda>_. ''x'') full_disk [''--bootstrapConfig'', ''c''] =
     (Returned, [CreateFile ''c'', WriteFile ''c'' ''id:'',
        StartEnvoy [] [''--v2-config-only'', ''-l'', ''info'', ''-c'', ''c'']])"
proof -
  have f: "flag_Parse [''--bootstrapConfig'', ''c''] init_flags = Inr (init_flags\<lparr>bootstrapConfig := ''c''\<rparr>)"
    using flag_Parse_known(4) [of "''c''" "[]" init_flags] by simp
  have e: "Execute full_disk ''c'' [Text ''id: '', Field NodeId] cfg = (''id:'', Some WriteError)" for cfg
    by (simp add: Execute_def full_disk_def ok_answers_def write_text_def)
  have os: "os_Template full_disk p = Some [Text ''id: '', Field NodeId]" "os_Create full_disk p" "os_Start full_disk b as"
    "os_Wait full_disk s" for p b as s
    by (simp_all add: full_disk_def ok_answers_def)
  have fields: "bootstrapConfig (init_flags\<lparr>bootstrapConfig := ''c''\<rparr>) = ''c''" "envoyBinary (init_flags\<lparr>bootstrapConfig := ''c''\<rparr>) = []"
    "logLevel (init_flags\<lparr>bootstrapConfig := ''c''\<rparr>) = ''info''"
    by (simp_all add: init_flags_def)
  from bootstrap_main_outcome [where Getenv = "\<lambda>_. ''x''" and os = full_disk and args = "[''--bootstrapConfig'', ''c'']"]
  show ?thesis
    by (simp add: f e os fields case_prod_beta Let_def prod_eq_iff del: flag_Parse.simps)
qed

text \<open>What the template's fields become. The template is rendered with \<open>html/template\<close>: its output
  is the intended text when no value contains a character that HTML escapes, and a value with such
  a character is changed by the rendering.\<close>

theorem render_escapes:
  "(config_plain cfg \<longrightarrow> render cfg envoy_template = render_raw cfg envoy_template) \<and>
   (html_escape v = v \<longleftrightarrow> (\<forall>c \<in> set v. escape_char c = [c]))"
  by (simp add: envoy_template_def config_plain_def html_escape_identity html_plain_def list_all_iff)

definition plain_sample :: BootstrapConfig where
  "plain_sample = build_config (\<lambda>_. ''10.0.0.1'') (init_flags\<lparr>serviceCluster := ''cart''\<rparr>)"

theorem render_escapes_witness:
  "render plain_sample envoy_template = render_raw plain_sample envoy_template \<and> html_escape ''a+b'' \<noteq> ''a+b''"
proof -
  have "config_plain plain_sample"
    by (simp add: config_plain_def plain_sample_def build_config_def buildNodeId_def init_flags_def
        html_plain_def escape_char_def)
  moreover have "\<not> (\<forall>c \<in> set ''a+b''. escape_char c = [c])" by (simp add: escape_char_def)
  ultimately show ?thesis
    using render_escapes [of plain_sample "''a+b''"] by blast
qed

end
