(* ===== verification/KubeTypes.thy ===== *)
theory KubeTypes
  imports Prelude
begin

text \<open>
  The Kubernetes object types the program builds, reads or copies
  (\<open>vendor/k8s.io/api\<close>, \<open>vendor/k8s.io/apimachinery\<close>): the fields that the program's own code
  touches, with an opaque remainder where a value supplied by a user passes through unread.
  Group/version/kind names, API errors with their reasons, and controller owner references are
  translated from \<open>apimachinery\<close>. A nil pointer is \<open>None\<close>.
\<close>

section \<open>Group, version, kind and resource names\<close>

record GroupVersion =
  gv_Group :: string
  gv_Version :: string

record GroupVersionKind =
  gvk_Group :: string
  gvk_Version :: string
  gvk_Kind :: string

record GroupVersionResource =
  gvr_Group :: string
  gvr_Version :: string
  gvr_Resource :: string

record GroupKind =
  gk_Group :: string
  gk_Kind :: string

record GroupResource =
  gr_Group :: string
  gr_Resource :: string

definition gvk_GroupVersion :: "GroupVersionKind \<Rightarrow> GroupVersion" where
  "gvk_GroupVersion gvk = \<lparr>gv_Group = gvk_Group gvk, gv_Version = gvk_Version gvk\<rparr>"

definition gvk_GroupKind :: "GroupVersionKind \<Rightarrow> GroupKind" where
  "gvk_GroupKind gvk = \<lparr>gk_Group = gvk_Group gvk, gk_Kind = gvk_Kind gvk\<rparr>"

definition gvr_GroupResource :: "GroupVersionResource \<Rightarrow> GroupResource" where
  "gvr_GroupResource gvr = \<lparr>gr_Group = gvr_Group gvr, gr_Resource = gvr_Resource gvr\<rparr>"

definition WithKind :: "GroupVersion \<Rightarrow> string \<Rightarrow> GroupVersionKind" where
  "WithKind gv kind = \<lparr>gvk_Group = gv_Group gv, gvk_Version = gv_Version gv, gvk_Kind = kind\<rparr>"

definition WithResource :: "GroupVersion \<Rightarrow> string \<Rightarrow> GroupVersionResource" where
  "WithResource gv res =
     \<lparr>gvr_Group = gv_Group gv, gvr_Version = gv_Version gv, gvr_Resource = res\<rparr>"

definition GroupVersion_String :: "GroupVersion \<Rightarrow> string" where
  "GroupVersion_String gv =
     (if gv_Group gv = [] \<and> gv_Version gv = [] then []
      else if gv_Group gv = [] \<and> gv_Version gv = ''v1'' then gv_Version gv
      else if gv_Group gv \<noteq> [] then gv_Group gv @ ''/'' @ gv_Version gv
      else gv_Version gv)"

section \<open>API errors\<close>

text \<open>
  The errors that reach the program's own code: an API status with a reason (with the group,
  resource and name of its details), or any other error with its message.
\<close>

datatype StatusReason = ReasonUnknown | ReasonUnauthorized | ReasonForbidden | ReasonNotFound
  | ReasonAlreadyExists | ReasonConflict | ReasonGone | ReasonInvalid | ReasonServerTimeout
  | ReasonTimeout | ReasonTooManyRequests | ReasonBadRequest | ReasonMethodNotAllowed
  | ReasonNotAcceptable | ReasonUnsupportedMediaType | ReasonInternalError | ReasonExpired
  | ReasonServiceUnavailable

datatype api_error =
    StatusError StatusReason GroupResource string
  | OtherError string

fun ReasonForError :: "api_error \<Rightarrow> StatusReason" where
  "ReasonForError (StatusError r _ _) = r"
| "ReasonForError (OtherError _) = ReasonUnknown"

definition IsNotFound :: "api_error \<Rightarrow> bool" where
  "IsNotFound err \<longleftrightarrow> ReasonForError err = ReasonNotFound"

definition NewNotFound :: "GroupResource \<Rightarrow> string \<Rightarrow> api_error" where
  "NewNotFound gr name = StatusError ReasonNotFound gr name"

definition NewAlreadyExists :: "GroupResource \<Rightarrow> string \<Rightarrow> api_error" where
  "NewAlreadyExists gr name = StatusError ReasonAlreadyExists gr name"

lemma IsNotFound_simps [simp, go_simps]:
  "IsNotFound (NewNotFound gr name)"
  "\<not> IsNotFound (NewAlreadyExists gr name)"
  "\<not> IsNotFound (OtherError msg)"
  by (simp_all add: IsNotFound_def NewNotFound_def NewAlreadyExists_def)

section \<open>Object metadata and owner references\<close>

record OwnerReference =
  or_APIVersion :: string
  or_Kind :: string
  or_Name :: string
  or_UID :: string
  or_Controller :: "bool option"
  or_BlockOwnerDeletion :: "bool option"

record ObjectMeta =
  om_Name :: string
  om_Namespace :: string
  om_UID :: string
  om_ResourceVersion :: string
  om_Labels :: gomap
  om_Annotations :: gomap
  om_OwnerReferences :: "OwnerReference list"

definition zero_ObjectMeta :: ObjectMeta where
  "zero_ObjectMeta = \<lparr>om_Name = [], om_Namespace = [], om_UID = [], om_ResourceVersion = [],
     om_Labels = [], om_Annotations = [], om_OwnerReferences = []\<rparr>"

definition NewControllerRef :: "ObjectMeta \<Rightarrow> GroupVersionKind \<Rightarrow> OwnerReference" where
  "NewControllerRef owner gvk =
     \<lparr>or_APIVersion = GroupVersion_String (gvk_GroupVersion gvk), or_Kind = gvk_Kind gvk,
      or_Name = om_Name owner, or_UID = om_UID owner,
      or_Controller = Some True, or_BlockOwnerDeletion = Some True\<rparr>"

definition GetControllerOf :: "ObjectMeta \<Rightarrow> OwnerReference option" where
  "GetControllerOf controllee =
     List.find (\<lambda>ref. or_Controller ref = Some True) (om_OwnerReferences controllee)"

definition IsControlledBy :: "ObjectMeta \<Rightarrow> ObjectMeta \<Rightarrow> bool" where
  "IsControlledBy obj owner =
     (case GetControllerOf obj of None \<Rightarrow> False | Some ref \<Rightarrow> or_UID ref = om_UID owner)"

section \<open>Pods, containers, deployments and services\<close>

text \<open>The parts of a user's container or security context that are only copied.\<close>

typedecl kube_opaque

record ObjectFieldSelector =
  fs_APIVersion :: string
  fs_FieldPath :: string

record EnvVarSource =
  es_FieldRef :: "ObjectFieldSelector option"
  es_Rest :: "kube_opaque option"

record EnvVar =
  ev_Name :: string
  ev_Value :: string
  ev_ValueFrom :: "EnvVarSource option"

record ContainerPort =
  cp_Name :: string
  cp_HostPort :: "32 word"
  cp_ContainerPort :: "32 word"
  cp_Protocol :: string
  cp_HostIP :: string

record SecurityContext =
  sc_CapabilitiesAdd :: "string list"
  sc_Rest :: "kube_opaque option"

record Container =
  c_Name :: string
  c_Image :: string
  c_Args :: "string list"
  c_Env :: "EnvVar list"
  c_Ports :: "ContainerPort list"
  c_SecurityContext :: "SecurityContext option"
  c_Rest :: "kube_opaque option"

definition zero_Container :: Container where
  "zero_Container = \<lparr>c_Name = [], c_Image = [], c_Args = [], c_Env = [], c_Ports = [],
     c_SecurityContext = None, c_Rest = None\<rparr>"

record Pod =
  pod_Meta :: ObjectMeta

record LabelSelector =
  ls_MatchLabels :: gomap

record PodTemplateSpec =
  pt_Labels :: gomap
  pt_Annotations :: gomap
  pt_InitContainers :: "Container list"
  pt_Containers :: "Container list"

record Deployment =
  dep_Meta :: ObjectMeta
  dep_Replicas :: "32 word option"
  dep_Selector :: LabelSelector
  dep_Template :: PodTemplateSpec

datatype IntOrString = IntVal "32 word" | StrVal string

record ServicePort =
  sp_Name :: string
  sp_Protocol :: string
  sp_Port :: "32 word"
  sp_TargetPort :: IntOrString

record K8sService =
  svc_Meta :: ObjectMeta
  svc_Ports :: "ServicePort list"
  svc_Selector :: gomap

end
