(* ===== verification/MeshTypes.thy ===== *)
theory MeshTypes
  imports KubeTypes
begin

text \<open>
  The custom resources of the mesh (\<open>pkg/apis/mesh/v1alpha1\<close>): \<open>Configuration\<close> with its rules,
  filters and clusters, and \<open>Service\<close>. Field names carry a prefix for their struct.
  \<open>Http.Domains\<close> keeps the difference between a nil slice (\<open>None\<close>) and an empty one, because
  the JSON printer omits the former and prints the latter; every other slice is a list.
\<close>

definition GroupName :: string where
  "GroupName = ''mesh.lite.io''"

definition SchemeGroupVersion :: GroupVersion where
  "SchemeGroupVersion = \<lparr>gv_Group = GroupName, gv_Version = ''v1alpha1''\<rparr>"

definition Kind :: "string \<Rightarrow> GroupKind" where
  "Kind kind = gvk_GroupKind (WithKind SchemeGroupVersion kind)"

definition Resource :: "string \<Rightarrow> GroupResource" where
  "Resource resource = gvr_GroupResource (WithResource SchemeGroupVersion resource)"

section \<open>Configuration\<close>

record Http =
  http_Domains :: "string list option"
  http_Cluster :: string

record Tcp =
  tcp_Cluster :: string

record Filter =
  filter_Port :: "32 word"
  filter_Http :: "Http list"
  filter_Tcp :: Tcp

record Cluster =
  cluster_Name :: string
  cluster_Host :: string
  cluster_Port :: "32 word"

record Rule =
  rule_Match :: gomap
  rule_Filters :: "Filter list"
  rule_Clusters :: "Cluster list"

record ConfigurationSpec =
  cs_Rules :: "Rule list"

record Configuration =
  conf_Meta :: ObjectMeta
  conf_Spec :: ConfigurationSpec

section \<open>Service\<close>

record Envoy =
  envoy_LogLevel :: string
  envoy_DiscoveryAddress :: string
  envoy_DiscoveryPort :: string

record Gateway =
  gw_Ports :: "32 word list"

record ServiceSpec =
  ss_Replicas :: "32 word option"
  ss_Gateway :: "Gateway option"
  ss_Container :: Container
  ss_Envoy :: Envoy

record Service =
  service_Meta :: ObjectMeta
  service_Spec :: ServiceSpec

text \<open>\<open>ServiceSpec.Ports\<close>: the loop appends each container port in order.\<close>

fun append_ports :: "32 word list \<Rightarrow> ContainerPort list \<Rightarrow> 32 word list" where
  "append_ports ports [] = ports"
| "append_ports ports (v # vs) = append_ports (ports @ [cp_ContainerPort v]) vs"

definition Ports :: "ServiceSpec \<Rightarrow> 32 word list" where
  "Ports s = append_ports [] (c_Ports (ss_Container s))"

lemma append_ports_map: "append_ports ports vs = ports @ map cp_ContainerPort vs"
  by (induction vs arbitrary: ports) auto

lemma Ports_map [go_simps]: "Ports s = map cp_ContainerPort (c_Ports (ss_Container s))"
  by (simp add: Ports_def append_ports_map)

end
