(* ===== verification/Tracker.thy ===== *)
theory Tracker
  imports MeshTypes
begin

text \<open>
  The object tracker of \<open>client-go\<close> (\<open>vendor/k8s.io/client-go/testing/fixture.go\<close>): the store of
  API objects behind the generated fake clientset, with its watchers. It answers creates, updates,
  reads and deletions the way an API server without admission does, so the controller's model runs
  on it. The locale \<open>object_api\<close> is the part of that behaviour a client relies on: creation of an
  object whose name is free, refusal when it is taken, and nothing else touched.
\<close>

section \<open>Objects\<close>

datatype runtime_object =
    DeploymentObj Deployment
  | K8sServiceObj K8sService
  | ConfigurationObj Configuration
  | ServiceObj Service

fun obj_Meta :: "runtime_object \<Rightarrow> ObjectMeta" where
  "obj_Meta (DeploymentObj d) = dep_Meta d"
| "obj_Meta (K8sServiceObj s) = svc_Meta s"
| "obj_Meta (ConfigurationObj c) = conf_Meta c"
| "obj_Meta (ServiceObj s) = service_Meta s"

fun SetNamespace :: "string \<Rightarrow> runtime_object \<Rightarrow> runtime_object" where
  "SetNamespace ns (DeploymentObj d) = DeploymentObj (d\<lparr>dep_Meta := (dep_Meta d)\<lparr>om_Namespace := ns\<rparr>\<rparr>)"
| "SetNamespace ns (K8sServiceObj s) = K8sServiceObj (s\<lparr>svc_Meta := (svc_Meta s)\<lparr>om_Namespace := ns\<rparr>\<rparr>)"
| "SetNamespace ns (ConfigurationObj c) =
     ConfigurationObj (c\<lparr>conf_Meta := (conf_Meta c)\<lparr>om_Namespace := ns\<rparr>\<rparr>)"
| "SetNamespace ns (ServiceObj s) = ServiceObj (s\<lparr>service_Meta := (service_Meta s)\<lparr>om_Namespace := ns\<rparr>\<rparr>)"

abbreviation obj_ns :: "runtime_object \<Rightarrow> string" where
  "obj_ns x \<equiv> om_Namespace (obj_Meta x)"

abbreviation obj_name :: "runtime_object \<Rightarrow> string" where
  "obj_name x \<equiv> om_Name (obj_Meta x)"

lemma SetNamespace_simps [simp]:
  "obj_ns (SetNamespace ns x) = ns" "obj_name (SetNamespace ns x) = obj_name x"
  by (cases x; simp)+

text \<open>The kind under which the scheme knows an object; \<open>UnsafeGuessKindToResource\<close> on it.\<close>

definition to_lower :: "char \<Rightarrow> char" where
  "to_lower c = (if (of_char c :: nat) \<in> {65..90} then char_of ((of_char c :: nat) + 32) else c)"

definition UnsafeGuessKindToResource :: "GroupVersionKind \<Rightarrow> GroupVersionResource" where
  "UnsafeGuessKindToResource kind =
     (let kindName = gvk_Kind kind
      in if length kindName = 0 then \<lparr>gvr_Group = [], gvr_Version = [], gvr_Resource = []\<rparr>
         else
           (let singularName = map to_lower kindName;
                gv = gvk_GroupVersion kind
            in if length singularName \<ge> 9 \<and>
                  drop (length singularName - 9) singularName = ''endpoints''
               then WithResource gv singularName
               else if last singularName = CHR ''s'' then WithResource gv (singularName @ ''es'')
               else if last singularName = CHR ''y''
                 then WithResource gv (butlast singularName @ ''ies'')
               else WithResource gv (singularName @ ''s'')))"

definition core_gv :: GroupVersion where
  "core_gv = \<lparr>gv_Group = [], gv_Version = ''v1''\<rparr>"

definition apps_gv :: GroupVersion where
  "apps_gv = \<lparr>gv_Group = ''apps'', gv_Version = ''v1''\<rparr>"

fun object_kind :: "runtime_object \<Rightarrow> GroupVersionKind" where
  "object_kind (DeploymentObj _) = WithKind apps_gv ''Deployment''"
| "object_kind (K8sServiceObj _) = WithKind core_gv ''Service''"
| "object_kind (ConfigurationObj _) = WithKind SchemeGroupVersion ''Configuration''"
| "object_kind (ServiceObj _) = WithKind SchemeGroupVersion ''Service''"

section \<open>The tracker\<close>

text \<open>
  A watcher is a number; \<open>tr_events\<close> is what its channel has been sent, oldest first. A channel of
  the code panics when a hundred events wait in it, which is not modelled. \<open>tr_scheme\<close> lists the
  kinds registered with the tracker's scheme.
\<close>

datatype watch_event = Added runtime_object | Modified runtime_object | Deleted runtime_object

record tracker =
  tr_scheme :: "GroupVersionKind list"
  tr_objects :: "GroupVersionResource \<rightharpoonup> runtime_object list"
  tr_watchers :: "GroupVersionResource \<Rightarrow> string \<Rightarrow> nat list"
  tr_nextWatcher :: nat
  tr_events :: "nat \<Rightarrow> watch_event list"

definition NewObjectTracker :: "GroupVersionKind list \<Rightarrow> tracker" where
  "NewObjectTracker scheme =
     \<lparr>tr_scheme = scheme, tr_objects = Map.empty, tr_watchers = (\<lambda>_ _. []), tr_nextWatcher = 0,
      tr_events = (\<lambda>_. [])\<rparr>"

definition objects_at :: "tracker \<Rightarrow> GroupVersionResource \<Rightarrow> runtime_object list" where
  "objects_at t gvr = (case tr_objects t gvr of None \<Rightarrow> [] | Some objs \<Rightarrow> objs)"

definition filterByNamespaceAndName ::
  "runtime_object list \<Rightarrow> string \<Rightarrow> string \<Rightarrow> runtime_object list" where
  "filterByNamespaceAndName objs ns name =
     filter (\<lambda>x. \<not> (ns \<noteq> [] \<and> obj_ns x \<noteq> ns) \<and> \<not> (name \<noteq> [] \<and> obj_name x \<noteq> name)) objs"

definition tracker_List ::
  "GroupVersionResource \<Rightarrow> GroupVersionKind \<Rightarrow> string \<Rightarrow> tracker \<Rightarrow> api_error + runtime_object list" where
  "tracker_List gvr gvk ns t =
     (let listGVK = gvk\<lparr>gvk_Kind := gvk_Kind gvk @ ''List''\<rparr>;
          listGVK = (if gvk_Version listGVK = [] then listGVK\<lparr>gvk_Version := ''__internal''\<rparr> else listGVK)
      in if listGVK \<notin> set (tr_scheme t) then Inl (OtherError ''no kind is registered'')
         else case tr_objects t gvr of
                None \<Rightarrow> Inr []
              | Some objs \<Rightarrow> Inr (filterByNamespaceAndName objs ns []))"

definition tracker_Get ::
  "GroupVersionResource \<Rightarrow> string \<Rightarrow> string \<Rightarrow> tracker \<Rightarrow> api_error + runtime_object" where
  "tracker_Get gvr ns name t =
     (let errNotFound = NewNotFound (gvr_GroupResource gvr) name
      in case tr_objects t gvr of
           None \<Rightarrow> Inl errNotFound
         | Some objs \<Rightarrow>
             (let matchingObjs = filterByNamespaceAndName objs ns name
              in if length matchingObjs = 0 then Inl errNotFound
                 else if length matchingObjs > 1 then Inl (OtherError ''more than one object matched'')
                 else Inr (hd matchingObjs)))"

definition tracker_Watch :: "GroupVersionResource \<Rightarrow> string \<Rightarrow> tracker \<Rightarrow> nat \<times> tracker" where
  "tracker_Watch gvr ns t =
     (let w = tr_nextWatcher t
      in (w, t\<lparr>tr_nextWatcher := Suc w,
               tr_watchers := (tr_watchers t)(gvr := (tr_watchers t gvr)
                 (ns := tr_watchers t gvr ns @ [w]))\<rparr>))"

definition getWatches :: "GroupVersionResource \<Rightarrow> string \<Rightarrow> tracker \<Rightarrow> nat list" where
  "getWatches gvr ns t = tr_watchers t gvr ns @ tr_watchers t gvr []"

definition notify :: "nat list \<Rightarrow> watch_event \<Rightarrow> tracker \<Rightarrow> tracker" where
  "notify ws ev t =
     t\<lparr>tr_events := fold (\<lambda>w evs. evs(w := evs w @ [ev])) ws (tr_events t)\<rparr>"

text \<open>The two loops over the stored objects: overwrite, or cut out, the first that matches.\<close>

fun update_first :: "('a \<Rightarrow> bool) \<Rightarrow> 'a \<Rightarrow> 'a list \<Rightarrow> 'a list option" where
  "update_first P y [] = None"
| "update_first P y (x # xs) =
     (if P x then Some (y # xs) else map_option ((#) x) (update_first P y xs))"

fun remove_first :: "('a \<Rightarrow> bool) \<Rightarrow> 'a list \<Rightarrow> ('a \<times> 'a list) option" where
  "remove_first P [] = None"
| "remove_first P (x # xs) =
     (if P x then Some (x, xs) else map_option (apsnd ((#) x)) (remove_first P xs))"

definition tracker_add ::
  "GroupVersionResource \<Rightarrow> runtime_object \<Rightarrow> string \<Rightarrow> bool \<Rightarrow> tracker \<Rightarrow> api_error option \<times> tracker" where
  "tracker_add gvr obj0 ns replaceExisting t =
     (let gr = gvr_GroupResource gvr;
          obj = (if length (obj_ns obj0) = 0 then SetNamespace ns obj0 else obj0)
      in if ns \<noteq> obj_ns obj then (Some (StatusError ReasonBadRequest gr []), t)
         else case update_first (\<lambda>old. obj_ns old = obj_ns obj \<and> obj_name old = obj_name obj) obj
                     (objects_at t gvr) of
                Some objs \<Rightarrow>
                  if replaceExisting
                  then (None, (notify (getWatches gvr ns t) (Modified obj) t)
                                \<lparr>tr_objects := (tr_objects t)(gvr \<mapsto> objs)\<rparr>)
                  else (Some (NewAlreadyExists gr (obj_name obj)), t)
              | None \<Rightarrow>
                  if replaceExisting then (Some (NewNotFound gr (obj_name obj)), t)
                  else (None, notify (getWatches gvr ns t) (Added obj)
                                (t\<lparr>tr_objects := (tr_objects t)(gvr \<mapsto> objects_at t gvr @ [obj])\<rparr>)))"

definition tracker_Create ::
  "GroupVersionResource \<Rightarrow> runtime_object \<Rightarrow> string \<Rightarrow> tracker \<Rightarrow> api_error option \<times> tracker" where
  "tracker_Create gvr obj ns t = tracker_add gvr obj ns False t"

definition tracker_Update ::
  "GroupVersionResource \<Rightarrow> runtime_object \<Rightarrow> string \<Rightarrow> tracker \<Rightarrow> api_error option \<times> tracker" where
  "tracker_Update gvr obj ns t = tracker_add gvr obj ns True t"

definition tracker_Delete ::
  "GroupVersionResource \<Rightarrow> string \<Rightarrow> string \<Rightarrow> tracker \<Rightarrow> api_error option \<times> tracker" where
  "tracker_Delete gvr ns name t =
     (case remove_first (\<lambda>x. obj_ns x = ns \<and> obj_name x = name) (objects_at t gvr) of
        Some (obj, objs) \<Rightarrow>
          (None, notify (getWatches gvr ns t) (Deleted obj)
                   (t\<lparr>tr_objects := (tr_objects t)(gvr \<mapsto> objs)\<rparr>))
      | None \<Rightarrow> (Some (NewNotFound (gvr_GroupResource gvr) name), t))"

text \<open>Objects given at construction. Lists are not objects here: the branch that adds their items one by
  one is left out.\<close>

definition tracker_Add :: "runtime_object \<Rightarrow> tracker \<Rightarrow> api_error option \<times> tracker" where
  "tracker_Add obj t =
     (let gvk = object_kind obj
      in if gvk \<notin> set (tr_scheme t) then (Some (OtherError ''no kind is registered''), t)
         else
           (let gvr = UnsafeGuessKindToResource gvk;
                gvr = (if gvr_Version gvr = ''__internal'' then gvr\<lparr>gvr_Version := []\<rparr> else gvr)
            in tracker_add gvr obj (obj_ns obj) False t))"

section \<open>What the tracker stores\<close>

text \<open>A collection holds one object per namespace and name.\<close>

definition obj_key :: "runtime_object \<Rightarrow> string \<times> string" where
  "obj_key x = (obj_ns x, obj_name x)"

definition tracker_inv :: "tracker \<Rightarrow> bool" where
  "tracker_inv t \<longleftrightarrow> (\<forall>gvr. distinct (map obj_key (objects_at t gvr)))"

definition stored :: "GroupVersionResource \<Rightarrow> tracker \<Rightarrow> string \<times> string \<Rightarrow> runtime_object option" where
  "stored gvr t k = List.find (\<lambda>x. obj_key x = k) (objects_at t gvr)"

lemma update_first_None: "update_first P y xs = None \<longleftrightarrow> (\<forall>x \<in> set xs. \<not> P x)"
  by (induction xs) auto

lemma update_first_keys:
  assumes "update_first (\<lambda>x. f x = f y) y xs = Some ys"
  shows "map f ys = map f xs \<and>
    List.find (\<lambda>x. f x = k) ys = (if k = f y then Some y else List.find (\<lambda>x. f x = k) xs)"
  using assms
proof (induction xs arbitrary: ys)
  case (Cons x xs)
  then show ?case by (auto split: if_splits)
qed simp

lemma remove_first_None: "remove_first P xs = None \<longleftrightarrow> (\<forall>x \<in> set xs. \<not> P x)"
  by (induction xs) auto

lemma remove_first_keys:
  assumes "remove_first (\<lambda>x. f x = j) xs = Some (x, ys)" "distinct (map f xs)"
  shows "distinct (map f ys) \<and> f x = j \<and> List.find (\<lambda>x. f x = j) xs = Some x \<and>
    set ys = set xs - {x} \<and>
    List.find (\<lambda>x. f x = k) ys = (if k = j then None else List.find (\<lambda>x. f x = k) xs)"
  using assms
proof (induction xs arbitrary: x ys)
  case (Cons z xs)
  show ?case
  proof (cases "f z = j")
    case True
    with Cons.prems show ?thesis by (auto simp: find_None_iff image_iff)
  next
    case False
    with Cons.prems obtain zs where zs: "remove_first (\<lambda>x. f x = j) xs = Some (x, zs)" "ys = z # zs"
      by auto
    with Cons.IH [OF zs(1)] Cons.prems False show ?thesis by auto
  qed
qed simp

lemma objects_at_upd [simp]:
  "objects_at (t\<lparr>tr_objects := (tr_objects t')(gvr \<mapsto> objs)\<rparr>) gvr' =
     (if gvr' = gvr then objs else objects_at (t\<lparr>tr_objects := tr_objects t'\<rparr>) gvr')"
  by (simp add: objects_at_def)

lemma notify_frame [simp]:
  "tr_objects (notify ws ev t) = tr_objects t" "tr_watchers (notify ws ev t) = tr_watchers t"
  "tr_scheme (notify ws ev t) = tr_scheme t" "tr_nextWatcher (notify ws ev t) = tr_nextWatcher t"
  "objects_at (notify ws ev t) gvr = objects_at t gvr"
  by (simp_all add: notify_def objects_at_def)

lemma objects_at_cong [simp]:
  "objects_at (t\<lparr>tr_objects := tr_objects t\<rparr>) = objects_at t"
  "objects_at (t'\<lparr>tr_objects := tr_objects t\<rparr>) = objects_at t"
  by (simp_all add: objects_at_def fun_eq_iff)

lemma key_pred: "(\<lambda>x. obj_ns x = ns \<and> obj_name x = name) = (\<lambda>x. obj_key x = (ns, name))"
  by (simp add: obj_key_def fun_eq_iff)

lemma key_pred': "(\<lambda>x. obj_ns x = obj_ns y \<and> obj_name x = obj_name y) = (\<lambda>x. obj_key x = obj_key y)"
  by (simp add: obj_key_def fun_eq_iff)

lemma stored_None_iff: "stored gvr t k = None \<longleftrightarrow> (\<forall>x \<in> set (objects_at t gvr). obj_key x \<noteq> k)"
  by (auto simp: stored_def find_None_iff)

lemma stored_SomeD: "stored gvr t k = Some x \<Longrightarrow> x \<in> set (objects_at t gvr) \<and> obj_key x = k"
  by (metis (mono_tags, lifting) find_Some_iff nth_mem stored_def)

text \<open>The effect of a creation, update and deletion on what is stored.\<close>

definition placed :: "string \<Rightarrow> runtime_object \<Rightarrow> runtime_object" where
  "placed ns obj = (if obj_ns obj = [] then SetNamespace ns obj else obj)"

lemma placed_simps [simp]: "obj_name (placed ns x) = obj_name x"
  "obj_ns x = ns \<or> obj_ns x = [] \<Longrightarrow> obj_ns (placed ns x) = ns"
  by (auto simp: placed_def)

lemma tracker_add_cases:
  assumes "obj_ns obj = ns \<or> obj_ns obj = []"
  shows "stored gvr t (ns, obj_name obj) \<noteq> None \<Longrightarrow>
      tracker_add gvr obj ns False t = (Some (NewAlreadyExists (gvr_GroupResource gvr) (obj_name obj)), t)"
    and "stored gvr t (ns, obj_name obj) = None \<Longrightarrow>
      tracker_add gvr obj ns True t = (Some (NewNotFound (gvr_GroupResource gvr) (obj_name obj)), t)"
    and "stored gvr t (ns, obj_name obj) = None \<Longrightarrow>
      tracker_add gvr obj ns False t =
        (None, notify (getWatches gvr ns t) (Added (placed ns obj))
           (t\<lparr>tr_objects := (tr_objects t)(gvr \<mapsto> objects_at t gvr @ [placed ns obj])\<rparr>))"
    and "stored gvr t (ns, obj_name obj) \<noteq> None \<Longrightarrow>
      \<exists>objs. update_first (\<lambda>old. obj_key old = obj_key (placed ns obj)) (placed ns obj) (objects_at t gvr) = Some objs \<and>
        tracker_add gvr obj ns True t =
        (None, (notify (getWatches gvr ns t) (Modified (placed ns obj)) t)
           \<lparr>tr_objects := (tr_objects t)(gvr \<mapsto> objs)\<rparr>)"
proof -
  have key: "obj_key (placed ns obj) = (ns, obj_name obj)"
    using assms by (simp add: obj_key_def)
  have upd: "update_first (\<lambda>old. obj_key old = obj_key (placed ns obj)) (placed ns obj) (objects_at t gvr) = None
      \<longleftrightarrow> stored gvr t (ns, obj_name obj) = None"
    by (simp add: update_first_None stored_None_iff key)
  have add: "tracker_add gvr obj ns r t =
      (case update_first (\<lambda>old. obj_key old = obj_key (placed ns obj)) (placed ns obj) (objects_at t gvr) of
         Some objs \<Rightarrow>
           if r then (None, (notify (getWatches gvr ns t) (Modified (placed ns obj)) t)
                                \<lparr>tr_objects := (tr_objects t)(gvr \<mapsto> objs)\<rparr>)
           else (Some (NewAlreadyExists (gvr_GroupResource gvr) (obj_name obj)), t)
       | None \<Rightarrow>
           if r then (Some (NewNotFound (gvr_GroupResource gvr) (obj_name obj)), t)
           else (None, notify (getWatches gvr ns t) (Added (placed ns obj))
                  (t\<lparr>tr_objects := (tr_objects t)(gvr \<mapsto> objects_at t gvr @ [placed ns obj])\<rparr>)))" for r
  proof -
    have "(if length (obj_ns obj) = 0 then SetNamespace ns obj else obj) = placed ns obj"
      by (simp add: placed_def)
    moreover have "obj_ns (placed ns obj) = ns" using assms by simp
    ultimately show ?thesis
      unfolding tracker_add_def Let_def key_pred' by (simp only: placed_simps(1) simp_thms if_False key_pred')
  qed
  show "stored gvr t (ns, obj_name obj) \<noteq> None \<Longrightarrow>
      tracker_add gvr obj ns False t = (Some (NewAlreadyExists (gvr_GroupResource gvr) (obj_name obj)), t)"
    using upd by (auto simp: add)
  show "stored gvr t (ns, obj_name obj) = None \<Longrightarrow>
      tracker_add gvr obj ns True t = (Some (NewNotFound (gvr_GroupResource gvr) (obj_name obj)), t)"
    using upd by (auto simp: add)
  show "stored gvr t (ns, obj_name obj) = None \<Longrightarrow>
      tracker_add gvr obj ns False t =
        (None, notify (getWatches gvr ns t) (Added (placed ns obj))
           (t\<lparr>tr_objects := (tr_objects t)(gvr \<mapsto> objects_at t gvr @ [placed ns obj])\<rparr>))"
    using upd by (auto simp: add)
  show "stored gvr t (ns, obj_name obj) \<noteq> None \<Longrightarrow>
      \<exists>objs. update_first (\<lambda>old. obj_key old = obj_key (placed ns obj)) (placed ns obj) (objects_at t gvr) = Some objs \<and>
        tracker_add gvr obj ns True t =
        (None, (notify (getWatches gvr ns t) (Modified (placed ns obj)) t)
           \<lparr>tr_objects := (tr_objects t)(gvr \<mapsto> objs)\<rparr>)"
    using upd by (auto simp: add)
qed

text \<open>Creation, update and deletion as changes of the stored objects alone.\<close>

lemma find_snoc: "List.find P (xs @ [x]) =
    (case List.find P xs of None \<Rightarrow> if P x then Some x else None | Some y \<Rightarrow> Some y)"
  by (simp add: find_append split: option.splits)

lemma obj_key_placed: "obj_ns obj = ns \<or> obj_ns obj = [] \<Longrightarrow> obj_key (placed ns obj) = (ns, obj_name obj)"
  by (simp add: obj_key_def)

lemma tracker_Create_stored:
  assumes "obj_ns obj = ns \<or> obj_ns obj = []" "stored gvr t (ns, obj_name obj) = None"
    "tracker_inv t" "tracker_Create gvr obj ns t = (r, t')"
  shows "r = None" "tracker_inv t'"
    "stored gvr' t' k = (if gvr' = gvr \<and> k = (ns, obj_name obj) then Some (placed ns obj)
                         else stored gvr' t k)"
proof -
  let ?objs = "objects_at t gvr @ [placed ns obj]"
  have eq: "r = None"
    "t' = notify (getWatches gvr ns t) (Added (placed ns obj))
            (t\<lparr>tr_objects := (tr_objects t)(gvr \<mapsto> ?objs)\<rparr>)"
    using tracker_add_cases(3) [OF assms(1,2)] assms(4) by (auto simp: tracker_Create_def)
  show "r = None" by (fact eq)
  have at: "objects_at t' gvr' = (if gvr' = gvr then ?objs else objects_at t gvr')" for gvr'
    by (simp add: eq(2))
  have fresh: "obj_key (placed ns obj) \<notin> obj_key ` set (objects_at t gvr)"
    using assms(2) obj_key_placed [OF assms(1)] by (auto simp: stored_None_iff)
  show "tracker_inv t'" using assms(3) fresh by (simp add: tracker_inv_def at)
  show "stored gvr' t' k = (if gvr' = gvr \<and> k = (ns, obj_name obj) then Some (placed ns obj)
                         else stored gvr' t k)"
    using assms(2) obj_key_placed [OF assms(1)]
    by (auto simp: stored_def at find_snoc split: option.splits)
qed

lemma tracker_Update_stored:
  assumes "obj_ns obj = ns \<or> obj_ns obj = []" "stored gvr t (ns, obj_name obj) \<noteq> None"
    "tracker_inv t" "tracker_Update gvr obj ns t = (r, t')"
  shows "r = None" "tracker_inv t'"
    "stored gvr' t' k = (if gvr' = gvr \<and> k = (ns, obj_name obj) then Some (placed ns obj)
                         else stored gvr' t k)"
proof -
  obtain objs where upd: "update_first (\<lambda>old. obj_key old = obj_key (placed ns obj)) (placed ns obj)
      (objects_at t gvr) = Some objs"
    and eq: "r = None" "t' = (notify (getWatches gvr ns t) (Modified (placed ns obj)) t)
           \<lparr>tr_objects := (tr_objects t)(gvr \<mapsto> objs)\<rparr>"
    using tracker_add_cases(4) [OF assms(1,2)] assms(4) by (auto simp: tracker_Update_def)
  show "r = None" by (fact eq)
  have at: "objects_at t' gvr' = (if gvr' = gvr then objs else objects_at t gvr')" for gvr'
    by (simp add: eq(2))
  note keys = update_first_keys [OF upd]
  show "tracker_inv t'" using assms(3) keys by (simp add: tracker_inv_def at)
  show "stored gvr' t' k = (if gvr' = gvr \<and> k = (ns, obj_name obj) then Some (placed ns obj)
                         else stored gvr' t k)"
    using keys obj_key_placed [OF assms(1)] by (simp add: stored_def at)
qed

lemma tracker_Delete_stored:
  assumes "tracker_inv t" "tracker_Delete gvr ns name t = (r, t')"
  shows "r = (if stored gvr t (ns, name) = None
              then Some (NewNotFound (gvr_GroupResource gvr) name) else None)"
    "tracker_inv t'"
    "stored gvr' t' k = (if gvr' = gvr \<and> k = (ns, name) then None else stored gvr' t k)"
proof -
  have P: "(\<lambda>x. obj_ns x = ns \<and> obj_name x = name) = (\<lambda>x. obj_key x = (ns, name))"
    by (rule key_pred)
  have "r = (if stored gvr t (ns, name) = None
              then Some (NewNotFound (gvr_GroupResource gvr) name) else None) \<and> tracker_inv t' \<and>
    (\<forall>gvr' k. stored gvr' t' k = (if gvr' = gvr \<and> k = (ns, name) then None else stored gvr' t k))"
  proof (cases "remove_first (\<lambda>x. obj_key x = (ns, name)) (objects_at t gvr)")
    case None
    then have "stored gvr t (ns, name) = None" by (simp add: remove_first_None stored_None_iff)
    with None assms show ?thesis by (auto simp: tracker_Delete_def P)
  next
    case (Some res)
    obtain x objs where res: "res = (x, objs)" by force
    from assms(1) have dist: "distinct (map obj_key (objects_at t gvr))" by (simp add: tracker_inv_def)
    note keys = remove_first_keys [OF Some [unfolded res] dist]
    have eq: "r = None" "t' = notify (getWatches gvr ns t) (Deleted x)
                   (t\<lparr>tr_objects := (tr_objects t)(gvr \<mapsto> objs)\<rparr>)"
      using assms(2) Some res by (simp_all add: tracker_Delete_def P)
    have at: "objects_at t' gvr' = (if gvr' = gvr then objs else objects_at t gvr')" for gvr'
      by (simp add: eq(2))
    from keys have "stored gvr t (ns, name) = Some x" by (simp add: stored_def)
    with keys assms(1) eq(1) show ?thesis by (simp add: tracker_inv_def at stored_def)
  qed
  then show "r = (if stored gvr t (ns, name) = None
              then Some (NewNotFound (gvr_GroupResource gvr) name) else None)" "tracker_inv t'"
    "stored gvr' t' k = (if gvr' = gvr \<and> k = (ns, name) then None else stored gvr' t k)"
    by blast+
qed

text \<open>Reading one object by a full name finds it, and there is never more than one.\<close>

lemma filter_unique:
  "distinct (map f xs) \<Longrightarrow>
   filter (\<lambda>x. f x = k) xs = (case List.find (\<lambda>x. f x = k) xs of None \<Rightarrow> [] | Some x \<Rightarrow> [x])"
proof (induction xs)
  case (Cons x xs)
  show ?case
  proof (cases "f x = k")
    case True
    with Cons.prems have "\<forall>y \<in> set xs. f y \<noteq> k" by (auto simp: image_iff)
    with True show ?thesis by (simp add: filter_empty_conv)
  qed (use Cons in simp)
qed simp

lemma tracker_Get_stored:
  assumes "tracker_inv t" "ns \<noteq> []" "name \<noteq> []"
  shows "tracker_Get gvr ns name t =
    (case stored gvr t (ns, name) of
       None \<Rightarrow> Inl (NewNotFound (gvr_GroupResource gvr) name) | Some x \<Rightarrow> Inr x)"
proof -
  have "filterByNamespaceAndName (objects_at t gvr) ns name =
      filter (\<lambda>x. obj_key x = (ns, name)) (objects_at t gvr)"
    using assms(2,3) by (simp add: filterByNamespaceAndName_def obj_key_def)
  also have "\<dots> = (case stored gvr t (ns, name) of None \<Rightarrow> [] | Some x \<Rightarrow> [x])"
    unfolding stored_def using assms(1) by (intro filter_unique) (simp add: tracker_inv_def)
  finally show ?thesis
    by (auto simp: tracker_Get_def objects_at_def Let_def filterByNamespaceAndName_def
        split: option.splits)
qed

end
