(* ===== verification/Labels.thy ===== *)
theory Labels
  imports Prelude
begin

text \<open>
  Label selectors (\<open>vendor/k8s.io/apimachinery/pkg/labels\<close>) and the validation of label keys and
  values they call (\<open>pkg/util/validation\<close>). \<open>SelectorFromSet\<close> is what the discovery server makes
  of a rule's \<open>match\<close> map. The regular expressions of the validation are written out as
  conditions on characters; an error list keeps which checks failed, not their wording.
\<close>

section \<open>Validation of keys and values\<close>

definition in_range :: "char \<Rightarrow> char \<Rightarrow> char \<Rightarrow> bool" where
  "in_range lo hi c \<longleftrightarrow> (of_char lo :: nat) \<le> of_char c \<and> (of_char c :: nat) \<le> of_char hi"

text \<open>\<open>[A-Za-z0-9]\<close>, \<open>[-A-Za-z0-9_.]\<close>, \<open>[a-z0-9]\<close> and \<open>[-a-z0-9]\<close>.\<close>

definition qnameChar :: "char \<Rightarrow> bool" where
  "qnameChar c \<longleftrightarrow> in_range (CHR ''A'') (CHR ''Z'') c \<or> in_range (CHR ''a'') (CHR ''z'') c \<or>
     in_range (CHR ''0'') (CHR ''9'') c"

definition qnameExtChar :: "char \<Rightarrow> bool" where
  "qnameExtChar c \<longleftrightarrow> qnameChar c \<or> c \<in> {CHR ''-'', CHR ''_'', CHR ''.''}"

definition dnsChar :: "char \<Rightarrow> bool" where
  "dnsChar c \<longleftrightarrow> in_range (CHR ''a'') (CHR ''z'') c \<or> in_range (CHR ''0'') (CHR ''9'') c"

text \<open>\<open>^(C E*)?C$\<close> for character classes \<open>C\<close> and \<open>E\<close> with \<open>C\<close> inside \<open>E\<close>.\<close>

definition bracketed :: "(char \<Rightarrow> bool) \<Rightarrow> (char \<Rightarrow> bool) \<Rightarrow> string \<Rightarrow> bool" where
  "bracketed C E s \<longleftrightarrow> s \<noteq> [] \<and> C (hd s) \<and> C (last s) \<and> list_all E s"

definition qualifiedNameRegexp :: "string \<Rightarrow> bool" where
  "qualifiedNameRegexp s = bracketed qnameChar qnameExtChar s"

definition labelValueRegexp :: "string \<Rightarrow> bool" where
  "labelValueRegexp s \<longleftrightarrow> s = [] \<or> qualifiedNameRegexp s"

definition dns1123SubdomainRegexp :: "string \<Rightarrow> bool" where
  "dns1123SubdomainRegexp s =
     list_all (bracketed dnsChar (\<lambda>c. dnsChar c \<or> c = CHR ''-'')) (split_on (CHR ''.'') s)"

datatype validation_error = EmptyPart | TooLong | BadFormat

definition IsDNS1123Subdomain :: "string \<Rightarrow> validation_error list" where
  "IsDNS1123Subdomain s =
     (if length s > 253 then [TooLong] else []) @
     (if \<not> dns1123SubdomainRegexp s then [BadFormat] else [])"

definition IsQualifiedName :: "string \<Rightarrow> validation_error list" where
  "IsQualifiedName s =
     (let name_errs = (\<lambda>name.
            (if length name = 0 then [EmptyPart]
             else if length name > 63 then [TooLong] else []) @
            (if \<not> qualifiedNameRegexp name then [BadFormat] else []))
      in case split_on (CHR ''/'') s of
           [name] \<Rightarrow> name_errs name
         | [prefix, name] \<Rightarrow>
             (if length prefix = 0 then [EmptyPart] else IsDNS1123Subdomain prefix) @ name_errs name
         | _ \<Rightarrow> [BadFormat])"

definition IsValidLabelValue :: "string \<Rightarrow> validation_error list" where
  "IsValidLabelValue s =
     (if length s > 63 then [TooLong] else []) @
     (if \<not> labelValueRegexp s then [BadFormat] else [])"

definition validateLabelKey :: "string \<Rightarrow> validation_error list + unit" where
  "validateLabelKey k = (let errs = IsQualifiedName k in if errs \<noteq> [] then Inl errs else Inr ())"

definition validateLabelValue :: "string \<Rightarrow> validation_error list + unit" where
  "validateLabelValue v = (let errs = IsValidLabelValue v in if errs \<noteq> [] then Inl errs else Inr ())"

section \<open>Requirements and selectors\<close>

text \<open>\<open>strconv.ParseInt(s, 10, 64)\<close>: an optional sign, then decimal digits, in range.\<close>

definition is_digit :: "char \<Rightarrow> bool" where
  "is_digit c = in_range (CHR ''0'') (CHR ''9'') c"

definition ParseInt64 :: "string \<Rightarrow> int option" where
  "ParseInt64 s =
     (let neg = (s \<noteq> [] \<and> hd s = CHR ''-'');
          ds = (if s \<noteq> [] \<and> hd s \<in> {CHR ''-'', CHR ''+''} then tl s else s);
          n = (if neg then - int (digits_val ds) else int (digits_val ds))
      in if ds = [] \<or> \<not> list_all is_digit ds then None
         else if n < - (2 ^ 63) \<or> n \<ge> 2 ^ 63 then None
         else Some n)"

datatype Operator =
    DoesNotExist | Equals | DoubleEquals | OpIn | NotEquals | NotIn | OpExists
  | GreaterThan | LessThan

record Requirement =
  req_key :: string
  req_operator :: Operator
  req_strValues :: "string list"

datatype requirement_error = BadKey | BadValues | BadInteger | BadValue

definition NewRequirement :: "string \<Rightarrow> Operator \<Rightarrow> string list \<Rightarrow> requirement_error + Requirement" where
  "NewRequirement key op vals =
     (case validateLabelKey key of
        Inl _ \<Rightarrow> Inl BadKey
      | Inr _ \<Rightarrow>
          (let bad = (case op of
                 OpIn \<Rightarrow> if length vals = 0 then Some BadValues else None
               | NotIn \<Rightarrow> if length vals = 0 then Some BadValues else None
               | Equals \<Rightarrow> if length vals \<noteq> 1 then Some BadValues else None
               | DoubleEquals \<Rightarrow> if length vals \<noteq> 1 then Some BadValues else None
               | NotEquals \<Rightarrow> if length vals \<noteq> 1 then Some BadValues else None
               | OpExists \<Rightarrow> if length vals \<noteq> 0 then Some BadValues else None
               | DoesNotExist \<Rightarrow> if length vals \<noteq> 0 then Some BadValues else None
               | GreaterThan \<Rightarrow> if length vals \<noteq> 1 then Some BadValues
                   else if \<not> list_all (\<lambda>v. ParseInt64 v \<noteq> None) vals then Some BadInteger else None
               | LessThan \<Rightarrow> if length vals \<noteq> 1 then Some BadValues
                   else if \<not> list_all (\<lambda>v. ParseInt64 v \<noteq> None) vals then Some BadInteger else None)
           in case bad of
                Some e \<Rightarrow> Inl e
              | None \<Rightarrow>
                  if \<not> list_all (\<lambda>v. is_ok (validateLabelValue v)) vals then Inl BadValue
                  else Inr \<lparr>req_key = key, req_operator = op, req_strValues = vals\<rparr>))"

text \<open>\<open>Set.Has\<close> and \<open>Set.Get\<close>: reading an absent key of a Go map gives the empty string.\<close>

definition labels_Has :: "gomap \<Rightarrow> string \<Rightarrow> bool" where
  "labels_Has ls label \<longleftrightarrow> map_of ls label \<noteq> None"

definition labels_Get :: "gomap \<Rightarrow> string \<Rightarrow> string" where
  "labels_Get ls label = (case map_of ls label of None \<Rightarrow> [] | Some v \<Rightarrow> v)"

definition hasValue :: "Requirement \<Rightarrow> string \<Rightarrow> bool" where
  "hasValue r v = (v \<in> set (req_strValues r))"

definition Requirement_Matches :: "Requirement \<Rightarrow> gomap \<Rightarrow> bool" where
  "Requirement_Matches r ls =
     (let compare = (\<lambda>cmp.
            if \<not> labels_Has ls (req_key r) then False
            else case ParseInt64 (labels_Get ls (req_key r)) of
                   None \<Rightarrow> False
                 | Some lsValue \<Rightarrow>
                     if length (req_strValues r) \<noteq> 1 then False
                     else case ParseInt64 (hd (req_strValues r)) of
                            None \<Rightarrow> False
                          | Some rValue \<Rightarrow> cmp lsValue rValue);
          member = (if \<not> labels_Has ls (req_key r) then False
                    else hasValue r (labels_Get ls (req_key r)));
          absent = (if \<not> labels_Has ls (req_key r) then True
                    else \<not> hasValue r (labels_Get ls (req_key r)))
      in case req_operator r of
           OpIn \<Rightarrow> member | Equals \<Rightarrow> member | DoubleEquals \<Rightarrow> member
         | NotIn \<Rightarrow> absent | NotEquals \<Rightarrow> absent
         | OpExists \<Rightarrow> labels_Has ls (req_key r)
         | DoesNotExist \<Rightarrow> \<not> labels_Has ls (req_key r)
         | GreaterThan \<Rightarrow> compare (>)
         | LessThan \<Rightarrow> compare (<))"

type_synonym Selector = "Requirement list"

fun Selector_Matches :: "Selector \<Rightarrow> gomap \<Rightarrow> bool" where
  "Selector_Matches [] l = True"
| "Selector_Matches (r # rs) l = (if \<not> Requirement_Matches r l then False else Selector_Matches rs l)"

definition Everything :: Selector where
  "Everything = []"

text \<open>The loop of \<open>SelectorFromSet\<close>: \<open>None\<close> is its early return with an empty selector.\<close>

fun collect_requirements :: "Selector \<Rightarrow> gomap \<Rightarrow> Selector option" where
  "collect_requirements requirements [] = Some requirements"
| "collect_requirements requirements ((label, value) # ls) =
     (case NewRequirement label Equals [value] of
        Inr r \<Rightarrow> collect_requirements (requirements @ [r]) ls
      | Inl _ \<Rightarrow> None)"

definition SelectorFromSet :: "gomap \<Rightarrow> Selector" where
  "SelectorFromSet ls =
     (if ls = [] then []
      else case collect_requirements [] ls of
             None \<Rightarrow> []
           | Some requirements \<Rightarrow> sort_key req_key requirements)"

section \<open>What a selector made from a set matches\<close>

definition valid_label :: "string \<times> string \<Rightarrow> bool" where
  "valid_label kv \<longleftrightarrow> IsQualifiedName (fst kv) = [] \<and> IsValidLabelValue (snd kv) = []"

definition valid_set :: "gomap \<Rightarrow> bool" where
  "valid_set ls \<longleftrightarrow> list_all valid_label ls"

abbreviation eq_requirement :: "string \<times> string \<Rightarrow> Requirement" where
  "eq_requirement kv \<equiv> \<lparr>req_key = fst kv, req_operator = Equals, req_strValues = [snd kv]\<rparr>"

lemma NewRequirement_Equals:
  "NewRequirement k Equals [v] =
     (if IsQualifiedName k \<noteq> [] then Inl BadKey
      else if IsValidLabelValue v \<noteq> [] then Inl BadValue else Inr (eq_requirement (k, v)))"
  by (simp add: NewRequirement_def validateLabelKey_def validateLabelValue_def Let_def)

lemma collect_requirements_eq:
  "collect_requirements acc ls =
     (if valid_set ls then Some (acc @ map eq_requirement ls) else None)"
  by (induction acc ls rule: collect_requirements.induct)
    (auto simp: NewRequirement_Equals valid_set_def valid_label_def)

lemma SelectorFromSet_eq:
  "SelectorFromSet ls = (if valid_set ls then sort_key req_key (map eq_requirement ls) else [])"
  by (cases ls) (auto simp: SelectorFromSet_def collect_requirements_eq valid_set_def)

lemma Selector_Matches_all: "Selector_Matches rs l \<longleftrightarrow> (\<forall>r \<in> set rs. Requirement_Matches r l)"
  by (induction rs) auto

lemma eq_requirement_Matches [simp]:
  "Requirement_Matches \<lparr>req_key = k, req_operator = Equals, req_strValues = [v]\<rparr> l \<longleftrightarrow>
     map_of l k = Some v"
  by (auto simp: Requirement_Matches_def labels_Has_def labels_Get_def hasValue_def)

text \<open>
  The specification of selection by a set: every entry of the set is a label of the object. An
  ill-formed entry voids the whole set, and then every object is selected.
\<close>

definition selected_by :: "gomap \<Rightarrow> gomap \<Rightarrow> bool" where
  "selected_by ls l \<longleftrightarrow> (valid_set ls \<longrightarrow> (\<forall>(k, v) \<in> set ls. map_of l k = Some v))"

lemma SelectorFromSet_selected: "Selector_Matches (SelectorFromSet ls) l \<longleftrightarrow> selected_by ls l"
  by (fastforce simp: SelectorFromSet_eq Selector_Matches_all selected_by_def)

lemma selected_by_map_le:
  assumes "go_map ls" "valid_set ls"
  shows "selected_by ls l \<longleftrightarrow> map_of ls \<subseteq>\<^sub>m map_of l"
proof -
  have "map_of ls k = Some v \<longleftrightarrow> (k, v) \<in> set ls" for k v
    using assms(1) by (simp add: go_map_def)
  with assms(2) show ?thesis
    by (fastforce simp: selected_by_def map_le_def dom_def)
qed

lemma selected_by_cong:
  "set ls = set ls' \<Longrightarrow> map_of l = map_of l' \<Longrightarrow> selected_by ls l = selected_by ls' l'"
  by (simp add: selected_by_def valid_set_def list_all_iff)

end
