(* ===== verification/TrackerWatch.thy ===== *)
theory TrackerWatch
  imports Tracker Labels
begin

text \<open>
  The contract of an object API (locale \<open>object_api\<close>), provided by the tracker of
  \<open>vendor/k8s.io/client-go/testing/fixture.go\<close>, and the consistency of its watches: whatever
  operations run after a watch was opened, replaying the events sent to it over what a list
  returned at that time gives exactly what a list returns now. This is the property that lets an
  informer keep a cache.
\<close>

section \<open>Reactions\<close>

text \<open>
  The actions of \<open>actions.go\<close>. Each carries its group, version and resource and its namespace, and
  the fields of its own type; \<open>PatchAction\<close> has the list of subresources that the code joins into a
  path. A selector of a list or watch is held parsed, next to the text of the field selector.
\<close>

record ListRestrictions =
  lr_Labels :: Selector
  lr_Fields :: string

record WatchRestrictions =
  wr_Labels :: Selector
  wr_Fields :: string
  wr_ResourceVersion :: string

datatype action =
    GetAction GroupVersionResource string string
  | ListAction GroupVersionResource GroupVersionKind string ListRestrictions
  | CreateAction GroupVersionResource string string runtime_object
  | UpdateAction GroupVersionResource string string runtime_object
  | DeleteAction GroupVersionResource string string
  | DeleteCollectionAction GroupVersionResource string ListRestrictions
  | PatchAction GroupVersionResource "string list" string string string
  | WatchAction GroupVersionResource string WatchRestrictions

fun GetVerb :: "action \<Rightarrow> string" where
  "GetVerb (GetAction _ _ _) = ''get''"
| "GetVerb (ListAction _ _ _ _) = ''list''"
| "GetVerb (CreateAction _ _ _ _) = ''create''"
| "GetVerb (UpdateAction _ _ _ _) = ''update''"
| "GetVerb (DeleteAction _ _ _) = ''delete''"
| "GetVerb (DeleteCollectionAction _ _ _) = ''delete-collection''"
| "GetVerb (PatchAction _ _ _ _ _) = ''patch''"
| "GetVerb (WatchAction _ _ _) = ''watch''"

fun GetResource :: "action \<Rightarrow> GroupVersionResource" where
  "GetResource (GetAction gvr _ _) = gvr"
| "GetResource (ListAction gvr _ _ _) = gvr"
| "GetResource (CreateAction gvr _ _ _) = gvr"
| "GetResource (UpdateAction gvr _ _ _) = gvr"
| "GetResource (DeleteAction gvr _ _) = gvr"
| "GetResource (DeleteCollectionAction gvr _ _) = gvr"
| "GetResource (PatchAction gvr _ _ _ _) = gvr"
| "GetResource (WatchAction gvr _ _) = gvr"

datatype reply = NoObject | OneObject runtime_object | ListOf "runtime_object list"

definition one_object :: "api_error + runtime_object \<Rightarrow> reply \<times> api_error option" where
  "one_object r = (case r of Inl e \<Rightarrow> (NoObject, Some e) | Inr x \<Rightarrow> (OneObject x, None))"

text \<open>
  \<open>ObjectReaction\<close>. What a patch makes of an object (encoding it, the strategic merge and decoding
  the result) is the parameter \<open>merge\<close>.
\<close>

fun ObjectReaction :: "(string \<Rightarrow> runtime_object \<Rightarrow> api_error + runtime_object) \<Rightarrow> action \<Rightarrow> tracker \<Rightarrow>
    (bool \<times> reply \<times> api_error option) \<times> tracker" where
  "ObjectReaction merge (ListAction gvr gvk ns _) t =
     ((True, case tracker_List gvr gvk ns t of Inl e \<Rightarrow> (NoObject, Some e) | Inr xs \<Rightarrow> (ListOf xs, None)), t)"
| "ObjectReaction merge (GetAction gvr ns name) t = ((True, one_object (tracker_Get gvr ns name t)), t)"
| "ObjectReaction merge (CreateAction gvr sub ns obj) t =
     (case (if sub = [] then tracker_Create gvr obj ns t else tracker_Update gvr obj ns t) of
        (Some e, t') \<Rightarrow> ((True, NoObject, Some e), t')
      | (None, t') \<Rightarrow> ((True, one_object (tracker_Get gvr ns (obj_name obj) t')), t'))"
| "ObjectReaction merge (UpdateAction gvr sub ns obj) t =
     (case tracker_Update gvr obj ns t of
        (Some e, t') \<Rightarrow> ((True, NoObject, Some e), t')
      | (None, t') \<Rightarrow> ((True, one_object (tracker_Get gvr ns (obj_name obj) t')), t'))"
| "ObjectReaction merge (DeleteAction gvr ns name) t =
     (case tracker_Delete gvr ns name t of
        (Some e, t') \<Rightarrow> ((True, NoObject, Some e), t')
      | (None, t') \<Rightarrow> ((True, NoObject, None), t'))"
| "ObjectReaction merge (PatchAction gvr subs ns name data) t =
     (case tracker_Get gvr ns name t of
        Inl e \<Rightarrow> ((False, NoObject, Some e), t)
      | Inr obj \<Rightarrow>
          (case merge data obj of
             Inl e \<Rightarrow> ((True, NoObject, Some e), t)
           | Inr obj' \<Rightarrow>
               (case tracker_Update gvr obj' ns t of
                  (Some e, t') \<Rightarrow> ((True, NoObject, Some e), t')
                | (None, t') \<Rightarrow> ((True, OneObject obj', None), t'))))"
| "ObjectReaction merge _ t = ((False, NoObject, Some (OtherError ''no reaction implemented'')), t)"

section \<open>The contract of an object API\<close>

locale object_api =
  fixes create :: "string \<Rightarrow> 'o \<Rightarrow> 'k \<Rightarrow> (api_error + 'o) \<times> 'k"
    and lookup :: "string \<times> string \<Rightarrow> 'k \<Rightarrow> 'o option"
    and meta :: "'o \<Rightarrow> ObjectMeta"
    and invar :: "'k \<Rightarrow> bool"
  assumes create_free:
      "invar k \<Longrightarrow> om_Namespace (meta x) = ns \<Longrightarrow> ns \<noteq> [] \<Longrightarrow> om_Name (meta x) \<noteq> [] \<Longrightarrow>
       lookup (ns, om_Name (meta x)) k = None \<Longrightarrow>
       \<exists>k'. create ns x k = (Inr x, k') \<and> invar k' \<and>
            (\<forall>j. lookup j k' = (if j = (ns, om_Name (meta x)) then Some x else lookup j k))"
    and create_taken:
      "invar k \<Longrightarrow> om_Namespace (meta x) = ns \<Longrightarrow> ns \<noteq> [] \<Longrightarrow> om_Name (meta x) \<noteq> [] \<Longrightarrow>
       lookup (ns, om_Name (meta x)) k \<noteq> None \<Longrightarrow> \<exists>e. create ns x k = (Inl e, k)"
begin

text \<open>Look an object up in a (possibly outdated) view, and create it when the view has none.\<close>

definition ensure ::
  "(string \<Rightarrow> string \<Rightarrow> api_error + 'o) \<Rightarrow> 'o \<Rightarrow> 'k \<Rightarrow> api_error option \<times> 'k" where
  "ensure view x k =
     (case view (om_Namespace (meta x)) (om_Name (meta x)) of
        Inr _ \<Rightarrow> (None, k)
      | Inl e \<Rightarrow>
          if IsNotFound e then
            (case create (om_Namespace (meta x)) x k of (Inr _, k') \<Rightarrow> (None, k') | (Inl e', k') \<Rightarrow> (Some e', k'))
          else (Some e, k))"

definition named :: "'o \<Rightarrow> bool" where
  "named x \<longleftrightarrow> om_Namespace (meta x) \<noteq> [] \<and> om_Name (meta x) \<noteq> []"

lemma ensure_cases:
  assumes "invar k" "named x" "ensure view x k = (r, k')"
  obtains
    (seen) y where "view (om_Namespace (meta x)) (om_Name (meta x)) = Inr y" "r = None" "k' = k"
  | (broken) e where "view (om_Namespace (meta x)) (om_Name (meta x)) = Inl e" "\<not> IsNotFound e"
      "r = Some e" "k' = k"
  | (created) e where "view (om_Namespace (meta x)) (om_Name (meta x)) = Inl e" "IsNotFound e"
      "lookup (om_Namespace (meta x), om_Name (meta x)) k = None" "r = None" "invar k'"
      "\<forall>j. lookup j k' = (if j = (om_Namespace (meta x), om_Name (meta x)) then Some x else lookup j k)"
  | (taken) e e' where "view (om_Namespace (meta x)) (om_Name (meta x)) = Inl e" "IsNotFound e"
      "lookup (om_Namespace (meta x), om_Name (meta x)) k \<noteq> None" "r = Some e'" "k' = k"
proof (cases "view (om_Namespace (meta x)) (om_Name (meta x))")
  case (Inr y)
  with assms(3) that(1) show ?thesis by (simp add: ensure_def)
next
  case (Inl e)
  from assms(2) have named: "om_Namespace (meta x) \<noteq> []" "om_Name (meta x) \<noteq> []"
    by (simp_all add: named_def)
  show ?thesis
  proof (cases "IsNotFound e")
    case False
    with Inl assms(3) that(2) show ?thesis by (simp add: ensure_def)
  next
    case nf: True
    show ?thesis
    proof (cases "lookup (om_Namespace (meta x), om_Name (meta x)) k")
      case None
      from create_free [OF assms(1) refl named None] Inl nf assms(3) None that(3) show ?thesis
        by (auto simp: ensure_def)
    next
      case (Some y)
      with create_taken [OF assms(1) refl named] Inl nf assms(3) that(4) show ?thesis
        by (auto simp: ensure_def)
    qed
  qed
qed

text \<open>Nothing that exists is replaced or removed, and only the wanted name can appear.\<close>

lemma ensure_frame:
  assumes "invar k" "named x" "ensure view x k = (r, k')"
  shows "invar k' \<and> (lookup j k = Some y \<longrightarrow> lookup j k' = Some y) \<and>
    (j \<noteq> (om_Namespace (meta x), om_Name (meta x)) \<longrightarrow> lookup j k' = lookup j k)"
proof (rule ensure_cases [OF assms], goal_cases)
  case (3 e)
  then show ?case by (cases "j = (om_Namespace (meta x), om_Name (meta x))") (simp_all del: split_paired_All)
qed (simp_all add: assms(1))

text \<open>With a view no newer than the API, success means the object is there.\<close>

lemma ensure_present:
  assumes "invar k" "named x" "ensure view x k = (None, k')"
    and "\<And>y. view (om_Namespace (meta x)) (om_Name (meta x)) = Inr y \<Longrightarrow>
           lookup (om_Namespace (meta x), om_Name (meta x)) k \<noteq> None"
  shows "lookup (om_Namespace (meta x), om_Name (meta x)) k' \<noteq> None"
proof (rule ensure_cases [OF assms(1,2,3)], goal_cases)
  case (1 y)
  then show ?case using assms(4) by simp
qed simp_all

end

text \<open>The tracker's create reaction, for objects of one type in one collection.\<close>

definition create_through ::
  "GroupVersionResource \<Rightarrow> ('o \<Rightarrow> runtime_object) \<Rightarrow> (runtime_object \<Rightarrow> 'o option) \<Rightarrow>
   string \<Rightarrow> 'o \<Rightarrow> tracker \<Rightarrow> (api_error + 'o) \<times> tracker" where
  "create_through gvr wrap unwrap ns x t =
     (case ObjectReaction (\<lambda>_. Inr) (CreateAction gvr [] ns (wrap x)) t of
        ((_, OneObject y, None), t') \<Rightarrow>
          (case unwrap y of Some x' \<Rightarrow> (Inr x', t') | None \<Rightarrow> (Inl (OtherError ''wrong type''), t'))
      | ((_, _, Some e), t') \<Rightarrow> (Inl e, t')
      | (_, t') \<Rightarrow> (Inl (OtherError ''no object''), t'))"

definition lookup_through ::
  "GroupVersionResource \<Rightarrow> (runtime_object \<Rightarrow> 'o option) \<Rightarrow> string \<times> string \<Rightarrow> tracker \<Rightarrow> 'o option" where
  "lookup_through gvr unwrap k t = Option.bind (stored gvr t k) unwrap"

text \<open>Every object of the collection has the collection's type.\<close>

definition typed_at :: "GroupVersionResource \<Rightarrow> (runtime_object \<Rightarrow> 'o option) \<Rightarrow> tracker \<Rightarrow> bool" where
  "typed_at gvr unwrap t \<longleftrightarrow> (\<forall>k x. stored gvr t k = Some x \<longrightarrow> unwrap x \<noteq> None)"

lemma create_through_free:
  assumes "\<And>x. unwrap (wrap x) = Some x" "\<And>x. obj_Meta (wrap x) = meta x"
    and "tracker_inv t" "typed_at gvr unwrap t" "om_Namespace (meta x) = ns" "ns \<noteq> []"
      "om_Name (meta x) \<noteq> []" "lookup_through gvr unwrap (ns, om_Name (meta x)) t = None"
  shows "\<exists>t'. create_through gvr wrap unwrap ns x t = (Inr x, t') \<and>
    (tracker_inv t' \<and> typed_at gvr unwrap t') \<and>
    (\<forall>j. lookup_through gvr unwrap j t' =
           (if j = (ns, om_Name (meta x)) then Some x else lookup_through gvr unwrap j t))"
proof -
  have none: "stored gvr t (ns, om_Name (meta x)) = None"
  proof (rule ccontr)
    assume "stored gvr t (ns, om_Name (meta x)) \<noteq> None"
    then obtain y where y: "stored gvr t (ns, om_Name (meta x)) = Some y" by blast
    with assms(4) have "unwrap y \<noteq> None" unfolding typed_at_def by blast
    with y assms(8) show False by (simp add: lookup_through_def)
  qed
  obtain r t' where rt: "tracker_Create gvr (wrap x) ns t = (r, t')" by force
  have ns: "obj_ns (wrap x) = ns \<or> obj_ns (wrap x) = []" using assms(2,5) by simp
  have none': "stored gvr t (ns, obj_name (wrap x)) = None" using none assms(2) by simp
  note st = tracker_Create_stored [OF ns none' assms(3) rt]
  have placed: "placed ns (wrap x) = wrap x" using assms(2,5,6) by (simp add: placed_def)
  have get: "tracker_Get gvr ns (obj_name (wrap x)) t' = Inr (wrap x)"
    using tracker_Get_stored [OF st(2) assms(6), of "obj_name (wrap x)" gvr] assms(2,7) st(3) placed
    by simp
  have "create_through gvr wrap unwrap ns x t = (Inr x, t')"
    using rt st(1) get assms(1) by (simp add: create_through_def one_object_def)
  moreover have "typed_at gvr unwrap t'"
    using assms(1,4) st(3) placed by (auto simp: typed_at_def)
  ultimately show ?thesis
    using st(2,3) placed assms(1,2) by (auto simp: lookup_through_def)
qed

lemma create_through_taken:
  assumes "\<And>x. obj_Meta (wrap x) = meta x" and "om_Namespace (meta x) = ns"
    and "lookup_through gvr unwrap (ns, om_Name (meta x)) t \<noteq> None"
  shows "\<exists>e. create_through gvr wrap unwrap ns x t = (Inl e, t)"
proof -
  have "stored gvr t (ns, obj_name (wrap x)) \<noteq> None"
    using assms(1,3) unfolding lookup_through_def
    by (cases "stored gvr t (ns, om_Name (meta x))") auto
  moreover have "obj_ns (wrap x) = ns \<or> obj_ns (wrap x) = []" using assms(1,2) by simp
  ultimately show ?thesis
    using tracker_add_cases(1) [of "wrap x" ns gvr t]
    by (simp add: create_through_def tracker_Create_def)
qed

section \<open>Watches\<close>

definition view :: "GroupVersionResource \<Rightarrow> string \<Rightarrow> tracker \<Rightarrow> string \<times> string \<Rightarrow> runtime_object option" where
  "view gvr ns t k = (if ns = [] \<or> fst k = ns then stored gvr t k else None)"

fun apply_event :: "watch_event \<Rightarrow> (string \<times> string \<rightharpoonup> runtime_object) \<Rightarrow>
    (string \<times> string \<rightharpoonup> runtime_object)" where
  "apply_event (Added x) m = m(obj_key x \<mapsto> x)"
| "apply_event (Modified x) m = m(obj_key x \<mapsto> x)"
| "apply_event (Deleted x) m = m(obj_key x := None)"

definition replay :: "watch_event list \<Rightarrow> (string \<times> string \<rightharpoonup> runtime_object) \<Rightarrow>
    (string \<times> string \<rightharpoonup> runtime_object)" where
  "replay evs m = fold apply_event evs m"

inductive tracker_step :: "tracker \<Rightarrow> tracker \<Rightarrow> bool" where
  step_create: "tracker_step t (snd (tracker_Create gvr obj ns t))"
| step_update: "tracker_step t (snd (tracker_Update gvr obj ns t))"
| step_delete: "tracker_step t (snd (tracker_Delete gvr ns name t))"
| step_watch: "tracker_step t (snd (tracker_Watch gvr ns t))"

definition watchers_ok :: "tracker \<Rightarrow> bool" where
  "watchers_ok t \<longleftrightarrow> (\<forall>gvr ns. \<forall>w \<in> set (tr_watchers t gvr ns). w < tr_nextWatcher t) \<and>
     (\<forall>w \<ge> tr_nextWatcher t. tr_events t w = [])"

definition watching :: "GroupVersionResource \<Rightarrow> string \<Rightarrow> nat \<Rightarrow>
    (string \<times> string \<rightharpoonup> runtime_object) \<Rightarrow> tracker \<Rightarrow> bool" where
  "watching gvr ns w m t \<longleftrightarrow> tracker_inv t \<and> watchers_ok t \<and> w < tr_nextWatcher t \<and>
     (\<forall>gvr' ns'. w \<in> set (tr_watchers t gvr' ns') \<longleftrightarrow> gvr' = gvr \<and> ns' = ns) \<and>
     replay (tr_events t w) m = view gvr ns t"

lemma notify_events:
  "tr_events (notify ws ev t) w = tr_events t w @ replicate (count_list ws w) ev"
proof -
  have "fold (\<lambda>w evs. evs(w := evs w @ [ev])) ws f w = f w @ replicate (count_list ws w) ev" for f
    by (induction ws arbitrary: f) (auto simp: replicate_append_same [symmetric])
  then show ?thesis by (simp add: notify_def)
qed

lemma apply_event_idem: "apply_event ev (apply_event ev m) = apply_event ev m"
  by (cases ev) auto

lemma replay_replicate:
  "replay (evs @ replicate n ev) m = (if n = 0 then replay evs m else apply_event ev (replay evs m))"
proof (induction n)
  case (Suc n)
  have "replay (evs @ replicate (Suc n) ev) m = apply_event ev (replay (evs @ replicate n ev) m)"
    by (simp only: replay_def replicate_Suc replicate_append_same [symmetric] append_assoc [symmetric]
        fold_append fold.simps comp_apply id_apply)
  with Suc show ?case by (cases n) (simp_all add: apply_event_idem)
qed simp

text \<open>One operation that changes one key and tells the watchers of its namespace.\<close>

lemma watching_notify:
  assumes "watching gvr ns w m t" "tracker_inv t'"
    and t': "tr_watchers t' = tr_watchers t" "tr_nextWatcher t' = tr_nextWatcher t"
      "tr_events t' = tr_events (notify (getWatches gvr' ns' t) ev t)"
    and st: "\<And>gvr'' k. stored gvr'' t' k =
      (if gvr'' = gvr' then apply_event ev (stored gvr' t) k else stored gvr'' t k)"
    and key: "\<And>f k. k \<noteq> (ns', name) \<Longrightarrow> apply_event ev f k = f k"
      "\<And>f g. apply_event ev f (ns', name) = apply_event ev g (ns', name)"
  shows "watching gvr ns w m t'"
proof -
  have cnt: "count_list (getWatches gvr' ns' t) w = 0 \<longleftrightarrow> \<not> (gvr' = gvr \<and> (ns' = ns \<or> ns = []))"
    using assms(1) by (auto simp: watching_def getWatches_def count_list_0_iff)
  have views: "view gvr ns t' = (if gvr' = gvr \<and> (ns' = ns \<or> ns = []) then apply_event ev (view gvr ns t)
      else view gvr ns t)"
  proof
    fix k
    show "view gvr ns t' k = (if gvr' = gvr \<and> (ns' = ns \<or> ns = []) then apply_event ev (view gvr ns t)
      else view gvr ns t) k"
      using key(1) [of k] key(2) [of "stored gvr t" "view gvr ns t"]
      by (cases "k = (ns', name)") (auto simp: view_def st)
  qed
  have replays: "replay (tr_events t' w) m =
      (if gvr' = gvr \<and> (ns' = ns \<or> ns = []) then apply_event ev (replay (tr_events t w) m)
       else replay (tr_events t w) m)"
    using cnt by (simp add: t'(3) notify_events replay_replicate)
  have "watchers_ok t'"
  proof -
    have "tr_events t' v = []" if "v \<ge> tr_nextWatcher t" for v
    proof -
      from assms(1) that have "v \<notin> set (getWatches gvr' ns' t)" "tr_events t v = []"
        by (fastforce simp: watching_def watchers_ok_def getWatches_def)+
      then show ?thesis by (simp add: t'(3) notify_events count_list_0_iff)
    qed
    with assms(1) show ?thesis by (auto simp: watching_def watchers_ok_def t'(1,2))
  qed
  moreover have "replay (tr_events t' w) m = view gvr ns t'"
    using views replays assms(1) by (simp only: watching_def)
  ultimately show ?thesis using assms(1,2) by (simp add: watching_def t'(1,2))
qed

lemma stored_key: "stored gvr t k = Some x \<Longrightarrow> obj_key x = k"
  using stored_SomeD by blast

lemma watching_Create:
  assumes w: "watching gvr ns w m t"
  shows "watching gvr ns w m (snd (tracker_Create gvr' obj ns' t))"
proof -
  let ?r = "tracker_Create gvr' obj ns' t"
  consider (bad) "\<not> (obj_ns obj = ns' \<or> obj_ns obj = [])"
    | (taken) "obj_ns obj = ns' \<or> obj_ns obj = []" "stored gvr' t (ns', obj_name obj) \<noteq> None"
    | (free) "obj_ns obj = ns' \<or> obj_ns obj = []" "stored gvr' t (ns', obj_name obj) = None"
    by blast
  then show ?thesis
  proof cases
    case bad
    then have "snd ?r = t" by (auto simp: tracker_Create_def tracker_add_def)
    with w show ?thesis by simp
  next
    case taken
    with w show ?thesis by (simp add: tracker_Create_def tracker_add_cases(1))
  next
    case free
    have inv: "tracker_inv t" using w by (simp add: watching_def)
    note st = tracker_Create_stored [OF free inv surjective_pairing]
    have "snd ?r = notify (getWatches gvr' ns' t) (Added (placed ns' obj))
        (t\<lparr>tr_objects := (tr_objects t)(gvr' \<mapsto> objects_at t gvr' @ [placed ns' obj])\<rparr>)"
      using tracker_add_cases(3) [OF free] by (simp add: tracker_Create_def)
    then have "tr_watchers (snd ?r) = tr_watchers t" "tr_nextWatcher (snd ?r) = tr_nextWatcher t"
      "tr_events (snd ?r) = tr_events (notify (getWatches gvr' ns' t) (Added (placed ns' obj)) t)"
      by (simp_all add: notify_def)
    from watching_notify [OF w st(2) this, where name = "obj_name obj"] show ?thesis
      using obj_key_placed [OF free(1)] by (auto simp: st(3))
  qed
qed

lemma watching_Update:
  assumes w: "watching gvr ns w m t"
  shows "watching gvr ns w m (snd (tracker_Update gvr' obj ns' t))"
proof -
  let ?r = "tracker_Update gvr' obj ns' t"
  consider (bad) "\<not> (obj_ns obj = ns' \<or> obj_ns obj = [])"
    | (free) "obj_ns obj = ns' \<or> obj_ns obj = []" "stored gvr' t (ns', obj_name obj) = None"
    | (taken) "obj_ns obj = ns' \<or> obj_ns obj = []" "stored gvr' t (ns', obj_name obj) \<noteq> None"
    by blast
  then show ?thesis
  proof cases
    case bad
    then have "snd ?r = t" by (auto simp: tracker_Update_def tracker_add_def)
    with w show ?thesis by simp
  next
    case free
    with w show ?thesis by (simp add: tracker_Update_def tracker_add_cases(2))
  next
    case taken
    have inv: "tracker_inv t" using w by (simp add: watching_def)
    note st = tracker_Update_stored [OF taken inv surjective_pairing]
    obtain objs where "snd ?r = (notify (getWatches gvr' ns' t) (Modified (placed ns' obj)) t)
           \<lparr>tr_objects := (tr_objects t)(gvr' \<mapsto> objs)\<rparr>"
      using tracker_add_cases(4) [OF taken] by (auto simp: tracker_Update_def)
    then have "tr_watchers (snd ?r) = tr_watchers t" "tr_nextWatcher (snd ?r) = tr_nextWatcher t"
      "tr_events (snd ?r) = tr_events (notify (getWatches gvr' ns' t) (Modified (placed ns' obj)) t)"
      by simp_all
    from watching_notify [OF w st(2) this, where name = "obj_name obj"] show ?thesis
      using obj_key_placed [OF taken(1)] by (auto simp: st(3))
  qed
qed

lemma watching_Delete:
  assumes w: "watching gvr ns w m t"
  shows "watching gvr ns w m (snd (tracker_Delete gvr' ns' name t))"
proof (cases "remove_first (\<lambda>x. obj_ns x = ns' \<and> obj_name x = name) (objects_at t gvr')")
  case None
  with w show ?thesis by (simp add: tracker_Delete_def)
next
  case (Some res)
  obtain x objs where res: "res = (x, objs)" by force
  have inv: "tracker_inv t" using w by (simp add: watching_def)
  have x: "obj_key x = (ns', name)"
    using remove_first_keys [OF Some [unfolded res key_pred]] inv by (simp add: tracker_inv_def)
  note st = tracker_Delete_stored [OF inv surjective_pairing, where gvr = gvr' and ns = ns' and name = name]
  have "snd (tracker_Delete gvr' ns' name t) = notify (getWatches gvr' ns' t) (Deleted x)
      (t\<lparr>tr_objects := (tr_objects t)(gvr' \<mapsto> objs)\<rparr>)"
    using Some res by (simp add: tracker_Delete_def)
  then have "tr_watchers (snd (tracker_Delete gvr' ns' name t)) = tr_watchers t"
    "tr_nextWatcher (snd (tracker_Delete gvr' ns' name t)) = tr_nextWatcher t"
    "tr_events (snd (tracker_Delete gvr' ns' name t)) =
       tr_events (notify (getWatches gvr' ns' t) (Deleted x) t)"
    by (simp_all add: notify_def)
  from watching_notify [OF w st(2) this, where name = name] show ?thesis
    using x by (auto simp: st(3))
qed

lemma watching_Watch:
  assumes "watching gvr ns w m t"
  shows "watching gvr ns w m (snd (tracker_Watch gvr' ns' t))"
proof -
  have "stored gvr (snd (tracker_Watch gvr' ns' t)) = stored gvr t" for gvr
    by (simp add: tracker_Watch_def Let_def stored_def objects_at_def fun_eq_iff)
  moreover have "tracker_inv (snd (tracker_Watch gvr' ns' t)) = tracker_inv t"
    by (simp add: tracker_Watch_def Let_def tracker_inv_def objects_at_def)
  ultimately show ?thesis
    using assms
    by (auto simp: watching_def watchers_ok_def view_def tracker_Watch_def Let_def fun_eq_iff
        less_Suc_eq)
qed

lemma watching_start:
  assumes "tracker_inv t" "watchers_ok t" "tracker_Watch gvr ns t = (w, t')"
  shows "watching gvr ns w (view gvr ns t) t'"
proof -
  have "w = tr_nextWatcher t" "t' = snd (tracker_Watch gvr ns t)"
    using assms(3) by (auto simp: tracker_Watch_def Let_def)
  moreover have "stored gvr (snd (tracker_Watch gvr ns t)) = stored gvr t"
    by (simp add: tracker_Watch_def Let_def stored_def objects_at_def fun_eq_iff)
  ultimately show ?thesis
    using assms(1,2)
    by (fastforce simp: watching_def watchers_ok_def view_def tracker_Watch_def Let_def fun_eq_iff
        less_Suc_eq tracker_inv_def objects_at_def replay_def)
qed

lemma watching_steps: "tracker_step\<^sup>*\<^sup>* t t' \<Longrightarrow> watching gvr ns w m t \<Longrightarrow> watching gvr ns w m t'"
proof (induction rule: rtranclp_induct)
  case (step t' t'')
  from step.hyps(2) step.IH [OF step.prems] show ?case
    by cases (auto intro: watching_Create watching_Update watching_Delete watching_Watch)
qed

end
