(* ===== verification/Schemes.thy ===== *)
theory Schemes
  imports MeshTypes
begin

text \<open>
  The schemes: which kinds the packages of the repository register, and in which order
  (\<open>pkg/apis/mesh/v1alpha1/register.go\<close>, \<open>versioned/scheme/register.go\<close>, \<open>versioned/fake/register.go\<close>;
  \<open>vendor/k8s.io/apimachinery/pkg/runtime/scheme_builder.go\<close>, \<open>apis/meta/v1/register.go\<close>). A scheme is
  the list of kinds it knows; conversion functions, defaults and the Go types of the kinds are left
  out. Proved is what the two schemes of the clientsets know.
\<close>

type_synonym scheme = "GroupVersionKind list"
type_synonym scheme_fn = "scheme \<Rightarrow> api_error option \<times> scheme"

text \<open>The constants are those of \<open>metav1\<close>.\<close>

definition AddToGroupVersion :: "GroupVersion \<Rightarrow> scheme \<Rightarrow> scheme" where
  "AddToGroupVersion gv scheme = scheme @
     [WithKind gv ''WatchEvent'',
      WithKind \<lparr>gv_Group = gv_Group gv, gv_Version = ''__internal''\<rparr> ''WatchEvent''] @
     map (WithKind gv) [''ListOptions'', ''ExportOptions'', ''GetOptions'', ''DeleteOptions''] @
     map (WithKind \<lparr>gv_Group = [], gv_Version = ''v1''\<rparr>)
       [''Status'', ''APIVersions'', ''APIGroupList'', ''APIGroup'', ''APIResourceList'']"

section \<open>The builder\<close>

definition SchemeBuilder_Register :: "scheme_fn list \<Rightarrow> scheme_fn list \<Rightarrow> scheme_fn list" where
  "SchemeBuilder_Register sb funcs = sb @ funcs"

definition NewSchemeBuilder :: "scheme_fn list \<Rightarrow> scheme_fn list" where
  "NewSchemeBuilder funcs = SchemeBuilder_Register [] funcs"

fun SchemeBuilder_AddToScheme :: "scheme_fn list \<Rightarrow> scheme_fn" where
  "SchemeBuilder_AddToScheme [] s = (None, s)"
| "SchemeBuilder_AddToScheme (f # sb) s =
     (case f s of (Some err, s') \<Rightarrow> (Some err, s') | (None, s') \<Rightarrow> SchemeBuilder_AddToScheme sb s')"

section \<open>The mesh group\<close>

definition addKnownTypes :: scheme_fn where
  "addKnownTypes scheme =
     (None, AddToGroupVersion SchemeGroupVersion (scheme @
        map (WithKind SchemeGroupVersion) [''Configuration'', ''ConfigurationList'', ''Service'', ''ServiceList'']))"

definition mesh_SchemeBuilder :: "scheme_fn list" where
  "mesh_SchemeBuilder = NewSchemeBuilder [addKnownTypes]"

definition mesh_AddToScheme :: scheme_fn where
  "mesh_AddToScheme = SchemeBuilder_AddToScheme mesh_SchemeBuilder"

section \<open>The schemes of the clientsets\<close>

text \<open>Both packages fill their scheme when they are loaded, and drop the error of the registration.\<close>

definition scheme_AddToScheme :: "scheme \<Rightarrow> scheme" where
  "scheme_AddToScheme scheme = snd (mesh_AddToScheme scheme)"

definition scheme_init :: scheme where
  "scheme_init = scheme_AddToScheme (AddToGroupVersion \<lparr>gv_Group = [], gv_Version = ''v1''\<rparr> [])"

definition fake_AddToScheme :: "scheme \<Rightarrow> scheme" where
  "fake_AddToScheme scheme = snd (mesh_AddToScheme scheme)"

definition fake_scheme_init :: scheme where
  "fake_scheme_init = fake_AddToScheme (AddToGroupVersion \<lparr>gv_Group = [], gv_Version = ''v1''\<rparr> [])"

lemmas scheme_defs = scheme_init_def scheme_AddToScheme_def fake_scheme_init_def fake_AddToScheme_def
  mesh_AddToScheme_def mesh_SchemeBuilder_def NewSchemeBuilder_def SchemeBuilder_Register_def
  AddToGroupVersion_def addKnownTypes_def

lemma mesh_AddToScheme_succeeds: "fst (mesh_AddToScheme s) = None"
  by (simp add: scheme_defs)

lemma fake_scheme_eq: "fake_scheme_init = scheme_init"
  by (simp add: scheme_init_def fake_scheme_init_def scheme_AddToScheme_def fake_AddToScheme_def)

lemma scheme_init_knows:
  "WithKind SchemeGroupVersion k \<in> set scheme_init \<longleftrightarrow>
     k \<in> {''Configuration'', ''ConfigurationList'', ''Service'', ''ServiceList'', ''WatchEvent'',
          ''ListOptions'', ''ExportOptions'', ''GetOptions'', ''DeleteOptions''}"
  by (auto simp: scheme_defs WithKind_def SchemeGroupVersion_def GroupName_def)

text \<open>Nothing is registered outside the mesh group and the core group.\<close>

lemma scheme_groups: "gvk \<in> set scheme_init \<Longrightarrow> gvk_Group gvk = ''mesh.lite.io'' \<or> gvk_Group gvk = []"
  by (auto simp: scheme_defs WithKind_def SchemeGroupVersion_def GroupName_def)

end
