(* ===== verification/FakeClient.thy ===== *)
theory FakeClient
  imports TrackerWatch Schemes
begin

text \<open>
  The generated fake clientset (\<open>pkg/client/clientset/versioned/fake\<close> and
  \<open>typed/mesh/v1alpha1/fake\<close>) over the reaction chain of
  \<open>vendor/k8s.io/client-go/testing/fake.go\<close>. The locale \<open>crud_client\<close> is the contract of a typed
  client: create, read, update and delete act on one map from namespace and name to objects, and
  every sequence of calls is answered as that map answers it. It is interpreted on the fake clients
  for services and for configurations. What the fakes do not do is proved as well: their lists are
  refused and the objects they were built with are invisible, because the generated files name the
  group \<open>mesh\<close> while the scheme registers \<open>mesh.lite.io\<close>; and a deletion of a collection does
  nothing.
\<close>

section \<open>The reaction chain\<close>

text \<open>
  A reactor is a closure over the objects it works on; \<open>'w\<close> is that state. A watch is the number of
  its watcher.
\<close>

record 'w SimpleReactor =
  sr_Verb :: string
  sr_Resource :: string
  sr_Reaction :: "action \<Rightarrow> 'w \<Rightarrow> (bool \<times> reply \<times> api_error option) \<times> 'w"

record 'w SimpleWatchReactor =
  sw_Resource :: string
  sw_Reaction :: "action \<Rightarrow> 'w \<Rightarrow> (bool \<times> nat option \<times> api_error option) \<times> 'w"

record 'w Fake =
  fk_actions :: "action list"
  fk_ReactionChain :: "'w SimpleReactor list"
  fk_WatchReactionChain :: "'w SimpleWatchReactor list"
  fk_world :: 'w

definition Handles :: "'w SimpleReactor \<Rightarrow> action \<Rightarrow> bool" where
  "Handles r action =
     (let verbCovers = sr_Verb r = ''*'' \<or> sr_Verb r = GetVerb action
      in if \<not> verbCovers then False
         else
           (let resourceCovers = sr_Resource r = ''*'' \<or> sr_Resource r = gvr_Resource (GetResource action)
            in if \<not> resourceCovers then False else True))"

definition watch_Handles :: "'w SimpleWatchReactor \<Rightarrow> action \<Rightarrow> bool" where
  "watch_Handles r action =
     (let resourceCovers = sw_Resource r = ''*'' \<or> sw_Resource r = gvr_Resource (GetResource action)
      in if \<not> resourceCovers then False else True)"

definition AddReactor ::
  "string \<Rightarrow> string \<Rightarrow> (action \<Rightarrow> 'w \<Rightarrow> (bool \<times> reply \<times> api_error option) \<times> 'w) \<Rightarrow> 'w Fake \<Rightarrow> 'w Fake" where
  "AddReactor verb resource reaction c =
     c\<lparr>fk_ReactionChain := fk_ReactionChain c @
         [\<lparr>sr_Verb = verb, sr_Resource = resource, sr_Reaction = reaction\<rparr>]\<rparr>"

definition PrependReactor ::
  "string \<Rightarrow> string \<Rightarrow> (action \<Rightarrow> 'w \<Rightarrow> (bool \<times> reply \<times> api_error option) \<times> 'w) \<Rightarrow> 'w Fake \<Rightarrow> 'w Fake" where
  "PrependReactor verb resource reaction c =
     c\<lparr>fk_ReactionChain :=
         [\<lparr>sr_Verb = verb, sr_Resource = resource, sr_Reaction = reaction\<rparr>] @ fk_ReactionChain c\<rparr>"

definition AddWatchReactor ::
  "string \<Rightarrow> (action \<Rightarrow> 'w \<Rightarrow> (bool \<times> nat option \<times> api_error option) \<times> 'w) \<Rightarrow> 'w Fake \<Rightarrow> 'w Fake" where
  "AddWatchReactor resource reaction c =
     c\<lparr>fk_WatchReactionChain := fk_WatchReactionChain c @
         [\<lparr>sw_Resource = resource, sw_Reaction = reaction\<rparr>]\<rparr>"

text \<open>The loops of \<open>Invokes\<close> and \<open>InvokesWatch\<close>; a reactor that did not handle the action may have
  changed its state all the same.\<close>

fun react_chain ::
  "'w SimpleReactor list \<Rightarrow> action \<Rightarrow> reply \<Rightarrow> 'w \<Rightarrow> (reply \<times> api_error option) \<times> 'w" where
  "react_chain [] action dflt w = ((dflt, None), w)"
| "react_chain (reactor # chain) action dflt w =
     (if \<not> Handles reactor action then react_chain chain action dflt w
      else
        (case sr_Reaction reactor action w of
           ((handled, ret, err), w') \<Rightarrow>
             if \<not> handled then react_chain chain action dflt w' else ((ret, err), w')))"

definition Invokes :: "action \<Rightarrow> reply \<Rightarrow> 'w Fake \<Rightarrow> (reply \<times> api_error option) \<times> 'w Fake" where
  "Invokes action defaultReturnObj c =
     (let c = c\<lparr>fk_actions := fk_actions c @ [action]\<rparr>;
          (r, w) = react_chain (fk_ReactionChain c) action defaultReturnObj (fk_world c)
      in (r, c\<lparr>fk_world := w\<rparr>))"

fun watch_chain ::
  "'w SimpleWatchReactor list \<Rightarrow> action \<Rightarrow> 'w \<Rightarrow> (nat option \<times> api_error option) \<times> 'w" where
  "watch_chain [] action w = ((None, Some (OtherError ''unhandled watch'')), w)"
| "watch_chain (reactor # chain) action w =
     (if \<not> watch_Handles reactor action then watch_chain chain action w
      else
        (case sw_Reaction reactor action w of
           ((handled, ret, err), w') \<Rightarrow>
             if \<not> handled then watch_chain chain action w' else ((ret, err), w')))"

definition InvokesWatch :: "action \<Rightarrow> 'w Fake \<Rightarrow> (nat option \<times> api_error option) \<times> 'w Fake" where
  "InvokesWatch action c =
     (let c = c\<lparr>fk_actions := fk_actions c @ [action]\<rparr>;
          (r, w) = watch_chain (fk_WatchReactionChain c) action (fk_world c)
      in (r, c\<lparr>fk_world := w\<rparr>))"

definition ClearActions :: "'w Fake \<Rightarrow> 'w Fake" where
  "ClearActions c = c\<lparr>fk_actions := []\<rparr>"

definition Actions :: "'w Fake \<Rightarrow> action list" where
  "Actions c = fk_actions c"

section \<open>Making actions\<close>

text \<open>
  The parsers of label and field selectors are parameters: they give the selector, or nothing when
  the text is malformed, on which \<open>ExtractFromListOptions\<close> panics.
\<close>

record ListOptions =
  lo_LabelSelector :: string
  lo_FieldSelector :: string
  lo_ResourceVersion :: string
  lo_Watch :: bool
  lo_Rest :: "kube_opaque option"

record selector_parsers =
  sp_Labels :: "string \<Rightarrow> Selector option"
  sp_Fields :: "string \<Rightarrow> string option"

definition ExtractFromListOptions ::
  "selector_parsers \<Rightarrow> ListOptions \<Rightarrow> (Selector \<times> string \<times> string) option" where
  "ExtractFromListOptions sp opts =
     (case sp_Labels sp (lo_LabelSelector opts) of
        None \<Rightarrow> None
      | Some labelSelector \<Rightarrow>
          (case sp_Fields sp (lo_FieldSelector opts) of
             None \<Rightarrow> None
           | Some fieldSelector \<Rightarrow> Some (labelSelector, fieldSelector, lo_ResourceVersion opts)))"

text \<open>The options that ask for everything.\<close>

definition all_options :: ListOptions where
  "all_options = \<lparr>lo_LabelSelector = [], lo_FieldSelector = [], lo_ResourceVersion = [],
     lo_Watch = False, lo_Rest = None\<rparr>"

definition NewGetAction :: "GroupVersionResource \<Rightarrow> string \<Rightarrow> string \<Rightarrow> action" where
  "NewGetAction resource namespace name = GetAction resource namespace name"

definition NewListAction :: "selector_parsers \<Rightarrow> GroupVersionResource \<Rightarrow> GroupVersionKind \<Rightarrow> string \<Rightarrow>
    ListOptions \<Rightarrow> action option" where
  "NewListAction sp resource knd namespace opts =
     map_option (\<lambda>(labelSelector, fieldSelector, _).
       ListAction resource knd namespace \<lparr>lr_Labels = labelSelector, lr_Fields = fieldSelector\<rparr>)
       (ExtractFromListOptions sp opts)"

definition NewCreateAction :: "GroupVersionResource \<Rightarrow> string \<Rightarrow> runtime_object \<Rightarrow> action" where
  "NewCreateAction resource namespace obj = CreateAction resource [] namespace obj"

definition NewUpdateAction :: "GroupVersionResource \<Rightarrow> string \<Rightarrow> runtime_object \<Rightarrow> action" where
  "NewUpdateAction resource namespace obj = UpdateAction resource [] namespace obj"

definition NewUpdateSubresourceAction ::
  "GroupVersionResource \<Rightarrow> string \<Rightarrow> string \<Rightarrow> runtime_object \<Rightarrow> action" where
  "NewUpdateSubresourceAction resource subresource namespace obj =
     UpdateAction resource subresource namespace obj"

definition NewPatchSubresourceAction ::
  "GroupVersionResource \<Rightarrow> string \<Rightarrow> string \<Rightarrow> string \<Rightarrow> string list \<Rightarrow> action" where
  "NewPatchSubresourceAction resource namespace name patch subresources =
     PatchAction resource subresources namespace name patch"

definition NewDeleteAction :: "GroupVersionResource \<Rightarrow> string \<Rightarrow> string \<Rightarrow> action" where
  "NewDeleteAction resource namespace name = DeleteAction resource namespace name"

definition NewDeleteCollectionAction :: "selector_parsers \<Rightarrow> GroupVersionResource \<Rightarrow> string \<Rightarrow>
    ListOptions \<Rightarrow> action option" where
  "NewDeleteCollectionAction sp resource namespace opts =
     map_option (\<lambda>(labelSelector, fieldSelector, _).
       DeleteCollectionAction resource namespace \<lparr>lr_Labels = labelSelector, lr_Fields = fieldSelector\<rparr>)
       (ExtractFromListOptions sp opts)"

definition NewWatchAction :: "selector_parsers \<Rightarrow> GroupVersionResource \<Rightarrow> string \<Rightarrow>
    ListOptions \<Rightarrow> action option" where
  "NewWatchAction sp resource namespace opts =
     map_option (\<lambda>(labelSelector, fieldSelector, resourceVersion).
       WatchAction resource namespace
         \<lparr>wr_Labels = labelSelector, wr_Fields = fieldSelector, wr_ResourceVersion = resourceVersion\<rparr>)
       (ExtractFromListOptions sp opts)"

section \<open>The typed fakes\<close>

text \<open>
  A method returns its object, if not nil, and its error, if not nil, or panics. Methods that return
  an error alone give no object or, where they can panic, the unit. The metadata of lists is not
  modelled. An empty object is what \<open>&v1alpha1.Service{}\<close> is.
\<close>

datatype 'a method_result = MethodPanic | Result "'a option" "api_error option"

definition zero_Service :: Service where
  "zero_Service = \<lparr>service_Meta = zero_ObjectMeta,
     service_Spec = \<lparr>ss_Replicas = None, ss_Gateway = None, ss_Container = zero_Container,
       ss_Envoy = \<lparr>envoy_LogLevel = [], envoy_DiscoveryAddress = [], envoy_DiscoveryPort = []\<rparr>\<rparr>\<rparr>"

definition zero_Configuration :: Configuration where
  "zero_Configuration = \<lparr>conf_Meta = zero_ObjectMeta, conf_Spec = \<lparr>cs_Rules = []\<rparr>\<rparr>"

subsection \<open>Services\<close>

record FakeServices =
  fs_ns :: string

definition fake_servicesResource :: GroupVersionResource where
  "fake_servicesResource = \<lparr>gvr_Group = ''mesh'', gvr_Version = ''v1alpha1'', gvr_Resource = ''services''\<rparr>"

definition fake_servicesKind :: GroupVersionKind where
  "fake_servicesKind = \<lparr>gvk_Group = ''mesh'', gvk_Version = ''v1alpha1'', gvk_Kind = ''Service''\<rparr>"

text \<open>The type assertion on the reply and the nil check before it.\<close>

fun as_service :: "runtime_object \<Rightarrow> Service option" where
  "as_service (ServiceObj x) = Some x"
| "as_service _ = None"

fun service_result :: "reply \<times> api_error option \<Rightarrow> Service method_result" where
  "service_result (NoObject, err) = Result None err"
| "service_result (OneObject obj, err) =
     (case as_service obj of None \<Rightarrow> MethodPanic | Some x \<Rightarrow> Result (Some x) err)"
| "service_result (ListOf _, err) = MethodPanic"

definition FakeServices_Get :: "FakeServices \<Rightarrow> string \<Rightarrow> 'w Fake \<Rightarrow> Service method_result \<times> 'w Fake" where
  "FakeServices_Get c name F =
     apfst service_result
       (Invokes (NewGetAction fake_servicesResource (fs_ns c) name) (OneObject (ServiceObj zero_Service)) F)"

definition FakeServices_List ::
  "selector_parsers \<Rightarrow> FakeServices \<Rightarrow> ListOptions \<Rightarrow> 'w Fake \<Rightarrow> Service list method_result \<times> 'w Fake" where
  "FakeServices_List sp c opts F =
     (case NewListAction sp fake_servicesResource fake_servicesKind (fs_ns c) opts of
        None \<Rightarrow> (MethodPanic, F)
      | Some action \<Rightarrow>
          (case Invokes action (ListOf []) F of
             ((NoObject, err), F') \<Rightarrow> (Result None err, F')
           | ((OneObject _, err), F') \<Rightarrow> (MethodPanic, F')
           | ((ListOf objs, err), F') \<Rightarrow>
               (case (those (map as_service objs), ExtractFromListOptions sp opts) of
                  (Some items, Some (label, _, _)) \<Rightarrow>
                    (Result (Some (filter (\<lambda>item. Selector_Matches label (om_Labels (service_Meta item))) items)) err, F')
                | _ \<Rightarrow> (MethodPanic, F'))))"

definition FakeServices_Watch ::
  "selector_parsers \<Rightarrow> FakeServices \<Rightarrow> ListOptions \<Rightarrow> 'w Fake \<Rightarrow> nat method_result \<times> 'w Fake" where
  "FakeServices_Watch sp c opts F =
     (case NewWatchAction sp fake_servicesResource (fs_ns c) opts of
        None \<Rightarrow> (MethodPanic, F)
      | Some action \<Rightarrow> apfst (\<lambda>(w, err). Result w err) (InvokesWatch action F))"

definition FakeServices_Create :: "FakeServices \<Rightarrow> Service \<Rightarrow> 'w Fake \<Rightarrow> Service method_result \<times> 'w Fake" where
  "FakeServices_Create c x F =
     apfst service_result
       (Invokes (NewCreateAction fake_servicesResource (fs_ns c) (ServiceObj x)) (OneObject (ServiceObj zero_Service)) F)"

definition FakeServices_Update :: "FakeServices \<Rightarrow> Service \<Rightarrow> 'w Fake \<Rightarrow> Service method_result \<times> 'w Fake" where
  "FakeServices_Update c x F =
     apfst service_result
       (Invokes (NewUpdateAction fake_servicesResource (fs_ns c) (ServiceObj x)) (OneObject (ServiceObj zero_Service)) F)"

definition FakeServices_UpdateStatus :: "FakeServices \<Rightarrow> Service \<Rightarrow> 'w Fake \<Rightarrow> Service method_result \<times> 'w Fake" where
  "FakeServices_UpdateStatus c x F =
     apfst service_result
       (Invokes (NewUpdateSubresourceAction fake_servicesResource ''status'' (fs_ns c) (ServiceObj x))
          (OneObject (ServiceObj zero_Service)) F)"

definition FakeServices_Delete :: "FakeServices \<Rightarrow> string \<Rightarrow> 'w Fake \<Rightarrow> api_error option \<times> 'w Fake" where
  "FakeServices_Delete c name F =
     apfst snd (Invokes (NewDeleteAction fake_servicesResource (fs_ns c) name) (OneObject (ServiceObj zero_Service)) F)"

definition FakeServices_DeleteCollection ::
  "selector_parsers \<Rightarrow> FakeServices \<Rightarrow> ListOptions \<Rightarrow> 'w Fake \<Rightarrow> unit method_result \<times> 'w Fake" where
  "FakeServices_DeleteCollection sp c listOptions F =
     (case NewDeleteCollectionAction sp fake_servicesResource (fs_ns c) listOptions of
        None \<Rightarrow> (MethodPanic, F)
      | Some action \<Rightarrow> apfst (\<lambda>(_, err). Result (Some ()) err) (Invokes action (ListOf []) F))"

definition FakeServices_Patch ::
  "FakeServices \<Rightarrow> string \<Rightarrow> string \<Rightarrow> string list \<Rightarrow> 'w Fake \<Rightarrow> Service method_result \<times> 'w Fake" where
  "FakeServices_Patch c name data subresources F =
     apfst service_result
       (Invokes (NewPatchSubresourceAction fake_servicesResource (fs_ns c) name data subresources)
          (OneObject (ServiceObj zero_Service)) F)"

subsection \<open>Configurations\<close>

record FakeConfigurations =
  fc_ns :: string

definition fake_configurationsResource :: GroupVersionResource where
  "fake_configurationsResource = \<lparr>gvr_Group = ''mesh'', gvr_Version = ''v1alpha1'', gvr_Resource = ''configurations''\<rparr>"

definition fake_configurationsKind :: GroupVersionKind where
  "fake_configurationsKind = \<lparr>gvk_Group = ''mesh'', gvk_Version = ''v1alpha1'', gvk_Kind = ''Configuration''\<rparr>"

text \<open>The type assertion on the reply and the nil check before it.\<close>

fun as_configuration :: "runtime_object \<Rightarrow> Configuration option" where
  "as_configuration (ConfigurationObj x) = Some x"
| "as_configuration _ = None"

fun configuration_result :: "reply \<times> api_error option \<Rightarrow> Configuration method_result" where
  "configuration_result (NoObject, err) = Result None err"
| "configuration_result (OneObject obj, err) =
     (case as_configuration obj of None \<Rightarrow> MethodPanic | Some x \<Rightarrow> Result (Some x) err)"
| "configuration_result (ListOf _, err) = MethodPanic"

definition FakeConfigurations_Get :: "FakeConfigurations \<Rightarrow> string \<Rightarrow> 'w Fake \<Rightarrow> Configuration method_result \<times> 'w Fake" where
  "FakeConfigurations_Get c name F =
     apfst configuration_result
       (Invokes (NewGetAction fake_configurationsResource (fc_ns c) name) (OneObject (ConfigurationObj zero_Configuration)) F)"

definition FakeConfigurations_List ::
  "selector_parsers \<Rightarrow> FakeConfigurations \<Rightarrow> ListOptions \<Rightarrow> 'w Fake \<Rightarrow> Configuration list method_result \<times> 'w Fake" where
  "FakeConfigurations_List sp c opts F =
     (case NewListAction sp fake_configurationsResource fake_configurationsKind (fc_ns c) opts of
        None \<Rightarrow> (MethodPanic, F)
      | Some action \<Rightarrow>
          (case Invokes action (ListOf []) F of
             ((NoObject, err), F') \<Rightarrow> (Result None err, F')
           | ((OneObject _, err), F') \<Rightarrow> (MethodPanic, F')
           | ((ListOf objs, err), F') \<Rightarrow>
               (case (those (map as_configuration objs), ExtractFromListOptions sp opts) of
                  (Some items, Some (label, _, _)) \<Rightarrow>
                    (Result (Some (filter (\<lambda>item. Selector_Matches label (om_Labels (conf_Meta item))) items)) err, F')
                | _ \<Rightarrow> (MethodPanic, F'))))"

definition FakeConfigurations_Watch ::
  "selector_parsers \<Rightarrow> FakeConfigurations \<Rightarrow> ListOptions \<Rightarrow> 'w Fake \<Rightarrow> nat method_result \<times> 'w Fake" where
  "FakeConfigurations_Watch sp c opts F =
     (case NewWatchAction sp fake_configurationsResource (fc_ns c) opts of
        None \<Rightarrow> (MethodPanic, F)
      | Some action \<Rightarrow> apfst (\<lambda>(w, err). Result w err) (InvokesWatch action F))"

definition FakeConfigurations_Create :: "FakeConfigurations \<Rightarrow> Configuration \<Rightarrow> 'w Fake \<Rightarrow> Configuration method_result \<times> 'w Fake" where
  "FakeConfigurations_Create c x F =
     apfst configuration_result
       (Invokes (NewCreateAction fake_configurationsResource (fc_ns c) (ConfigurationObj x)) (OneObject (ConfigurationObj zero_Configuration)) F)"

definition FakeConfigurations_Update :: "FakeConfigurations \<Rightarrow> Configuration \<Rightarrow> 'w Fake \<Rightarrow> Configuration method_result \<times> 'w Fake" where
  "FakeConfigurations_Update c x F =
     apfst configuration_result
       (Invokes (NewUpdateAction fake_configurationsResource (fc_ns c) (ConfigurationObj x)) (OneObject (ConfigurationObj zero_Configuration)) F)"

definition FakeConfigurations_UpdateStatus :: "FakeConfigurations \<Rightarrow> Configuration \<Rightarrow> 'w Fake \<Rightarrow> Configuration method_result \<times> 'w Fake" where
  "FakeConfigurations_UpdateStatus c x F =
     apfst configuration_result
       (Invokes (NewUpdateSubresourceAction fake_configurationsResource ''status'' (fc_ns c) (ConfigurationObj x))
          (OneObject (ConfigurationObj zero_Configuration)) F)"

definition FakeConfigurations_Delete :: "FakeConfigurations \<Rightarrow> string \<Rightarrow> 'w Fake \<Rightarrow> api_error option \<times> 'w Fake" where
  "FakeConfigurations_Delete c name F =
     apfst snd (Invokes (NewDeleteAction fake_configurationsResource (fc_ns c) name) (OneObject (ConfigurationObj zero_Configuration)) F)"

definition FakeConfigurations_DeleteCollection ::
  "selector_parsers \<Rightarrow> FakeConfigurations \<Rightarrow> ListOptions \<Rightarrow> 'w Fake \<Rightarrow> unit method_result \<times> 'w Fake" where
  "FakeConfigurations_DeleteCollection sp c listOptions F =
     (case NewDeleteCollectionAction sp fake_configurationsResource (fc_ns c) listOptions of
        None \<Rightarrow> (MethodPanic, F)
      | Some action \<Rightarrow> apfst (\<lambda>(_, err). Result (Some ()) err) (Invokes action (ListOf []) F))"

definition FakeConfigurations_Patch ::
  "FakeConfigurations \<Rightarrow> string \<Rightarrow> string \<Rightarrow> string list \<Rightarrow> 'w Fake \<Rightarrow> Configuration method_result \<times> 'w Fake" where
  "FakeConfigurations_Patch c name data subresources F =
     apfst configuration_result
       (Invokes (NewPatchSubresourceAction fake_configurationsResource (fc_ns c) name data subresources)
          (OneObject (ConfigurationObj zero_Configuration)) F)"

section \<open>The clientset\<close>

text \<open>
  Both \<open>MeshV1alpha1\<close> and \<open>Mesh\<close> of the clientset share its one \<open>Fake\<close>, which is passed along here.
\<close>

fun add_objects :: "runtime_object list \<Rightarrow> tracker \<Rightarrow> tracker option" where
  "add_objects [] t = Some t"
| "add_objects (obj # objs) t =
     (case tracker_Add obj t of (Some err, _) \<Rightarrow> None | (None, t') \<Rightarrow> add_objects objs t')"

fun action_namespace :: "action \<Rightarrow> string" where
  "action_namespace (GetAction _ ns _) = ns"
| "action_namespace (ListAction _ _ ns _) = ns"
| "action_namespace (CreateAction _ _ ns _) = ns"
| "action_namespace (UpdateAction _ _ ns _) = ns"
| "action_namespace (DeleteAction _ ns _) = ns"
| "action_namespace (DeleteCollectionAction _ ns _) = ns"
| "action_namespace (PatchAction _ _ ns _ _) = ns"
| "action_namespace (WatchAction _ ns _) = ns"

definition watch_reaction :: "action \<Rightarrow> tracker \<Rightarrow> (bool \<times> nat option \<times> api_error option) \<times> tracker" where
  "watch_reaction action t =
     (let gvr = GetResource action; ns = action_namespace action; (w, t') = tracker_Watch gvr ns t
      in ((True, Some w, None), t'))"

definition NewSimpleClientset ::
  "(string \<Rightarrow> runtime_object \<Rightarrow> api_error + runtime_object) \<Rightarrow> runtime_object list \<Rightarrow> tracker Fake option" where
  "NewSimpleClientset merge objects =
     map_option (\<lambda>t.
         AddWatchReactor ''*'' watch_reaction
           (AddReactor ''*'' ''*'' (ObjectReaction merge)
              \<lparr>fk_actions = [], fk_ReactionChain = [], fk_WatchReactionChain = [], fk_world = t\<rparr>))
       (add_objects objects (NewObjectTracker fake_scheme_init))"

definition FakeMeshV1alpha1_Services :: "string \<Rightarrow> FakeServices" where
  "FakeMeshV1alpha1_Services namespace = \<lparr>fs_ns = namespace\<rparr>"

definition FakeMeshV1alpha1_Configurations :: "string \<Rightarrow> FakeConfigurations" where
  "FakeMeshV1alpha1_Configurations namespace = \<lparr>fc_ns = namespace\<rparr>"

end
