(* ===== verification/FakeClientLaws.thy ===== *)
theory FakeClientLaws
  imports FakeClient
begin

text \<open>
  The contract of a typed client (locale \<open>crud_client\<close>) and what the generated fakes make of it:
  \<open>typed_fake\<close> collects what the two typed fakes have in common, and gives the contract by
  \<open>sublocale\<close>; its interpretations are the fakes of services and of configurations.
\<close>

section \<open>The contract\<close>

datatype 'o client_op =
    GetOp string string | CreateOp string 'o | UpdateOp string 'o | DeleteOp string string

datatype 'o client_reply = Got 'o | Gone | Refused api_error

fun reply_of :: "api_error + 'o \<Rightarrow> 'o client_reply" where
  "reply_of (Inr x) = Got x"
| "reply_of (Inl e) = Refused e"

text \<open>
  The reference: one map from namespace and name. A lookup by namespace and name is answered from the
  keys that match, where an empty namespace or name matches any; an object that is created or updated
  gets the namespace of the call when it has none, must otherwise be of that namespace, and the answer is
  a lookup of its name. \<open>meta\<close> reads an object's metadata and \<open>set_ns\<close> sets its namespace.
\<close>

definition key_matches :: "string \<Rightarrow> string \<Rightarrow> string \<times> string \<Rightarrow> bool" where
  "key_matches ns name j \<longleftrightarrow> (ns = [] \<or> fst j = ns) \<and> (name = [] \<or> snd j = name)"

definition matching :: "(string \<times> string \<rightharpoonup> 'o) \<Rightarrow> string \<Rightarrow> string \<Rightarrow> (string \<times> string) set" where
  "matching m ns name = {j \<in> dom m. key_matches ns name j}"

definition spec_lookup :: "GroupResource \<Rightarrow> (string \<times> string \<rightharpoonup> 'o) \<Rightarrow> string \<Rightarrow> string \<Rightarrow> 'o client_reply" where
  "spec_lookup gr m ns name =
     (if matching m ns name = {} then Refused (NewNotFound gr name)
      else if card (matching m ns name) = 1 then Got (the (m (the_elem (matching m ns name))))
      else Refused (OtherError ''more than one object matched''))"

definition in_namespace :: "('o \<Rightarrow> ObjectMeta) \<Rightarrow> (string \<Rightarrow> 'o \<Rightarrow> 'o) \<Rightarrow> string \<Rightarrow> 'o \<Rightarrow> 'o" where
  "in_namespace meta set_ns ns x = (if om_Namespace (meta x) = [] then set_ns ns x else x)"

definition spec_put :: "GroupResource \<Rightarrow> ('o \<Rightarrow> ObjectMeta) \<Rightarrow> (string \<Rightarrow> 'o \<Rightarrow> 'o) \<Rightarrow> bool \<Rightarrow> string \<Rightarrow> 'o \<Rightarrow>
    (string \<times> string \<rightharpoonup> 'o) \<Rightarrow> 'o client_reply \<times> (string \<times> string \<rightharpoonup> 'o)" where
  "spec_put gr meta set_ns replace ns x m =
     (let name = om_Name (meta x); m' = m((ns, name) \<mapsto> in_namespace meta set_ns ns x)
      in if om_Namespace (meta x) \<noteq> [] \<and> om_Namespace (meta x) \<noteq> ns then (Refused (StatusError ReasonBadRequest gr []), m)
         else if replace \<and> m (ns, name) = None then (Refused (NewNotFound gr name), m)
         else if \<not> replace \<and> m (ns, name) \<noteq> None then (Refused (NewAlreadyExists gr name), m)
         else (spec_lookup gr m' ns name, m'))"

fun spec_op :: "GroupResource \<Rightarrow> ('o \<Rightarrow> ObjectMeta) \<Rightarrow> (string \<Rightarrow> 'o \<Rightarrow> 'o) \<Rightarrow> 'o client_op \<Rightarrow>
    (string \<times> string \<rightharpoonup> 'o) \<Rightarrow> 'o client_reply \<times> (string \<times> string \<rightharpoonup> 'o)" where
  "spec_op gr meta set_ns (GetOp ns name) m = (spec_lookup gr m ns name, m)"
| "spec_op gr meta set_ns (CreateOp ns x) m = spec_put gr meta set_ns False ns x m"
| "spec_op gr meta set_ns (UpdateOp ns x) m = spec_put gr meta set_ns True ns x m"
| "spec_op gr meta set_ns (DeleteOp ns name) m =
     (case m (ns, name) of
        None \<Rightarrow> (Refused (NewNotFound gr name), m)
      | Some _ \<Rightarrow> (Gone, m((ns, name) := None)))"

text \<open>With a namespace and a name a lookup is the map's own.\<close>

lemma spec_lookup_named:
  assumes "ns \<noteq> []" "name \<noteq> []"
  shows "spec_lookup gr m ns name = (case m (ns, name) of None \<Rightarrow> Refused (NewNotFound gr name) | Some x \<Rightarrow> Got x)"
proof -
  have "matching m ns name = (if m (ns, name) = None then {} else {(ns, name)})"
    using assms by (auto simp: matching_def key_matches_def)
  then show ?thesis by (simp add: spec_lookup_def split: option.split)
qed

lemma matching_simps [simp]:
  "matching Map.empty ns name = {}"
  "matching (m(j \<mapsto> x)) ns name = (if key_matches ns name j then insert j (matching m ns name) else matching m ns name)"
  "matching (m(j := None)) ns name = matching m ns name - {j}"
  by (auto simp: matching_def)

text \<open>A client is its four methods; \<open>run_ops\<close> runs a script.\<close>

record ('o, 'k) client =
  cl_get :: "string \<Rightarrow> string \<Rightarrow> 'k \<Rightarrow> (api_error + 'o) \<times> 'k"
  cl_create :: "string \<Rightarrow> 'o \<Rightarrow> 'k \<Rightarrow> (api_error + 'o) \<times> 'k"
  cl_update :: "string \<Rightarrow> 'o \<Rightarrow> 'k \<Rightarrow> (api_error + 'o) \<times> 'k"
  cl_delete :: "string \<Rightarrow> string \<Rightarrow> 'k \<Rightarrow> api_error option \<times> 'k"

fun client_exec :: "('o, 'k) client \<Rightarrow> 'o client_op \<Rightarrow> 'k \<Rightarrow> 'o client_reply \<times> 'k" where
  "client_exec c (GetOp ns name) k = apfst reply_of (cl_get c ns name k)"
| "client_exec c (CreateOp ns x) k = apfst reply_of (cl_create c ns x k)"
| "client_exec c (UpdateOp ns x) k = apfst reply_of (cl_update c ns x k)"
| "client_exec c (DeleteOp ns name) k =
     apfst (\<lambda>err. case err of None \<Rightarrow> Gone | Some e \<Rightarrow> Refused e) (cl_delete c ns name k)"

fun run_ops :: "('op \<Rightarrow> 'k \<Rightarrow> 'r \<times> 'k) \<Rightarrow> 'op list \<Rightarrow> 'k \<Rightarrow> 'r list \<times> 'k" where
  "run_ops exec [] k = ([], k)"
| "run_ops exec (op # ops) k =
     (let (r, k') = exec op k; (rs, k'') = run_ops exec ops k' in (r # rs, k''))"

locale crud_client =
  fixes client :: "('o, 'k) client"
    and contents :: "'k \<Rightarrow> (string \<times> string \<rightharpoonup> 'o)"
    and meta :: "'o \<Rightarrow> ObjectMeta"
    and set_ns :: "string \<Rightarrow> 'o \<Rightarrow> 'o"
    and gr :: GroupResource
    and invar :: "'k \<Rightarrow> bool"
  assumes get_law: "invar k \<Longrightarrow>
      \<exists>k'. client_exec client (GetOp ns name) k = (fst (spec_op gr meta set_ns (GetOp ns name) (contents k)), k') \<and>
        invar k' \<and> contents k' = snd (spec_op gr meta set_ns (GetOp ns name) (contents k))"
    and create_law: "invar k \<Longrightarrow>
      \<exists>k'. client_exec client (CreateOp ns x) k = (fst (spec_op gr meta set_ns (CreateOp ns x) (contents k)), k') \<and>
        invar k' \<and> contents k' = snd (spec_op gr meta set_ns (CreateOp ns x) (contents k))"
    and update_law: "invar k \<Longrightarrow>
      \<exists>k'. client_exec client (UpdateOp ns x) k = (fst (spec_op gr meta set_ns (UpdateOp ns x) (contents k)), k') \<and>
        invar k' \<and> contents k' = snd (spec_op gr meta set_ns (UpdateOp ns x) (contents k))"
    and delete_law: "invar k \<Longrightarrow>
      \<exists>k'. client_exec client (DeleteOp ns name) k = (fst (spec_op gr meta set_ns (DeleteOp ns name) (contents k)), k') \<and>
        invar k' \<and> contents k' = snd (spec_op gr meta set_ns (DeleteOp ns name) (contents k))"
begin

lemma exec_refines:
  assumes "invar k"
  shows "\<exists>k'. client_exec client op k = (fst (spec_op gr meta set_ns op (contents k)), k') \<and>
    invar k' \<and> contents k' = snd (spec_op gr meta set_ns op (contents k))"
  using get_law [OF assms] create_law [OF assms] update_law [OF assms] delete_law [OF assms] by (cases op) blast+

lemma run_refines:
  assumes "invar k"
  shows "\<exists>k'. run_ops (client_exec client) ops k = (fst (run_ops (spec_op gr meta set_ns) ops (contents k)), k') \<and>
    invar k' \<and> contents k' = snd (run_ops (spec_op gr meta set_ns) ops (contents k))"
  using assms
proof (induction ops arbitrary: k)
  case (Cons op ops)
  then obtain k1 where k1: "client_exec client op k = (fst (spec_op gr meta set_ns op (contents k)), k1)"
    "invar k1" "contents k1 = snd (spec_op gr meta set_ns op (contents k))"
    using exec_refines by blast
  from Cons.IH [OF k1(2)] obtain k2 where
    "run_ops (client_exec client) ops k1 = (fst (run_ops (spec_op gr meta set_ns) ops (contents k1)), k2)"
    "invar k2" "contents k2 = snd (run_ops (spec_op gr meta set_ns) ops (contents k1))"
    by auto
  with k1 show ?case by (auto simp: Let_def split: prod.splits)
qed simp

end

section \<open>The typed fakes\<close>

fun method_sum :: "'a method_result \<Rightarrow> api_error + 'a" where
  "method_sum (Result (Some x) None) = Inr x"
| "method_sum (Result _ (Some e)) = Inl e"
| "method_sum _ = Inl (OtherError ''no object'')"

fun typed_result :: "(runtime_object \<Rightarrow> 'o option) \<Rightarrow> reply \<times> api_error option \<Rightarrow> 'o method_result" where
  "typed_result unwrap (NoObject, err) = Result None err"
| "typed_result unwrap (OneObject obj, err) =
     (case unwrap obj of None \<Rightarrow> MethodPanic | Some x \<Rightarrow> Result (Some x) err)"
| "typed_result unwrap (ListOf _, err) = MethodPanic"

definition fake_client :: "GroupVersionResource \<Rightarrow> ('o \<Rightarrow> runtime_object) \<Rightarrow>
    (runtime_object \<Rightarrow> 'o option) \<Rightarrow> 'o \<Rightarrow> ('o, tracker Fake) client" where
  "fake_client gvr wrap unwrap zero =
     \<lparr>cl_get = (\<lambda>ns name F. apfst (method_sum \<circ> typed_result unwrap)
        (Invokes (NewGetAction gvr ns name) (OneObject (wrap zero)) F)),
      cl_create = (\<lambda>ns x F. apfst (method_sum \<circ> typed_result unwrap)
        (Invokes (NewCreateAction gvr ns (wrap x)) (OneObject (wrap zero)) F)),
      cl_update = (\<lambda>ns x F. apfst (method_sum \<circ> typed_result unwrap)
        (Invokes (NewUpdateAction gvr ns (wrap x)) (OneObject (wrap zero)) F)),
      cl_delete = (\<lambda>ns name F. apfst snd
        (Invokes (NewDeleteAction gvr ns name) (OneObject (wrap zero)) F))\<rparr>"

definition clientset_ok :: "(string \<Rightarrow> runtime_object \<Rightarrow> api_error + runtime_object) \<Rightarrow> tracker Fake \<Rightarrow> bool" where
  "clientset_ok merge F \<longleftrightarrow>
     fk_ReactionChain F = [\<lparr>sr_Verb = ''*'', sr_Resource = ''*'', sr_Reaction = ObjectReaction merge\<rparr>] \<and>
     fk_WatchReactionChain F = [\<lparr>sw_Resource = ''*'', sw_Reaction = watch_reaction\<rparr>] \<and>
     tracker_inv (fk_world F) \<and> tr_scheme (fk_world F) = fake_scheme_init"

lemma Invokes_ok:
  assumes "clientset_ok merge F"
  shows "Invokes action dflt F =
    (let ((handled, ret, err), t) = ObjectReaction merge action (fk_world F)
     in (if handled then (ret, err) else (dflt, None),
         F\<lparr>fk_actions := fk_actions F @ [action], fk_world := t\<rparr>))"
  using assms by (simp add: Invokes_def clientset_ok_def Handles_def Let_def split: prod.splits)

lemma clientset_ok_step:
  assumes "clientset_ok merge F" "tracker_inv t" "tr_scheme t = fake_scheme_init"
  shows "clientset_ok merge (F\<lparr>fk_actions := as, fk_world := t\<rparr>)"
  using assms by (simp add: clientset_ok_def)

lemma tracker_scheme [simp]:
  "tr_scheme (snd (tracker_Create gvr obj ns t)) = tr_scheme t"
  "tr_scheme (snd (tracker_Update gvr obj ns t)) = tr_scheme t"
  "tr_scheme (snd (tracker_Delete gvr ns name t)) = tr_scheme t"
  by (simp_all add: tracker_Create_def tracker_Update_def tracker_add_def tracker_Delete_def Let_def
      split: option.splits prod.splits)

text \<open>The reactions of the tracker on what it stores.\<close>

lemma obj_key_of: "obj_key x = (obj_ns x, obj_name x)" "fst (obj_key x) = obj_ns x" "snd (obj_key x) = obj_name x"
  by (simp_all add: obj_key_def)

lemma tracker_Get_matching:
  assumes "tracker_inv t"
  shows "reply_of (tracker_Get gvr ns name t) = spec_lookup (gvr_GroupResource gvr) (stored gvr t) ns name"
proof -
  let ?objs = "objects_at t gvr" and ?K = "matching (stored gvr t) ns name"
  let ?L = "filterByNamespaceAndName ?objs ns name"
  have L: "set ?L = {x \<in> set ?objs. key_matches ns name (obj_key x)}"
    by (auto simp: filterByNamespaceAndName_def key_matches_def obj_key_of)
  have dist: "distinct (map obj_key ?objs)" using assms by (simp add: tracker_inv_def)
  have mem: "stored gvr t (obj_key x) = Some x" if "x \<in> set ?objs" for x
  proof -
    from that obtain y where y: "stored gvr t (obj_key x) = Some y" using stored_None_iff by fastforce
    with stored_SomeD that dist have "y = x" by (metis distinct_map inj_onD)
    with y show ?thesis by simp
  qed
  have K: "?K = obj_key ` set ?L"
  proof (rule set_eqI)
    fix j
    show "j \<in> ?K \<longleftrightarrow> j \<in> obj_key ` set ?L"
    proof
      assume "j \<in> ?K"
      then obtain x where "stored gvr t j = Some x" "key_matches ns name j" by (auto simp: matching_def)
      with stored_SomeD [OF this(1)] show "j \<in> obj_key ` set ?L" by (auto simp: L)
    next
      assume "j \<in> obj_key ` set ?L"
      with mem show "j \<in> ?K" by (auto simp: L matching_def)
    qed
  qed
  have "distinct (map obj_key ?L)"
    using dist by (simp add: filterByNamespaceAndName_def distinct_map_filter)
  then have card: "card ?K = length ?L" unfolding K by (metis distinct_card length_map list.set_map)
  have get: "tracker_Get gvr ns name t =
      (if ?L = [] then Inl (NewNotFound (gvr_GroupResource gvr) name)
       else if length ?L = 1 then Inr (hd ?L) else Inl (OtherError ''more than one object matched''))"
    by (cases ?L) (auto simp: tracker_Get_def objects_at_def Let_def filterByNamespaceAndName_def split: option.splits)
  show ?thesis
  proof (cases "length ?L = 1")
    case True
    then obtain x where x: "?L = [x]" by (metis One_nat_def length_0_conv length_Suc_conv)
    then have "x \<in> set ?objs" using L by auto
    with x mem [of x] K show ?thesis by (simp add: get spec_lookup_def)
  next
    case False
    with card K show ?thesis by (auto simp: get spec_lookup_def)
  qed
qed

text \<open>Creation and update in one: what is refused, and what is stored else.\<close>

lemma tracker_put:
  assumes inv: "tracker_inv t" and put: "tracker_add gvr x ns replace t = (r, t')"
  defines "refusal \<equiv>
    (if obj_ns x \<noteq> [] \<and> obj_ns x \<noteq> ns then Some (StatusError ReasonBadRequest (gvr_GroupResource gvr) [])
     else if replace \<and> stored gvr t (ns, obj_name x) = None then Some (NewNotFound (gvr_GroupResource gvr) (obj_name x))
     else if \<not> replace \<and> stored gvr t (ns, obj_name x) \<noteq> None
       then Some (NewAlreadyExists (gvr_GroupResource gvr) (obj_name x))
     else None)"
  shows "r = refusal" "tracker_inv t'" "tr_scheme t' = tr_scheme t"
    "stored gvr t' = (if refusal = None then (stored gvr t)((ns, obj_name x) \<mapsto> placed ns x) else stored gvr t)"
proof -
  have scheme: "tr_scheme t' = tr_scheme t"
    using tracker_scheme(1) [of gvr x ns t] tracker_scheme(2) [of gvr x ns t] put
    by (cases replace) (simp_all add: tracker_Create_def tracker_Update_def)
  have "r = refusal \<and> tracker_inv t' \<and>
    stored gvr t' = (if refusal = None then (stored gvr t)((ns, obj_name x) \<mapsto> placed ns x) else stored gvr t)"
  proof (cases "obj_ns x = ns \<or> obj_ns x = []")
    case False
    then have "tracker_add gvr x ns replace t = (Some (StatusError ReasonBadRequest (gvr_GroupResource gvr) []), t)"
      by (auto simp: tracker_add_def Let_def)
    with False put inv show ?thesis by (auto simp: refusal_def)
  next
    case ns: True
    show ?thesis
    proof (cases "replace \<longleftrightarrow> stored gvr t (ns, obj_name x) = None")
      case True
      then show ?thesis using tracker_add_cases(1,2) [OF ns, of gvr t] put inv ns by (cases replace) (auto simp: refusal_def)
    next
      case False
      have st: "r = None \<and> tracker_inv t' \<and> (\<forall>k. stored gvr t' k = ((stored gvr t)((ns, obj_name x) \<mapsto> placed ns x)) k)"
      proof (cases replace)
        case True
        with False put have "tracker_Update gvr x ns t = (r, t')" "stored gvr t (ns, obj_name x) \<noteq> None"
          by (auto simp: tracker_Update_def)
        from tracker_Update_stored [OF ns this(2) inv this(1)] show ?thesis by auto
      next
        case f: False
        with False put have "tracker_Create gvr x ns t = (r, t')" "stored gvr t (ns, obj_name x) = None"
          by (auto simp: tracker_Create_def)
        from tracker_Create_stored [OF ns this(2) inv this(1)] show ?thesis by auto
      qed
      moreover have "refusal = None" using False ns by (auto simp: refusal_def)
      ultimately show ?thesis by (simp add: fun_eq_iff del: split_paired_All)
    qed
  qed
  with scheme show "r = refusal" "tracker_inv t'" "tr_scheme t' = tr_scheme t"
    "stored gvr t' = (if refusal = None then (stored gvr t)((ns, obj_name x) \<mapsto> placed ns x) else stored gvr t)"
    by blast+
qed

lemma react_delete:
  assumes "tracker_inv t"
  shows "\<exists>t'. ObjectReaction merge (DeleteAction gvr ns name) t =
      ((True, NoObject, if stored gvr t (ns, name) = None
                        then Some (NewNotFound (gvr_GroupResource gvr) name) else None), t') \<and>
    tracker_inv t' \<and> tr_scheme t' = tr_scheme t \<and>
    (\<forall>gvr'. stored gvr' t' = (if gvr' = gvr then (stored gvr t)((ns, name) := None) else stored gvr' t))"
proof -
  obtain r t' where rt: "tracker_Delete gvr ns name t = (r, t')" by force
  note st = tracker_Delete_stored [OF assms rt]
  have "tr_scheme t' = tr_scheme t" using tracker_scheme(3) [of gvr ns name t] rt by simp
  then show ?thesis using rt st by (auto simp: fun_eq_iff simp del: split_paired_All split: option.splits)
qed

text \<open>One collection of the clientset whose objects have one type.\<close>

definition collection :: "GroupVersionResource \<Rightarrow> (runtime_object \<Rightarrow> 'o option) \<Rightarrow> tracker Fake \<Rightarrow>
    (string \<times> string \<rightharpoonup> 'o)" where
  "collection gvr unwrap F = (\<lambda>j. lookup_through gvr unwrap j (fk_world F))"

lemma collection_eq: "stored gvr (fk_world F) = st \<Longrightarrow>
    collection gvr unwrap F = (\<lambda>j. Option.bind (st j) unwrap)"
  by (auto simp: collection_def lookup_through_def)

locale typed_fake =
  fixes gvr :: GroupVersionResource
    and wrap :: "'o \<Rightarrow> runtime_object"
    and unwrap :: "runtime_object \<Rightarrow> 'o option"
    and meta :: "'o \<Rightarrow> ObjectMeta"
    and set_ns :: "string \<Rightarrow> 'o \<Rightarrow> 'o"
    and zero :: 'o
    and merge :: "string \<Rightarrow> runtime_object \<Rightarrow> api_error + runtime_object"
  assumes unwrap_wrap: "unwrap (wrap x) = Some x"
    and wrap_meta: "obj_Meta (wrap x) = meta x"
    and wrap_set_ns: "wrap (set_ns ns x) = SetNamespace ns (wrap x)"
begin

definition ok :: "tracker Fake \<Rightarrow> bool" where
  "ok F \<longleftrightarrow> clientset_ok merge F \<and> typed_at gvr unwrap (fk_world F)"

lemma okD: "ok F \<Longrightarrow> clientset_ok merge F" "ok F \<Longrightarrow> tracker_inv (fk_world F)"
  "ok F \<Longrightarrow> tr_scheme (fk_world F) = fake_scheme_init"
  by (simp_all add: ok_def clientset_ok_def)

lemma ok_stored: "ok F \<Longrightarrow> stored gvr (fk_world F) j = None \<longleftrightarrow> collection gvr unwrap F j = None"
  unfolding ok_def typed_at_def collection_def lookup_through_def
  by (cases "stored gvr (fk_world F) j") (auto simp del: split_paired_All)

lemma ok_after:
  assumes "ok F" "tracker_inv t" "tr_scheme t = tr_scheme (fk_world F)"
    and "\<And>j y. stored gvr t j = Some y \<Longrightarrow> unwrap y = None \<Longrightarrow> stored gvr (fk_world F) j = Some y"
  shows "ok (F\<lparr>fk_actions := as, fk_world := t\<rparr>)"
  unfolding ok_def
proof
  show "clientset_ok merge (F\<lparr>fk_actions := as, fk_world := t\<rparr>)"
    by (rule clientset_ok_step [OF okD(1) [OF assms(1)] assms(2)]) (simp add: assms(3) okD(3) [OF assms(1)])
  from assms(1) have "typed_at gvr unwrap (fk_world F)" by (simp add: ok_def)
  then have "typed_at gvr unwrap t" using assms(4) unfolding typed_at_def by metis
  then show "typed_at gvr unwrap (fk_world (F\<lparr>fk_actions := as, fk_world := t\<rparr>))" by simp
qed

text \<open>The four methods of a typed fake, each against the map.\<close>

lemma placed_wrap: "placed ns (wrap x) = wrap (in_namespace meta set_ns ns x)"
  by (simp add: placed_def in_namespace_def wrap_meta wrap_set_ns)

lemma lookup_reply:
  assumes ok: "ok F"
  shows "reply_of (method_sum (typed_result unwrap (one_object (tracker_Get gvr ns name (fk_world F))))) =
    spec_lookup (gvr_GroupResource gvr) (collection gvr unwrap F) ns name"
proof -
  let ?st = "stored gvr (fk_world F)" and ?m = "collection gvr unwrap F"
  have "dom ?st = dom ?m" unfolding dom_def using ok_stored [OF ok] by simp
  then have K: "matching ?m ns name = matching ?st ns name" by (simp add: matching_def)
  note get = tracker_Get_matching [OF okD(2) [OF ok], of gvr ns name]
  show ?thesis
  proof (cases "tracker_Get gvr ns name (fk_world F)")
    case (Inl e)
    with get show ?thesis by (simp add: one_object_def spec_lookup_def K split: if_splits)
  next
    case (Inr x)
    with get have one: "card (matching ?st ns name) = 1" "matching ?st ns name \<noteq> {}"
      "x = the (?st (the_elem (matching ?st ns name)))" by (auto simp: spec_lookup_def split: if_splits)
    then obtain j where j: "matching ?st ns name = {j}" by (metis card_1_singletonE)
    then have "j \<in> dom ?st" by (auto simp: matching_def)
    with one j have x: "?st j = Some x" by auto
    then obtain y where "?m j = Some y" using ok_stored [OF ok, of j] by fastforce
    moreover from this x have "unwrap x = Some y" by (simp add: collection_def lookup_through_def)
    ultimately show ?thesis using Inr j by (simp add: one_object_def spec_lookup_def K)
  qed
qed

lemma fake_get:
  assumes ok: "ok F"
  shows "\<exists>F'. client_exec (fake_client gvr wrap unwrap zero) (GetOp ns name) F =
      (fst (spec_op (gvr_GroupResource gvr) meta set_ns (GetOp ns name) (collection gvr unwrap F)), F') \<and>
      ok F' \<and> collection gvr unwrap F' =
        snd (spec_op (gvr_GroupResource gvr) meta set_ns (GetOp ns name) (collection gvr unwrap F))"
  using lookup_reply [OF ok] ok_after [OF ok okD(2) [OF ok] refl]
  by (auto simp: fake_client_def NewGetAction_def Invokes_ok [OF okD(1) [OF ok]] collection_def Let_def)

lemma fake_delete:
  assumes ok: "ok F"
  shows "\<exists>F'. client_exec (fake_client gvr wrap unwrap zero) (DeleteOp ns name) F =
      (fst (spec_op (gvr_GroupResource gvr) meta set_ns (DeleteOp ns name) (collection gvr unwrap F)), F') \<and>
      ok F' \<and> collection gvr unwrap F' =
        snd (spec_op (gvr_GroupResource gvr) meta set_ns (DeleteOp ns name) (collection gvr unwrap F))"
proof -
  obtain t where t: "ObjectReaction merge (DeleteAction gvr ns name) (fk_world F) =
      ((True, NoObject, if stored gvr (fk_world F) (ns, name) = None
          then Some (NewNotFound (gvr_GroupResource gvr) name) else None), t)"
    "tracker_inv t" "tr_scheme t = tr_scheme (fk_world F)"
    "stored gvr t = (stored gvr (fk_world F))((ns, name) := None)"
    using react_delete [OF okD(2) [OF ok], of merge gvr ns name] by auto
  have "ok (F\<lparr>fk_actions := fk_actions F @ [DeleteAction gvr ns name], fk_world := t\<rparr>)"
    by (rule ok_after [OF ok t(2,3)]) (simp add: t(4) split: if_splits)
  moreover have "collection gvr unwrap (F\<lparr>fk_actions := as, fk_world := t\<rparr>) =
      (collection gvr unwrap F)((ns, name) := None)" for as
    by (auto simp: collection_def lookup_through_def t(4))
  ultimately show ?thesis
    using ok_stored [OF ok, of "(ns, name)"]
    by (auto simp: fake_client_def NewDeleteAction_def Invokes_ok [OF okD(1) [OF ok]] t(1) Let_def
        simp del: ObjectReaction.simps split: option.splits)
qed

text \<open>What \<open>Create\<close> and \<open>Update\<close> have in common.\<close>

lemma fake_put:
  fixes as :: "action list"
  assumes ok: "ok F" and put: "tracker_add gvr (wrap x) ns replace (fk_world F) = (r, t)"
  defines "F' \<equiv> F\<lparr>fk_actions := as, fk_world := t\<rparr>"
  shows "reply_of (method_sum (typed_result unwrap
        (case r of Some e \<Rightarrow> (NoObject, Some e) | None \<Rightarrow> one_object (tracker_Get gvr ns (om_Name (meta x)) t)))) =
      fst (spec_put (gvr_GroupResource gvr) meta set_ns replace ns x (collection gvr unwrap F)) \<and>
    ok F' \<and> collection gvr unwrap F' =
      snd (spec_put (gvr_GroupResource gvr) meta set_ns replace ns x (collection gvr unwrap F))"
proof -
  note r = tracker_put [OF okD(2) [OF ok] put, unfolded wrap_meta placed_wrap]
  have ok': "ok F'" unfolding F'_def
    by (rule ok_after [OF ok r(2,3)]) (auto simp: r(4) unwrap_wrap split: if_splits)
  have coll: "collection gvr unwrap F' = (if r = None
      then (collection gvr unwrap F)((ns, om_Name (meta x)) \<mapsto> in_namespace meta set_ns ns x) else collection gvr unwrap F)"
    using r(1) by (auto simp: F'_def collection_def lookup_through_def r(4) unwrap_wrap)
  have free: "stored gvr (fk_world F) j = None \<longleftrightarrow> collection gvr unwrap F j = None" for j by (rule ok_stored [OF ok])
  have "fk_world F' = t" by (simp add: F'_def)
  with lookup_reply [OF ok', of ns "om_Name (meta x)"] have look: "r = None \<Longrightarrow>
      reply_of (method_sum (typed_result unwrap (one_object (tracker_Get gvr ns (om_Name (meta x)) t)))) =
      spec_lookup (gvr_GroupResource gvr)
        ((collection gvr unwrap F)((ns, om_Name (meta x)) \<mapsto> in_namespace meta set_ns ns x)) ns (om_Name (meta x))"
    by (simp add: coll)
  show ?thesis
  proof (cases r)
    case None
    with r(1) have "spec_put (gvr_GroupResource gvr) meta set_ns replace ns x (collection gvr unwrap F) =
        (spec_lookup (gvr_GroupResource gvr) (collection gvr unwrap F') ns (om_Name (meta x)), collection gvr unwrap F')"
      by (auto simp: spec_put_def Let_def coll free split: if_splits)
    with None look ok' coll show ?thesis by simp
  next
    case (Some e)
    with r(1) have "spec_put (gvr_GroupResource gvr) meta set_ns replace ns x (collection gvr unwrap F) =
        (Refused e, collection gvr unwrap F)"
      by (auto simp: spec_put_def Let_def free split: if_splits)
    with Some ok' coll show ?thesis by simp
  qed
qed

lemma fake_create:
  assumes ok: "ok F"
  shows "\<exists>F'. client_exec (fake_client gvr wrap unwrap zero) (CreateOp ns x) F =
      (fst (spec_op (gvr_GroupResource gvr) meta set_ns (CreateOp ns x) (collection gvr unwrap F)), F') \<and>
      ok F' \<and> collection gvr unwrap F' =
        snd (spec_op (gvr_GroupResource gvr) meta set_ns (CreateOp ns x) (collection gvr unwrap F))"
proof -
  obtain r t where put: "tracker_add gvr (wrap x) ns False (fk_world F) = (r, t)" by force
  then have "ObjectReaction merge (CreateAction gvr [] ns (wrap x)) (fk_world F) =
      ((True, case r of Some e \<Rightarrow> (NoObject, Some e) | None \<Rightarrow> one_object (tracker_Get gvr ns (om_Name (meta x)) t)), t)"
    by (simp add: tracker_Create_def wrap_meta split: option.split)
  then show ?thesis using fake_put [OF ok put]
    by (auto simp: fake_client_def NewCreateAction_def Invokes_ok [OF okD(1) [OF ok]] Let_def case_prod_beta
        simp del: ObjectReaction.simps)
qed

lemma fake_update:
  assumes ok: "ok F"
  shows "\<exists>F'. client_exec (fake_client gvr wrap unwrap zero) (UpdateOp ns x) F =
      (fst (spec_op (gvr_GroupResource gvr) meta set_ns (UpdateOp ns x) (collection gvr unwrap F)), F') \<and>
      ok F' \<and> collection gvr unwrap F' =
        snd (spec_op (gvr_GroupResource gvr) meta set_ns (UpdateOp ns x) (collection gvr unwrap F))"
proof -
  obtain r t where put: "tracker_add gvr (wrap x) ns True (fk_world F) = (r, t)" by force
  then have "ObjectReaction merge (UpdateAction gvr [] ns (wrap x)) (fk_world F) =
      ((True, case r of Some e \<Rightarrow> (NoObject, Some e) | None \<Rightarrow> one_object (tracker_Get gvr ns (om_Name (meta x)) t)), t)"
    by (simp add: tracker_Update_def wrap_meta split: option.split)
  then show ?thesis using fake_put [OF ok put]
    by (auto simp: fake_client_def NewUpdateAction_def Invokes_ok [OF okD(1) [OF ok]] Let_def case_prod_beta
        simp del: ObjectReaction.simps)
qed

end

sublocale typed_fake \<subseteq> crud_client "fake_client gvr wrap unwrap zero" "collection gvr unwrap" meta set_ns
    "gvr_GroupResource gvr" ok
  by unfold_locales (rule fake_get fake_create fake_update fake_delete; assumption)+

section \<open>Services and configurations\<close>








definition service_set_ns :: "string \<Rightarrow> Service \<Rightarrow> Service" where
  "service_set_ns ns x = x\<lparr>service_Meta := (service_Meta x)\<lparr>om_Namespace := ns\<rparr>\<rparr>"

definition configuration_set_ns :: "string \<Rightarrow> Configuration \<Rightarrow> Configuration" where
  "configuration_set_ns ns x = x\<lparr>conf_Meta := (conf_Meta x)\<lparr>om_Namespace := ns\<rparr>\<rparr>"

interpretation fake_services: typed_fake fake_servicesResource ServiceObj as_service service_Meta
    service_set_ns zero_Service merge for merge
  by unfold_locales (simp_all add: service_set_ns_def)

interpretation fake_configurations: typed_fake fake_configurationsResource ConfigurationObj
    as_configuration conf_Meta configuration_set_ns zero_Configuration merge for merge
  by unfold_locales (simp_all add: configuration_set_ns_def)

text \<open>A clientset whose two collections hold objects of their own type.\<close>

definition fake_ok :: "(string \<Rightarrow> runtime_object \<Rightarrow> api_error + runtime_object) \<Rightarrow> tracker Fake \<Rightarrow> bool" where
  "fake_ok merge F \<longleftrightarrow> clientset_ok merge F \<and>
     typed_at fake_servicesResource as_service (fk_world F) \<and>
     typed_at fake_configurationsResource as_configuration (fk_world F)"

definition fake_service_map :: "tracker Fake \<Rightarrow> (string \<times> string \<rightharpoonup> Service)" where
  "fake_service_map = collection fake_servicesResource as_service"

definition fake_configuration_map :: "tracker Fake \<Rightarrow> (string \<times> string \<rightharpoonup> Configuration)" where
  "fake_configuration_map = collection fake_configurationsResource as_configuration"

lemma fake_ok_D: "fake_ok merge F \<Longrightarrow> fake_services.ok merge F"
  "fake_ok merge F \<Longrightarrow> fake_configurations.ok merge F"
  by (simp_all add: fake_ok_def fake_services.ok_def fake_configurations.ok_def)


definition no_merge :: "string \<Rightarrow> runtime_object \<Rightarrow> api_error + runtime_object" where
  "no_merge data obj = Inr obj"

lemma fresh_clientset: "\<exists>F. NewSimpleClientset merge [] = Some F \<and> fake_ok merge F \<and>
    fake_service_map F = Map.empty \<and> fk_actions F = []"
  by (simp add: NewSimpleClientset_def fake_ok_def clientset_ok_def AddReactor_def AddWatchReactor_def
      NewObjectTracker_def typed_at_def stored_def objects_at_def tracker_inv_def fake_service_map_def
      collection_def lookup_through_def)

definition fake_cart :: Service where
  "fake_cart = zero_Service\<lparr>service_Meta := zero_ObjectMeta\<lparr>om_Namespace := ''shop'', om_Name := ''cart''\<rparr>\<rparr>"



section \<open>What the fakes do not do\<close>

lemmas known_groups = scheme_groups [folded fake_scheme_eq]

lemma guess_group: "gvk_Kind gvk \<noteq> [] \<Longrightarrow> gvr_Group (UnsafeGuessKindToResource gvk) = gvk_Group gvk"
  by (simp add: UnsafeGuessKindToResource_def Let_def WithResource_def gvk_GroupVersion_def)

lemma object_kind_named: "gvk_Kind (object_kind obj) \<noteq> []"
  by (cases obj) (simp_all add: WithKind_def)

text \<open>Adding an object changes the collections of its own group only.\<close>

lemma tracker_Add_group:
  assumes "tracker_Add obj t = (r, t')" "tr_scheme t = fake_scheme_init" "gvr_Group gvr \<noteq> ''mesh.lite.io'' \<and> gvr_Group gvr \<noteq> []"
    "tracker_inv t"
  shows "objects_at t' gvr = objects_at t gvr \<and> tr_scheme t' = tr_scheme t \<and> tracker_inv t'"
proof (cases "object_kind obj \<in> set fake_scheme_init")
  case False
  with assms show ?thesis by (auto simp: tracker_Add_def Let_def)
next
  case True
  define g where "g = (let gvr = UnsafeGuessKindToResource (object_kind obj)
      in if gvr_Version gvr = ''__internal'' then gvr\<lparr>gvr_Version := []\<rparr> else gvr)"
  have "gvr_Group g = ''mesh.lite.io'' \<or> gvr_Group g = []"
    using known_groups [OF True] guess_group [OF object_kind_named [of obj]] by (simp add: g_def Let_def)
  with assms(3) have ne: "gvr \<noteq> g" by auto
  from True assms(1,2) have "tracker_Create g obj (obj_ns obj) t = (r, t')"
    by (simp add: tracker_Add_def tracker_Create_def g_def Let_def)
  then have t': "tracker_add g obj (obj_ns obj) False t = (r, t')" by (simp add: tracker_Create_def)
  have ns: "obj_ns obj = obj_ns obj \<or> obj_ns obj = []" by simp
  show ?thesis
  proof (cases "stored g t (obj_ns obj, obj_name obj) = None")
    case True
    note st = tracker_Create_stored [OF ns True assms(4), unfolded tracker_Create_def, OF t']
    have "objects_at t' gvr = objects_at t gvr" "tr_scheme t' = tr_scheme t"
      using tracker_add_cases(3) [OF ns True] t' ne by auto
    with st show ?thesis by simp
  next
    case False
    with tracker_add_cases(1) [OF ns False] t' assms(4) show ?thesis by auto
  qed
qed

lemma add_objects_group:
  "add_objects objs t = Some t' \<Longrightarrow> tr_scheme t = fake_scheme_init \<Longrightarrow> tracker_inv t \<Longrightarrow>
   gvr_Group gvr \<noteq> ''mesh.lite.io'' \<and> gvr_Group gvr \<noteq> [] \<Longrightarrow>
   objects_at t' gvr = objects_at t gvr \<and> tr_scheme t' = tr_scheme t \<and> tracker_inv t'"
proof (induction objs arbitrary: t)
  case (Cons obj objs)
  from Cons.prems(1) obtain t1 where "tracker_Add obj t = (None, t1)" "add_objects objs t1 = Some t'"
    by (auto split: prod.splits option.splits)
  with Cons.IH [of t1] tracker_Add_group [of obj t None t1 gvr] Cons.prems show ?case by simp
qed simp

lemma fake_groups:
  "gvr_Group fake_servicesResource \<noteq> ''mesh.lite.io'' \<and> gvr_Group fake_servicesResource \<noteq> []"
  "gvr_Group fake_configurationsResource \<noteq> ''mesh.lite.io'' \<and> gvr_Group fake_configurationsResource \<noteq> []"
  by (simp_all add: fake_servicesResource_def fake_configurationsResource_def)

lemma NewSimpleClientset_ok:
  assumes "NewSimpleClientset merge objs = Some F"
  shows "fake_ok merge F \<and> fake_service_map F = Map.empty \<and> fake_configuration_map F = Map.empty"
proof -
  let ?t0 = "NewObjectTracker fake_scheme_init"
  from assms obtain t where t: "add_objects objs ?t0 = Some t"
    and F: "F = AddWatchReactor ''*'' watch_reaction (AddReactor ''*'' ''*'' (ObjectReaction merge)
              \<lparr>fk_actions = [], fk_ReactionChain = [], fk_WatchReactionChain = [], fk_world = t\<rparr>)"
    by (auto simp: NewSimpleClientset_def)
  have t0: "tr_scheme ?t0 = fake_scheme_init" "tracker_inv ?t0" "\<And>gvr. objects_at ?t0 gvr = []"
    by (simp_all add: NewObjectTracker_def tracker_inv_def objects_at_def)
  note at = add_objects_group [OF t t0(1,2)]
  have "stored fake_servicesResource t = (\<lambda>_. None)" "stored fake_configurationsResource t = (\<lambda>_. None)"
    using at [OF fake_groups(1)] at [OF fake_groups(2)] by (simp_all add: stored_def t0(3) fun_eq_iff)
  then show ?thesis
    using at [OF fake_groups(1)] t0(1)
    by (simp add: F AddReactor_def AddWatchReactor_def fake_ok_def clientset_ok_def typed_at_def
        fake_service_map_def fake_configuration_map_def collection_def lookup_through_def)
qed

text \<open>C31: the fake clientset hides what it is given. Whatever objects \<open>NewSimpleClientset\<close> is built
  with, no \<open>Get\<close> of the typed fakes finds any of them, and \<open>List\<close> is refused on every fake clientset:
  the generated files use the group \<open>mesh\<close>, under which the scheme knows no kind and the tracker
  stores nothing.\<close>

theorem fake_group_mismatch:
  assumes "NewSimpleClientset merge objs = Some F" "ns \<noteq> []" "name \<noteq> []"
    and "ExtractFromListOptions sp opts \<noteq> None"
  shows "fst (FakeServices_Get (FakeMeshV1alpha1_Services ns) name F) =
      Result None (Some (NewNotFound (gvr_GroupResource fake_servicesResource) name)) \<and>
    fst (FakeConfigurations_Get (FakeMeshV1alpha1_Configurations ns) name F) =
      Result None (Some (NewNotFound (gvr_GroupResource fake_configurationsResource) name)) \<and>
    (\<exists>e. fst (FakeServices_List sp (FakeMeshV1alpha1_Services ns) opts F) = Result None (Some e)) \<and>
    (\<exists>e. fst (FakeConfigurations_List sp (FakeMeshV1alpha1_Configurations ns) opts F) = Result None (Some e))"
proof -
  from NewSimpleClientset_ok [OF assms(1)] have ok: "clientset_ok merge F" "tracker_inv (fk_world F)"
    "tr_scheme (fk_world F) = fake_scheme_init"
    by (simp_all add: fake_ok_def clientset_ok_def)
  from NewSimpleClientset_ok [OF assms(1)] have
    "stored fake_servicesResource (fk_world F) (ns, name) = None"
    "stored fake_configurationsResource (fk_world F) (ns, name) = None"
    using fake_services.ok_stored [of merge F] fake_configurations.ok_stored [of merge F]
    by (auto simp: fake_ok_D fake_service_map_def fake_configuration_map_def)
  moreover have "fake_servicesKind\<lparr>gvk_Kind := k\<rparr> \<notin> set fake_scheme_init"
    "fake_configurationsKind\<lparr>gvk_Kind := k\<rparr> \<notin> set fake_scheme_init" for k
    using known_groups by (force simp: fake_servicesKind_def fake_configurationsKind_def)+
  ultimately show ?thesis
    using assms(4)
    by (auto simp: FakeServices_Get_def FakeConfigurations_Get_def FakeMeshV1alpha1_Services_def
        FakeMeshV1alpha1_Configurations_def NewGetAction_def Invokes_ok [OF ok(1)] tracker_Get_stored [OF ok(2) assms(2,3)] one_object_def
        FakeServices_List_def FakeConfigurations_List_def NewListAction_def tracker_List_def ok(3)
        fake_servicesKind_def fake_configurationsKind_def Let_def)
qed

text \<open>The file's own use of the fakes: a service put in at construction.\<close>

definition no_selectors :: selector_parsers where
  "no_selectors = \<lparr>sp_Labels = (\<lambda>t. if t = [] then Some [] else None), sp_Fields = (\<lambda>t. Some t)\<rparr>"

lemma preloaded: "\<exists>F. NewSimpleClientset no_merge [ServiceObj fake_cart] = Some F"
  by (simp add: NewSimpleClientset_def tracker_Add_def NewObjectTracker_def scheme_defs WithKind_def
      SchemeGroupVersion_def GroupName_def tracker_add_def fake_cart_def objects_at_def Let_def
      UnsafeGuessKindToResource_def)

theorem fake_group_mismatch_witness:
  "\<exists>F. NewSimpleClientset no_merge [ServiceObj fake_cart] = Some F \<and>
     fst (FakeServices_Get (FakeMeshV1alpha1_Services ''shop'') ''cart'' F) =
       Result None (Some (NewNotFound (gvr_GroupResource fake_servicesResource) ''cart''))"
proof -
  from preloaded obtain F where F: "NewSimpleClientset no_merge [ServiceObj fake_cart] = Some F" by blast
  have "ExtractFromListOptions no_selectors all_options \<noteq> None"
    by (simp add: ExtractFromListOptions_def no_selectors_def all_options_def)
  from fake_group_mismatch [OF F _ _ this, of "''shop''" "''cart''"] F show ?thesis by auto
qed

text \<open>Two methods of the fakes succeed without doing anything. \<open>DeleteCollection\<close> reports no error and
  deletes nothing, whatever it is asked for; and \<open>Patch\<close> of an object that does not exist reports no
  error and returns an empty object.\<close>

theorem fake_silent_methods:
  assumes "fake_ok merge F" "ns \<noteq> []" "name \<noteq> []" "ExtractFromListOptions sp opts \<noteq> None"
    and "fake_service_map F (ns, name) = None"
  shows "fst (FakeServices_DeleteCollection sp (FakeMeshV1alpha1_Services ns) opts F) = Result (Some ()) None \<and>
    fk_world (snd (FakeServices_DeleteCollection sp (FakeMeshV1alpha1_Services ns) opts F)) = fk_world F \<and>
    fst (FakeServices_Patch (FakeMeshV1alpha1_Services ns) name data subs F) = Result (Some zero_Service) None \<and>
    fk_world (snd (FakeServices_Patch (FakeMeshV1alpha1_Services ns) name data subs F)) = fk_world F"
proof -
  from assms(1) have ok: "clientset_ok merge F" "tracker_inv (fk_world F)"
    by (simp_all add: fake_ok_def clientset_ok_def)
  have "stored fake_servicesResource (fk_world F) (ns, name) = None"
    using fake_services.ok_stored [of merge F "(ns, name)"] fake_ok_D(1) [OF assms(1)] assms(5)
    by (auto simp: fake_service_map_def)
  with assms(2-4) show ?thesis
    by (auto simp: FakeServices_DeleteCollection_def FakeServices_Patch_def NewDeleteCollectionAction_def
        NewPatchSubresourceAction_def FakeMeshV1alpha1_Services_def Invokes_ok [OF ok(1)] Let_def
        tracker_Get_stored [OF ok(2)])
qed

theorem fake_silent_methods_witness:
  "\<exists>F. NewSimpleClientset no_merge [] = Some F \<and>
     fst (FakeServices_Patch (FakeMeshV1alpha1_Services ''shop'') ''cart'' [] [] F) = Result (Some zero_Service) None"
proof -
  from fresh_clientset [of no_merge] obtain F where F: "NewSimpleClientset no_merge [] = Some F"
    "fake_ok no_merge F" "fake_service_map F = Map.empty" by blast
  have "ExtractFromListOptions no_selectors all_options \<noteq> None"
    by (simp add: ExtractFromListOptions_def no_selectors_def all_options_def)
  from fake_silent_methods [OF F(2) _ _ this, of "''shop''" "''cart''" "[]" "[]"] F show ?thesis by auto
qed

section \<open>Watches of the fake clientset\<close>

text \<open>What can happen to a clientset: any action, and any watch.\<close>

inductive fake_step :: "tracker Fake \<Rightarrow> tracker Fake \<Rightarrow> bool" where
  fake_action: "fake_step F (snd (Invokes action dflt F))"
| fake_watch: "fake_step F (snd (InvokesWatch action F))"

inductive_cases fake_stepE: "fake_step F F'"

definition fake_chains :: "(string \<Rightarrow> runtime_object \<Rightarrow> api_error + runtime_object) \<Rightarrow> tracker Fake \<Rightarrow> bool" where
  "fake_chains merge F \<longleftrightarrow>
     fk_ReactionChain F = [\<lparr>sr_Verb = ''*'', sr_Resource = ''*'', sr_Reaction = ObjectReaction merge\<rparr>] \<and>
     fk_WatchReactionChain F = [\<lparr>sw_Resource = ''*'', sw_Reaction = watch_reaction\<rparr>]"

lemma Invokes_world:
  "fake_chains merge F \<Longrightarrow> fk_world (snd (Invokes action dflt F)) = snd (ObjectReaction merge action (fk_world F))"
  "fake_chains merge F \<Longrightarrow> fake_chains merge (snd (Invokes action dflt F))"
  by (simp_all add: fake_chains_def Invokes_def Handles_def Let_def split: prod.splits)

lemma InvokesWatch_eq:
  "fake_chains merge F \<Longrightarrow> InvokesWatch action F =
     (case tracker_Watch (GetResource action) (action_namespace action) (fk_world F) of
        (w, t) \<Rightarrow> ((Some w, None), F\<lparr>fk_actions := fk_actions F @ [action], fk_world := t\<rparr>))"
  by (simp add: fake_chains_def InvokesWatch_def watch_Handles_def watch_reaction_def Let_def split: prod.splits)

lemma reaction_step: "tracker_step\<^sup>*\<^sup>* t (snd (ObjectReaction merge action t))"
proof (cases action)
  case (CreateAction gvr sub ns obj)
  then show ?thesis
    using step_create [of t gvr obj ns] step_update [of t gvr obj ns]
    by (auto split: prod.splits option.splits)
next
  case (UpdateAction gvr sub ns obj)
  then show ?thesis using step_update [of t gvr obj ns] by (auto split: prod.splits option.splits)
next
  case (DeleteAction gvr ns name)
  then show ?thesis using step_delete [of t gvr ns name] by (auto split: prod.splits option.splits)
next
  case (PatchAction gvr subs ns name data)
  then show ?thesis
  proof (cases "tracker_Get gvr ns name t")
    case (Inr obj)
    with PatchAction show ?thesis
    proof (cases "merge data obj")
      case (Inr obj')
      with PatchAction \<open>tracker_Get gvr ns name t = Inr obj\<close> show ?thesis
        using step_update [of t gvr obj' ns] by (auto split: prod.splits option.splits)
    qed simp
  qed simp
qed (simp_all split: sum.splits)

lemma fake_step_tracker:
  assumes "fake_step F F'" "fake_chains merge F"
  shows "tracker_step\<^sup>*\<^sup>* (fk_world F) (fk_world F') \<and> fake_chains merge F'"
  using assms
proof (elim fake_stepE)
  fix action dflt
  assume "F' = snd (Invokes action dflt F)"
  with assms(2) reaction_step show ?thesis by (simp add: Invokes_world)
next
  fix action
  assume "F' = snd (InvokesWatch action F)"
  then show ?thesis
    using assms(2) step_watch [of "fk_world F" "GetResource action" "action_namespace action"]
    by (auto simp: InvokesWatch_eq fake_chains_def split: prod.splits)
qed

lemma fake_steps_tracker:
  "fake_step\<^sup>*\<^sup>* F F' \<Longrightarrow> fake_chains merge F \<Longrightarrow>
   tracker_step\<^sup>*\<^sup>* (fk_world F) (fk_world F') \<and> fake_chains merge F'"
proof (induction rule: rtranclp_induct)
  case (step F' F'')
  with fake_step_tracker [OF step.hyps(2)] show ?case by (meson rtranclp_trans)
qed simp

text \<open>A watch tells everything. Whatever calls are made on the fake clientset after services were
  watched, replaying the events that the watch was sent over the services there at its start gives
  exactly the services there now: none is missed, none is doubled with effect, and none of another
  namespace or kind slips in.\<close>

theorem fake_watch_replays:
  assumes "clientset_ok merge F" "watchers_ok (fk_world F)"
    and "FakeServices_Watch sp (FakeMeshV1alpha1_Services ns) opts F = (Result (Some w) None, F1)"
    and "fake_step\<^sup>*\<^sup>* F1 F2"
  shows "replay (tr_events (fk_world F2) w) (view fake_servicesResource ns (fk_world F)) =
    view fake_servicesResource ns (fk_world F2)"
proof -
  from assms(1) have chains: "fake_chains merge F" and inv: "tracker_inv (fk_world F)"
    by (simp_all add: fake_chains_def clientset_ok_def)
  from assms(3) obtain t where t: "tracker_Watch fake_servicesResource ns (fk_world F) = (w, t)"
    "fk_world F1 = t" "fake_chains merge F1"
    using chains
    by (auto simp: FakeServices_Watch_def NewWatchAction_def InvokesWatch_eq FakeMeshV1alpha1_Services_def
        fake_chains_def split: option.splits prod.splits)
  note start = watching_start [OF inv assms(2) t(1)]
  from fake_steps_tracker [OF assms(4) t(3)] watching_steps [OF _ start] t(2)
  show ?thesis by (simp add: watching_def)
qed

theorem fake_watch_replays_witness:
  "\<exists>F F1. NewSimpleClientset no_merge [] = Some F \<and>
     FakeServices_Watch no_selectors (FakeMeshV1alpha1_Services ''shop'') all_options F = (Result (Some 0) None, F1) \<and>
     (let F2 = snd (Invokes (CreateAction fake_servicesResource [] ''shop'' (ServiceObj fake_cart)) NoObject F1)
      in replay (tr_events (fk_world F2) 0) (view fake_servicesResource ''shop'' (fk_world F)) =
         view fake_servicesResource ''shop'' (fk_world F2))"
proof -
  define F where "F = the (NewSimpleClientset no_merge [])"
  from fresh_clientset [of no_merge] have F: "NewSimpleClientset no_merge [] = Some F" "clientset_ok no_merge F"
    by (auto simp: F_def fake_ok_def)
  have world: "fk_world F = NewObjectTracker fake_scheme_init"
    by (simp add: F_def NewSimpleClientset_def AddReactor_def AddWatchReactor_def)
  then have "watchers_ok (fk_world F)" by (simp add: watchers_ok_def NewObjectTracker_def)
  moreover obtain F1 where
    F1: "FakeServices_Watch no_selectors (FakeMeshV1alpha1_Services ''shop'') all_options F = (Result (Some 0) None, F1)"
    using F(2)
    by (auto simp: FakeServices_Watch_def NewWatchAction_def ExtractFromListOptions_def no_selectors_def
        all_options_def InvokesWatch_eq [of no_merge] fake_chains_def clientset_ok_def world
        NewObjectTracker_def tracker_Watch_def Let_def)
  moreover have "fake_step\<^sup>*\<^sup>* F1
      (snd (Invokes (CreateAction fake_servicesResource [] ''shop'' (ServiceObj fake_cart)) NoObject F1))"
    by (rule r_into_rtranclp) (rule fake_action)
  ultimately show ?thesis
    using fake_watch_replays [OF F(2) _ F1] F(1) by (auto simp: Let_def)
qed

end
