(* ===== verification/Store.thy ===== *)
theory Store
  imports MeshTypes Labels
begin

text \<open>
  The informer caches: object keys and the thread-safe store with its indices
  (\<open>vendor/k8s.io/client-go/tools/cache\<close>: \<open>store.go\<close>, \<open>thread_safe_store.go\<close>, \<open>listers.go\<close>), and
  the generated listers over them (\<open>pkg/client/listers/mesh/v1alpha1\<close>). A store holds objects of
  one type; \<open>meta\<close> is what \<open>meta.Accessor\<close> returns for them. Maps and string sets are lists in the
  order in which a loop visits them. \<open>None\<close> as a new store is a panic of the index function.
\<close>

section \<open>Keys\<close>

datatype obj_iface = ExplicitKey string | WithMeta ObjectMeta | NoMeta

definition MetaNamespaceKeyFunc :: "obj_iface \<Rightarrow> string + string" where
  "MetaNamespaceKeyFunc obj =
     (case obj of
        ExplicitKey key \<Rightarrow> Inr key
      | NoMeta \<Rightarrow> Inl ''object has no meta''
      | WithMeta m \<Rightarrow>
          if length (om_Namespace m) > 0 then Inr (om_Namespace m @ ''/'' @ om_Name m)
          else Inr (om_Name m))"

definition SplitMetaNamespaceKey :: "string \<Rightarrow> string + (string \<times> string)" where
  "SplitMetaNamespaceKey key =
     (case split_on (CHR ''/'') key of
        [name] \<Rightarrow> Inr ([], name)
      | [ns, name] \<Rightarrow> Inr (ns, name)
      | _ \<Rightarrow> Inl ''unexpected key format'')"

definition meta_key :: "ObjectMeta \<Rightarrow> string" where
  "meta_key m = (if om_Namespace m \<noteq> [] then om_Namespace m @ ''/'' @ om_Name m else om_Name m)"

lemma MetaNamespaceKeyFunc_meta [simp, go_simps]:
  "MetaNamespaceKeyFunc (WithMeta m) = Inr (meta_key m)"
  by (simp add: MetaNamespaceKeyFunc_def meta_key_def)

text \<open>Names and namespaces are path segments: the API server refuses a slash in them.\<close>

definition plain_meta :: "ObjectMeta \<Rightarrow> bool" where
  "plain_meta m \<longleftrightarrow> CHR ''/'' \<notin> set (om_Namespace m) \<and> CHR ''/'' \<notin> set (om_Name m)"

lemma Split_meta_key:
  "plain_meta m \<Longrightarrow> SplitMetaNamespaceKey (meta_key m) = Inr (om_Namespace m, om_Name m)"
  by (auto simp: meta_key_def plain_meta_def SplitMetaNamespaceKey_def)

lemma meta_key_inject:
  "plain_meta m \<Longrightarrow> plain_meta m' \<Longrightarrow>
   meta_key m = meta_key m' \<longleftrightarrow> om_Namespace m = om_Namespace m' \<and> om_Name m = om_Name m'"
  by (metis Split_meta_key meta_key_def prod.inject sum.inject(2))

lemma Split_pieces:
  assumes "SplitMetaNamespaceKey key = Inr (ns, name)"
  shows "CHR ''/'' \<notin> set ns \<and> CHR ''/'' \<notin> set name"
proof -
  have "ns \<in> set (split_on (CHR ''/'') key) \<or> ns = []" "name \<in> set (split_on (CHR ''/'') key)"
    using assms by (auto simp: SplitMetaNamespaceKey_def split: list.splits)
  then show ?thesis using split_on_pieces by fastforce
qed

lemma Split_error_iff:
  "(\<exists>e. SplitMetaNamespaceKey key = Inl e) \<longleftrightarrow> count_list key (CHR ''/'') \<ge> 2"
proof -
  have "length (split_on (CHR ''/'') key) = Suc (count_list key (CHR ''/''))"
    by (rule length_split_on)
  then show ?thesis
    by (auto simp: SplitMetaNamespaceKey_def split: list.splits)
qed

section \<open>The thread-safe store\<close>

type_synonym IndexFunc = "ObjectMeta \<Rightarrow> string + string list"
type_synonym Index = "string \<rightharpoonup> string list"
type_synonym Indices = "string \<rightharpoonup> Index"

record 'o threadSafeMap =
  ts_items :: "(string \<times> 'o) list"
  ts_indexers :: "(string \<times> IndexFunc) list"
  ts_indices :: Indices

definition NewThreadSafeStore :: "(string \<times> IndexFunc) list \<Rightarrow> 'o threadSafeMap" where
  "NewThreadSafeStore indexers =
     \<lparr>ts_items = [], ts_indexers = indexers, ts_indices = Map.empty\<rparr>"

definition index_insert :: "string list \<Rightarrow> string \<Rightarrow> Index \<Rightarrow> Index" where
  "index_insert values key index =
     fold (\<lambda>v idx. idx(v \<mapsto> List.insert key (case idx v of None \<Rightarrow> [] | Some s \<Rightarrow> s))) values index"

definition index_remove :: "string list \<Rightarrow> string \<Rightarrow> Index \<Rightarrow> Index" where
  "index_remove values key index =
     fold (\<lambda>v idx. case idx v of None \<Rightarrow> idx | Some s \<Rightarrow> idx(v \<mapsto> removeAll key s)) values index"

fun deleteFromIndices ::
  "(string \<times> IndexFunc) list \<Rightarrow> ObjectMeta \<Rightarrow> string \<Rightarrow> Indices \<Rightarrow> Indices option" where
  "deleteFromIndices [] m key ind = Some ind"
| "deleteFromIndices ((name, indexFunc) # fs) m key ind =
     (case indexFunc m of
        Inl err \<Rightarrow> None
      | Inr values \<Rightarrow>
          deleteFromIndices fs m key
            (case ind name of None \<Rightarrow> ind | Some index \<Rightarrow> ind(name \<mapsto> index_remove values key index)))"

fun addToIndices ::
  "(string \<times> IndexFunc) list \<Rightarrow> ObjectMeta \<Rightarrow> string \<Rightarrow> Indices \<Rightarrow> Indices option" where
  "addToIndices [] m key ind = Some ind"
| "addToIndices ((name, indexFunc) # fs) m key ind =
     (case indexFunc m of
        Inl err \<Rightarrow> None
      | Inr values \<Rightarrow>
          addToIndices fs m key
            (ind(name \<mapsto> index_insert values key
               (case ind name of None \<Rightarrow> Map.empty | Some index \<Rightarrow> index))))"

definition updateIndices ::
  "(string \<times> IndexFunc) list \<Rightarrow> ObjectMeta option \<Rightarrow> ObjectMeta \<Rightarrow> string \<Rightarrow> Indices \<Rightarrow>
   Indices option" where
  "updateIndices fs oldObj newObj key ind =
     (case (case oldObj of None \<Rightarrow> Some ind | Some old \<Rightarrow> deleteFromIndices fs old key ind) of
        None \<Rightarrow> None
      | Some ind' \<Rightarrow> addToIndices fs newObj key ind')"

definition ts_Add ::
  "('o \<Rightarrow> ObjectMeta) \<Rightarrow> string \<Rightarrow> 'o \<Rightarrow> 'o threadSafeMap \<Rightarrow> 'o threadSafeMap option" where
  "ts_Add meta key obj c =
     (let oldObject = map_of (ts_items c) key;
          c' = c\<lparr>ts_items := AList.update key obj (ts_items c)\<rparr>
      in map_option (\<lambda>ind. c'\<lparr>ts_indices := ind\<rparr>)
           (updateIndices (ts_indexers c) (map_option meta oldObject) (meta obj) key (ts_indices c)))"

definition ts_Update ::
  "('o \<Rightarrow> ObjectMeta) \<Rightarrow> string \<Rightarrow> 'o \<Rightarrow> 'o threadSafeMap \<Rightarrow> 'o threadSafeMap option" where
  "ts_Update meta key obj c =
     (let oldObject = map_of (ts_items c) key;
          c' = c\<lparr>ts_items := AList.update key obj (ts_items c)\<rparr>
      in map_option (\<lambda>ind. c'\<lparr>ts_indices := ind\<rparr>)
           (updateIndices (ts_indexers c) (map_option meta oldObject) (meta obj) key (ts_indices c)))"

definition ts_Delete ::
  "('o \<Rightarrow> ObjectMeta) \<Rightarrow> string \<Rightarrow> 'o threadSafeMap \<Rightarrow> 'o threadSafeMap option" where
  "ts_Delete meta key c =
     (case map_of (ts_items c) key of
        None \<Rightarrow> Some c
      | Some obj \<Rightarrow>
          map_option (\<lambda>ind. c\<lparr>ts_indices := ind, ts_items := AList.delete key (ts_items c)\<rparr>)
            (deleteFromIndices (ts_indexers c) (meta obj) key (ts_indices c)))"

definition ts_Get :: "string \<Rightarrow> 'o threadSafeMap \<Rightarrow> 'o option" where
  "ts_Get key c = map_of (ts_items c) key"

definition ts_List :: "'o threadSafeMap \<Rightarrow> 'o list" where
  "ts_List c = map snd (ts_items c)"

text \<open>\<open>Replace\<close> installs the new items and rebuilds every index from nothing.\<close>

fun rebuild_indices ::
  "(string \<times> IndexFunc) list \<Rightarrow> ('o \<Rightarrow> ObjectMeta) \<Rightarrow> (string \<times> 'o) list \<Rightarrow> Indices \<Rightarrow>
   Indices option" where
  "rebuild_indices fs meta [] ind = Some ind"
| "rebuild_indices fs meta ((key, item) # items) ind =
     (case updateIndices fs None (meta item) key ind of
        None \<Rightarrow> None
      | Some ind' \<Rightarrow> rebuild_indices fs meta items ind')"

definition ts_Replace ::
  "('o \<Rightarrow> ObjectMeta) \<Rightarrow> (string \<times> 'o) list \<Rightarrow> 'o threadSafeMap \<Rightarrow> 'o threadSafeMap option" where
  "ts_Replace meta items c =
     map_option (\<lambda>ind. c\<lparr>ts_items := items, ts_indices := ind\<rparr>)
       (rebuild_indices (ts_indexers c) meta items Map.empty)"

text \<open>
  \<open>Index\<close>: the objects under the index values of a probe object. An entry of an index without
  an object would be a nil item, hence the options.
\<close>

definition index_lookup :: "Indices \<Rightarrow> string \<Rightarrow> string \<Rightarrow> string list" where
  "index_lookup ind name v =
     (case ind name of None \<Rightarrow> []
      | Some index \<Rightarrow> (case index v of None \<Rightarrow> [] | Some s \<Rightarrow> s))"

definition ts_Index ::
  "string \<Rightarrow> ObjectMeta \<Rightarrow> 'o threadSafeMap \<Rightarrow> string + 'o option list" where
  "ts_Index indexName obj c =
     (case map_of (ts_indexers c) indexName of
        None \<Rightarrow> Inl ''index does not exist''
      | Some indexFunc \<Rightarrow>
          (case indexFunc obj of
             Inl err \<Rightarrow> Inl err
           | Inr indexKeys \<Rightarrow>
               (let returnKeySet =
                      fold (\<lambda>indexKey acc.
                              fold List.insert (index_lookup (ts_indices c) indexName indexKey) acc)
                        indexKeys []
                in Inr (map (map_of (ts_items c)) returnKeySet))))"

definition NamespaceIndex :: string where
  "NamespaceIndex = ''namespace''"

definition MetaNamespaceIndexFunc :: IndexFunc where
  "MetaNamespaceIndexFunc m = Inr [om_Namespace m]"

section \<open>The index invariant\<close>

definition index_keys :: "Indices \<Rightarrow> string \<Rightarrow> string \<Rightarrow> string set" where
  "index_keys ind name v = set (index_lookup ind name v)"

text \<open>Every index lists exactly the keys of the stored objects that have the index value.\<close>

definition indexed_as :: "IndexFunc \<Rightarrow> ObjectMeta \<Rightarrow> string \<Rightarrow> bool" where
  "indexed_as f m v \<longleftrightarrow> (\<exists>vs. f m = Inr vs \<and> v \<in> set vs)"

definition indices_for ::
  "(string \<times> IndexFunc) list \<Rightarrow> ('o \<Rightarrow> ObjectMeta) \<Rightarrow> (string \<rightharpoonup> 'o) \<Rightarrow> Indices \<Rightarrow> bool" where
  "indices_for fs meta items ind \<longleftrightarrow>
     (\<forall>(name, f) \<in> set fs. \<forall>v. index_keys ind name v =
        {key. \<exists>obj. items key = Some obj \<and> indexed_as f (meta obj) v})"

definition store_inv :: "('o \<Rightarrow> ObjectMeta) \<Rightarrow> 'o threadSafeMap \<Rightarrow> bool" where
  "store_inv meta c \<longleftrightarrow> go_map (ts_items c) \<and> go_map (ts_indexers c) \<and>
     indices_for (ts_indexers c) meta (map_of (ts_items c)) (ts_indices c)"

definition total_indexers :: "(string \<times> IndexFunc) list \<Rightarrow> bool" where
  "total_indexers fs \<longleftrightarrow> (\<forall>(name, f) \<in> set fs. \<forall>m. \<exists>vs. f m = Inr vs)"


lemma index_insert_set:
  "set (case index_insert vs key idx v of None \<Rightarrow> [] | Some s \<Rightarrow> s) =
     set (case idx v of None \<Rightarrow> [] | Some s \<Rightarrow> s) \<union> (if v \<in> set vs then {key} else {})"
  unfolding index_insert_def
  by (induction vs arbitrary: idx) (auto split: option.splits if_splits)

lemma index_remove_set:
  "set (case index_remove vs key idx v of None \<Rightarrow> [] | Some s \<Rightarrow> s) =
     set (case idx v of None \<Rightarrow> [] | Some s \<Rightarrow> s) - (if v \<in> set vs then {key} else {})"
  unfolding index_remove_def
  by (induction vs arbitrary: idx) (auto split: option.splits if_splits)

lemma index_keys_upd:
  "index_keys (ind(name \<mapsto> idx)) name' v =
     (if name' = name then set (case idx v of None \<Rightarrow> [] | Some s \<Rightarrow> s) else index_keys ind name' v)"
  by (auto simp: index_keys_def index_lookup_def split: option.splits)

lemma index_keys_unfold:
  "index_keys ind name v =
     set (case (case ind name of None \<Rightarrow> Map.empty | Some index \<Rightarrow> index) v of None \<Rightarrow> [] | Some s \<Rightarrow> s)"
  by (simp add: index_keys_def index_lookup_def split: option.splits)

lemma deleteFromIndices_keys:
  assumes "deleteFromIndices fs m key ind = Some ind'" "go_map fs"
  shows "index_keys ind' name v = index_keys ind name v -
    {k. k = key \<and> (\<exists>f. map_of fs name = Some f \<and> indexed_as f m v)}"
  using assms
proof (induction fs m key ind rule: deleteFromIndices.induct)
  case (2 nm f fs m key ind)
  from "2.prems"(1) obtain vs where vs: "f m = Inr vs"
    by (auto split: sum.splits)
  define ind1 where
    "ind1 = (case ind nm of None \<Rightarrow> ind | Some index \<Rightarrow> ind(nm \<mapsto> index_remove vs key index))"
  have step: "index_keys ind1 name v =
      index_keys ind name v - (if name = nm \<and> v \<in> set vs then {key} else {})"
  proof (cases "ind nm")
    case None
    then show ?thesis by (auto simp: ind1_def index_keys_unfold [of ind nm])
  next
    case (Some index)
    then have "ind1 = ind(nm \<mapsto> index_remove vs key index)" by (simp add: ind1_def)
    then show ?thesis
      using Some by (simp add: index_keys_upd index_remove_set index_keys_unfold [of ind nm] del: fun_upd_apply)
  qed
  have rest: "index_keys ind' name v = index_keys ind1 name v -
      {k. k = key \<and> (\<exists>f. map_of fs name = Some f \<and> indexed_as f m v)}"
    using 2 vs by (simp add: ind1_def del: fun_upd_apply)
  have "nm \<notin> dom (map_of fs)" using "2.prems"(2) by (simp add: dom_map_of_conv_image_fst)
  then show ?case
    using step rest vs by (auto simp: indexed_as_def split: if_splits)
qed auto

lemma addToIndices_keys:
  assumes "addToIndices fs m key ind = Some ind'" "go_map fs"
  shows "index_keys ind' name v = index_keys ind name v \<union>
    {k. k = key \<and> (\<exists>f. map_of fs name = Some f \<and> indexed_as f m v)}"
  using assms
proof (induction fs m key ind rule: addToIndices.induct)
  case (2 nm f fs m key ind)
  from "2.prems"(1) obtain vs where vs: "f m = Inr vs"
    by (auto split: sum.splits)
  define ind1 where
    "ind1 = ind(nm \<mapsto> index_insert vs key (case ind nm of None \<Rightarrow> Map.empty | Some index \<Rightarrow> index))"
  have step: "index_keys ind1 name v =
      index_keys ind name v \<union> (if name = nm \<and> v \<in> set vs then {key} else {})"
    by (auto simp: ind1_def index_keys_upd index_insert_set index_keys_unfold [of ind nm])
  have rest: "index_keys ind' name v = index_keys ind1 name v \<union>
      {k. k = key \<and> (\<exists>f. map_of fs name = Some f \<and> indexed_as f m v)}"
    using 2 vs by (simp add: ind1_def del: fun_upd_apply)
  have "nm \<notin> dom (map_of fs)" using "2.prems"(2) by (simp add: dom_map_of_conv_image_fst)
  then show ?case
    using step rest vs by (auto simp: indexed_as_def split: if_splits)
qed auto

lemma deleteFromIndices_total: "total_indexers fs \<Longrightarrow> \<exists>ind'. deleteFromIndices fs m key ind = Some ind'"
proof (induction fs m key ind rule: deleteFromIndices.induct)
  case (2 nm f fs m key ind)
  then obtain vs where "f m = Inr vs" by (fastforce simp: total_indexers_def)
  with 2 show ?case by (auto simp: total_indexers_def)
qed simp

lemma addToIndices_total: "total_indexers fs \<Longrightarrow> \<exists>ind'. addToIndices fs m key ind = Some ind'"
proof (induction fs arbitrary: ind)
  case (Cons nf fs)
  obtain nm f where nf: "nf = (nm, f)" by force
  with Cons.prems obtain vs where "f m = Inr vs" by (fastforce simp: total_indexers_def)
  moreover have "total_indexers fs" using Cons.prems by (simp add: total_indexers_def)
  ultimately show ?case using Cons.IH nf by simp
qed simp

lemma updateIndices_total: "total_indexers fs \<Longrightarrow> \<exists>ind'. updateIndices fs old m key ind = Some ind'"
  using deleteFromIndices_total addToIndices_total
  by (fastforce simp: updateIndices_def split: option.splits)

lemma indices_forD:
  assumes "indices_for fs meta items ind" "map_of fs name = Some f"
  shows "index_keys ind name v = {key. \<exists>obj. items key = Some obj \<and> indexed_as f (meta obj) v}"
  using assms(1) map_of_SomeD [OF assms(2)] unfolding indices_for_def by fast

text \<open>One update of the indices follows one update of the items.\<close>

lemma indices_for_update:
  assumes inv: "indices_for fs meta items ind" and fs: "go_map fs"
    and upd: "updateIndices fs (map_option meta (items key)) (meta obj) key ind = Some ind'"
  shows "indices_for fs meta (items(key \<mapsto> obj)) ind'"
proof -
  obtain ind1 where
    del: "(case items key of None \<Rightarrow> Some ind | Some old \<Rightarrow> deleteFromIndices fs (meta old) key ind) = Some ind1"
    and add: "addToIndices fs (meta obj) key ind1 = Some ind'"
    using upd by (auto simp: updateIndices_def split: option.splits)
  have one: "index_keys ind1 name v = {k. k \<noteq> key \<and> (\<exists>o'. items k = Some o' \<and> indexed_as f (meta o') v)}"
    if "map_of fs name = Some f" for name f v
  proof -
    have *: "index_keys ind name v = {k. \<exists>o'. items k = Some o' \<and> indexed_as f (meta o') v}"
      by (rule indices_forD [OF inv that])
    show ?thesis
      using del that deleteFromIndices_keys [OF _ fs, of _ key ind ind1 name v] *
      by (cases "items key") auto
  qed
  show ?thesis
    unfolding indices_for_def
  proof (clarify)
    fix name f v
    assume "(name, f) \<in> set fs"
    with fs have f: "map_of fs name = Some f" by (simp add: go_map_def)
    show "index_keys ind' name v =
        {k. \<exists>o'. (items(key \<mapsto> obj)) k = Some o' \<and> indexed_as f (meta o') v}"
      using addToIndices_keys [OF add fs, of name v] one [OF f, of v] f by auto
  qed
qed

lemma indices_for_delete:
  assumes inv: "indices_for fs meta items ind" and fs: "go_map fs"
    and del: "deleteFromIndices fs (meta obj) key ind = Some ind'" and obj: "items key = Some obj"
  shows "indices_for fs meta (items(key := None)) ind'"
  unfolding indices_for_def
proof (clarify)
  fix name f v
  assume nf: "(name, f) \<in> set fs"
  with fs have f: "map_of fs name = Some f" by (simp add: go_map_def)
  from inv nf have "index_keys ind name v =
      {k. \<exists>o'. items k = Some o' \<and> indexed_as f (meta o') v}"
    by (auto simp: indices_for_def)
  then show "index_keys ind' name v =
      {k. \<exists>o'. (items(key := None)) k = Some o' \<and> indexed_as f (meta o') v}"
    using deleteFromIndices_keys [OF del fs, of name v] f obj by auto
qed

lemma indices_for_empty: "indices_for fs meta Map.empty Map.empty"
  by (auto simp: indices_for_def index_keys_def index_lookup_def)

lemma rebuild_indices_for:
  assumes "rebuild_indices fs meta items ind = Some ind'" "indices_for fs meta m ind"
    "go_map fs" "go_map items" "\<forall>k \<in> fst ` set items. m k = None"
  shows "indices_for fs meta (m ++ map_of items) ind'"
  using assms
proof (induction items arbitrary: m ind)
  case (Cons item items)
  obtain k x where item: "item = (k, x)" by force
  with Cons.prems obtain ind1 where
    upd: "updateIndices fs None (meta x) k ind = Some ind1" and
    rest: "rebuild_indices fs meta items ind1 = Some ind'"
    by (auto split: option.splits)
  have "indices_for fs meta (m(k \<mapsto> x)) ind1"
    using indices_for_update [of fs meta m ind k x ind1] Cons.prems upd item by simp
  moreover have "\<forall>j \<in> fst ` set items. (m(k \<mapsto> x)) j = None"
    using Cons.prems(4,5) item by auto
  ultimately have "indices_for fs meta (m(k \<mapsto> x) ++ map_of items) ind'"
    using Cons.IH [OF rest _ Cons.prems(3)] Cons.prems(4) item by (simp del: fun_upd_apply)
  moreover have "m(k \<mapsto> x) ++ map_of items = m ++ map_of (item # items)"
    using Cons.prems(4) item
    by (simp add: map_add_upd_left dom_map_of_conv_image_fst del: fun_upd_apply)
  ultimately show ?case by (simp only:)
qed simp

lemma rebuild_indices_total:
  "total_indexers fs \<Longrightarrow> \<exists>ind'. rebuild_indices fs meta items ind = Some ind'"
proof (induction items arbitrary: ind)
  case (Cons item items)
  obtain k x where "item = (k, x)" by force
  moreover obtain ind1 where "updateIndices fs None (meta x) k ind = Some ind1"
    using updateIndices_total [OF Cons.prems] by blast
  ultimately show ?case using Cons by simp
qed simp

section \<open>The operations preserve the invariant\<close>

lemma store_inv_New: "go_map fs \<Longrightarrow> store_inv meta (NewThreadSafeStore fs)"
  using indices_for_empty by (simp add: store_inv_def NewThreadSafeStore_def fun_eq_iff)

lemma store_inv_Add:
  "store_inv meta c \<Longrightarrow> ts_Add meta key obj c = Some c' \<Longrightarrow> store_inv meta c'"
  by (auto simp: store_inv_def ts_Add_def Let_def simp del: fun_upd_apply intro: indices_for_update)

lemma store_inv_Update:
  "store_inv meta c \<Longrightarrow> ts_Update meta key obj c = Some c' \<Longrightarrow> store_inv meta c'"
  by (auto simp: store_inv_def ts_Update_def Let_def simp del: fun_upd_apply intro: indices_for_update)

lemma store_inv_Delete:
  "store_inv meta c \<Longrightarrow> ts_Delete meta key c = Some c' \<Longrightarrow> store_inv meta c'"
  by (auto simp: store_inv_def ts_Delete_def simp del: fun_upd_apply intro: indices_for_delete
    split: option.splits)

lemma store_inv_Replace:
  assumes "store_inv meta c" "go_map items" "ts_Replace meta items c = Some c'"
  shows "store_inv meta c'"
  using assms rebuild_indices_for [OF _ indices_for_empty, of "ts_indexers c" meta items]
  by (auto simp: store_inv_def ts_Replace_def)

lemma ts_effects:
  "ts_Add meta key obj c = Some c' \<Longrightarrow>
     ts_items c' = AList.update key obj (ts_items c) \<and> ts_indexers c' = ts_indexers c"
  "ts_Update meta key obj c = Some c' \<Longrightarrow>
     ts_items c' = AList.update key obj (ts_items c) \<and> ts_indexers c' = ts_indexers c"
  "ts_Delete meta key c = Some c' \<Longrightarrow>
     ts_items c' = AList.delete key (ts_items c) \<and> ts_indexers c' = ts_indexers c"
  "ts_Replace meta items c = Some c' \<Longrightarrow> ts_items c' = items \<and> ts_indexers c' = ts_indexers c"
     apply (auto simp: ts_Add_def ts_Update_def ts_Delete_def ts_Replace_def Let_def
       split: option.splits)
  by (simp_all add: delete_id map_of_eq_None_iff)

lemma ts_total:
  assumes "total_indexers (ts_indexers c)"
  shows ts_Add_total: "\<exists>c'. ts_Add meta key obj c = Some c'"
    and ts_Update_total: "\<exists>c'. ts_Update meta key obj c = Some c'"
    and ts_Delete_total: "\<exists>c'. ts_Delete meta key c = Some c'"
    and ts_Replace_total: "\<exists>c'. ts_Replace meta items c = Some c'"
proof -
  obtain i1 where
    "updateIndices (ts_indexers c) (map_option meta (map_of (ts_items c) key)) (meta obj) key (ts_indices c) = Some i1"
    using updateIndices_total [OF assms] by blast
  then show "\<exists>c'. ts_Add meta key obj c = Some c'" "\<exists>c'. ts_Update meta key obj c = Some c'"
    by (simp_all add: ts_Add_def ts_Update_def)
  show "\<exists>c'. ts_Delete meta key c = Some c'"
    using deleteFromIndices_total [OF assms, of _ key "ts_indices c"]
    by (cases "map_of (ts_items c) key") (auto simp: ts_Delete_def)
  obtain i2 where "rebuild_indices (ts_indexers c) meta items Map.empty = Some i2"
    using rebuild_indices_total [OF assms] by blast
  then show "\<exists>c'. ts_Replace meta items c = Some c'" by (simp add: ts_Replace_def)
qed

end
