(* ===== verification/Listers.thy ===== *)
theory Listers
  imports Store "HOL-Library.Multiset"
begin

text \<open>
  The store as the informers and the generated listers use it: \<open>cache\<close> computes keys and calls the
  thread-safe store (\<open>vendor/k8s.io/client-go/tools/cache/store.go\<close>), \<open>ListAll\<close> and
  \<open>ListAllByNamespace\<close> select objects (\<open>listers.go\<close>), and the listers of
  \<open>pkg/client/listers/mesh/v1alpha1\<close> read one indexer. The locale \<open>keyed_store\<close> is the contract of
  a store: after any sequence of writes a key holds what was last written to it.
\<close>

section \<open>The cache over the store\<close>

record 'o cache =
  cacheStorage :: "'o threadSafeMap"
  keyFunc :: "'o \<Rightarrow> string + string"

definition cache_Add :: "('o \<Rightarrow> ObjectMeta) \<Rightarrow> 'o \<Rightarrow> 'o cache \<Rightarrow> (string, 'o cache) outcome" where
  "cache_Add meta obj c =
     (case keyFunc c obj of
        Inl err \<Rightarrow> Fails err
      | Inr key \<Rightarrow>
          outcome_of (map_option (\<lambda>s. c\<lparr>cacheStorage := s\<rparr>) (ts_Add meta key obj (cacheStorage c))))"

definition cache_Update :: "('o \<Rightarrow> ObjectMeta) \<Rightarrow> 'o \<Rightarrow> 'o cache \<Rightarrow> (string, 'o cache) outcome" where
  "cache_Update meta obj c =
     (case keyFunc c obj of
        Inl err \<Rightarrow> Fails err
      | Inr key \<Rightarrow>
          outcome_of (map_option (\<lambda>s. c\<lparr>cacheStorage := s\<rparr>) (ts_Update meta key obj (cacheStorage c))))"

definition cache_Delete :: "('o \<Rightarrow> ObjectMeta) \<Rightarrow> 'o \<Rightarrow> 'o cache \<Rightarrow> (string, 'o cache) outcome" where
  "cache_Delete meta obj c =
     (case keyFunc c obj of
        Inl err \<Rightarrow> Fails err
      | Inr key \<Rightarrow>
          outcome_of (map_option (\<lambda>s. c\<lparr>cacheStorage := s\<rparr>) (ts_Delete meta key (cacheStorage c))))"

definition cache_GetByKey :: "string \<Rightarrow> 'o cache \<Rightarrow> 'o option" where
  "cache_GetByKey key c = ts_Get key (cacheStorage c)"

text \<open>The loop of \<open>Replace\<close> that keys the listed objects; a later object wins.\<close>

fun keyed_items ::
  "('o \<Rightarrow> string + string) \<Rightarrow> 'o list \<Rightarrow> (string \<times> 'o) list \<Rightarrow> string + (string \<times> 'o) list" where
  "keyed_items kf [] items = Inr items"
| "keyed_items kf (item # rest) items =
     (case kf item of
        Inl err \<Rightarrow> Inl err
      | Inr key \<Rightarrow> keyed_items kf rest (AList.update key item items))"

definition cache_Replace ::
  "('o \<Rightarrow> ObjectMeta) \<Rightarrow> 'o list \<Rightarrow> 'o cache \<Rightarrow> (string, 'o cache) outcome" where
  "cache_Replace meta list c =
     (case keyed_items (keyFunc c) list [] of
        Inl err \<Rightarrow> Fails err
      | Inr items \<Rightarrow>
          outcome_of (map_option (\<lambda>s. c\<lparr>cacheStorage := s\<rparr>) (ts_Replace meta items (cacheStorage c))))"

section \<open>Selecting from a store\<close>

text \<open>
  The loop that appends the matching objects; a nil item stops it with the accessor's error, and
  the caller returns what was appended so far with the error.
\<close>

fun append_matching :: "('o \<Rightarrow> bool) \<Rightarrow> 'o option list \<Rightarrow> 'o list \<times> string option" where
  "append_matching P [] = ([], None)"
| "append_matching P (None # ms) = ([], Some ''object does not implement the Object interfaces'')"
| "append_matching P (Some m # ms) =
     (let (ret, err) = append_matching P ms in (if P m then m # ret else ret, err))"

definition ListAll ::
  "('o \<Rightarrow> ObjectMeta) \<Rightarrow> 'o threadSafeMap \<Rightarrow> Selector \<Rightarrow> 'o list \<times> string option" where
  "ListAll meta store selector =
     append_matching (\<lambda>m. Selector_Matches selector (om_Labels (meta m))) (map Some (ts_List store))"

definition ListAllByNamespace ::
  "('o \<Rightarrow> ObjectMeta) \<Rightarrow> 'o threadSafeMap \<Rightarrow> string \<Rightarrow> Selector \<Rightarrow> 'o list \<times> string option" where
  "ListAllByNamespace meta indexer namespace selector =
     (if namespace = [] then
        append_matching (\<lambda>m. Selector_Matches selector (om_Labels (meta m)))
          (map Some (ts_List indexer))
      else case ts_Index NamespaceIndex (zero_ObjectMeta\<lparr>om_Namespace := namespace\<rparr>) indexer of
             Inl err \<Rightarrow>
               append_matching
                 (\<lambda>m. om_Namespace (meta m) = namespace \<and>
                      Selector_Matches selector (om_Labels (meta m)))
                 (map Some (ts_List indexer))
           | Inr items \<Rightarrow>
               append_matching (\<lambda>m. Selector_Matches selector (om_Labels (meta m))) items)"

section \<open>The generated listers\<close>

record configurationLister =
  cl_indexer :: "Configuration threadSafeMap"

record configurationNamespaceLister =
  cnl_indexer :: "Configuration threadSafeMap"
  cnl_namespace :: string

definition NewConfigurationLister :: "Configuration threadSafeMap \<Rightarrow> configurationLister" where
  "NewConfigurationLister indexer = \<lparr>cl_indexer = indexer\<rparr>"

definition configurationLister_List ::
  "configurationLister \<Rightarrow> Selector \<Rightarrow> Configuration list \<times> string option" where
  "configurationLister_List s selector = ListAll conf_Meta (cl_indexer s) selector"

definition Configurations :: "configurationLister \<Rightarrow> string \<Rightarrow> configurationNamespaceLister" where
  "Configurations s namespace = \<lparr>cnl_indexer = cl_indexer s, cnl_namespace = namespace\<rparr>"

definition configurationNamespaceLister_List ::
  "configurationNamespaceLister \<Rightarrow> Selector \<Rightarrow> Configuration list \<times> string option" where
  "configurationNamespaceLister_List s selector =
     ListAllByNamespace conf_Meta (cnl_indexer s) (cnl_namespace s) selector"

definition configurationNamespaceLister_Get ::
  "configurationNamespaceLister \<Rightarrow> string \<Rightarrow> api_error + Configuration" where
  "configurationNamespaceLister_Get s name =
     (case ts_Get (cnl_namespace s @ ''/'' @ name) (cnl_indexer s) of
        None \<Rightarrow> Inl (NewNotFound (Resource ''configuration'') name)
      | Some obj \<Rightarrow> Inr obj)"

record serviceLister =
  sl_indexer :: "Service threadSafeMap"

record serviceNamespaceLister =
  snl_indexer :: "Service threadSafeMap"
  snl_namespace :: string

definition NewServiceLister :: "Service threadSafeMap \<Rightarrow> serviceLister" where
  "NewServiceLister indexer = \<lparr>sl_indexer = indexer\<rparr>"

definition serviceLister_List ::
  "serviceLister \<Rightarrow> Selector \<Rightarrow> Service list \<times> string option" where
  "serviceLister_List s selector = ListAll service_Meta (sl_indexer s) selector"

definition Services :: "serviceLister \<Rightarrow> string \<Rightarrow> serviceNamespaceLister" where
  "Services s namespace = \<lparr>snl_indexer = sl_indexer s, snl_namespace = namespace\<rparr>"

definition serviceNamespaceLister_List ::
  "serviceNamespaceLister \<Rightarrow> Selector \<Rightarrow> Service list \<times> string option" where
  "serviceNamespaceLister_List s selector =
     ListAllByNamespace service_Meta (snl_indexer s) (snl_namespace s) selector"

definition serviceNamespaceLister_Get ::
  "serviceNamespaceLister \<Rightarrow> string \<Rightarrow> api_error + Service" where
  "serviceNamespaceLister_Get s name =
     (case ts_Get (snl_namespace s @ ''/'' @ name) (snl_indexer s) of
        None \<Rightarrow> Inl (NewNotFound (Resource ''service'') name)
      | Some obj \<Rightarrow> Inr obj)"

section \<open>The contract of a keyed store\<close>

text \<open>A write of the watch stream: an object is set under a key, or its key is deleted.\<close>

datatype 'o store_event = SetKey string 'o | DelKey string

fun event_key :: "'o store_event \<Rightarrow> string" where
  "event_key (SetKey k x) = k"
| "event_key (DelKey k) = k"

fun event_object :: "'o store_event \<Rightarrow> 'o option" where
  "event_object (SetKey k x) = Some x"
| "event_object (DelKey k) = None"

locale keyed_store =
  fixes lookup :: "string \<Rightarrow> 's \<Rightarrow> 'o option"
    and put :: "string \<Rightarrow> 'o \<Rightarrow> 's \<Rightarrow> 's option"
    and del :: "string \<Rightarrow> 's \<Rightarrow> 's option"
    and invar :: "'s \<Rightarrow> bool"
  assumes put_ok: "invar s \<Longrightarrow> \<exists>s'. put k x s = Some s' \<and> invar s' \<and>
        (\<forall>j. lookup j s' = (if j = k then Some x else lookup j s))"
    and del_ok: "invar s \<Longrightarrow> \<exists>s'. del k s = Some s' \<and> invar s' \<and>
        (\<forall>j. lookup j s' = (if j = k then None else lookup j s))"
begin

fun run_events :: "'o store_event list \<Rightarrow> 's \<Rightarrow> 's option" where
  "run_events [] s = Some s"
| "run_events (SetKey k x # es) s = Option.bind (put k x s) (run_events es)"
| "run_events (DelKey k # es) s = Option.bind (del k s) (run_events es)"

text \<open>A run of events never fails, and a key then holds what the last event on it said.\<close>

lemma run_events_lookup:
  assumes "invar s"
  shows "\<exists>s'. run_events es s = Some s' \<and> invar s' \<and>
    (\<forall>k. lookup k s' = (case find_last (\<lambda>e. event_key e = k) es of
                          None \<Rightarrow> lookup k s | Some e \<Rightarrow> event_object e))"
  using assms
proof (induction es arbitrary: s)
  case (Cons e es)
  obtain s1 where s1: "invar s1" "run_events (e # es) s = run_events es s1"
    "\<forall>j. lookup j s1 = (if j = event_key e then event_object e else lookup j s)"
  proof (cases e)
    case (SetKey k x)
    with put_ok [OF Cons.prems, of k x] that show ?thesis by auto
  next
    case (DelKey k)
    with del_ok [OF Cons.prems, of k] that show ?thesis by auto
  qed
  from Cons.IH [OF s1(1)] obtain s' where s': "run_events es s1 = Some s'" "invar s'"
    and look: "\<And>k. lookup k s' = (case find_last (\<lambda>e. event_key e = k) es of
                          None \<Rightarrow> lookup k s1 | Some e \<Rightarrow> event_object e)"
    by blast
  have "lookup k s' = (case find_last (\<lambda>e. event_key e = k) (e # es) of
                          None \<Rightarrow> lookup k s | Some e \<Rightarrow> event_object e)" for k
    using look [of k] s1(3) by (cases "find_last (\<lambda>e. event_key e = k) es") auto
  with s' s1(2) show ?case by simp
qed simp

text \<open>Writing a key twice is writing it once, as far as any lookup can tell.\<close>

lemma put_put:
  assumes "invar s" "put k x s = Some s1" "put k y s1 = Some s2" "put k y s = Some s3"
  shows "lookup j s2 = lookup j s3"
  using put_ok [OF assms(1), of k x] put_ok [of s1 k y] put_ok [OF assms(1), of k y] assms by auto

end

definition informer_inv :: "('o \<Rightarrow> ObjectMeta) \<Rightarrow> 'o threadSafeMap \<Rightarrow> bool" where
  "informer_inv meta c \<longleftrightarrow> store_inv meta c \<and> total_indexers (ts_indexers c)"

interpretation ts: keyed_store ts_Get "ts_Add meta" "ts_Delete meta" "informer_inv meta"
proof (unfold_locales, goal_cases)
  case (1 s k x)
  then obtain s' where "ts_Add meta k x s = Some s'"
    using ts_Add_total [of s meta k x] by (auto simp: informer_inv_def)
  with 1 show ?case
    by (auto simp: informer_inv_def ts_Get_def dest: store_inv_Add ts_effects(1))
next
  case (2 s k)
  then obtain s' where "ts_Delete meta k s = Some s'"
    using ts_Delete_total [of s meta k] by (auto simp: informer_inv_def)
  with 2 show ?case
    by (auto simp: informer_inv_def ts_Get_def dest: store_inv_Delete ts_effects(3))
qed

section \<open>What listing returns\<close>

lemma append_matching_Some [simp]: "append_matching P (map Some xs) = (filter P xs, None)"
  by (induction xs) auto

lemma ListAll_filter [go_simps]:
  "ListAll meta c sel = (filter (\<lambda>m. Selector_Matches sel (om_Labels (meta m))) (ts_List c), None)"
  by (simp add: ListAll_def)

lemma set_fold_insert: "set (fold List.insert xs acc) = set xs \<union> set acc"
  by (induction xs arbitrary: acc) auto

lemma distinct_fold_insert: "distinct acc \<Longrightarrow> distinct (fold List.insert xs acc)"
  by (induction xs arbitrary: acc) auto

text \<open>The objects under a set of keys of the store, as a bag.\<close>

lemma mset_map_of_keys:
  assumes "go_map items" "distinct ks" "set ks = {k. \<exists>x. map_of items k = Some x \<and> P x}"
  shows "\<exists>xs. map (map_of items) ks = map Some xs \<and> mset xs = mset (filter P (map snd items))"
proof -
  let ?f = "\<lambda>k. the (map_of items k)"
  let ?kept = "filter (\<lambda>(k, x). P x) items"
  have eq: "set ks = set (map fst ?kept)"
    using assms(1,3) by (force simp: go_map_def)
  have "distinct (map fst ?kept)"
    using assms(1) by (simp add: go_map_def distinct_map_filter)
  with eq assms(2) have "mset ks = mset (map fst ?kept)"
    using set_eq_iff_mset_eq_distinct by blast
  then have "mset (map ?f ks) = mset (map ?f (map fst ?kept))" by (simp only: mset_map)
  also have "map ?f (map fst ?kept) = map snd ?kept"
    using assms(1) by (auto simp: go_map_def)
  also have "map snd ?kept = filter P (map snd items)"
    by (induction items) auto
  finally have "mset (map ?f ks) = mset (filter P (map snd items))" .
  moreover have "map (map_of items) ks = map Some (map ?f ks)"
    using assms(3) by auto
  ultimately show ?thesis by blast
qed

definition namespace_indexed :: "'o threadSafeMap \<Rightarrow> bool" where
  "namespace_indexed c \<longleftrightarrow> map_of (ts_indexers c) NamespaceIndex = Some MetaNamespaceIndexFunc"

lemma Index_namespace:
  assumes "store_inv meta c" "namespace_indexed c"
  shows "\<exists>xs. ts_Index NamespaceIndex (m\<lparr>om_Namespace := ns\<rparr>) c = Inr (map Some xs) \<and>
    mset xs = mset (filter (\<lambda>o'. om_Namespace (meta o') = ns) (ts_List c))"
proof -
  let ?ks = "fold List.insert (index_lookup (ts_indices c) NamespaceIndex ns) []"
  have "set ?ks = {k. \<exists>x. map_of (ts_items c) k = Some x \<and> om_Namespace (meta x) = ns}"
    using indices_forD [of "ts_indexers c" meta "map_of (ts_items c)" "ts_indices c" NamespaceIndex
        MetaNamespaceIndexFunc ns] assms
    by (auto simp: store_inv_def namespace_indexed_def index_keys_def set_fold_insert indexed_as_def
        MetaNamespaceIndexFunc_def)
  moreover have "distinct ?ks" by (simp add: distinct_fold_insert)
  moreover have "go_map (ts_items c)" using assms(1) by (simp add: store_inv_def)
  ultimately show ?thesis
    using mset_map_of_keys [of "ts_items c" ?ks "\<lambda>x. om_Namespace (meta x) = ns"] assms(2)
    by (auto simp: ts_Index_def namespace_indexed_def MetaNamespaceIndexFunc_def ts_List_def)
qed

text \<open>The listing through the index returns the same bag of objects as a scan of the store.\<close>

lemma ListAllByNamespace_scan:
  assumes "store_inv meta c" "namespace_indexed c"
  shows "\<exists>xs. ListAllByNamespace meta c ns sel = (xs, None) \<and>
    mset xs = mset (filter (\<lambda>m. (ns = [] \<or> om_Namespace (meta m) = ns) \<and>
                               Selector_Matches sel (om_Labels (meta m))) (ts_List c))"
proof (cases "ns = []")
  case False
  obtain xs where xs:
    "ts_Index NamespaceIndex (zero_ObjectMeta\<lparr>om_Namespace := ns\<rparr>) c = Inr (map Some xs)"
    "mset xs = mset (filter (\<lambda>o'. om_Namespace (meta o') = ns) (ts_List c))"
    using Index_namespace [OF assms] by blast
  have "mset (filter Q xs) = mset (filter (\<lambda>m. om_Namespace (meta m) = ns \<and> Q m) (ts_List c))" for Q
    using xs(2) by (simp add: filter_filter_mset conj_commute)
  with False xs(1) show ?thesis by (simp add: ListAllByNamespace_def)
qed (simp add: ListAllByNamespace_def)

end
