(* ===== verification/InformerFactory.thy ===== *)
theory InformerFactory
  imports FakeClient Listers
begin

text \<open>
  The generated factory of shared informers (\<open>pkg/client/informers/externalversions\<close>). The factory
  hands out one informer per type and starts each once. The locale \<open>informer_factory\<close> is what its
  clients, the two programs, rely on. The informers of \<open>k8s.io/client-go/informers\<close> come from a
  factory generated from the same template.
\<close>

section \<open>Informers\<close>

text \<open>
  A shared informer is what it was made from: its list and watch functions, given here as the call
  they make on the client, its type, its resync period and its indexers. Options are changed in
  place by the tweak function.
\<close>

record 'c client_call =
  cc_client :: 'c
  cc_resource :: string
  cc_namespace :: string
  cc_options :: ListOptions

record 'c SharedIndexInformer =
  ii_ListFunc :: "ListOptions \<Rightarrow> 'c client_call"
  ii_WatchFunc :: "ListOptions \<Rightarrow> 'c client_call"
  ii_type :: string
  ii_resync :: int
  ii_indexers :: "(string \<times> IndexFunc) list"

type_synonym TweakListOptionsFunc = "ListOptions \<Rightarrow> ListOptions"

definition service_type :: string where
  "service_type = ''*v1alpha1.Service''"

definition configuration_type :: string where
  "configuration_type = ''*v1alpha1.Configuration''"

definition NewFilteredServiceInformer :: "'c \<Rightarrow> string \<Rightarrow> int \<Rightarrow> (string \<times> IndexFunc) list \<Rightarrow>
    TweakListOptionsFunc option \<Rightarrow> 'c SharedIndexInformer" where
  "NewFilteredServiceInformer client namespace resyncPeriod indexers tweakListOptions =
     \<lparr>ii_ListFunc = (\<lambda>options.
        let options = (case tweakListOptions of None \<Rightarrow> options | Some tweak \<Rightarrow> tweak options)
        in \<lparr>cc_client = client, cc_resource = ''services'', cc_namespace = namespace, cc_options = options\<rparr>),
      ii_WatchFunc = (\<lambda>options.
        let options = (case tweakListOptions of None \<Rightarrow> options | Some tweak \<Rightarrow> tweak options)
        in \<lparr>cc_client = client, cc_resource = ''services'', cc_namespace = namespace, cc_options = options\<rparr>),
      ii_type = service_type, ii_resync = resyncPeriod, ii_indexers = indexers\<rparr>"

definition NewServiceInformer ::
  "'c \<Rightarrow> string \<Rightarrow> int \<Rightarrow> (string \<times> IndexFunc) list \<Rightarrow> 'c SharedIndexInformer" where
  "NewServiceInformer client namespace resyncPeriod indexers =
     NewFilteredServiceInformer client namespace resyncPeriod indexers None"

definition NewFilteredConfigurationInformer :: "'c \<Rightarrow> string \<Rightarrow> int \<Rightarrow> (string \<times> IndexFunc) list \<Rightarrow>
    TweakListOptionsFunc option \<Rightarrow> 'c SharedIndexInformer" where
  "NewFilteredConfigurationInformer client namespace resyncPeriod indexers tweakListOptions =
     \<lparr>ii_ListFunc = (\<lambda>options.
        let options = (case tweakListOptions of None \<Rightarrow> options | Some tweak \<Rightarrow> tweak options)
        in \<lparr>cc_client = client, cc_resource = ''configurations'', cc_namespace = namespace, cc_options = options\<rparr>),
      ii_WatchFunc = (\<lambda>options.
        let options = (case tweakListOptions of None \<Rightarrow> options | Some tweak \<Rightarrow> tweak options)
        in \<lparr>cc_client = client, cc_resource = ''configurations'', cc_namespace = namespace, cc_options = options\<rparr>),
      ii_type = configuration_type, ii_resync = resyncPeriod, ii_indexers = indexers\<rparr>"

definition NewConfigurationInformer ::
  "'c \<Rightarrow> string \<Rightarrow> int \<Rightarrow> (string \<times> IndexFunc) list \<Rightarrow> 'c SharedIndexInformer" where
  "NewConfigurationInformer client namespace resyncPeriod indexers =
     NewFilteredConfigurationInformer client namespace resyncPeriod indexers None"

section \<open>The factory\<close>

text \<open>
  Informers are pointers: numbers into \<open>sf_made\<close>, all informers made so far. \<open>sf_runs\<close> records the
  goroutines \<open>informer.Run\<close> that were started. The map of informers is a list of its entries in the
  order in which a range over it meets them.
\<close>

record 'c sharedInformerFactory =
  sf_client :: 'c
  sf_namespace :: string
  sf_tweakListOptions :: "TweakListOptionsFunc option"
  sf_defaultResync :: int
  sf_customResync :: "string \<rightharpoonup> int"
  sf_informers :: "(string \<times> nat) list"
  sf_startedInformers :: "string \<Rightarrow> bool"
  sf_made :: "'c SharedIndexInformer list"
  sf_runs :: "nat list"

definition WithCustomResyncConfig ::
  "(string \<times> int) list \<Rightarrow> 'c sharedInformerFactory \<Rightarrow> 'c sharedInformerFactory" where
  "WithCustomResyncConfig resyncConfig factory =
     fold (\<lambda>(k, v) f. f\<lparr>sf_customResync := (sf_customResync f)(k \<mapsto> v)\<rparr>) resyncConfig factory"

definition WithTweakListOptions ::
  "TweakListOptionsFunc option \<Rightarrow> 'c sharedInformerFactory \<Rightarrow> 'c sharedInformerFactory" where
  "WithTweakListOptions tweakListOptions factory = factory\<lparr>sf_tweakListOptions := tweakListOptions\<rparr>"

definition WithNamespace :: "string \<Rightarrow> 'c sharedInformerFactory \<Rightarrow> 'c sharedInformerFactory" where
  "WithNamespace namespace factory = factory\<lparr>sf_namespace := namespace\<rparr>"

definition NewSharedInformerFactoryWithOptions :: "'c \<Rightarrow> int \<Rightarrow>
    ('c sharedInformerFactory \<Rightarrow> 'c sharedInformerFactory) list \<Rightarrow> 'c sharedInformerFactory" where
  "NewSharedInformerFactoryWithOptions client defaultResync options =
     fold (\<lambda>opt factory. opt factory) options
       \<lparr>sf_client = client, sf_namespace = [], sf_tweakListOptions = None,
        sf_defaultResync = defaultResync, sf_customResync = Map.empty, sf_informers = [],
        sf_startedInformers = (\<lambda>_. False), sf_made = [], sf_runs = []\<rparr>"

definition NewSharedInformerFactory :: "'c \<Rightarrow> int \<Rightarrow> 'c sharedInformerFactory" where
  "NewSharedInformerFactory client defaultResync =
     NewSharedInformerFactoryWithOptions client defaultResync []"

definition NewFilteredSharedInformerFactory ::
  "'c \<Rightarrow> int \<Rightarrow> string \<Rightarrow> TweakListOptionsFunc option \<Rightarrow> 'c sharedInformerFactory" where
  "NewFilteredSharedInformerFactory client defaultResync namespace tweakListOptions =
     NewSharedInformerFactoryWithOptions client defaultResync
       [WithNamespace namespace, WithTweakListOptions tweakListOptions]"

fun start_informers :: "(string \<times> nat) list \<Rightarrow> 'c sharedInformerFactory \<Rightarrow> 'c sharedInformerFactory" where
  "start_informers [] f = f"
| "start_informers ((informerType, informer) # rest) f =
     start_informers rest
       (if \<not> sf_startedInformers f informerType
        then f\<lparr>sf_runs := sf_runs f @ [informer],
               sf_startedInformers := (sf_startedInformers f)(informerType := True)\<rparr>
        else f)"

definition Start :: "'c sharedInformerFactory \<Rightarrow> 'c sharedInformerFactory" where
  "Start f = start_informers (sf_informers f) f"

text \<open>\<open>synced\<close> is what \<open>cache.WaitForCacheSync\<close> answers for an informer.\<close>

definition WaitForCacheSync :: "(nat \<Rightarrow> bool) \<Rightarrow> 'c sharedInformerFactory \<Rightarrow> (string \<rightharpoonup> bool)" where
  "WaitForCacheSync synced f =
     (let informers = filter (\<lambda>(informerType, _). sf_startedInformers f informerType) (sf_informers f)
      in map_of (map (\<lambda>(informerType, informer). (informerType, synced informer)) informers))"

definition InformerFor :: "string \<Rightarrow> ('c \<Rightarrow> int \<Rightarrow> 'c SharedIndexInformer) \<Rightarrow> 'c sharedInformerFactory \<Rightarrow>
    nat \<times> 'c sharedInformerFactory" where
  "InformerFor informerType newFunc f =
     (case map_of (sf_informers f) informerType of
        Some informer \<Rightarrow> (informer, f)
      | None \<Rightarrow>
          (let resyncPeriod = (case sf_customResync f informerType of
                                 None \<Rightarrow> sf_defaultResync f | Some d \<Rightarrow> d);
               informer = length (sf_made f)
           in (informer, f\<lparr>sf_made := sf_made f @ [newFunc (sf_client f) resyncPeriod],
                           sf_informers := sf_informers f @ [(informerType, informer)]\<rparr>)))"

section \<open>The typed informers\<close>

record serviceInformer =
  svi_tweakListOptions :: "TweakListOptionsFunc option"
  svi_namespace :: string

record configurationInformer =
  cfi_tweakListOptions :: "TweakListOptionsFunc option"
  cfi_namespace :: string

definition namespace_indexers :: "(string \<times> IndexFunc) list" where
  "namespace_indexers = [(NamespaceIndex, MetaNamespaceIndexFunc)]"

definition service_defaultInformer :: "serviceInformer \<Rightarrow> 'c \<Rightarrow> int \<Rightarrow> 'c SharedIndexInformer" where
  "service_defaultInformer f client resyncPeriod =
     NewFilteredServiceInformer client (svi_namespace f) resyncPeriod namespace_indexers
       (svi_tweakListOptions f)"

definition configuration_defaultInformer :: "configurationInformer \<Rightarrow> 'c \<Rightarrow> int \<Rightarrow> 'c SharedIndexInformer" where
  "configuration_defaultInformer f client resyncPeriod =
     NewFilteredConfigurationInformer client (cfi_namespace f) resyncPeriod namespace_indexers
       (cfi_tweakListOptions f)"

definition serviceInformer_Informer ::
  "serviceInformer \<Rightarrow> 'c sharedInformerFactory \<Rightarrow> nat \<times> 'c sharedInformerFactory" where
  "serviceInformer_Informer f factory = InformerFor service_type (service_defaultInformer f) factory"

definition configurationInformer_Informer ::
  "configurationInformer \<Rightarrow> 'c sharedInformerFactory \<Rightarrow> nat \<times> 'c sharedInformerFactory" where
  "configurationInformer_Informer f factory =
     InformerFor configuration_type (configuration_defaultInformer f) factory"

text \<open>\<open>GetIndexer\<close> gives the indexer of an informer.\<close>

definition serviceInformer_Lister :: "(nat \<Rightarrow> Service threadSafeMap) \<Rightarrow> serviceInformer \<Rightarrow>
    'c sharedInformerFactory \<Rightarrow> serviceLister \<times> 'c sharedInformerFactory" where
  "serviceInformer_Lister GetIndexer f factory =
     apfst (\<lambda>i. NewServiceLister (GetIndexer i)) (serviceInformer_Informer f factory)"

definition configurationInformer_Lister :: "(nat \<Rightarrow> Configuration threadSafeMap) \<Rightarrow> configurationInformer \<Rightarrow>
    'c sharedInformerFactory \<Rightarrow> configurationLister \<times> 'c sharedInformerFactory" where
  "configurationInformer_Lister GetIndexer f factory =
     apfst (\<lambda>i. NewConfigurationLister (GetIndexer i)) (configurationInformer_Informer f factory)"

text \<open>
  \<open>f.Mesh().V1alpha1().Services()\<close> hands the factory's namespace and tweak down. The group and the
  version hold the factory too, which is passed here as a state.
\<close>

record mesh_group =
  mg_namespace :: string
  mg_tweakListOptions :: "TweakListOptionsFunc option"

record mesh_version =
  mv_namespace :: string
  mv_tweakListOptions :: "TweakListOptionsFunc option"

definition group_New :: "string \<Rightarrow> TweakListOptionsFunc option \<Rightarrow> mesh_group" where
  "group_New namespace tweakListOptions = \<lparr>mg_namespace = namespace, mg_tweakListOptions = tweakListOptions\<rparr>"

definition version_New :: "string \<Rightarrow> TweakListOptionsFunc option \<Rightarrow> mesh_version" where
  "version_New namespace tweakListOptions = \<lparr>mv_namespace = namespace, mv_tweakListOptions = tweakListOptions\<rparr>"

definition sharedInformerFactory_Mesh :: "'c sharedInformerFactory \<Rightarrow> mesh_group" where
  "sharedInformerFactory_Mesh f = group_New (sf_namespace f) (sf_tweakListOptions f)"

definition group_V1alpha1 :: "mesh_group \<Rightarrow> mesh_version" where
  "group_V1alpha1 g = version_New (mg_namespace g) (mg_tweakListOptions g)"

definition version_Services :: "mesh_version \<Rightarrow> serviceInformer" where
  "version_Services v = \<lparr>svi_tweakListOptions = mv_tweakListOptions v, svi_namespace = mv_namespace v\<rparr>"

definition version_Configurations :: "mesh_version \<Rightarrow> configurationInformer" where
  "version_Configurations v = \<lparr>cfi_tweakListOptions = mv_tweakListOptions v, cfi_namespace = mv_namespace v\<rparr>"

definition Mesh_Services :: "'c sharedInformerFactory \<Rightarrow> serviceInformer" where
  "Mesh_Services f = version_Services (group_V1alpha1 (sharedInformerFactory_Mesh f))"

definition Mesh_Configurations :: "'c sharedInformerFactory \<Rightarrow> configurationInformer" where
  "Mesh_Configurations f = version_Configurations (group_V1alpha1 (sharedInformerFactory_Mesh f))"

lemma Mesh_informers:
  "Mesh_Services f = \<lparr>svi_tweakListOptions = sf_tweakListOptions f, svi_namespace = sf_namespace f\<rparr>"
  "Mesh_Configurations f = \<lparr>cfi_tweakListOptions = sf_tweakListOptions f, cfi_namespace = sf_namespace f\<rparr>"
  by (simp_all add: Mesh_Services_def Mesh_Configurations_def version_Services_def version_Configurations_def
      group_V1alpha1_def sharedInformerFactory_Mesh_def group_New_def version_New_def)

record genericInformer =
  gi_informer :: nat
  gi_resource :: GroupResource

definition ForResource :: "GroupVersionResource \<Rightarrow> 'c sharedInformerFactory \<Rightarrow>
    (string + genericInformer) \<times> 'c sharedInformerFactory" where
  "ForResource resource f =
     (if resource = WithResource SchemeGroupVersion ''configurations'' then
        (case configurationInformer_Informer (Mesh_Configurations f) f of
           (i, f') \<Rightarrow> (Inr \<lparr>gi_informer = i, gi_resource = gvr_GroupResource resource\<rparr>, f'))
      else if resource = WithResource SchemeGroupVersion ''services'' then
        (case serviceInformer_Informer (Mesh_Services f) f of
           (i, f') \<Rightarrow> (Inr \<lparr>gi_informer = i, gi_resource = gvr_GroupResource resource\<rparr>, f'))
      else (Inl ''no informer found'', f))"

section \<open>Generic informers and listers\<close>

text \<open>\<open>genericInformer.Lister\<close>, and the lister of \<open>client-go\<close> that it makes over the informer's indexer.\<close>

record 'o genericLister =
  gl_indexer :: "'o threadSafeMap"
  gl_resource :: GroupResource

record 'o genericNamespaceLister =
  gnl_indexer :: "'o threadSafeMap"
  gnl_namespace :: string
  gnl_resource :: GroupResource

definition NewGenericLister :: "'o threadSafeMap \<Rightarrow> GroupResource \<Rightarrow> 'o genericLister" where
  "NewGenericLister indexer resource = \<lparr>gl_indexer = indexer, gl_resource = resource\<rparr>"

definition genericInformer_Informer :: "genericInformer \<Rightarrow> nat" where
  "genericInformer_Informer f = gi_informer f"

definition genericInformer_Lister :: "(nat \<Rightarrow> 'o threadSafeMap) \<Rightarrow> genericInformer \<Rightarrow> 'o genericLister" where
  "genericInformer_Lister GetIndexer f =
     NewGenericLister (GetIndexer (genericInformer_Informer f)) (gi_resource f)"

definition genericLister_List ::
  "('o \<Rightarrow> ObjectMeta) \<Rightarrow> 'o genericLister \<Rightarrow> Selector \<Rightarrow> 'o list \<times> string option" where
  "genericLister_List meta s selector = ListAll meta (gl_indexer s) selector"

definition genericLister_ByNamespace :: "'o genericLister \<Rightarrow> string \<Rightarrow> 'o genericNamespaceLister" where
  "genericLister_ByNamespace s namespace =
     \<lparr>gnl_indexer = gl_indexer s, gnl_namespace = namespace, gnl_resource = gl_resource s\<rparr>"

definition genericLister_Get :: "'o genericLister \<Rightarrow> string \<Rightarrow> api_error + 'o" where
  "genericLister_Get s name =
     (case ts_Get name (gl_indexer s) of
        None \<Rightarrow> Inl (NewNotFound (gl_resource s) name)
      | Some obj \<Rightarrow> Inr obj)"

definition genericNamespaceLister_List ::
  "('o \<Rightarrow> ObjectMeta) \<Rightarrow> 'o genericNamespaceLister \<Rightarrow> Selector \<Rightarrow> 'o list \<times> string option" where
  "genericNamespaceLister_List meta s selector = ListAllByNamespace meta (gnl_indexer s) (gnl_namespace s) selector"

definition genericNamespaceLister_Get :: "'o genericNamespaceLister \<Rightarrow> string \<Rightarrow> api_error + 'o" where
  "genericNamespaceLister_Get s name =
     (case ts_Get (gnl_namespace s @ ''/'' @ name) (gnl_indexer s) of
        None \<Rightarrow> Inl (NewNotFound (gnl_resource s) name)
      | Some obj \<Rightarrow> Inr obj)"

end
