(* ===== verification/InformerFactoryLaws.thy ===== *)
theory InformerFactoryLaws
  imports InformerFactory
begin

text \<open>
  The contract of an informer factory (locale \<open>informer_factory\<close>) and its interpretation on the
  generated factory: whoever asks for an informer of a type gets the same one, and every informer
  asked for runs exactly once after the factory was started, however often that happens.
\<close>

section \<open>The contract\<close>

locale informer_factory =
  fixes ask :: "'q \<Rightarrow> 's \<Rightarrow> nat \<times> 's"
    and key :: "'q \<Rightarrow> 't"
    and start :: "'s \<Rightarrow> 's"
    and known :: "'s \<Rightarrow> 't \<rightharpoonup> nat"
    and running :: "'s \<Rightarrow> nat list"
    and invar :: "'s \<Rightarrow> bool"
  assumes ask_known: "invar s \<Longrightarrow> known s (key q) = Some i \<Longrightarrow> ask q s = (i, s)"
    and ask_new: "invar s \<Longrightarrow> known s (key q) = None \<Longrightarrow>
      \<exists>i s'. ask q s = (i, s') \<and> invar s' \<and> known s' = (known s)(key q \<mapsto> i) \<and>
             i \<notin> ran (known s) \<and> running s' = running s"
    and start_law: "invar s \<Longrightarrow> invar (start s) \<and> known (start s) = known s \<and>
      set (running (start s)) = ran (known s) \<and> distinct (running (start s))"
    and runs_once: "invar s \<Longrightarrow> distinct (running s) \<and> set (running s) \<subseteq> ran (known s)"
begin

lemma ask_answer:
  assumes "invar s" "ask q s = (i, s')"
  shows "invar s'" "known s' (key q) = Some i" "known s \<subseteq>\<^sub>m known s'" "running s' = running s"
proof -
  have "invar s' \<and> known s' (key q) = Some i \<and> known s \<subseteq>\<^sub>m known s' \<and> running s' = running s"
  proof (cases "known s (key q)")
    case None
    from ask_new [OF assms(1) None] assms(2) None show ?thesis by (auto simp: map_le_def)
  next
    case (Some j)
    from ask_known [OF assms(1) Some] assms Some show ?thesis by simp
  qed
  then show "invar s'" "known s' (key q) = Some i" "known s \<subseteq>\<^sub>m known s'" "running s' = running s"
    by blast+
qed

fun ask_all :: "'q list \<Rightarrow> 's \<Rightarrow> nat list \<times> 's" where
  "ask_all [] s = ([], s)"
| "ask_all (q # qs) s = (let (i, s') = ask q s; (ks, s'') = ask_all qs s' in (i # ks, s''))"

lemma ask_all_answers:
  assumes "invar s" "ask_all qs s = (ks, s')"
  shows "invar s' \<and> known s \<subseteq>\<^sub>m known s' \<and> map (\<lambda>q. known s' (key q)) qs = map Some ks"
  using assms
proof (induction qs arbitrary: s ks s')
  case (Cons q qs)
  obtain i s1 where i: "ask q s = (i, s1)" by force
  obtain js s2 where js: "ask_all qs s1 = (js, s2)" by force
  from Cons.prems(2) i js have eqs: "ks = i # js" "s' = s2" by simp_all
  note a = ask_answer [OF Cons.prems(1) i]
  note b = Cons.IH [OF a(1) js]
  from b a(2) have "known s2 (key q) = Some i" by (auto simp: map_le_def dom_def)
  with a b eqs show ?case by (auto intro: map_le_trans)
qed simp

text \<open>Asking again later gives the same answers and changes nothing.\<close>

lemma ask_again:
  assumes "invar s" "map (\<lambda>q. known s (key q)) qs = map Some ks"
  shows "ask_all qs s = (ks, s)"
  using assms
proof (induction qs arbitrary: ks)
  case (Cons q qs)
  from Cons.prems(2) obtain i js where ks: "ks = i # js" "known s (key q) = Some i"
    "map (\<lambda>q. known s (key q)) qs = map Some js" by auto
  with ask_known [OF Cons.prems(1) ks(2)] Cons.IH [OF Cons.prems(1) ks(3)] show ?case by simp
qed simp

lemma asked_run_once:
  assumes "invar s" "ask_all qs s = (ks, s')"
  shows "ask_all qs (start s') = (ks, start s') \<and> set ks \<subseteq> set (running (start s')) \<and>
    distinct (running (start s'))"
proof -
  from ask_all_answers [OF assms] have s': "invar s'" "map (\<lambda>q. known s' (key q)) qs = map Some ks" by simp_all
  from start_law [OF s'(1)] have st: "invar (start s')" "known (start s') = known s'"
    "set (running (start s')) = ran (known s')" "distinct (running (start s'))" by simp_all
  have "set ks \<subseteq> ran (known s')"
  proof
    fix k assume "k \<in> set ks"
    then have "Some k \<in> set (map (\<lambda>q. known s' (key q)) qs)" using s'(2) by simp
    then show "k \<in> ran (known s')" by (auto intro: ranI)
  qed
  with st s'(2) ask_again [OF st(1), of qs ks] show ?thesis by simp
qed

lemma start_twice: "invar s \<Longrightarrow> set (running (start (start s))) = set (running (start s))"
  using start_law [of s] start_law [of "start s"] by simp

end

section \<open>The generated factory\<close>

definition factory_inv :: "'c sharedInformerFactory \<Rightarrow> bool" where
  "factory_inv f \<longleftrightarrow>
     distinct (map fst (sf_informers f)) \<and> distinct (map snd (sf_informers f)) \<and>
     (\<forall>(t, i) \<in> set (sf_informers f). i < length (sf_made f)) \<and>
     (\<forall>t. sf_startedInformers f t \<longrightarrow> t \<in> fst ` set (sf_informers f)) \<and>
     distinct (sf_runs f) \<and>
     set (sf_runs f) = {i. \<exists>t. (t, i) \<in> set (sf_informers f) \<and> sf_startedInformers f t}"

lemma start_informers_frame [simp]:
  "sf_informers (start_informers xs f) = sf_informers f" "sf_made (start_informers xs f) = sf_made f"
  "sf_client (start_informers xs f) = sf_client f" "sf_namespace (start_informers xs f) = sf_namespace f"
  "sf_tweakListOptions (start_informers xs f) = sf_tweakListOptions f"
  by (induction xs arbitrary: f) (auto simp: split_def)

lemma start_informers_started:
  "sf_startedInformers (start_informers xs f) t \<longleftrightarrow> sf_startedInformers f t \<or> t \<in> fst ` set xs"
proof (induction xs arbitrary: f)
  case (Cons x xs)
  then show ?case by (cases x) simp
qed simp

lemma start_informers_runs:
  "distinct (map fst xs) \<Longrightarrow> sf_runs (start_informers xs f) =
     sf_runs f @ map snd (filter (\<lambda>(t, i). \<not> sf_startedInformers f t) xs)"
proof (induction xs arbitrary: f)
  case (Cons x xs)
  obtain t i where x: "x = (t, i)" by force
  show ?case
  proof (cases "sf_startedInformers f t")
    case True
    with Cons x show ?thesis by simp
  next
    case False
    let ?f = "f\<lparr>sf_runs := sf_runs f @ [i], sf_startedInformers := (sf_startedInformers f)(t := True)\<rparr>"
    have "filter (\<lambda>(u, j). \<not> sf_startedInformers ?f u) xs = filter (\<lambda>(u, j). \<not> sf_startedInformers f u) xs"
      using Cons.prems x by (intro filter_cong) (auto simp: image_iff)
    with Cons False x show ?thesis by simp
  qed
qed simp

lemma InformerFor_cases:
  obtains (known) i where "map_of (sf_informers f) t = Some i" "InformerFor t new f = (i, f)"
  | (new) "map_of (sf_informers f) t = None"
      "InformerFor t new f = (length (sf_made f),
         f\<lparr>sf_made := sf_made f @ [new (sf_client f)
             (case sf_customResync f t of None \<Rightarrow> sf_defaultResync f | Some d \<Rightarrow> d)],
           sf_informers := sf_informers f @ [(t, length (sf_made f))]\<rparr>)"
  by (cases "map_of (sf_informers f) t") (auto simp: InformerFor_def Let_def)

interpretation mesh_factory: informer_factory "\<lambda>(t, new). InformerFor t new" fst Start
    "\<lambda>f. map_of (sf_informers f)" sf_runs factory_inv
proof
  fix f :: "'c sharedInformerFactory" and q :: "string \<times> ('c \<Rightarrow> int \<Rightarrow> 'c SharedIndexInformer)" and i
  assume "map_of (sf_informers f) (fst q) = Some i"
  then show "(case q of (t, new) \<Rightarrow> InformerFor t new) f = (i, f)"
    by (cases q) (simp add: InformerFor_def)
next
  fix f :: "'c sharedInformerFactory" and q :: "string \<times> ('c \<Rightarrow> int \<Rightarrow> 'c SharedIndexInformer)"
  assume inv: "factory_inv f" and none: "map_of (sf_informers f) (fst q) = None"
  obtain t new where q: "q = (t, new)" by force
  from none q have fresh: "t \<notin> fst ` set (sf_informers f)" by (simp add: map_of_eq_None_iff)
  with inv have idle: "\<not> sf_startedInformers f t" by (auto simp: factory_inv_def)
  have ids: "(u, i) \<in> set (sf_informers f) \<Longrightarrow> i < length (sf_made f)" for u i
    using inv by (auto simp: factory_inv_def)
  have "map_of (sf_informers f @ [(t, i)]) = (map_of (sf_informers f))(t \<mapsto> i)" for i
    using none q by (auto simp: map_of_append fun_eq_iff map_add_def split: option.splits)
  then show "\<exists>i f'. (case q of (t, new) \<Rightarrow> InformerFor t new) f = (i, f') \<and> factory_inv f' \<and>
      map_of (sf_informers f') = (map_of (sf_informers f))(fst q \<mapsto> i) \<and>
      i \<notin> ran (map_of (sf_informers f)) \<and> sf_runs f' = sf_runs f"
    using inv none q fresh idle ids
    by (cases rule: InformerFor_cases [of f t new])
      (fastforce simp: factory_inv_def ran_def dest: map_of_SomeD)+
next
  fix f :: "'c sharedInformerFactory"
  assume inv: "factory_inv f"
  have d: "distinct (map fst (sf_informers f))" "distinct (map snd (sf_informers f))"
    and runs: "distinct (sf_runs f)"
      "set (sf_runs f) = {i. \<exists>t. (t, i) \<in> set (sf_informers f) \<and> sf_startedInformers f t}"
    using inv by (simp_all add: factory_inv_def)
  let ?new = "map snd (filter (\<lambda>(t, i). \<not> sf_startedInformers f t) (sf_informers f))"
  have st: "sf_runs (Start f) = sf_runs f @ ?new" by (simp add: Start_def start_informers_runs d)
  have all: "set (sf_runs (Start f)) = snd ` set (sf_informers f)" by (force simp: st runs(2))
  have "distinct ?new" using d(2) by (simp add: distinct_map_filter)
  moreover have "set (sf_runs f) \<inter> set ?new = {}"
    using d(2) by (fastforce simp: runs(2) distinct_map inj_on_def)
  ultimately have dist: "distinct (sf_runs (Start f))" by (simp add: st runs(1))
  have ran: "ran (map_of (sf_informers f)) = snd ` set (sf_informers f)" by (rule ran_distinct [OF d(1)])
  have started: "sf_startedInformers (Start f) t \<longleftrightarrow> t \<in> fst ` set (sf_informers f)" for t
    using inv by (auto simp: factory_inv_def Start_def start_informers_started)
  then have "(t, i) \<in> set (sf_informers f) \<Longrightarrow> sf_startedInformers (Start f) t" for t i by force
  then have "{i. \<exists>t. (t, i) \<in> set (sf_informers f) \<and> sf_startedInformers (Start f) t} =
      snd ` set (sf_informers f)" by force
  then have "factory_inv (Start f)"
    using inv dist all started by (simp add: factory_inv_def) (simp add: Start_def)
  with dist all ran show "factory_inv (Start f) \<and> map_of (sf_informers (Start f)) = map_of (sf_informers f) \<and>
      set (sf_runs (Start f)) = ran (map_of (sf_informers f)) \<and> distinct (sf_runs (Start f))"
    by (simp add: Start_def)
next
  fix f :: "'c sharedInformerFactory"
  assume inv: "factory_inv f"
  then have d: "distinct (map fst (sf_informers f))" "distinct (sf_runs f)"
    and runs: "set (sf_runs f) = {i. \<exists>t. (t, i) \<in> set (sf_informers f) \<and> sf_startedInformers f t}"
    by (simp_all add: factory_inv_def)
  have "set (sf_runs f) \<subseteq> snd ` set (sf_informers f)" unfolding runs by force
  with d(2) ran_distinct [OF d(1)]
  show "distinct (sf_runs f) \<and> set (sf_runs f) \<subseteq> ran (map_of (sf_informers f))" by simp
qed

section \<open>Reachable factories\<close>

text \<open>The options the package offers, and what a program can do with a factory.\<close>

inductive factory_option :: "('c sharedInformerFactory \<Rightarrow> 'c sharedInformerFactory) \<Rightarrow> bool" where
  custom_resync: "factory_option (WithCustomResyncConfig cfg)"
| tweak: "factory_option (WithTweakListOptions t)"
| namespace: "factory_option (WithNamespace ns)"

inductive factory_step :: "'c sharedInformerFactory \<Rightarrow> 'c sharedInformerFactory \<Rightarrow> bool" where
  ask_services: "factory_step f (snd (serviceInformer_Informer (Mesh_Services f) f))"
| ask_configurations: "factory_step f (snd (configurationInformer_Informer (Mesh_Configurations f) f))"
| for_resource: "factory_step f (snd (ForResource resource f))"
| start_factory: "factory_step f (Start f)"

inductive_cases factory_stepE: "factory_step f f'"

text \<open>The informer a factory makes for a type: the factory's namespace, tweak and resync period.\<close>

definition resync_of :: "'c sharedInformerFactory \<Rightarrow> string \<Rightarrow> int" where
  "resync_of f t = (case sf_customResync f t of None \<Rightarrow> sf_defaultResync f | Some d \<Rightarrow> d)"

definition service_informer_of :: "'c sharedInformerFactory \<Rightarrow> 'c SharedIndexInformer" where
  "service_informer_of f =
     service_defaultInformer (Mesh_Services f) (sf_client f) (resync_of f service_type)"

definition configuration_informer_of :: "'c sharedInformerFactory \<Rightarrow> 'c SharedIndexInformer" where
  "configuration_informer_of f =
     configuration_defaultInformer (Mesh_Configurations f) (sf_client f) (resync_of f configuration_type)"

definition factory_typed :: "'c sharedInformerFactory \<Rightarrow> bool" where
  "factory_typed f \<longleftrightarrow> factory_inv f \<and>
     (\<forall>(t, i) \<in> set (sf_informers f).
        (t = service_type \<and> sf_made f ! i = service_informer_of f) \<or>
        (t = configuration_type \<and> sf_made f ! i = configuration_informer_of f))"

lemma option_fold:
  "\<forall>opt \<in> set opts. factory_option opt \<Longrightarrow>
   sf_informers (fold (\<lambda>opt f. opt f) opts f) = sf_informers f \<and>
   sf_startedInformers (fold (\<lambda>opt f. opt f) opts f) = sf_startedInformers f \<and>
   sf_runs (fold (\<lambda>opt f. opt f) opts f) = sf_runs f"
proof (induction opts arbitrary: f)
  case (Cons opt opts)
  have custom: "sf_informers (WithCustomResyncConfig cfg f) = sf_informers f \<and>
      sf_startedInformers (WithCustomResyncConfig cfg f) = sf_startedInformers f \<and>
      sf_runs (WithCustomResyncConfig cfg f) = sf_runs f" for cfg and f :: "'a sharedInformerFactory"
    unfolding WithCustomResyncConfig_def by (induction cfg arbitrary: f) auto
  from Cons.prems have "factory_option opt" by simp
  then have "sf_informers (opt f) = sf_informers f \<and> sf_startedInformers (opt f) = sf_startedInformers f \<and>
      sf_runs (opt f) = sf_runs f"
    by cases (simp_all add: custom WithTweakListOptions_def WithNamespace_def)
  with Cons show ?case by simp
qed simp

lemma factory_typed_new:
  "\<forall>opt \<in> set opts. factory_option opt \<Longrightarrow>
   factory_typed (NewSharedInformerFactoryWithOptions client d opts)"
  by (simp add: NewSharedInformerFactoryWithOptions_def factory_typed_def factory_inv_def option_fold)

lemma of_frame:
  "sf_client f' = sf_client f \<Longrightarrow> sf_namespace f' = sf_namespace f \<Longrightarrow>
   sf_tweakListOptions f' = sf_tweakListOptions f \<Longrightarrow> sf_customResync f' = sf_customResync f \<Longrightarrow>
   sf_defaultResync f' = sf_defaultResync f \<Longrightarrow>
   service_informer_of f' = service_informer_of f \<and> configuration_informer_of f' = configuration_informer_of f \<and>
   Mesh_Services f' = Mesh_Services f \<and> Mesh_Configurations f' = Mesh_Configurations f"
  by (simp add: service_informer_of_def configuration_informer_of_def resync_of_def Mesh_informers
      cong: option.case_cong)

lemma Start_frame: "sf_client (Start f) = sf_client f" "sf_namespace (Start f) = sf_namespace f"
  "sf_tweakListOptions (Start f) = sf_tweakListOptions f"
  "sf_customResync (Start f) = sf_customResync f" "sf_defaultResync (Start f) = sf_defaultResync f"
proof -
  have "sf_customResync (start_informers xs f) = sf_customResync f \<and>
      sf_defaultResync (start_informers xs f) = sf_defaultResync f" for xs and f :: "'a sharedInformerFactory"
    by (induction xs arbitrary: f) (auto simp: split_def)
  then show "sf_client (Start f) = sf_client f" "sf_namespace (Start f) = sf_namespace f"
    "sf_tweakListOptions (Start f) = sf_tweakListOptions f"
    "sf_customResync (Start f) = sf_customResync f" "sf_defaultResync (Start f) = sf_defaultResync f"
    by (simp_all add: Start_def)
qed

text \<open>Asking for a type: the invariant, the answer, and what stays.\<close>

lemma InformerFor_typed:
  assumes f: "factory_typed f" and t: "new (sf_client f) (resync_of f t) = made"
    and kind: "t = service_type \<and> made = service_informer_of f \<or>
               t = configuration_type \<and> made = configuration_informer_of f"
    and eq: "InformerFor t new f = (i, f')"
  shows "factory_typed f'" "sf_made f' ! i = made" "map_of (sf_informers f') t = Some i"
    "sf_runs f' = sf_runs f" "service_informer_of f' = service_informer_of f"
    "configuration_informer_of f' = configuration_informer_of f"
proof -
  from f have inv: "factory_inv f" by (simp add: factory_typed_def)
  note ask = mesh_factory.ask_answer [OF inv, of "(t, new)" i f', simplified, OF eq]
  have "factory_typed f' \<and> sf_made f' ! i = made \<and> service_informer_of f' = service_informer_of f \<and>
      configuration_informer_of f' = configuration_informer_of f"
  proof (cases rule: InformerFor_cases [of f t new])
    case (known j)
    with eq have "f' = f" "i = j" by simp_all
    moreover have "(t, j) \<in> set (sf_informers f)" using known(1) by (rule map_of_SomeD)
    then have "sf_made f ! j = made"
      using f kind by (auto simp: factory_typed_def service_type_def configuration_type_def)
    ultimately show ?thesis using f by simp
  next
    case new
    with eq have f': "i = length (sf_made f)"
      "f' = f\<lparr>sf_made := sf_made f @ [made], sf_informers := sf_informers f @ [(t, i)]\<rparr>"
      using t by (auto simp: resync_of_def)
    have frame: "service_informer_of f' = service_informer_of f"
      "configuration_informer_of f' = configuration_informer_of f"
      using of_frame [of f' f] by (simp_all add: f'(2))
    have old: "(u, j) \<in> set (sf_informers f) \<Longrightarrow> sf_made f' ! j = sf_made f ! j" for u j
      using inv by (fastforce simp: factory_inv_def f'(2) nth_append)
    have made: "sf_made f' ! i = made" by (simp add: f')
    have "factory_typed f'"
      unfolding factory_typed_def frame
    proof (intro conjI ask(1) ballI)
      fix x assume "x \<in> set (sf_informers f')"
      then have "x \<in> set (sf_informers f) \<or> x = (t, i)" by (auto simp: f'(2))
      then show "case x of (t, i) \<Rightarrow> t = service_type \<and> sf_made f' ! i = service_informer_of f \<or>
          t = configuration_type \<and> sf_made f' ! i = configuration_informer_of f"
        using f old made kind by (auto simp: factory_typed_def)
    qed
    with made frame show ?thesis by simp
  qed
  then show "factory_typed f'" "sf_made f' ! i = made" "service_informer_of f' = service_informer_of f"
    "configuration_informer_of f' = configuration_informer_of f" by simp_all
  show "map_of (sf_informers f') t = Some i" "sf_runs f' = sf_runs f" using ask by simp_all
qed

lemma services_typed:
  assumes "factory_typed f" "serviceInformer_Informer (Mesh_Services f) f = (i, f')"
  shows "factory_typed f'" "sf_made f' ! i = service_informer_of f" "map_of (sf_informers f') service_type = Some i"
    "sf_runs f' = sf_runs f" "service_informer_of f' = service_informer_of f"
    "configuration_informer_of f' = configuration_informer_of f"
  using InformerFor_typed [OF assms(1), of "service_defaultInformer (Mesh_Services f)" service_type
      "service_informer_of f" i f'] assms(2)
  by (simp_all add: service_informer_of_def serviceInformer_Informer_def)

lemma configurations_typed:
  assumes "factory_typed f" "configurationInformer_Informer (Mesh_Configurations f) f = (i, f')"
  shows "factory_typed f'" "sf_made f' ! i = configuration_informer_of f"
    "map_of (sf_informers f') configuration_type = Some i"
    "sf_runs f' = sf_runs f" "service_informer_of f' = service_informer_of f"
    "configuration_informer_of f' = configuration_informer_of f"
  using InformerFor_typed [OF assms(1), of "configuration_defaultInformer (Mesh_Configurations f)"
      configuration_type "configuration_informer_of f" i f'] assms(2)
  by (simp_all add: configuration_informer_of_def configurationInformer_Informer_def)

lemma ForResource_cases:
  obtains (configurations) i f' where "gvr = WithResource SchemeGroupVersion ''configurations''"
      "configurationInformer_Informer (Mesh_Configurations f) f = (i, f')"
      "ForResource gvr f = (Inr \<lparr>gi_informer = i, gi_resource = gvr_GroupResource gvr\<rparr>, f')"
  | (services) i f' where "gvr = WithResource SchemeGroupVersion ''services''"
      "serviceInformer_Informer (Mesh_Services f) f = (i, f')"
      "ForResource gvr f = (Inr \<lparr>gi_informer = i, gi_resource = gvr_GroupResource gvr\<rparr>, f')"
  | (unknown) "gvr \<noteq> WithResource SchemeGroupVersion ''configurations''"
      "gvr \<noteq> WithResource SchemeGroupVersion ''services''" "\<exists>e. ForResource gvr f = (Inl e, f)"
proof -
  obtain i g where c: "configurationInformer_Informer (Mesh_Configurations f) f = (i, g)" by force
  obtain j h where s: "serviceInformer_Informer (Mesh_Services f) f = (j, h)" by force
  have ne: "WithResource SchemeGroupVersion ''configurations'' \<noteq> WithResource SchemeGroupVersion ''services''"
    by (simp add: WithResource_def)
  consider "gvr = WithResource SchemeGroupVersion ''configurations''"
    | "gvr = WithResource SchemeGroupVersion ''services''"
    | "gvr \<noteq> WithResource SchemeGroupVersion ''configurations''"
      "gvr \<noteq> WithResource SchemeGroupVersion ''services''" by blast
  then show thesis
    by cases (use c s ne configurations services unknown in \<open>simp_all add: ForResource_def\<close>)
qed

lemma factory_typed_Start: "factory_typed f \<Longrightarrow> factory_typed (Start f)"
  using mesh_factory.start_law [of f] of_frame [of "Start f" f, OF Start_frame]
  by (simp add: factory_typed_def) (simp add: Start_def)

lemma factory_typed_step:
  assumes "factory_step f f'" "factory_typed f"
  shows "factory_typed f' \<and> service_informer_of f' = service_informer_of f \<and>
    configuration_informer_of f' = configuration_informer_of f"
  using assms(1)
proof (elim factory_stepE)
  assume "f' = snd (serviceInformer_Informer (Mesh_Services f) f)"
  with services_typed [OF assms(2) surjective_pairing] show ?thesis by simp
next
  assume "f' = snd (configurationInformer_Informer (Mesh_Configurations f) f)"
  with configurations_typed [OF assms(2) surjective_pairing] show ?thesis by simp
next
  fix resource assume "f' = snd (ForResource resource f)"
  then show ?thesis
    using services_typed [OF assms(2)] configurations_typed [OF assms(2)] assms(2)
    by (cases rule: ForResource_cases [of resource f]) auto
next
  assume "f' = Start f"
  with factory_typed_Start [OF assms(2)] of_frame [of "Start f" f, OF Start_frame] show ?thesis by simp
qed

lemma factory_typed_steps:
  "factory_step\<^sup>*\<^sup>* f f' \<Longrightarrow> factory_typed f \<Longrightarrow>
   factory_typed f' \<and> service_informer_of f' = service_informer_of f \<and>
   configuration_informer_of f' = configuration_informer_of f"
  by (induction rule: rtranclp_induct) (auto dest: factory_typed_step)

text \<open>An informer once handed out is kept.\<close>

lemma informer_kept_step:
  assumes "factory_step f f'" "factory_typed f" "map_of (sf_informers f) t = Some i"
  shows "map_of (sf_informers f') t = Some i"
proof -
  from assms(2) have inv: "factory_inv f" by (simp add: factory_typed_def)
  have ask: "InformerFor u new f = (j, g) \<Longrightarrow> map_of (sf_informers g) t = Some i" for u new j g
    using mesh_factory.ask_answer(3) [OF inv, of "(u, new)" j g] assms(3) by (auto simp: map_le_def dom_def)
  have S: "serviceInformer_Informer (Mesh_Services f) f = (j, g) \<Longrightarrow> map_of (sf_informers g) t = Some i"
    and C: "configurationInformer_Informer (Mesh_Configurations f) f = (j, g) \<Longrightarrow>
      map_of (sf_informers g) t = Some i" for j g
    using ask by (simp_all add: serviceInformer_Informer_def configurationInformer_Informer_def)
  show ?thesis
    using assms(1)
  proof (elim factory_stepE)
    fix resource assume "f' = snd (ForResource resource f)"
    then show ?thesis using S C assms(3) by (cases rule: ForResource_cases [of resource f]) auto
  next
    assume "f' = Start f"
    then show ?thesis using assms(3) by (simp add: Start_def)
  qed (use S [OF surjective_pairing] C [OF surjective_pairing] in simp_all)
qed

lemma informer_kept:
  "factory_typed f \<Longrightarrow> map_of (sf_informers f) t = Some i \<Longrightarrow> factory_step\<^sup>*\<^sup>* f f' \<Longrightarrow>
   map_of (sf_informers f') t = Some i"
proof (rotate_tac 2, induction rule: rtranclp_induct)
  case (step f' f'')
  with informer_kept_step factory_typed_steps show ?case by blast
qed

text \<open>Every informer of a started factory is waited for.\<close>

lemma sync_reports:
  assumes "factory_inv f" "map_of (sf_informers f) t = Some i"
  shows "WaitForCacheSync synced (Start f) t = Some (synced i)"
proof -
  have "filter (\<lambda>(t, i). sf_startedInformers (Start f) t) (sf_informers f) = sf_informers f"
    by (auto simp: filter_id_conv Start_def start_informers_started image_iff) force
  then have "WaitForCacheSync synced (Start f) =
      map_of (map (\<lambda>(t, i). (t, synced i)) (sf_informers f))"
    by (simp add: WaitForCacheSync_def Start_def)
  with assms(2) show ?thesis by (simp add: map_of_map)
qed

lemma service_informer_calls:
  "ii_ListFunc (service_informer_of f) options =
     \<lparr>cc_client = sf_client f, cc_resource = ''services'', cc_namespace = sf_namespace f,
       cc_options = (case sf_tweakListOptions f of None \<Rightarrow> options | Some tweak \<Rightarrow> tweak options)\<rparr>"
  "ii_WatchFunc (service_informer_of f) options =
     \<lparr>cc_client = sf_client f, cc_resource = ''services'', cc_namespace = sf_namespace f,
       cc_options = (case sf_tweakListOptions f of None \<Rightarrow> options | Some tweak \<Rightarrow> tweak options)\<rparr>"
  "ii_type (service_informer_of f) = service_type"
  "ii_resync (service_informer_of f) = (case sf_customResync f service_type of None \<Rightarrow> sf_defaultResync f | Some p \<Rightarrow> p)"
  "ii_indexers (service_informer_of f) = [(NamespaceIndex, MetaNamespaceIndexFunc)]"
  by (simp_all add: service_informer_of_def service_defaultInformer_def NewFilteredServiceInformer_def
      Mesh_informers namespace_indexers_def resync_of_def)

text \<open>C32: the informer factory shares and starts its informers properly. Whatever the program asked of
  it before, in whatever order: the services informer handed out by the typed interface and by
  \<open>ForResource\<close> is one and the same; it lists and watches, through the factory's client, the services of
  the factory's namespace, with the options as they are or tweaked when the factory has a tweak, resyncs
  at the period set for its type or else the factory's, and is indexed by namespace; and it stays the
  same ever after; after \<open>Start\<close> it runs, no informer
  ever runs twice, starting again starts nothing, and \<open>WaitForCacheSync\<close> answers for it; other
  resources are refused without effect.\<close>

theorem factory_shares_informers:
  assumes "\<forall>opt \<in> set opts. factory_option opt"
    and "factory_step\<^sup>*\<^sup>* (NewSharedInformerFactoryWithOptions client d opts) f"
    and "serviceInformer_Informer (Mesh_Services f) f = (i, f1)" "factory_step\<^sup>*\<^sup>* f1 f2"
  shows "fst (serviceInformer_Informer (Mesh_Services f2) f2) = i \<and>
    fst (ForResource (WithResource SchemeGroupVersion ''services'') f2) =
      Inr \<lparr>gi_informer = i, gi_resource = Resource ''services''\<rparr> \<and>
    (\<forall>options.
       ii_ListFunc (sf_made f2 ! i) options =
         \<lparr>cc_client = sf_client f, cc_resource = ''services'', cc_namespace = sf_namespace f,
           cc_options = (case sf_tweakListOptions f of None \<Rightarrow> options | Some tweak \<Rightarrow> tweak options)\<rparr> \<and>
       ii_WatchFunc (sf_made f2 ! i) options =
         \<lparr>cc_client = sf_client f, cc_resource = ''services'', cc_namespace = sf_namespace f,
           cc_options = (case sf_tweakListOptions f of None \<Rightarrow> options | Some tweak \<Rightarrow> tweak options)\<rparr>) \<and>
    ii_type (sf_made f2 ! i) = service_type \<and>
    ii_resync (sf_made f2 ! i) = (case sf_customResync f service_type of None \<Rightarrow> sf_defaultResync f | Some p \<Rightarrow> p) \<and>
    ii_indexers (sf_made f2 ! i) = [(NamespaceIndex, MetaNamespaceIndexFunc)] \<and>
    i \<in> set (sf_runs (Start f2)) \<and> distinct (sf_runs f2) \<and>
    set (sf_runs (Start (Start f2))) = set (sf_runs (Start f2)) \<and>
    WaitForCacheSync synced (Start f2) service_type = Some (synced i) \<and>
    (gvr \<notin> {WithResource SchemeGroupVersion ''services'', WithResource SchemeGroupVersion ''configurations''} \<longrightarrow>
       (\<exists>e. ForResource gvr f2 = (Inl e, f2)))"
proof -
  have typed: "factory_typed f"
    using factory_typed_steps [OF assms(2) factory_typed_new [OF assms(1)]] by simp
  note f1 = services_typed [OF typed assms(3)]
  have f2: "factory_typed f2" "service_informer_of f2 = service_informer_of f"
    using factory_typed_steps [OF assms(4) f1(1)] f1(5) by simp_all
  have known: "factory_step\<^sup>*\<^sup>* f1 g \<Longrightarrow> map_of (sf_informers g) service_type = Some i" for g
    by (rule informer_kept [OF f1(1,3)])
  obtain j g where j: "serviceInformer_Informer (Mesh_Services f2) f2 = (j, g)" by force
  have "j = i" "g = f2"
    using mesh_factory.ask_known [of f2 "(service_type, service_defaultInformer (Mesh_Services f2))" i]
      f2(1) known [OF assms(4)] j by (simp_all add: factory_typed_def serviceInformer_Informer_def)
  moreover from services_typed(2) [OF f2(1) j] f2(2) have "sf_made g ! j = service_informer_of f" by simp
  moreover have "i \<in> set (sf_runs (Start f2)) \<and> distinct (sf_runs f2) \<and>
      set (sf_runs (Start (Start f2))) = set (sf_runs (Start f2))"
    using mesh_factory.start_law [of f2] mesh_factory.start_twice [of f2] mesh_factory.runs_once [of f2]
      f2(1) known [OF assms(4)] by (auto simp: factory_typed_def intro: ranI)
  moreover have "WaitForCacheSync synced (Start f2) service_type = Some (synced i)"
    by (rule sync_reports) (use known [OF assms(4)] f2(1) in \<open>simp_all add: factory_typed_def\<close>)
  moreover have "fst (ForResource (WithResource SchemeGroupVersion ''services'') f2) =
      Inr \<lparr>gi_informer = j, gi_resource = Resource ''services''\<rparr>"
    using j by (simp add: ForResource_def WithResource_def Resource_def)
  moreover have "gvr \<notin> {WithResource SchemeGroupVersion ''services'', WithResource SchemeGroupVersion ''configurations''} \<Longrightarrow>
      \<exists>e. ForResource gvr f2 = (Inl e, f2)"
    by (cases rule: ForResource_cases [of gvr f2]) simp_all
  ultimately show ?thesis using j by (simp add: service_informer_calls)
qed

definition watched_service_call :: "string \<Rightarrow> ListOptions \<Rightarrow> unit client_call" where
  "watched_service_call ns options =
     \<lparr>cc_client = (), cc_resource = ''services'', cc_namespace = ns, cc_options = options\<rparr>"

theorem factory_shares_informers_witness:
  "\<exists>f1. serviceInformer_Informer (Mesh_Services (NewFilteredSharedInformerFactory () 30 ''shop'' None))
        (NewFilteredSharedInformerFactory () 30 ''shop'' None) = (0, f1) \<and>
     0 \<in> set (sf_runs (Start f1)) \<and>
     ii_ListFunc (sf_made f1 ! 0) all_options = watched_service_call ''shop'' all_options \<and>
     (\<exists>e. ForResource \<lparr>gvr_Group = [], gvr_Version = ''v1'', gvr_Resource = ''pods''\<rparr> f1 = (Inl e, f1))"
proof -
  let ?f = "NewFilteredSharedInformerFactory () 30 ''shop'' None"
  let ?opts = "[WithNamespace ''shop'', WithTweakListOptions None] ::
      (unit sharedInformerFactory \<Rightarrow> unit sharedInformerFactory) list"
  have opts: "\<forall>opt \<in> set ?opts. factory_option opt" by (simp add: namespace tweak)
  have f: "factory_step\<^sup>*\<^sup>* (NewSharedInformerFactoryWithOptions () 30 ?opts) ?f"
    by (simp add: NewFilteredSharedInformerFactory_def)
  obtain i f1 where f1: "serviceInformer_Informer (Mesh_Services ?f) ?f = (i, f1)" by force
  then have i: "i = 0"
    by (simp add: serviceInformer_Informer_def InformerFor_def NewFilteredSharedInformerFactory_def
        NewSharedInformerFactoryWithOptions_def WithNamespace_def WithTweakListOptions_def Let_def)
  have fields: "sf_namespace ?f = ''shop''" "sf_tweakListOptions ?f = None"
    by (simp_all add: NewFilteredSharedInformerFactory_def NewSharedInformerFactoryWithOptions_def
        WithNamespace_def WithTweakListOptions_def)
  have pods: "\<lparr>gvr_Group = [], gvr_Version = ''v1'', gvr_Resource = ''pods''\<rparr> \<notin>
      {WithResource SchemeGroupVersion ''services'', WithResource SchemeGroupVersion ''configurations''}"
    by (simp add: WithResource_def)
  from factory_shares_informers [OF opts f f1 rtranclp.rtrancl_refl] f1 i pods show ?thesis
    by (simp add: fields watched_service_call_def)
qed

end
