(* ===== verification/DeepCopyHeap.thy ===== *)
theory DeepCopyHeap
  imports Prelude
begin

text \<open>
  Memory for the generated deep copies. A struct in memory keeps its scalar fields, and the address
  of every slice, map and pointer; what these hold is in a heap of cells. The locale \<open>deep_copy\<close> is
  what a \<open>DeepCopyInto\<close> promises: the copy denotes the same value, it reaches only new memory, and
  nothing that was there before is written. Its consequence, proved once, is independence: writes
  through the copy never show in the original, nor the other way round. The promise is kept by
  copying slices element by element, by copying several fields one after the other, and by \<open>new\<close>.
\<close>

section \<open>The heap\<close>

type_synonym addr = nat

record 'k heap =
  hp_next :: addr
  hp_cells :: "addr \<rightharpoonup> 'k"

definition alloc :: "'k \<Rightarrow> 'k heap \<Rightarrow> addr \<times> 'k heap" where
  "alloc c h = (hp_next h, h\<lparr>hp_next := Suc (hp_next h), hp_cells := (hp_cells h)(hp_next h \<mapsto> c)\<rparr>)"

definition store_at :: "addr \<Rightarrow> 'k \<Rightarrow> 'k heap \<Rightarrow> 'k heap" where
  "store_at a c h = h\<lparr>hp_cells := (hp_cells h)(a \<mapsto> c)\<rparr>"

definition load :: "('k \<Rightarrow> 'v option) \<Rightarrow> addr \<Rightarrow> 'k heap \<Rightarrow> 'v option" where
  "load proj a h = Option.bind (hp_cells h a) proj"

text \<open>The second heap has all of the first, unchanged.\<close>

definition extends :: "'k heap \<Rightarrow> 'k heap \<Rightarrow> bool" where
  "extends h h' \<longleftrightarrow> hp_next h \<le> hp_next h' \<and> (\<forall>b < hp_next h. hp_cells h' b = hp_cells h b)"

lemma extends_refl [simp]: "extends h h"
  by (simp add: extends_def)

lemma extends_trans: "extends h h' \<Longrightarrow> extends h' h'' \<Longrightarrow> extends h h''"
  by (simp add: extends_def)

lemma extends_alloc: "alloc c h = (a, h') \<Longrightarrow> extends h h' \<and> a = hp_next h \<and> hp_next h' = Suc a \<and> hp_cells h' a = Some c"
  by (auto simp: alloc_def extends_def)

lemma extends_store: "extends h h' \<Longrightarrow> hp_next h \<le> a \<Longrightarrow> extends h (store_at a c h')"
  by (auto simp: extends_def store_at_def)

lemma store_at_simps [simp]: "hp_next (store_at a c h) = hp_next h" "hp_cells (store_at a c h) a = Some c"
  "b \<noteq> a \<Longrightarrow> hp_cells (store_at a c h) b = hp_cells h b"
  by (simp_all add: store_at_def)

lemma load_cong: "hp_cells h' a = hp_cells h a \<Longrightarrow> load proj a h' = load proj a h"
  by (simp add: load_def)

section \<open>The promise of a deep copy\<close>

locale deep_copy =
  fixes copy :: "'v \<Rightarrow> 'k heap \<Rightarrow> 'v \<times> 'k heap"
    and den :: "'v \<Rightarrow> 'k heap \<Rightarrow> 'a option"
    and reach :: "'v \<Rightarrow> 'k heap \<Rightarrow> addr set"
  assumes frame: "den v h = Some x \<Longrightarrow> (\<And>b. b \<in> reach v h \<Longrightarrow> hp_cells h' b = hp_cells h b) \<Longrightarrow>
      den v h' = Some x \<and> reach v h' = reach v h"
    and copies: "den v h = Some x \<Longrightarrow> reach v h \<subseteq> {..<hp_next h} \<Longrightarrow> copy v h = (v', h') \<Longrightarrow>
      extends h h' \<and> den v' h' = Some x \<and> reach v' h' \<subseteq> {hp_next h..<hp_next h'}"
begin

lemma frame_extends:
  assumes "den v h = Some x" "reach v h \<subseteq> {..<hp_next h}" "extends h h'"
  shows "den v h' = Some x \<and> reach v h' = reach v h"
  by (rule frame [OF assms(1)]) (use assms(2,3) in \<open>auto simp: extends_def\<close>)

text \<open>Original and copy are both intact afterwards, and they share nothing.\<close>

lemma copy_original:
  assumes "den v h = Some x" "reach v h \<subseteq> {..<hp_next h}" "copy v h = (v', h')"
  shows "den v h' = Some x" "den v' h' = Some x" "reach v h' \<inter> reach v' h' = {}"
    "reach v' h' \<subseteq> {..<hp_next h'}"
proof -
  have c: "extends h h'" "den v' h' = Some x" "reach v' h' \<subseteq> {hp_next h..<hp_next h'}"
    using copies [OF assms] by simp_all
  have o: "den v h' = Some x" "reach v h' = reach v h"
    using frame_extends [OF assms(1,2) c(1)] by simp_all
  show "den v h' = Some x" "den v' h' = Some x" by (fact o(1), fact c(2))
  show "reach v' h' \<subseteq> {..<hp_next h'}" using c(3) by auto
  show "reach v h' \<inter> reach v' h' = {}" using o(2) c(3) assms(2) by fastforce
qed

lemma independent:
  assumes "den v h = Some x" "reach v h \<subseteq> {..<hp_next h}" "copy v h = (v', h')"
  shows "a \<in> reach v' h' \<Longrightarrow> den v (store_at a c h') = Some x"
    and "a \<in> reach v h' \<Longrightarrow> den v' (store_at a c h') = Some x"
proof -
  note c = copy_original [OF assms]
  show "den v (store_at a c h') = Some x" if "a \<in> reach v' h'"
    using frame [OF c(1), of "store_at a c h'"] c(3) that by (metis disjoint_iff store_at_simps(3))
  show "den v' (store_at a c h') = Some x" if "a \<in> reach v h'"
    using frame [OF c(2), of "store_at a c h'"] c(3) that by (metis disjoint_iff store_at_simps(3))
qed

end

section \<open>Copying slices\<close>

text \<open>
  A slice is nil or the address of its array; \<open>mk\<close> and \<open>proj\<close> make and read the cells that hold
  arrays of its element type. The loop of \<open>DeepCopyInto\<close> fills the new array from the left; reading
  through a cell of another type does not happen in Go, and leaves the slice alone here.
\<close>

fun copy_loop :: "('v list \<Rightarrow> 'k) \<Rightarrow> 'v \<Rightarrow> ('v \<Rightarrow> 'k heap \<Rightarrow> 'v \<times> 'k heap) \<Rightarrow> addr \<Rightarrow> 'v list \<Rightarrow> 'v list \<Rightarrow>
    'k heap \<Rightarrow> 'k heap" where
  "copy_loop mk zero copy a dn [] h = h"
| "copy_loop mk zero copy a dn (v # vs) h =
     (let (v', h1) = copy v h;
          dn' = dn @ [v']
      in copy_loop mk zero copy a dn' vs (store_at a (mk (dn' @ replicate (length vs) zero)) h1))"

definition slice_copy :: "('v list \<Rightarrow> 'k) \<Rightarrow> ('k \<Rightarrow> 'v list option) \<Rightarrow> 'v \<Rightarrow>
    ('v \<Rightarrow> 'k heap \<Rightarrow> 'v \<times> 'k heap) \<Rightarrow> addr option \<Rightarrow> 'k heap \<Rightarrow> addr option \<times> 'k heap" where
  "slice_copy mk proj zero copy s h =
     (case s of
        None \<Rightarrow> (None, h)
      | Some a \<Rightarrow>
          (case load proj a h of
             None \<Rightarrow> (Some a, h)
           | Some vs \<Rightarrow>
               (let (b, h1) = alloc (mk (replicate (length vs) zero)) h
                in (Some b, copy_loop mk zero copy b [] vs h1))))"

definition slice_den :: "('k \<Rightarrow> 'v list option) \<Rightarrow> ('v \<Rightarrow> 'k heap \<Rightarrow> 'a option) \<Rightarrow> addr option \<Rightarrow>
    'k heap \<Rightarrow> 'a list option option" where
  "slice_den proj den s h =
     (case s of
        None \<Rightarrow> Some None
      | Some a \<Rightarrow> Option.bind (load proj a h) (\<lambda>vs. map_option Some (those (map (\<lambda>v. den v h) vs))))"

definition slice_reach :: "('k \<Rightarrow> 'v list option) \<Rightarrow> ('v \<Rightarrow> 'k heap \<Rightarrow> addr set) \<Rightarrow> addr option \<Rightarrow>
    'k heap \<Rightarrow> addr set" where
  "slice_reach proj reach s h =
     (case s of
        None \<Rightarrow> {}
      | Some a \<Rightarrow> insert a (case load proj a h of None \<Rightarrow> {} | Some vs \<Rightarrow> \<Union>v \<in> set vs. reach v h))"

lemma those_Some_iff: "those xs = Some ys \<longleftrightarrow> xs = map Some ys"
proof (induction xs arbitrary: ys)
  case (Cons x xs)
  then show ?case by (cases x; cases ys) auto
qed auto

text \<open>The loop, from any point on: \<open>h0\<close> is the heap before the array was allocated.\<close>

lemma copy_loop_copies:
  assumes "deep_copy copy den reach"
    and "extends h0 h" "hp_next h0 \<le> a" "a < hp_next h"
    and "map (\<lambda>v. den v h0) vs = map Some xs" "\<And>v. v \<in> set vs \<Longrightarrow> reach v h0 \<subseteq> {..<hp_next h0}"
    and "map (\<lambda>v. den v h) dn = map Some ys"
      "\<And>v. v \<in> set dn \<Longrightarrow> reach v h \<subseteq> {hp_next h0..<hp_next h} - {a}"
    and "hp_cells h a = Some (mk (dn @ replicate (length vs) zero))"
  shows "\<exists>us. let h' = copy_loop mk zero copy a dn vs h in
    extends h0 h' \<and> a < hp_next h' \<and> hp_cells h' a = Some (mk us) \<and>
    map (\<lambda>v. den v h') us = map Some (ys @ xs) \<and>
    (\<forall>v \<in> set us. reach v h' \<subseteq> {hp_next h0..<hp_next h'})"
  using assms(2-)
proof (induction vs arbitrary: dn h xs ys)
  case Nil
  then show ?case by (intro exI [of _ dn]) (auto simp: Let_def)
next
  case (Cons v vs)
  note frame = deep_copy.frame [OF assms(1)] and copies = deep_copy.copies [OF assms(1)]
    and frame_extends = deep_copy.frame_extends [OF assms(1)]
  from Cons.prems(4) obtain x xs' where xs: "xs = x # xs'" "den v h0 = Some x"
    "map (\<lambda>v. den v h0) vs = map Some xs'" by auto
  obtain v' h1 where v': "copy v h = (v', h1)" by force
  have "reach v h0 \<subseteq> {..<hp_next h0}" using Cons.prems(5) [of v] by simp
  moreover have "hp_next h0 \<le> hp_next h" using Cons.prems(1) by (simp add: extends_def)
  ultimately have v: "den v h = Some x" "reach v h \<subseteq> {..<hp_next h}"
    using frame_extends [OF xs(2) _ Cons.prems(1)] by fastforce+
  have c: "extends h h1" "den v' h1 = Some x" "reach v' h1 \<subseteq> {hp_next h..<hp_next h1}"
    using copies [OF v v'] by simp_all
  let ?h2 = "store_at a (mk ((dn @ [v']) @ replicate (length vs) zero)) h1"
  have old: "den d ?h2 = den d h \<and> reach d ?h2 = reach d h" if d: "d \<in> set dn" for d
  proof -
    have "den d h \<in> set (map (\<lambda>v. den v h) dn)" using d by simp
    then obtain y where y: "den d h = Some y" unfolding Cons.prems(6) by auto
    have "hp_cells ?h2 b = hp_cells h b" if "b \<in> reach d h" for b
      using Cons.prems(7) [OF d] that c(1) by (auto simp: extends_def store_at_def)
    from frame [OF y this] y show ?thesis by simp
  qed
  have new: "den v' ?h2 = Some x \<and> reach v' ?h2 = reach v' h1"
    by (rule frame [OF c(2)]) (use c(3) Cons.prems(3) in \<open>auto simp: store_at_def\<close>)
  have step: "\<exists>us. let h' = copy_loop mk zero copy a (dn @ [v']) vs ?h2 in
    extends h0 h' \<and> a < hp_next h' \<and> hp_cells h' a = Some (mk us) \<and>
    map (\<lambda>v. den v h') us = map Some ((ys @ [x]) @ xs') \<and>
    (\<forall>v \<in> set us. reach v h' \<subseteq> {hp_next h0..<hp_next h'})"
  proof (rule Cons.IH)
    show "extends h0 ?h2" using extends_store [OF extends_trans [OF Cons.prems(1) c(1)] Cons.prems(2)] .
    show "hp_next h0 \<le> a" by (fact Cons.prems(2))
    show "a < hp_next ?h2" using Cons.prems(3) c(1) by (simp add: extends_def)
    show "map (\<lambda>v. den v h0) vs = map Some xs'" by (fact xs(3))
    show "reach u h0 \<subseteq> {..<hp_next h0}" if "u \<in> set vs" for u using Cons.prems(5) that by simp
    show "map (\<lambda>v. den v ?h2) (dn @ [v']) = map Some (ys @ [x])"
      using Cons.prems(6) old new by (simp cong: map_cong)
    show "reach u ?h2 \<subseteq> {hp_next h0..<hp_next ?h2} - {a}" if "u \<in> set (dn @ [v'])" for u
      using that old new Cons.prems(1,3,7) c(1,3) by (fastforce simp: extends_def)
    show "hp_cells ?h2 a = Some (mk ((dn @ [v']) @ replicate (length vs) zero))" by simp
  qed
  then show ?case by (simp add: v' xs(1) Let_def)
qed

lemma deep_copy_slice:
  fixes copy :: "'v \<Rightarrow> 'k heap \<Rightarrow> 'v \<times> 'k heap"
  assumes "deep_copy copy den reach" "\<And>vs. proj (mk vs) = Some vs"
  shows "deep_copy (slice_copy mk proj zero copy) (slice_den proj den) (slice_reach proj reach)"
proof
  note frame = deep_copy.frame [OF assms(1)] and copies = deep_copy.copies [OF assms(1)]
    and frame_extends = deep_copy.frame_extends [OF assms(1)]
  fix s x and h h' :: "'k heap"
  assume den: "slice_den proj den s h = Some x"
    and same: "\<And>b. b \<in> slice_reach proj reach s h \<Longrightarrow> hp_cells h' b = hp_cells h b"
  show "slice_den proj den s h' = Some x \<and> slice_reach proj reach s h' = slice_reach proj reach s h"
  proof (cases s)
    case (Some a)
    from den Some obtain vs xs where vs: "load proj a h = Some vs" "map (\<lambda>v. den v h) vs = map Some xs" "x = Some xs"
      by (auto simp: slice_den_def those_Some_iff bind_eq_Some_conv)
    have a: "load proj a h' = Some vs"
      using vs(1) same [of a] Some by (simp add: load_def slice_reach_def)
    have "den v h' = den v h \<and> reach v h' = reach v h" if v: "v \<in> set vs" for v
    proof -
      have "den v h \<in> set (map (\<lambda>v. den v h) vs)" using v by simp
      then obtain y where y: "den v h = Some y" unfolding vs(2) by auto
      have "hp_cells h' b = hp_cells h b" if "b \<in> reach v h" for b
        using same [of b] that v Some vs(1) by (auto simp: slice_reach_def)
      from frame [OF y this] y show ?thesis by simp
    qed
    then have "map (\<lambda>v. den v h') vs = map Some xs" "(\<Union>v \<in> set vs. reach v h') = (\<Union>v \<in> set vs. reach v h)"
      using vs(2) by (simp_all cong: map_cong)
    then show ?thesis using Some a vs by (simp add: slice_den_def slice_reach_def those_Some_iff)
  qed (use den in \<open>simp add: slice_den_def slice_reach_def\<close>)
next
  fix s h x s' h'
  assume den: "slice_den proj den s h = Some x" and reach: "slice_reach proj reach s h \<subseteq> {..<hp_next h}"
    and copy: "slice_copy mk proj zero copy s h = (s', h')"
  show "extends h h' \<and> slice_den proj den s' h' = Some x \<and>
      slice_reach proj reach s' h' \<subseteq> {hp_next h..<hp_next h'}"
  proof (cases s)
    case None
    with den copy show ?thesis by (simp add: slice_den_def slice_copy_def slice_reach_def)
  next
    case (Some a)
    from den Some obtain vs xs where vs: "load proj a h = Some vs" "map (\<lambda>v. den v h) vs = map Some xs" "x = Some xs"
      by (auto simp: slice_den_def those_Some_iff bind_eq_Some_conv)
    obtain b h1 where b: "alloc (mk (replicate (length vs) zero)) h = (b, h1)" by force
    from copy Some vs(1) b have out: "s' = Some b" "h' = copy_loop mk zero copy b [] vs h1"
      by (simp_all add: slice_copy_def)
    note e = extends_alloc [OF b]
    have below: "reach v h \<subseteq> {..<hp_next h}" if "v \<in> set vs" for v
      using reach that Some vs(1) by (auto simp: slice_reach_def)
    have "\<exists>us. let h' = copy_loop mk zero copy b [] vs h1 in
        extends h h' \<and> b < hp_next h' \<and> hp_cells h' b = Some (mk us) \<and>
        map (\<lambda>v. den v h') us = map Some ([] @ xs) \<and>
        (\<forall>v \<in> set us. reach v h' \<subseteq> {hp_next h..<hp_next h'})"
      by (rule copy_loop_copies [OF assms(1)]) (use e vs(2) below in auto)
    then obtain us where "extends h h'" "b < hp_next h'" "hp_cells h' b = Some (mk us)"
      "map (\<lambda>v. den v h') us = map Some xs" "\<forall>v \<in> set us. reach v h' \<subseteq> {hp_next h..<hp_next h'}"
      unfolding out(2) by (auto simp: Let_def)
    with e out(1) vs(3) assms(2) show ?thesis
      by (auto simp: slice_den_def slice_reach_def load_def those_Some_iff)
  qed
qed

section \<open>Plain arrays, maps and pointers\<close>

text \<open>
  \<open>make\<close> and \<open>copy\<close> on an array without addresses in it, or \<open>new\<close> and an assignment; \<open>make\<close> and a
  range over a map.
\<close>

definition array_copy :: "('v \<Rightarrow> 'k) \<Rightarrow> ('k \<Rightarrow> 'v option) \<Rightarrow> addr option \<Rightarrow> 'k heap \<Rightarrow> addr option \<times> 'k heap" where
  "array_copy mk proj s h =
     (case s of
        None \<Rightarrow> (None, h)
      | Some a \<Rightarrow> (case load proj a h of None \<Rightarrow> (Some a, h) | Some vs \<Rightarrow> apfst Some (alloc (mk vs) h)))"

definition map_copy :: "(gomap \<Rightarrow> 'k) \<Rightarrow> ('k \<Rightarrow> gomap option) \<Rightarrow> addr option \<Rightarrow> 'k heap \<Rightarrow> addr option \<times> 'k heap" where
  "map_copy mk proj s h =
     (case s of
        None \<Rightarrow> (None, h)
      | Some a \<Rightarrow>
          (case load proj a h of None \<Rightarrow> (Some a, h) | Some m \<Rightarrow> apfst Some (alloc (mk (range_store [] m)) h)))"

definition leaf_den :: "('v \<Rightarrow> bool) \<Rightarrow> ('k \<Rightarrow> 'v option) \<Rightarrow> addr option \<Rightarrow> 'k heap \<Rightarrow> 'v option option" where
  "leaf_den ok proj s h =
     (case s of
        None \<Rightarrow> Some None
      | Some a \<Rightarrow> Option.bind (load proj a h) (\<lambda>v. if ok v then Some (Some v) else None))"

definition leaf_reach :: "addr option \<Rightarrow> 'k heap \<Rightarrow> addr set" where
  "leaf_reach s h = set_option s"

lemma range_store_self: "go_map (base @ m) \<Longrightarrow> range_store base m = base @ m"
proof (induction m arbitrary: base)
  case (Cons kv m)
  obtain k v where kv: "kv = (k, v)" by force
  from Cons.prems kv have "k \<notin> fst ` set base" by (auto simp: go_map_def)
  then have "AList.update k v base = base @ [(k, v)]" by (rule update_new)
  with Cons kv show ?case by simp
qed simp

text \<open>Any copy that allocates one cell with the same content.\<close>

lemma deep_copy_leaf:
  fixes copy :: "addr option \<Rightarrow> 'k heap \<Rightarrow> addr option \<times> 'k heap"
  assumes "\<And>h. copy None h = (None, h)"
    and "\<And>a h v. load proj a h = Some v \<Longrightarrow> ok v \<Longrightarrow>
      \<exists>c. copy (Some a) h = apfst Some (alloc c h) \<and> proj c = Some v"
  shows "deep_copy copy (leaf_den ok proj) leaf_reach"
proof
  fix s x and h h' :: "'k heap"
  assume "leaf_den ok proj s h = Some x" "\<And>b. b \<in> leaf_reach s h \<Longrightarrow> hp_cells h' b = hp_cells h b"
  then show "leaf_den ok proj s h' = Some x \<and> leaf_reach s h' = leaf_reach s h"
    by (cases s) (simp_all add: leaf_den_def leaf_reach_def load_def)
next
  fix s x s' and h h' :: "'k heap"
  assume den: "leaf_den ok proj s h = Some x" and copy: "copy s h = (s', h')"
  show "extends h h' \<and> leaf_den ok proj s' h' = Some x \<and> leaf_reach s' h' \<subseteq> {hp_next h..<hp_next h'}"
  proof (cases s)
    case None
    with den copy assms(1) show ?thesis by (simp add: leaf_den_def leaf_reach_def)
  next
    case (Some a)
    from den Some obtain v where v: "load proj a h = Some v" "ok v" "x = Some v"
      by (auto simp: leaf_den_def bind_eq_Some_conv split: if_splits)
    from assms(2) [OF v(1,2)] obtain c where c: "copy (Some a) h = apfst Some (alloc c h)" "proj c = Some v"
      by blast
    then obtain b where "alloc c h = (b, h')" "s' = Some b"
      using copy Some by (auto simp: apfst_def map_prod_def split: prod.splits)
    note this c(2)
    with extends_alloc [OF this(1)] v show ?thesis by (auto simp: leaf_den_def leaf_reach_def load_def)
  qed
qed

lemma deep_copy_array:
  "(\<And>vs. proj (mk vs) = Some vs) \<Longrightarrow> deep_copy (array_copy mk proj) (leaf_den (\<lambda>_. True) proj) leaf_reach"
  by (rule deep_copy_leaf) (auto simp: array_copy_def)

lemma deep_copy_map:
  "(\<And>m. proj (mk m) = Some m) \<Longrightarrow> deep_copy (map_copy mk proj) (leaf_den go_map proj) leaf_reach"
  by (rule deep_copy_leaf) (auto simp: map_copy_def range_store_self [of "[]", simplified])

text \<open>\<open>DeepCopy\<close>: nil stays nil, otherwise a new struct is made and filled by \<open>DeepCopyInto\<close>.\<close>

definition new_copy :: "('v \<Rightarrow> 'k) \<Rightarrow> ('k \<Rightarrow> 'v option) \<Rightarrow> 'v \<Rightarrow> ('v \<Rightarrow> 'k heap \<Rightarrow> 'v \<times> 'k heap) \<Rightarrow>
    addr option \<Rightarrow> 'k heap \<Rightarrow> addr option \<times> 'k heap" where
  "new_copy mk proj zero copy p h =
     (case p of
        None \<Rightarrow> (None, h)
      | Some a \<Rightarrow>
          (case load proj a h of
             None \<Rightarrow> (Some a, h)
           | Some v \<Rightarrow>
               (let (b, h1) = alloc (mk zero) h; (v', h2) = copy v h1 in (Some b, store_at b (mk v') h2))))"

definition pointer_den :: "('k \<Rightarrow> 'v option) \<Rightarrow> ('v \<Rightarrow> 'k heap \<Rightarrow> 'a option) \<Rightarrow> addr option \<Rightarrow> 'k heap \<Rightarrow>
    'a option option" where
  "pointer_den proj den p h =
     (case p of None \<Rightarrow> Some None | Some a \<Rightarrow> Option.bind (load proj a h) (\<lambda>v. map_option Some (den v h)))"

definition pointer_reach :: "('k \<Rightarrow> 'v option) \<Rightarrow> ('v \<Rightarrow> 'k heap \<Rightarrow> addr set) \<Rightarrow> addr option \<Rightarrow> 'k heap \<Rightarrow> addr set" where
  "pointer_reach proj reach p h =
     (case p of None \<Rightarrow> {} | Some a \<Rightarrow> insert a (case load proj a h of None \<Rightarrow> {} | Some v \<Rightarrow> reach v h))"

lemma deep_copy_new:
  fixes copy :: "'v \<Rightarrow> 'k heap \<Rightarrow> 'v \<times> 'k heap"
  assumes "deep_copy copy den reach" "\<And>v. proj (mk v) = Some v"
  shows "deep_copy (new_copy mk proj zero copy) (pointer_den proj den) (pointer_reach proj reach)"
proof
  note frame = deep_copy.frame [OF assms(1)] and copies = deep_copy.copies [OF assms(1)]
    and frame_extends = deep_copy.frame_extends [OF assms(1)]
  fix p x and h h' :: "'k heap"
  assume den: "pointer_den proj den p h = Some x"
    and same: "\<And>b. b \<in> pointer_reach proj reach p h \<Longrightarrow> hp_cells h' b = hp_cells h b"
  show "pointer_den proj den p h' = Some x \<and> pointer_reach proj reach p h' = pointer_reach proj reach p h"
  proof (cases p)
    case (Some a)
    from den Some obtain v y where v: "load proj a h = Some v" "den v h = Some y" "x = Some y"
      by (auto simp: pointer_den_def bind_eq_Some_conv)
    have "load proj a h' = Some v" using v(1) same [of a] Some by (simp add: load_def pointer_reach_def)
    moreover have "den v h' = Some y \<and> reach v h' = reach v h"
      by (rule frame [OF v(2)]) (use same Some v(1) in \<open>simp add: pointer_reach_def\<close>)
    ultimately show ?thesis using Some v by (simp add: pointer_den_def pointer_reach_def)
  qed (use den in \<open>simp add: pointer_den_def pointer_reach_def\<close>)
next
  note frame = deep_copy.frame [OF assms(1)] and copies = deep_copy.copies [OF assms(1)]
    and frame_extends = deep_copy.frame_extends [OF assms(1)]
  fix p x p' and h h' :: "'k heap"
  assume den: "pointer_den proj den p h = Some x" and reach: "pointer_reach proj reach p h \<subseteq> {..<hp_next h}"
    and copy: "new_copy mk proj zero copy p h = (p', h')"
  show "extends h h' \<and> pointer_den proj den p' h' = Some x \<and>
      pointer_reach proj reach p' h' \<subseteq> {hp_next h..<hp_next h'}"
  proof (cases p)
    case None
    with den copy show ?thesis by (simp add: pointer_den_def new_copy_def pointer_reach_def)
  next
    case (Some a)
    from den Some obtain v y where v: "load proj a h = Some v" "den v h = Some y" "x = Some y"
      by (auto simp: pointer_den_def bind_eq_Some_conv)
    obtain b h1 where b: "alloc (mk zero) h = (b, h1)" by force
    obtain v' h2 where v': "copy v h1 = (v', h2)" by force
    from copy Some v(1) b v' have out: "p' = Some b" "h' = store_at b (mk v') h2"
      by (simp_all add: new_copy_def)
    note e = extends_alloc [OF b]
    have below: "reach v h \<subseteq> {..<hp_next h}" using reach Some v(1) by (simp add: pointer_reach_def)
    have e1: "extends h h1" "b = hp_next h" "hp_next h1 = Suc b" using e by simp_all
    have "den v h1 = Some y" "reach v h1 = reach v h"
      using frame_extends [OF v(2) below e1(1)] by simp_all
    moreover have "reach v h \<subseteq> {..<hp_next h1}" using below e1(2,3) by auto
    ultimately have v1: "den v h1 = Some y" "reach v h1 \<subseteq> {..<hp_next h1}" by simp_all
    have c: "extends h1 h2" "den v' h2 = Some y" "reach v' h2 \<subseteq> {hp_next h1..<hp_next h2}"
      using copies [OF v1 v'] by simp_all
    have "den v' h' = Some y \<and> reach v' h' = reach v' h2"
      unfolding out(2) by (rule frame [OF c(2)]) (use c(3) e in \<open>auto simp: store_at_def\<close>)
    moreover have "extends h h'"
      unfolding out(2) using extends_store [OF extends_trans [of h h1 h2]] e c(1) by simp
    moreover have "load proj b h' = Some v'" using assms(2) by (simp add: out(2) load_def)
    moreover have "{hp_next h1..<hp_next h2} \<subseteq> {hp_next h..<hp_next h'}" "b \<in> {hp_next h..<hp_next h'}"
      using e c(1) by (auto simp: out(2) extends_def)
    ultimately show ?thesis
      using out(1) c(3) v(3) by (simp add: pointer_den_def pointer_reach_def subset_trans)
  qed
qed

section \<open>Copying structs\<close>

lemma deep_copy_scalar: "deep_copy (\<lambda>v h. (v, h)) (\<lambda>v h. Some (f v)) (\<lambda>v h. {})"
  by unfold_locales simp_all

text \<open>Two parts, one after the other.\<close>

definition pair_copy :: "('v \<Rightarrow> 'k heap \<Rightarrow> 'v \<times> 'k heap) \<Rightarrow> ('w \<Rightarrow> 'k heap \<Rightarrow> 'w \<times> 'k heap) \<Rightarrow>
    'v \<times> 'w \<Rightarrow> 'k heap \<Rightarrow> ('v \<times> 'w) \<times> 'k heap" where
  "pair_copy c1 c2 p h = (let (v, h1) = c1 (fst p) h; (w, h2) = c2 (snd p) h1 in ((v, w), h2))"

definition pair_den :: "('v \<Rightarrow> 'k heap \<Rightarrow> 'a option) \<Rightarrow> ('w \<Rightarrow> 'k heap \<Rightarrow> 'b option) \<Rightarrow>
    'v \<times> 'w \<Rightarrow> 'k heap \<Rightarrow> ('a \<times> 'b) option" where
  "pair_den d1 d2 p h = Option.bind (d1 (fst p) h) (\<lambda>x. map_option (Pair x) (d2 (snd p) h))"

definition pair_reach :: "('v \<Rightarrow> 'k heap \<Rightarrow> addr set) \<Rightarrow> ('w \<Rightarrow> 'k heap \<Rightarrow> addr set) \<Rightarrow>
    'v \<times> 'w \<Rightarrow> 'k heap \<Rightarrow> addr set" where
  "pair_reach r1 r2 p h = r1 (fst p) h \<union> r2 (snd p) h"

lemma deep_copy_pair:
  fixes c1 :: "'v \<Rightarrow> 'k heap \<Rightarrow> 'v \<times> 'k heap" and c2 :: "'w \<Rightarrow> 'k heap \<Rightarrow> 'w \<times> 'k heap"
  assumes "deep_copy c1 d1 r1" "deep_copy c2 d2 r2"
  shows "deep_copy (pair_copy c1 c2) (pair_den d1 d2) (pair_reach r1 r2)"
proof
  note frame1 = deep_copy.frame [OF assms(1)] and frame2 = deep_copy.frame [OF assms(2)]
    and copies1 = deep_copy.copies [OF assms(1)] and copies2 = deep_copy.copies [OF assms(2)]
    and frame_extends1 = deep_copy.frame_extends [OF assms(1)]
    and frame_extends2 = deep_copy.frame_extends [OF assms(2)]
  fix p x and h h' :: "'k heap"
  assume den: "pair_den d1 d2 p h = Some x"
    and same: "\<And>b. b \<in> pair_reach r1 r2 p h \<Longrightarrow> hp_cells h' b = hp_cells h b"
  from den obtain y z where x: "x = (y, z)" "d1 (fst p) h = Some y" "d2 (snd p) h = Some z"
    by (auto simp: pair_den_def bind_eq_Some_conv)
  have "d1 (fst p) h' = Some y \<and> r1 (fst p) h' = r1 (fst p) h"
    by (rule frame1 [OF x(2)]) (simp add: same pair_reach_def)
  moreover have "d2 (snd p) h' = Some z \<and> r2 (snd p) h' = r2 (snd p) h"
    by (rule frame2 [OF x(3)]) (simp add: same pair_reach_def)
  ultimately show "pair_den d1 d2 p h' = Some x \<and> pair_reach r1 r2 p h' = pair_reach r1 r2 p h"
    using x(1) by (simp add: pair_den_def pair_reach_def)
next
  note frame1 = deep_copy.frame [OF assms(1)] and frame2 = deep_copy.frame [OF assms(2)]
    and copies1 = deep_copy.copies [OF assms(1)] and copies2 = deep_copy.copies [OF assms(2)]
    and frame_extends1 = deep_copy.frame_extends [OF assms(1)]
    and frame_extends2 = deep_copy.frame_extends [OF assms(2)]
  fix p x p' and h h' :: "'k heap"
  assume den: "pair_den d1 d2 p h = Some x" and reach: "pair_reach r1 r2 p h \<subseteq> {..<hp_next h}"
    and copy: "pair_copy c1 c2 p h = (p', h')"
  from den obtain y z where x: "x = (y, z)" "d1 (fst p) h = Some y" "d2 (snd p) h = Some z"
    by (auto simp: pair_den_def bind_eq_Some_conv)
  obtain v h1 where v: "c1 (fst p) h = (v, h1)" by force
  obtain w h2 where w: "c2 (snd p) h1 = (w, h2)" by force
  from copy v w have out: "p' = (v, w)" "h' = h2" by (simp_all add: pair_copy_def)
  from reach have r: "r1 (fst p) h \<subseteq> {..<hp_next h}" "r2 (snd p) h \<subseteq> {..<hp_next h}"
    by (simp_all add: pair_reach_def)
  have a: "extends h h1" "d1 v h1 = Some y" "r1 v h1 \<subseteq> {hp_next h..<hp_next h1}"
    using copies1 [OF x(2) r(1) v] by simp_all
  then have le: "hp_next h \<le> hp_next h1" by (simp add: extends_def)
  have s: "d2 (snd p) h1 = Some z" "r2 (snd p) h1 = r2 (snd p) h"
    using frame_extends2 [OF x(3) r(2) a(1)] by simp_all
  have "r2 (snd p) h1 \<subseteq> {..<hp_next h1}" using s(2) r(2) le by auto
  then have b: "extends h1 h2" "d2 w h2 = Some z" "r2 w h2 \<subseteq> {hp_next h1..<hp_next h2}"
    using copies2 [OF s(1) _ w] by simp_all
  have "r1 v h1 \<subseteq> {..<hp_next h1}" using a(3) by auto
  then have "d1 v h2 = Some y" "r1 v h2 = r1 v h1" using frame_extends1 [OF a(2) _ b(1)] by simp_all
  moreover have "hp_next h1 \<le> hp_next h2" using b(1) by (simp add: extends_def)
  moreover have "r1 v h1 \<subseteq> {hp_next h..<hp_next h2}" "r2 w h2 \<subseteq> {hp_next h..<hp_next h2}"
    using a(3) b(3) le calculation(3) by fastforce+
  ultimately show "extends h h' \<and> pair_den d1 d2 p' h' = Some x \<and> pair_reach r1 r2 p' h' \<subseteq> {hp_next h..<hp_next h'}"
    using out x(1) a(1) b(1,2) by (auto intro: extends_trans simp: pair_den_def pair_reach_def)
qed

text \<open>A struct whose addresses are in one part.\<close>

lemma deep_copy_struct:
  fixes c :: "'v \<Rightarrow> 'k heap \<Rightarrow> 'v \<times> 'k heap"
  assumes "deep_copy c d r" and "\<And>v x. part (build x v) = x" "\<And>v x. mk (build x v) = mk v"
    and "\<And>v h. copy v h = (case c (part v) h of (x, h') \<Rightarrow> (build x v, h'))"
    and "\<And>v h. den v h = map_option (mk v) (d (part v) h)"
    and "\<And>v h. reach v h = r (part v) h"
  shows "deep_copy copy den reach"
proof
  note frame = deep_copy.frame [OF assms(1)] and copies = deep_copy.copies [OF assms(1)]
    and frame_extends = deep_copy.frame_extends [OF assms(1)]
  fix v x and h h' :: "'k heap"
  assume den: "den v h = Some x" and same: "\<And>b. b \<in> reach v h \<Longrightarrow> hp_cells h' b = hp_cells h b"
  from den obtain y where y: "d (part v) h = Some y" "x = mk v y" by (auto simp: assms(5))
  have "d (part v) h' = Some y \<and> r (part v) h' = r (part v) h"
    by (rule frame [OF y(1)]) (simp add: same assms(6))
  with y(2) show "den v h' = Some x \<and> reach v h' = reach v h" by (simp add: assms(5,6))
next
  note frame = deep_copy.frame [OF assms(1)] and copies = deep_copy.copies [OF assms(1)]
    and frame_extends = deep_copy.frame_extends [OF assms(1)]
  fix v x v' and h h' :: "'k heap"
  assume den: "den v h = Some x" and below: "reach v h \<subseteq> {..<hp_next h}" and copy: "copy v h = (v', h')"
  from den obtain y where y: "d (part v) h = Some y" "x = mk v y" by (auto simp: assms(5))
  obtain p h2 where p: "c (part v) h = (p, h2)" by force
  from copy p have out: "v' = build p v" "h' = h2" by (simp_all add: assms(4))
  have "r (part v) h \<subseteq> {..<hp_next h}" using below by (simp add: assms(6))
  from copies [OF y(1) this p] out y(2)
  show "extends h h' \<and> den v' h' = Some x \<and> reach v' h' \<subseteq> {hp_next h..<hp_next h'}"
    by (simp add: assms(2,3,5,6))
qed

end
