(* ===== verification/DeepCopy.thy ===== *)
theory DeepCopy
  imports DeepCopyHeap MeshTypes
begin

text \<open>
  The generated deep copies of the mesh types
  (\<open>pkg/apis/mesh/v1alpha1/zz_generated.deepcopy.go\<close>) on the memory of \<open>DeepCopyHeap\<close>. Each
  \<open>DeepCopyInto\<close> is shown to keep the promise of the locale \<open>deep_copy\<close>, with one exception:
  \<open>ServiceSpec\<close> leaves the pointer to the gateway alone, so the copy of a gateway's service shares
  the gateway with the original. The copies of \<open>metav1.ObjectMeta\<close> and \<open>corev1.Container\<close> belong to
  Kubernetes; they are parameters that keep the promise.
\<close>

section \<open>The types in memory\<close>

text \<open>
  Slices, maps and pointers are optional addresses. \<open>'m\<close> and \<open>'c\<close> are object metadata and containers
  in memory. The two list types differ in the type of their items only; what a cell may hold says
  which. The status types are empty structs.
\<close>

record http_mem =
  hm_Domains :: "addr option"
  hm_Cluster :: string

record filter_mem =
  fm_Port :: "32 word"
  fm_Http :: "addr option"
  fm_Tcp :: Tcp

record rule_mem =
  rm_Match :: "addr option"
  rm_Filters :: "addr option"
  rm_Clusters :: "addr option"

record spec_mem =
  sm_Rules :: "addr option"

record gateway_mem =
  gm_Ports :: "addr option"

record TypeMeta =
  tm_Kind :: string
  tm_APIVersion :: string

record 'm configuration_mem =
  cm_TypeMeta :: TypeMeta
  cm_ObjectMeta :: 'm
  cm_Spec :: spec_mem
  cm_Status :: unit

record 'c service_spec_mem =
  ssm_Replicas :: "addr option"
  ssm_Gateway :: "addr option"
  ssm_Container :: 'c
  ssm_Envoy :: Envoy

record ('m, 'c) service_mem =
  vm_TypeMeta :: TypeMeta
  vm_ObjectMeta :: 'm
  vm_Spec :: "'c service_spec_mem"
  vm_Status :: unit

record list_mem =
  lm_TypeMeta :: TypeMeta
  lm_ListMeta :: string
  lm_Items :: "addr option"

text \<open>What one cell of the heap holds: an array, a map, or a struct made by \<open>new\<close>.\<close>

datatype ('m, 'c, 'x) cell =
    StringsCell "string list"
  | MapCell "gomap"
  | HttpsCell "http_mem list"
  | FiltersCell "filter_mem list"
  | ClustersCell "Cluster list"
  | RulesCell "rule_mem list"
  | Int32Cell "32 word"
  | PortsCell "32 word list"
  | GatewayCell "gateway_mem"
  | ConfigurationsCell "'m configuration_mem list"
  | ServicesCell "('m, 'c) service_mem list"
  | ClusterCell "Cluster"
  | TcpCell "Tcp"
  | HttpCell "http_mem"
  | FilterCell "filter_mem"
  | RuleCell "rule_mem"
  | StatusCell "unit"
  | ConfigurationSpecCell "spec_mem"
  | ConfigurationCell "'m configuration_mem"
  | ConfigurationListCell "list_mem"
  | ServiceSpecCell "'c service_spec_mem"
  | ServiceCell "('m, 'c) service_mem"
  | ServiceListCell "list_mem"
  | LibraryCell 'x

definition cell_strings_of :: "('m, 'c, 'x) cell \<Rightarrow> (string list) option" where
  "cell_strings_of c = (case c of StringsCell x \<Rightarrow> Some x | _ \<Rightarrow> None)"

definition cell_map_of :: "('m, 'c, 'x) cell \<Rightarrow> (gomap) option" where
  "cell_map_of c = (case c of MapCell x \<Rightarrow> Some x | _ \<Rightarrow> None)"

definition cell_https_of :: "('m, 'c, 'x) cell \<Rightarrow> (http_mem list) option" where
  "cell_https_of c = (case c of HttpsCell x \<Rightarrow> Some x | _ \<Rightarrow> None)"

definition cell_filters_of :: "('m, 'c, 'x) cell \<Rightarrow> (filter_mem list) option" where
  "cell_filters_of c = (case c of FiltersCell x \<Rightarrow> Some x | _ \<Rightarrow> None)"

definition cell_clusters_of :: "('m, 'c, 'x) cell \<Rightarrow> (Cluster list) option" where
  "cell_clusters_of c = (case c of ClustersCell x \<Rightarrow> Some x | _ \<Rightarrow> None)"

definition cell_rules_of :: "('m, 'c, 'x) cell \<Rightarrow> (rule_mem list) option" where
  "cell_rules_of c = (case c of RulesCell x \<Rightarrow> Some x | _ \<Rightarrow> None)"

definition cell_int32_of :: "('m, 'c, 'x) cell \<Rightarrow> (32 word) option" where
  "cell_int32_of c = (case c of Int32Cell x \<Rightarrow> Some x | _ \<Rightarrow> None)"

definition cell_ports_of :: "('m, 'c, 'x) cell \<Rightarrow> (32 word list) option" where
  "cell_ports_of c = (case c of PortsCell x \<Rightarrow> Some x | _ \<Rightarrow> None)"

definition cell_gateway_of :: "('m, 'c, 'x) cell \<Rightarrow> (gateway_mem) option" where
  "cell_gateway_of c = (case c of GatewayCell x \<Rightarrow> Some x | _ \<Rightarrow> None)"

definition cell_configurations_of :: "('m, 'c, 'x) cell \<Rightarrow> ('m configuration_mem list) option" where
  "cell_configurations_of c = (case c of ConfigurationsCell x \<Rightarrow> Some x | _ \<Rightarrow> None)"

definition cell_services_of :: "('m, 'c, 'x) cell \<Rightarrow> (('m, 'c) service_mem list) option" where
  "cell_services_of c = (case c of ServicesCell x \<Rightarrow> Some x | _ \<Rightarrow> None)"

definition cell_cluster_of :: "('m, 'c, 'x) cell \<Rightarrow> (Cluster) option" where
  "cell_cluster_of c = (case c of ClusterCell x \<Rightarrow> Some x | _ \<Rightarrow> None)"

definition cell_tcp_of :: "('m, 'c, 'x) cell \<Rightarrow> (Tcp) option" where
  "cell_tcp_of c = (case c of TcpCell x \<Rightarrow> Some x | _ \<Rightarrow> None)"

definition cell_http_of :: "('m, 'c, 'x) cell \<Rightarrow> (http_mem) option" where
  "cell_http_of c = (case c of HttpCell x \<Rightarrow> Some x | _ \<Rightarrow> None)"

definition cell_filter_of :: "('m, 'c, 'x) cell \<Rightarrow> (filter_mem) option" where
  "cell_filter_of c = (case c of FilterCell x \<Rightarrow> Some x | _ \<Rightarrow> None)"

definition cell_rule_of :: "('m, 'c, 'x) cell \<Rightarrow> (rule_mem) option" where
  "cell_rule_of c = (case c of RuleCell x \<Rightarrow> Some x | _ \<Rightarrow> None)"

definition cell_status_of :: "('m, 'c, 'x) cell \<Rightarrow> (unit) option" where
  "cell_status_of c = (case c of StatusCell x \<Rightarrow> Some x | _ \<Rightarrow> None)"

definition cell_configurationSpec_of :: "('m, 'c, 'x) cell \<Rightarrow> (spec_mem) option" where
  "cell_configurationSpec_of c = (case c of ConfigurationSpecCell x \<Rightarrow> Some x | _ \<Rightarrow> None)"

definition cell_configuration_of :: "('m, 'c, 'x) cell \<Rightarrow> ('m configuration_mem) option" where
  "cell_configuration_of c = (case c of ConfigurationCell x \<Rightarrow> Some x | _ \<Rightarrow> None)"

definition cell_configurationList_of :: "('m, 'c, 'x) cell \<Rightarrow> (list_mem) option" where
  "cell_configurationList_of c = (case c of ConfigurationListCell x \<Rightarrow> Some x | _ \<Rightarrow> None)"

definition cell_serviceSpec_of :: "('m, 'c, 'x) cell \<Rightarrow> ('c service_spec_mem) option" where
  "cell_serviceSpec_of c = (case c of ServiceSpecCell x \<Rightarrow> Some x | _ \<Rightarrow> None)"

definition cell_service_of :: "('m, 'c, 'x) cell \<Rightarrow> (('m, 'c) service_mem) option" where
  "cell_service_of c = (case c of ServiceCell x \<Rightarrow> Some x | _ \<Rightarrow> None)"

definition cell_serviceList_of :: "('m, 'c, 'x) cell \<Rightarrow> (list_mem) option" where
  "cell_serviceList_of c = (case c of ServiceListCell x \<Rightarrow> Some x | _ \<Rightarrow> None)"

lemma cell_of_simps [simp]:
  "cell_strings_of (StringsCell x0) = Some x0"
  "cell_map_of (MapCell x1) = Some x1"
  "cell_https_of (HttpsCell x2) = Some x2"
  "cell_filters_of (FiltersCell x3) = Some x3"
  "cell_clusters_of (ClustersCell x4) = Some x4"
  "cell_rules_of (RulesCell x5) = Some x5"
  "cell_int32_of (Int32Cell x6) = Some x6"
  "cell_ports_of (PortsCell x7) = Some x7"
  "cell_gateway_of (GatewayCell x8) = Some x8"
  "cell_configurations_of (ConfigurationsCell x9) = Some x9"
  "cell_services_of (ServicesCell x10) = Some x10"
  "cell_cluster_of (ClusterCell x11) = Some x11"
  "cell_tcp_of (TcpCell x12) = Some x12"
  "cell_http_of (HttpCell x13) = Some x13"
  "cell_filter_of (FilterCell x14) = Some x14"
  "cell_rule_of (RuleCell x15) = Some x15"
  "cell_status_of (StatusCell x16) = Some x16"
  "cell_configurationSpec_of (ConfigurationSpecCell x17) = Some x17"
  "cell_configuration_of (ConfigurationCell x18) = Some x18"
  "cell_configurationList_of (ConfigurationListCell x19) = Some x19"
  "cell_serviceSpec_of (ServiceSpecCell x20) = Some x20"
  "cell_service_of (ServiceCell x21) = Some x21"
  "cell_serviceList_of (ServiceListCell x22) = Some x22"
  by (simp_all add: cell_strings_of_def cell_map_of_def cell_https_of_def cell_filters_of_def cell_clusters_of_def cell_rules_of_def cell_int32_of_def cell_ports_of_def cell_gateway_of_def cell_configurations_of_def cell_services_of_def cell_cluster_of_def cell_tcp_of_def cell_http_of_def cell_filter_of_def cell_rule_of_def cell_status_of_def cell_configurationSpec_of_def cell_configuration_of_def cell_configurationList_of_def cell_serviceSpec_of_def cell_service_of_def cell_serviceList_of_def)

text \<open>The copy of a type that is not of this repository: its function, what it denotes, what it reaches.\<close>

record ('v, 'k, 'a) copier =
  cp_DeepCopyInto :: "'v \<Rightarrow> 'k heap \<Rightarrow> 'v \<times> 'k heap"
  cp_den :: "'v \<Rightarrow> 'k heap \<Rightarrow> 'a option"
  cp_reach :: "'v \<Rightarrow> 'k heap \<Rightarrow> addr set"

definition deep_copier :: "('v, 'k, 'a) copier \<Rightarrow> bool" where
  "deep_copier c \<longleftrightarrow> deep_copy (cp_DeepCopyInto c) (cp_den c) (cp_reach c)"

section \<open>Configurations\<close>

text \<open>
  \<open>DeepCopyInto\<close> takes the struct and gives the copy. It starts from \<open>*out = *in\<close> and replaces the
  fields with addresses.
\<close>

definition zero_http_mem :: http_mem where
  "zero_http_mem = \<lparr>hm_Domains = None, hm_Cluster = []\<rparr>"

definition zero_filter_mem :: filter_mem where
  "zero_filter_mem = \<lparr>fm_Port = 0, fm_Http = None, fm_Tcp = \<lparr>tcp_Cluster = []\<rparr>\<rparr>"

definition zero_rule_mem :: rule_mem where
  "zero_rule_mem = \<lparr>rm_Match = None, rm_Filters = None, rm_Clusters = None\<rparr>"

definition zero_TypeMeta :: TypeMeta where
  "zero_TypeMeta = \<lparr>tm_Kind = [], tm_APIVersion = []\<rparr>"

definition zero_configuration_mem :: "'m \<Rightarrow> 'm configuration_mem" where
  "zero_configuration_mem meta =
     \<lparr>cm_TypeMeta = zero_TypeMeta, cm_ObjectMeta = meta, cm_Spec = \<lparr>sm_Rules = None\<rparr>, cm_Status = ()\<rparr>"

definition zero_list_mem :: list_mem where
  "zero_list_mem = \<lparr>lm_TypeMeta = zero_TypeMeta, lm_ListMeta = [], lm_Items = None\<rparr>"

type_synonym ('v, 'm, 'c, 'x) copying =
  "'v \<Rightarrow> ('m, 'c, 'x) cell heap \<Rightarrow> 'v \<times> ('m, 'c, 'x) cell heap"

definition Cluster_DeepCopyInto :: "(Cluster, 'm, 'c, 'x) copying" where
  "Cluster_DeepCopyInto src h = (src, h)"

definition Tcp_DeepCopyInto :: "(Tcp, 'm, 'c, 'x) copying" where
  "Tcp_DeepCopyInto src h = (src, h)"

definition Http_DeepCopyInto :: "(http_mem, 'm, 'c, 'x) copying" where
  "Http_DeepCopyInto src h =
     (let out = src;
          (domains, h) = array_copy StringsCell cell_strings_of (hm_Domains src) h
      in (out\<lparr>hm_Domains := domains\<rparr>, h))"

definition Filter_DeepCopyInto :: "(filter_mem, 'm, 'c, 'x) copying" where
  "Filter_DeepCopyInto src h =
     (let out = src;
          (http, h) = slice_copy HttpsCell cell_https_of zero_http_mem Http_DeepCopyInto (fm_Http src) h
      in (out\<lparr>fm_Http := http, fm_Tcp := fm_Tcp src\<rparr>, h))"

definition Rule_DeepCopyInto :: "(rule_mem, 'm, 'c, 'x) copying" where
  "Rule_DeepCopyInto src h =
     (let out = src;
          (match, h) = map_copy MapCell cell_map_of (rm_Match src) h;
          (filters, h) = slice_copy FiltersCell cell_filters_of zero_filter_mem Filter_DeepCopyInto (rm_Filters src) h;
          (clusters, h) = array_copy ClustersCell cell_clusters_of (rm_Clusters src) h
      in (out\<lparr>rm_Match := match, rm_Filters := filters, rm_Clusters := clusters\<rparr>, h))"

definition ConfigurationSpec_DeepCopyInto :: "(spec_mem, 'm, 'c, 'x) copying" where
  "ConfigurationSpec_DeepCopyInto src h =
     (let out = src;
          (rules, h) = slice_copy RulesCell cell_rules_of zero_rule_mem Rule_DeepCopyInto (sm_Rules src) h
      in (out\<lparr>sm_Rules := rules\<rparr>, h))"

definition ConfigurationStatus_DeepCopyInto :: "(unit, 'm, 'c, 'x) copying" where
  "ConfigurationStatus_DeepCopyInto src h = (src, h)"

definition Configuration_DeepCopyInto ::
  "('m, ('m, 'c, 'x) cell, ObjectMeta) copier \<Rightarrow> ('m configuration_mem, 'm, 'c, 'x) copying" where
  "Configuration_DeepCopyInto M src h =
     (let out = src\<lparr>cm_TypeMeta := cm_TypeMeta src\<rparr>;
          (meta, h) = cp_DeepCopyInto M (cm_ObjectMeta src) h;
          (spec, h) = ConfigurationSpec_DeepCopyInto (cm_Spec src) h
      in (out\<lparr>cm_ObjectMeta := meta, cm_Spec := spec, cm_Status := cm_Status src\<rparr>, h))"

definition ConfigurationList_DeepCopyInto ::
  "('m, ('m, 'c, 'x) cell, ObjectMeta) copier \<Rightarrow> 'm \<Rightarrow> (list_mem, 'm, 'c, 'x) copying" where
  "ConfigurationList_DeepCopyInto M meta0 src h =
     (let out = src\<lparr>lm_TypeMeta := lm_TypeMeta src, lm_ListMeta := lm_ListMeta src\<rparr>;
          (items, h) = slice_copy ConfigurationsCell cell_configurations_of (zero_configuration_mem meta0)
                         (Configuration_DeepCopyInto M) (lm_Items src) h
      in (out\<lparr>lm_Items := items\<rparr>, h))"

section \<open>Services\<close>

definition zero_service_spec_mem :: "'c \<Rightarrow> 'c service_spec_mem" where
  "zero_service_spec_mem container =
     \<lparr>ssm_Replicas = None, ssm_Gateway = None, ssm_Container = container,
      ssm_Envoy = \<lparr>envoy_LogLevel = [], envoy_DiscoveryAddress = [], envoy_DiscoveryPort = []\<rparr>\<rparr>"

definition zero_service_mem :: "'m \<Rightarrow> 'c \<Rightarrow> ('m, 'c) service_mem" where
  "zero_service_mem meta container =
     \<lparr>vm_TypeMeta = zero_TypeMeta, vm_ObjectMeta = meta, vm_Spec = zero_service_spec_mem container,
      vm_Status = ()\<rparr>"

text \<open>The gateway pointer is copied with the struct, and nothing else is done about it.\<close>

definition ServiceSpec_DeepCopyInto ::
  "('c, ('m, 'c, 'x) cell, Container) copier \<Rightarrow> ('c service_spec_mem, 'm, 'c, 'x) copying" where
  "ServiceSpec_DeepCopyInto C src h =
     (let out = src;
          (replicas, h) = array_copy Int32Cell cell_int32_of (ssm_Replicas src) h;
          (container, h) = cp_DeepCopyInto C (ssm_Container src) h
      in (out\<lparr>ssm_Replicas := replicas, ssm_Container := container\<rparr>, h))"

definition ServiceStatus_DeepCopyInto :: "(unit, 'm, 'c, 'x) copying" where
  "ServiceStatus_DeepCopyInto src h = (src, h)"

definition Service_DeepCopyInto ::
  "('m, ('m, 'c, 'x) cell, ObjectMeta) copier \<Rightarrow> ('c, ('m, 'c, 'x) cell, Container) copier \<Rightarrow>
   (('m, 'c) service_mem, 'm, 'c, 'x) copying" where
  "Service_DeepCopyInto M C src h =
     (let out = src\<lparr>vm_TypeMeta := vm_TypeMeta src\<rparr>;
          (meta, h) = cp_DeepCopyInto M (vm_ObjectMeta src) h;
          (spec, h) = ServiceSpec_DeepCopyInto C (vm_Spec src) h
      in (out\<lparr>vm_ObjectMeta := meta, vm_Spec := spec, vm_Status := vm_Status src\<rparr>, h))"

definition ServiceList_DeepCopyInto ::
  "('m, ('m, 'c, 'x) cell, ObjectMeta) copier \<Rightarrow> ('c, ('m, 'c, 'x) cell, Container) copier \<Rightarrow>
   ('m, 'c) service_mem \<Rightarrow> (list_mem, 'm, 'c, 'x) copying" where
  "ServiceList_DeepCopyInto M C zero src h =
     (let out = src\<lparr>lm_TypeMeta := lm_TypeMeta src, lm_ListMeta := lm_ListMeta src\<rparr>;
          (items, h) = slice_copy ServicesCell cell_services_of zero (Service_DeepCopyInto M C) (lm_Items src) h
      in (out\<lparr>lm_Items := items\<rparr>, h))"

section \<open>The pointer versions\<close>

text \<open>\<open>DeepCopy\<close> of each type, and \<open>DeepCopyObject\<close> of the API objects.\<close>

type_synonym ('m, 'c, 'x) pointer_copying = "(addr option, 'm, 'c, 'x) copying"

definition Cluster_DeepCopy :: "('m, 'c, 'x) pointer_copying" where
  "Cluster_DeepCopy = new_copy ClusterCell cell_cluster_of \<lparr>cluster_Name = [], cluster_Host = [], cluster_Port = 0\<rparr> Cluster_DeepCopyInto"

definition Tcp_DeepCopy :: "('m, 'c, 'x) pointer_copying" where
  "Tcp_DeepCopy = new_copy TcpCell cell_tcp_of \<lparr>tcp_Cluster = []\<rparr> Tcp_DeepCopyInto"

definition Http_DeepCopy :: "('m, 'c, 'x) pointer_copying" where
  "Http_DeepCopy = new_copy HttpCell cell_http_of zero_http_mem Http_DeepCopyInto"

definition Filter_DeepCopy :: "('m, 'c, 'x) pointer_copying" where
  "Filter_DeepCopy = new_copy FilterCell cell_filter_of zero_filter_mem Filter_DeepCopyInto"

definition Rule_DeepCopy :: "('m, 'c, 'x) pointer_copying" where
  "Rule_DeepCopy = new_copy RuleCell cell_rule_of zero_rule_mem Rule_DeepCopyInto"

definition ConfigurationSpec_DeepCopy :: "('m, 'c, 'x) pointer_copying" where
  "ConfigurationSpec_DeepCopy = new_copy ConfigurationSpecCell cell_configurationSpec_of \<lparr>sm_Rules = None\<rparr> ConfigurationSpec_DeepCopyInto"

definition ConfigurationStatus_DeepCopy :: "('m, 'c, 'x) pointer_copying" where
  "ConfigurationStatus_DeepCopy = new_copy StatusCell cell_status_of () ConfigurationStatus_DeepCopyInto"

definition ServiceStatus_DeepCopy :: "('m, 'c, 'x) pointer_copying" where
  "ServiceStatus_DeepCopy = new_copy StatusCell cell_status_of () ServiceStatus_DeepCopyInto"

definition Configuration_DeepCopy ::
  "('m, ('m, 'c, 'x) cell, ObjectMeta) copier \<Rightarrow> 'm \<Rightarrow> ('m, 'c, 'x) pointer_copying" where
  "Configuration_DeepCopy M meta0 = new_copy ConfigurationCell cell_configuration_of (zero_configuration_mem meta0) (Configuration_DeepCopyInto M)"

definition Configuration_DeepCopyObject ::
  "('m, ('m, 'c, 'x) cell, ObjectMeta) copier \<Rightarrow> 'm \<Rightarrow> ('m, 'c, 'x) pointer_copying" where
  "Configuration_DeepCopyObject M meta0 src h =
     (case Configuration_DeepCopy M meta0 src h of (Some c, h') \<Rightarrow> (Some c, h') | (None, h') \<Rightarrow> (None, h'))"

definition ConfigurationList_DeepCopy ::
  "('m, ('m, 'c, 'x) cell, ObjectMeta) copier \<Rightarrow> 'm \<Rightarrow> ('m, 'c, 'x) pointer_copying" where
  "ConfigurationList_DeepCopy M meta0 = new_copy ConfigurationListCell cell_configurationList_of zero_list_mem (ConfigurationList_DeepCopyInto M meta0)"

definition ConfigurationList_DeepCopyObject ::
  "('m, ('m, 'c, 'x) cell, ObjectMeta) copier \<Rightarrow> 'm \<Rightarrow> ('m, 'c, 'x) pointer_copying" where
  "ConfigurationList_DeepCopyObject M meta0 src h =
     (case ConfigurationList_DeepCopy M meta0 src h of (Some c, h') \<Rightarrow> (Some c, h') | (None, h') \<Rightarrow> (None, h'))"

definition ServiceSpec_DeepCopy ::
  "('c, ('m, 'c, 'x) cell, Container) copier \<Rightarrow> 'c \<Rightarrow> ('m, 'c, 'x) pointer_copying" where
  "ServiceSpec_DeepCopy C container0 = new_copy ServiceSpecCell cell_serviceSpec_of (zero_service_spec_mem container0) (ServiceSpec_DeepCopyInto C)"

definition Service_DeepCopy ::
  "('m, ('m, 'c, 'x) cell, ObjectMeta) copier \<Rightarrow> ('c, ('m, 'c, 'x) cell, Container) copier \<Rightarrow>
   ('m, 'c) service_mem \<Rightarrow> ('m, 'c, 'x) pointer_copying" where
  "Service_DeepCopy M C zero = new_copy ServiceCell cell_service_of zero (Service_DeepCopyInto M C)"

definition Service_DeepCopyObject ::
  "('m, ('m, 'c, 'x) cell, ObjectMeta) copier \<Rightarrow> ('c, ('m, 'c, 'x) cell, Container) copier \<Rightarrow>
   ('m, 'c) service_mem \<Rightarrow> ('m, 'c, 'x) pointer_copying" where
  "Service_DeepCopyObject M C zero src h =
     (case Service_DeepCopy M C zero src h of (Some c, h') \<Rightarrow> (Some c, h') | (None, h') \<Rightarrow> (None, h'))"

definition ServiceList_DeepCopy ::
  "('m, ('m, 'c, 'x) cell, ObjectMeta) copier \<Rightarrow> ('c, ('m, 'c, 'x) cell, Container) copier \<Rightarrow>
   ('m, 'c) service_mem \<Rightarrow> ('m, 'c, 'x) pointer_copying" where
  "ServiceList_DeepCopy M C zero = new_copy ServiceListCell cell_serviceList_of zero_list_mem (ServiceList_DeepCopyInto M C zero)"

definition ServiceList_DeepCopyObject ::
  "('m, ('m, 'c, 'x) cell, ObjectMeta) copier \<Rightarrow> ('c, ('m, 'c, 'x) cell, Container) copier \<Rightarrow>
   ('m, 'c) service_mem \<Rightarrow> ('m, 'c, 'x) pointer_copying" where
  "ServiceList_DeepCopyObject M C zero src h =
     (case ServiceList_DeepCopy M C zero src h of (Some c, h') \<Rightarrow> (Some c, h') | (None, h') \<Rightarrow> (None, h'))"

end
