(* ===== verification/DeepCopyLaws.thy ===== *)
theory DeepCopyLaws
  imports DeepCopy
begin

text \<open>
  What the generated deep copies do: each keeps the promise of the locale \<open>deep_copy\<close> for the value
  its type denotes in memory, except \<open>ServiceSpec\<close>, which shares the gateway.
\<close>

section \<open>What configurations in memory denote\<close>

definition or_nil :: "'a list option \<Rightarrow> 'a list" where
  "or_nil xs = (case xs of None \<Rightarrow> [] | Some ys \<Rightarrow> ys)"

definition Http_den :: "http_mem \<Rightarrow> ('m, 'c, 'x) cell heap \<Rightarrow> Http option" where
  "Http_den v h = map_option (\<lambda>d. \<lparr>http_Domains = d, http_Cluster = hm_Cluster v\<rparr>)
     (leaf_den (\<lambda>_. True) cell_strings_of (hm_Domains v) h)"

definition Http_reach :: "http_mem \<Rightarrow> ('m, 'c, 'x) cell heap \<Rightarrow> addr set" where
  "Http_reach v h = leaf_reach (hm_Domains v) h"

definition Filter_den :: "filter_mem \<Rightarrow> ('m, 'c, 'x) cell heap \<Rightarrow> Filter option" where
  "Filter_den v h = map_option (\<lambda>hs. \<lparr>filter_Port = fm_Port v, filter_Http = or_nil hs, filter_Tcp = fm_Tcp v\<rparr>)
     (slice_den cell_https_of Http_den (fm_Http v) h)"

definition Filter_reach :: "filter_mem \<Rightarrow> ('m, 'c, 'x) cell heap \<Rightarrow> addr set" where
  "Filter_reach v h = slice_reach cell_https_of Http_reach (fm_Http v) h"

definition Rule_den :: "rule_mem \<Rightarrow> ('m, 'c, 'x) cell heap \<Rightarrow> Rule option" where
  "Rule_den v h = map_option (\<lambda>(m, fs, cs). \<lparr>rule_Match = or_nil m, rule_Filters = or_nil fs, rule_Clusters = or_nil cs\<rparr>)
     (pair_den (leaf_den go_map cell_map_of)
       (pair_den (slice_den cell_filters_of Filter_den) (leaf_den (\<lambda>_. True) cell_clusters_of))
       (rm_Match v, rm_Filters v, rm_Clusters v) h)"

definition Rule_reach :: "rule_mem \<Rightarrow> ('m, 'c, 'x) cell heap \<Rightarrow> addr set" where
  "Rule_reach v h = pair_reach leaf_reach (pair_reach (slice_reach cell_filters_of Filter_reach) leaf_reach)
     (rm_Match v, rm_Filters v, rm_Clusters v) h"

definition ConfigurationSpec_den :: "spec_mem \<Rightarrow> ('m, 'c, 'x) cell heap \<Rightarrow> ConfigurationSpec option" where
  "ConfigurationSpec_den v h = map_option (\<lambda>rs. \<lparr>cs_Rules = or_nil rs\<rparr>)
     (slice_den cell_rules_of Rule_den (sm_Rules v) h)"

definition ConfigurationSpec_reach :: "spec_mem \<Rightarrow> ('m, 'c, 'x) cell heap \<Rightarrow> addr set" where
  "ConfigurationSpec_reach v h = slice_reach cell_rules_of Rule_reach (sm_Rules v) h"

definition Configuration_den :: "('m, ('m, 'c, 'x) cell, ObjectMeta) copier \<Rightarrow> 'm configuration_mem \<Rightarrow>
    ('m, 'c, 'x) cell heap \<Rightarrow> (TypeMeta \<times> Configuration) option" where
  "Configuration_den M v h = map_option (\<lambda>(m, s). (cm_TypeMeta v, \<lparr>conf_Meta = m, conf_Spec = s\<rparr>))
     (pair_den (cp_den M) ConfigurationSpec_den (cm_ObjectMeta v, cm_Spec v) h)"

definition Configuration_reach :: "('m, ('m, 'c, 'x) cell, ObjectMeta) copier \<Rightarrow> 'm configuration_mem \<Rightarrow>
    ('m, 'c, 'x) cell heap \<Rightarrow> addr set" where
  "Configuration_reach M v h =
     pair_reach (cp_reach M) ConfigurationSpec_reach (cm_ObjectMeta v, cm_Spec v) h"

definition ConfigurationList_den :: "('m, ('m, 'c, 'x) cell, ObjectMeta) copier \<Rightarrow> list_mem \<Rightarrow>
    ('m, 'c, 'x) cell heap \<Rightarrow> (TypeMeta \<times> string \<times> (TypeMeta \<times> Configuration) list) option" where
  "ConfigurationList_den M v h = map_option (\<lambda>xs. (lm_TypeMeta v, lm_ListMeta v, or_nil xs))
     (slice_den cell_configurations_of (Configuration_den M) (lm_Items v) h)"

definition ConfigurationList_reach :: "('m, ('m, 'c, 'x) cell, ObjectMeta) copier \<Rightarrow> list_mem \<Rightarrow>
    ('m, 'c, 'x) cell heap \<Rightarrow> addr set" where
  "ConfigurationList_reach M v h =
     slice_reach cell_configurations_of (Configuration_reach M) (lm_Items v) h"

section \<open>The copies keep the promise\<close>

lemma deep_copy_Http: "deep_copy Http_DeepCopyInto Http_den Http_reach"
  by (rule deep_copy_struct [where part = hm_Domains and build = "\<lambda>x v. v\<lparr>hm_Domains := x\<rparr>",
        OF deep_copy_array [of cell_strings_of StringsCell]])
    (simp_all add: Http_DeepCopyInto_def Http_den_def Http_reach_def)

interpretation http_copy: deep_copy Http_DeepCopyInto Http_den Http_reach
  by (rule deep_copy_Http)

lemma deep_copy_Filter: "deep_copy Filter_DeepCopyInto Filter_den Filter_reach"
  by (rule deep_copy_struct [where part = fm_Http and build = "\<lambda>x v. v\<lparr>fm_Http := x\<rparr>",
        OF deep_copy_slice [OF deep_copy_Http, of cell_https_of HttpsCell zero_http_mem]])
    (simp_all add: Filter_DeepCopyInto_def Filter_den_def Filter_reach_def split: prod.splits)

interpretation filter_copy: deep_copy Filter_DeepCopyInto Filter_den Filter_reach
  by (rule deep_copy_Filter)

lemma deep_copy_Rule: "deep_copy Rule_DeepCopyInto Rule_den Rule_reach"
  by (rule deep_copy_struct [where part = "\<lambda>v. (rm_Match v, rm_Filters v, rm_Clusters v)"
        and build = "\<lambda>(m, f, c) v. v\<lparr>rm_Match := m, rm_Filters := f, rm_Clusters := c\<rparr>",
        OF deep_copy_pair [OF deep_copy_map [of cell_map_of MapCell]
          deep_copy_pair [OF deep_copy_slice [OF deep_copy_Filter, of cell_filters_of FiltersCell zero_filter_mem]
            deep_copy_array [of cell_clusters_of ClustersCell]]]])
    (auto simp: Rule_DeepCopyInto_def Rule_den_def Rule_reach_def pair_copy_def split: prod.splits)

interpretation rule_copy: deep_copy Rule_DeepCopyInto Rule_den Rule_reach
  by (rule deep_copy_Rule)

lemma deep_copy_ConfigurationSpec:
  "deep_copy ConfigurationSpec_DeepCopyInto ConfigurationSpec_den ConfigurationSpec_reach"
  by (rule deep_copy_struct [where part = sm_Rules and build = "\<lambda>x v. v\<lparr>sm_Rules := x\<rparr>",
        OF deep_copy_slice [OF deep_copy_Rule, of cell_rules_of RulesCell zero_rule_mem]])
    (simp_all add: ConfigurationSpec_DeepCopyInto_def ConfigurationSpec_den_def ConfigurationSpec_reach_def
      split: prod.splits)

interpretation spec_copy:
  deep_copy ConfigurationSpec_DeepCopyInto ConfigurationSpec_den ConfigurationSpec_reach
  by (rule deep_copy_ConfigurationSpec)

lemma deep_copy_Configuration:
  assumes "deep_copier M"
  shows "deep_copy (Configuration_DeepCopyInto M) (Configuration_den M) (Configuration_reach M)"
  by (rule deep_copy_struct [where part = "\<lambda>v. (cm_ObjectMeta v, cm_Spec v)"
        and build = "\<lambda>(m, s) v. v\<lparr>cm_ObjectMeta := m, cm_Spec := s\<rparr>",
        OF deep_copy_pair [OF assms [unfolded deep_copier_def] deep_copy_ConfigurationSpec]])
    (auto simp: Configuration_DeepCopyInto_def Configuration_den_def Configuration_reach_def pair_copy_def
      split: prod.splits)

lemma deep_copy_ConfigurationList:
  assumes "deep_copier M"
  shows "deep_copy (ConfigurationList_DeepCopyInto M meta0) (ConfigurationList_den M) (ConfigurationList_reach M)"
  by (rule deep_copy_struct [where part = lm_Items and build = "\<lambda>x v. v\<lparr>lm_Items := x\<rparr>",
        OF deep_copy_slice [OF deep_copy_Configuration [OF assms], of cell_configurations_of ConfigurationsCell
          "zero_configuration_mem meta0"]])
    (simp_all add: ConfigurationList_DeepCopyInto_def ConfigurationList_den_def ConfigurationList_reach_def
      split: prod.splits)

section \<open>Services\<close>

definition Gateway_den :: "gateway_mem \<Rightarrow> ('m, 'c, 'x) cell heap \<Rightarrow> Gateway option" where
  "Gateway_den v h = map_option (\<lambda>ps. \<lparr>gw_Ports = or_nil ps\<rparr>) (leaf_den (\<lambda>_. True) cell_ports_of (gm_Ports v) h)"

definition Gateway_reach :: "gateway_mem \<Rightarrow> ('m, 'c, 'x) cell heap \<Rightarrow> addr set" where
  "Gateway_reach v h = leaf_reach (gm_Ports v) h"

definition ServiceSpec_den :: "('c, ('m, 'c, 'x) cell, Container) copier \<Rightarrow> 'c service_spec_mem \<Rightarrow>
    ('m, 'c, 'x) cell heap \<Rightarrow> ServiceSpec option" where
  "ServiceSpec_den C v h = map_option (\<lambda>(r, g, c).
       \<lparr>ss_Replicas = r, ss_Gateway = g, ss_Container = c, ss_Envoy = ssm_Envoy v\<rparr>)
     (pair_den (leaf_den (\<lambda>_. True) cell_int32_of) (pair_den (pointer_den cell_gateway_of Gateway_den) (cp_den C))
       (ssm_Replicas v, ssm_Gateway v, ssm_Container v) h)"

definition ServiceSpec_reach :: "('c, ('m, 'c, 'x) cell, Container) copier \<Rightarrow> 'c service_spec_mem \<Rightarrow>
    ('m, 'c, 'x) cell heap \<Rightarrow> addr set" where
  "ServiceSpec_reach C v h =
     pair_reach leaf_reach (pair_reach (pointer_reach cell_gateway_of Gateway_reach) (cp_reach C))
       (ssm_Replicas v, ssm_Gateway v, ssm_Container v) h"

text \<open>A service of its own: without gateway, so with nothing to share.\<close>

definition no_gateway :: "addr option \<Rightarrow> ('m, 'c, 'x) cell heap \<Rightarrow> Gateway option option" where
  "no_gateway g h = (if g = None then Some None else None)"

definition plain_spec_den :: "('c, ('m, 'c, 'x) cell, Container) copier \<Rightarrow> 'c service_spec_mem \<Rightarrow>
    ('m, 'c, 'x) cell heap \<Rightarrow> ServiceSpec option" where
  "plain_spec_den C v h = map_option (\<lambda>(r, g, c).
       \<lparr>ss_Replicas = r, ss_Gateway = g, ss_Container = c, ss_Envoy = ssm_Envoy v\<rparr>)
     (pair_den (leaf_den (\<lambda>_. True) cell_int32_of) (pair_den no_gateway (cp_den C))
       (ssm_Replicas v, ssm_Gateway v, ssm_Container v) h)"

definition plain_spec_reach :: "('c, ('m, 'c, 'x) cell, Container) copier \<Rightarrow> 'c service_spec_mem \<Rightarrow>
    ('m, 'c, 'x) cell heap \<Rightarrow> addr set" where
  "plain_spec_reach C v h = pair_reach leaf_reach (pair_reach (\<lambda>_ _. {}) (cp_reach C))
       (ssm_Replicas v, ssm_Gateway v, ssm_Container v) h"

definition plain_service_den :: "('m, ('m, 'c, 'x) cell, ObjectMeta) copier \<Rightarrow>
    ('c, ('m, 'c, 'x) cell, Container) copier \<Rightarrow> ('m, 'c) service_mem \<Rightarrow>
    ('m, 'c, 'x) cell heap \<Rightarrow> (TypeMeta \<times> Service) option" where
  "plain_service_den M C v h = map_option (\<lambda>(m, s). (vm_TypeMeta v, \<lparr>service_Meta = m, service_Spec = s\<rparr>))
     (pair_den (cp_den M) (plain_spec_den C) (vm_ObjectMeta v, vm_Spec v) h)"

definition plain_service_reach :: "('m, ('m, 'c, 'x) cell, ObjectMeta) copier \<Rightarrow>
    ('c, ('m, 'c, 'x) cell, Container) copier \<Rightarrow> ('m, 'c) service_mem \<Rightarrow> ('m, 'c, 'x) cell heap \<Rightarrow> addr set" where
  "plain_service_reach M C v h =
     pair_reach (cp_reach M) (plain_spec_reach C) (vm_ObjectMeta v, vm_Spec v) h"

definition plain_service_list_den :: "('m, ('m, 'c, 'x) cell, ObjectMeta) copier \<Rightarrow>
    ('c, ('m, 'c, 'x) cell, Container) copier \<Rightarrow> list_mem \<Rightarrow>
    ('m, 'c, 'x) cell heap \<Rightarrow> (TypeMeta \<times> string \<times> (TypeMeta \<times> Service) list) option" where
  "plain_service_list_den M C v h = map_option (\<lambda>xs. (lm_TypeMeta v, lm_ListMeta v, or_nil xs))
     (slice_den cell_services_of (plain_service_den M C) (lm_Items v) h)"

definition plain_service_list_reach :: "('m, ('m, 'c, 'x) cell, ObjectMeta) copier \<Rightarrow>
    ('c, ('m, 'c, 'x) cell, Container) copier \<Rightarrow> list_mem \<Rightarrow> ('m, 'c, 'x) cell heap \<Rightarrow> addr set" where
  "plain_service_list_reach M C v h = slice_reach cell_services_of (plain_service_reach M C) (lm_Items v) h"

lemma deep_copy_no_gateway: "deep_copy (\<lambda>g h. (g, h)) no_gateway (\<lambda>_ _. {})"
  by unfold_locales (simp_all add: no_gateway_def split: if_splits)

lemma deep_copy_plain_spec:
  assumes "deep_copier C"
  shows "deep_copy (ServiceSpec_DeepCopyInto C) (plain_spec_den C) (plain_spec_reach C)"
  by (rule deep_copy_struct [where part = "\<lambda>v. (ssm_Replicas v, ssm_Gateway v, ssm_Container v)"
        and build = "\<lambda>(r, g, c) v. v\<lparr>ssm_Replicas := r, ssm_Gateway := g, ssm_Container := c\<rparr>",
        OF deep_copy_pair [OF deep_copy_array [of cell_int32_of Int32Cell]
          deep_copy_pair [OF deep_copy_no_gateway assms [unfolded deep_copier_def]]]])
    (auto simp: ServiceSpec_DeepCopyInto_def plain_spec_den_def plain_spec_reach_def pair_copy_def
      split: prod.splits)

lemma deep_copy_plain_service:
  assumes "deep_copier M" "deep_copier C"
  shows "deep_copy (Service_DeepCopyInto M C) (plain_service_den M C) (plain_service_reach M C)"
  by (rule deep_copy_struct [where part = "\<lambda>v. (vm_ObjectMeta v, vm_Spec v)"
        and build = "\<lambda>(m, s) v. v\<lparr>vm_ObjectMeta := m, vm_Spec := s\<rparr>",
        OF deep_copy_pair [OF assms(1) [unfolded deep_copier_def] deep_copy_plain_spec [OF assms(2)]]])
    (auto simp: Service_DeepCopyInto_def plain_service_den_def plain_service_reach_def pair_copy_def
      split: prod.splits)

lemma deep_copy_plain_service_list:
  assumes "deep_copier M" "deep_copier C"
  shows "deep_copy (ServiceList_DeepCopyInto M C zero) (plain_service_list_den M C) (plain_service_list_reach M C)"
  by (rule deep_copy_struct [where part = lm_Items and build = "\<lambda>x v. v\<lparr>lm_Items := x\<rparr>",
        OF deep_copy_slice [OF deep_copy_plain_service [OF assms], of cell_services_of ServicesCell zero]])
    (simp_all add: ServiceList_DeepCopyInto_def plain_service_list_den_def plain_service_list_reach_def
      split: prod.splits)

text \<open>What a service spec denotes depends on what it reaches only: it would be copied properly if the
  gateway were copied like the rest.\<close>

definition intended_spec_copy ::
  "('c, ('m, 'c, 'x) cell, Container) copier \<Rightarrow> ('c service_spec_mem, 'm, 'c, 'x) copying" where
  "intended_spec_copy C src h =
     (let (g, h1) = pair_copy (array_copy Int32Cell cell_int32_of)
            (pair_copy (new_copy GatewayCell cell_gateway_of \<lparr>gm_Ports = None\<rparr>
               (\<lambda>v h. let (p, h') = array_copy PortsCell cell_ports_of (gm_Ports v) h in (v\<lparr>gm_Ports := p\<rparr>, h')))
               (cp_DeepCopyInto C))
            (ssm_Replicas src, ssm_Gateway src, ssm_Container src) h
      in (src\<lparr>ssm_Replicas := fst g, ssm_Gateway := fst (snd g), ssm_Container := snd (snd g)\<rparr>, h1))"

lemma deep_copy_Gateway:
  "deep_copy (\<lambda>v h. let (p, h') = array_copy PortsCell cell_ports_of (gm_Ports v) h in (v\<lparr>gm_Ports := p\<rparr>, h'))
     Gateway_den Gateway_reach"
  by (rule deep_copy_struct [where part = gm_Ports and build = "\<lambda>x v. v\<lparr>gm_Ports := x\<rparr>",
        OF deep_copy_array [of cell_ports_of PortsCell]])
    (simp_all add: Gateway_den_def Gateway_reach_def)

lemma deep_copy_intended_spec:
  assumes "deep_copier C"
  shows "deep_copy (intended_spec_copy C) (ServiceSpec_den C) (ServiceSpec_reach C)"
  by (rule deep_copy_struct [where part = "\<lambda>v. (ssm_Replicas v, ssm_Gateway v, ssm_Container v)"
        and build = "\<lambda>(r, g, c) v. v\<lparr>ssm_Replicas := r, ssm_Gateway := g, ssm_Container := c\<rparr>",
        OF deep_copy_pair [OF deep_copy_array [of cell_int32_of Int32Cell]
          deep_copy_pair [OF deep_copy_new [OF deep_copy_Gateway, of cell_gateway_of GatewayCell "\<lparr>gm_Ports = None\<rparr>"]
            assms [unfolded deep_copier_def]]]])
    (auto simp: intended_spec_copy_def ServiceSpec_den_def ServiceSpec_reach_def split: prod.splits)

section \<open>What the copies give\<close>

text \<open>All that a promise kept says about two pointers: same value, nothing shared, writes do not show.\<close>

definition properly_copied :: "('v \<Rightarrow> 'k heap \<Rightarrow> 'a option) \<Rightarrow> ('v \<Rightarrow> 'k heap \<Rightarrow> addr set) \<Rightarrow>
    'v \<Rightarrow> 'v \<Rightarrow> 'a \<Rightarrow> 'k heap \<Rightarrow> bool" where
  "properly_copied den reach v v' x h' \<longleftrightarrow>
     den v h' = Some x \<and> den v' h' = Some x \<and> reach v h' \<inter> reach v' h' = {} \<and>
     (\<forall>a c. (a \<in> reach v' h' \<longrightarrow> den v (store_at a c h') = Some x) \<and>
            (a \<in> reach v h' \<longrightarrow> den v' (store_at a c h') = Some x))"

lemma properly_copiedI:
  assumes "deep_copy copy den reach" "den v h = Some x" "reach v h \<subseteq> {..<hp_next h}" "copy v h = (v', h')"
  shows "properly_copied den reach v v' x h'"
  using deep_copy.copy_original [OF assms] deep_copy.independent [OF assms]
  by (auto simp: properly_copied_def)

lemma DeepCopyObject_eq:
  "Configuration_DeepCopyObject M meta0 = Configuration_DeepCopy M meta0"
  "ConfigurationList_DeepCopyObject M meta0 = ConfigurationList_DeepCopy M meta0"
  "Service_DeepCopyObject M C zero = Service_DeepCopy M C zero"
  "ServiceList_DeepCopyObject M C zero = ServiceList_DeepCopy M C zero"
  by (auto simp: fun_eq_iff Configuration_DeepCopyObject_def ConfigurationList_DeepCopyObject_def
      Service_DeepCopyObject_def ServiceList_DeepCopyObject_def split: prod.splits option.splits)

text \<open>A heap with a configuration at 6, a list of it at 8, a service at 11, a list of it at 13, and the
  ports of a gateway at 14; \<open>plain_copier\<close> copies what has no addresses.\<close>

definition plain_copier :: "('v, 'k, 'v) copier" where
  "plain_copier = \<lparr>cp_DeepCopyInto = \<lambda>v h. (v, h), cp_den = \<lambda>v h. Some v, cp_reach = \<lambda>v h. {}\<rparr>"

lemma plain_copier: "deep_copier plain_copier"
  unfolding deep_copier_def by unfold_locales (simp_all add: plain_copier_def)

definition sample_configuration_mem :: "ObjectMeta configuration_mem" where
  "sample_configuration_mem = (zero_configuration_mem zero_ObjectMeta)\<lparr>cm_Spec := \<lparr>sm_Rules = Some 5\<rparr>\<rparr>"

definition sample_service_mem :: "(ObjectMeta, Container) service_mem" where
  "sample_service_mem = (zero_service_mem zero_ObjectMeta zero_Container)
     \<lparr>vm_Spec := (zero_service_spec_mem zero_Container)\<lparr>ssm_Replicas := Some 9\<rparr>\<rparr>"

definition sample_gateway_spec_mem :: "Container service_spec_mem" where
  "sample_gateway_spec_mem = (zero_service_spec_mem zero_Container)\<lparr>ssm_Replicas := Some 9, ssm_Gateway := Some 10\<rparr>"

definition sample_heap :: "(ObjectMeta, Container, unit) cell heap" where
  "sample_heap = \<lparr>hp_next = 15, hp_cells = map_of (zip [0..<15]
     [StringsCell [''a.example''], HttpsCell [\<lparr>hm_Domains = Some 0, hm_Cluster = ''web''\<rparr>],
      FiltersCell [\<lparr>fm_Port = 80, fm_Http = Some 1, fm_Tcp = \<lparr>tcp_Cluster = []\<rparr>\<rparr>],
      MapCell [(''app'', ''web'')], ClustersCell [],
      RulesCell [\<lparr>rm_Match = Some 3, rm_Filters = Some 2, rm_Clusters = Some 4\<rparr>],
      ConfigurationCell sample_configuration_mem, ConfigurationsCell [sample_configuration_mem],
      ConfigurationListCell (zero_list_mem\<lparr>lm_Items := Some 7\<rparr>),
      Int32Cell 2, GatewayCell \<lparr>gm_Ports = Some 14\<rparr>, ServiceCell sample_service_mem,
      ServicesCell [sample_service_mem], ServiceListCell (zero_list_mem\<lparr>lm_Items := Some 12\<rparr>),
      PortsCell [80]])\<rparr>"

lemma sample_heap_simps:
  "hp_next sample_heap = 15"
  "hp_cells sample_heap 0 = Some (StringsCell [''a.example''])"
  "hp_cells sample_heap (Suc 0) = Some (HttpsCell [\<lparr>hm_Domains = Some 0, hm_Cluster = ''web''\<rparr>])"
  "hp_cells sample_heap 2 = Some (FiltersCell [\<lparr>fm_Port = 80, fm_Http = Some 1, fm_Tcp = \<lparr>tcp_Cluster = []\<rparr>\<rparr>])"
  "hp_cells sample_heap 3 = Some (MapCell [(''app'', ''web'')])"
  "hp_cells sample_heap 4 = Some (ClustersCell [])"
  "hp_cells sample_heap 5 = Some (RulesCell [\<lparr>rm_Match = Some 3, rm_Filters = Some 2, rm_Clusters = Some 4\<rparr>])"
  "hp_cells sample_heap 6 = Some (ConfigurationCell sample_configuration_mem)"
  "hp_cells sample_heap 7 = Some (ConfigurationsCell [sample_configuration_mem])"
  "hp_cells sample_heap 8 = Some (ConfigurationListCell (zero_list_mem\<lparr>lm_Items := Some 7\<rparr>))"
  "hp_cells sample_heap 9 = Some (Int32Cell 2)"
  "hp_cells sample_heap 10 = Some (GatewayCell \<lparr>gm_Ports = Some 14\<rparr>)"
  "hp_cells sample_heap 11 = Some (ServiceCell sample_service_mem)"
  "hp_cells sample_heap 12 = Some (ServicesCell [sample_service_mem])"
  "hp_cells sample_heap 13 = Some (ServiceListCell (zero_list_mem\<lparr>lm_Items := Some 12\<rparr>))"
  "hp_cells sample_heap 14 = Some (PortsCell [80])"
  by (simp_all add: sample_heap_def upt_rec)

lemmas sample_memory = sample_heap_simps load_def pointer_den_def pointer_reach_def slice_den_def slice_reach_def
  leaf_den_def leaf_reach_def pair_den_def pair_reach_def plain_copier_def those_Some_iff or_nil_def
  sample_configuration_mem_def zero_configuration_mem_def sample_service_mem_def zero_service_mem_def
  zero_service_spec_mem_def sample_gateway_spec_mem_def zero_list_mem_def

lemma sample_configuration_memory:
  "\<exists>x. pointer_den cell_configuration_of (Configuration_den plain_copier) (Some 6) sample_heap = Some x"
  "pointer_reach cell_configuration_of (Configuration_reach plain_copier) (Some 6) sample_heap \<subseteq> {..<hp_next sample_heap}"
  "\<exists>x. pointer_den cell_configurationList_of (ConfigurationList_den plain_copier) (Some 8) sample_heap = Some x"
  "pointer_reach cell_configurationList_of (ConfigurationList_reach plain_copier) (Some 8) sample_heap \<subseteq> {..<hp_next sample_heap}"
  by (simp_all add: sample_memory Configuration_den_def Configuration_reach_def ConfigurationSpec_den_def
      ConfigurationSpec_reach_def Rule_den_def Rule_reach_def Filter_den_def Filter_reach_def Http_den_def
      Http_reach_def ConfigurationList_den_def ConfigurationList_reach_def go_map_def)

lemma sample_service_memory:
  "\<exists>x. pointer_den cell_service_of (plain_service_den plain_copier plain_copier) (Some 11) sample_heap = Some x"
  "pointer_reach cell_service_of (plain_service_reach plain_copier plain_copier) (Some 11) sample_heap \<subseteq> {..<hp_next sample_heap}"
  "\<exists>x. pointer_den cell_serviceList_of (plain_service_list_den plain_copier plain_copier) (Some 13) sample_heap = Some x"
  "pointer_reach cell_serviceList_of (plain_service_list_reach plain_copier plain_copier) (Some 13) sample_heap \<subseteq> {..<hp_next sample_heap}"
  by (simp_all add: sample_memory plain_service_den_def plain_service_reach_def plain_spec_den_def
      plain_spec_reach_def no_gateway_def plain_service_list_den_def plain_service_list_reach_def)

text \<open>C33: copies of configurations, and of lists of them, are deep. The copy denotes the same
  configuration, the original is as it was, the two share no memory, and no later write through one
  of them changes the other; a nil pointer is copied to nil.\<close>

theorem Configuration_DeepCopyObject_deep:
  assumes "deep_copier M"
    and "pointer_den cell_configuration_of (Configuration_den M) p h = Some x"
      "pointer_reach cell_configuration_of (Configuration_reach M) p h \<subseteq> {..<hp_next h}"
      "Configuration_DeepCopyObject M meta0 p h = (p', h')"
    and "pointer_den cell_configurationList_of (ConfigurationList_den M) q k = Some y"
      "pointer_reach cell_configurationList_of (ConfigurationList_reach M) q k \<subseteq> {..<hp_next k}"
      "ConfigurationList_DeepCopyObject M meta0 q k = (q', k')"
  shows "properly_copied (pointer_den cell_configuration_of (Configuration_den M))
      (pointer_reach cell_configuration_of (Configuration_reach M)) p p' x h' \<and>
    properly_copied (pointer_den cell_configurationList_of (ConfigurationList_den M))
      (pointer_reach cell_configurationList_of (ConfigurationList_reach M)) q q' y k' \<and>
    Configuration_DeepCopyObject M meta0 None h = (None, h)"
  using properly_copiedI [OF deep_copy_new [OF deep_copy_Configuration [OF assms(1)]] assms(2,3),
      of ConfigurationCell "zero_configuration_mem meta0" p' h']
    properly_copiedI [OF deep_copy_new [OF deep_copy_ConfigurationList [OF assms(1)]] assms(5,6),
      of ConfigurationListCell zero_list_mem meta0 q' k'] assms(4,7)
  by (simp add: DeepCopyObject_eq Configuration_DeepCopy_def ConfigurationList_DeepCopy_def)
    (simp add: new_copy_def)

theorem Configuration_DeepCopyObject_deep_witness:
  "\<exists>x y. let M = plain_copier;
        (p', h') = Configuration_DeepCopyObject M zero_ObjectMeta (Some 6) sample_heap;
        (q', k') = ConfigurationList_DeepCopyObject M zero_ObjectMeta (Some 8) sample_heap
    in properly_copied (pointer_den cell_configuration_of (Configuration_den M))
         (pointer_reach cell_configuration_of (Configuration_reach M)) (Some 6) p' x h' \<and>
       properly_copied (pointer_den cell_configurationList_of (ConfigurationList_den M))
         (pointer_reach cell_configurationList_of (ConfigurationList_reach M)) (Some 8) q' y k'"
proof -
  obtain p' h' where p: "Configuration_DeepCopyObject plain_copier zero_ObjectMeta (Some 6) sample_heap = (p', h')"
    by force
  obtain q' k' where q: "ConfigurationList_DeepCopyObject plain_copier zero_ObjectMeta (Some 8) sample_heap = (q', k')"
    by force
  from sample_configuration_memory(1,3) obtain x y where
    x: "pointer_den cell_configuration_of (Configuration_den plain_copier) (Some 6) sample_heap = Some x" and
    y: "pointer_den cell_configurationList_of (ConfigurationList_den plain_copier) (Some 8) sample_heap = Some y"
    by blast
  from Configuration_DeepCopyObject_deep [OF plain_copier x sample_configuration_memory(2) p
      y sample_configuration_memory(4) q]
  show ?thesis by (auto simp: p q)
qed

text \<open>Copies of services without gateway, and of lists of them, are deep in the same sense.\<close>

theorem Service_DeepCopyObject_deep:
  assumes "deep_copier M" "deep_copier C"
    and "pointer_den cell_service_of (plain_service_den M C) p h = Some x"
      "pointer_reach cell_service_of (plain_service_reach M C) p h \<subseteq> {..<hp_next h}"
      "Service_DeepCopyObject M C zero p h = (p', h')"
    and "pointer_den cell_serviceList_of (plain_service_list_den M C) q k = Some y"
      "pointer_reach cell_serviceList_of (plain_service_list_reach M C) q k \<subseteq> {..<hp_next k}"
      "ServiceList_DeepCopyObject M C zero q k = (q', k')"
  shows "properly_copied (pointer_den cell_service_of (plain_service_den M C))
      (pointer_reach cell_service_of (plain_service_reach M C)) p p' x h' \<and>
    properly_copied (pointer_den cell_serviceList_of (plain_service_list_den M C))
      (pointer_reach cell_serviceList_of (plain_service_list_reach M C)) q q' y k'"
  using properly_copiedI [OF deep_copy_new [OF deep_copy_plain_service [OF assms(1,2)]] assms(3,4),
      of ServiceCell zero p' h']
    properly_copiedI [OF deep_copy_new [OF deep_copy_plain_service_list [OF assms(1,2)]] assms(6,7),
      of ServiceListCell zero_list_mem zero q' k'] assms(5,8)
  by (simp add: DeepCopyObject_eq Service_DeepCopy_def ServiceList_DeepCopy_def)

theorem Service_DeepCopyObject_deep_witness:
  "\<exists>x y. let M = plain_copier; C = plain_copier; z = zero_service_mem zero_ObjectMeta zero_Container;
        (p', h') = Service_DeepCopyObject M C z (Some 11) sample_heap;
        (q', k') = ServiceList_DeepCopyObject M C z (Some 13) sample_heap
    in properly_copied (pointer_den cell_service_of (plain_service_den M C))
         (pointer_reach cell_service_of (plain_service_reach M C)) (Some 11) p' x h' \<and>
       properly_copied (pointer_den cell_serviceList_of (plain_service_list_den M C))
         (pointer_reach cell_serviceList_of (plain_service_list_reach M C)) (Some 13) q' y k'"
proof -
  let ?z = "zero_service_mem zero_ObjectMeta zero_Container"
  obtain p' h' where p: "Service_DeepCopyObject plain_copier plain_copier ?z (Some 11) sample_heap = (p', h')"
    by force
  obtain q' k' where q: "ServiceList_DeepCopyObject plain_copier plain_copier ?z (Some 13) sample_heap = (q', k')"
    by force
  from sample_service_memory(1,3) obtain x y where
    x: "pointer_den cell_service_of (plain_service_den plain_copier plain_copier) (Some 11) sample_heap = Some x" and
    y: "pointer_den cell_serviceList_of (plain_service_list_den plain_copier plain_copier) (Some 13) sample_heap = Some y"
    by blast
  from Service_DeepCopyObject_deep [OF plain_copier plain_copier x sample_service_memory(2) p
      y sample_service_memory(4) q]
  show ?thesis by (auto simp: p q)
qed

text \<open>Cells of different types are at different addresses.\<close>

lemma load_cells:
  "load cell_gateway_of a h = Some g \<longleftrightarrow> hp_cells h a = Some (GatewayCell g)"
  "load cell_ports_of a h = Some ps \<longleftrightarrow> hp_cells h a = Some (PortsCell ps)"
  "load cell_int32_of a h = Some i \<longleftrightarrow> hp_cells h a = Some (Int32Cell i)"
  by (auto simp: load_def bind_eq_Some_conv cell_gateway_of_def cell_ports_of_def cell_int32_of_def
      split: cell.split_asm)

text \<open>Copying a spec leaves the gateway pointer; everything else is copied.\<close>

lemma ServiceSpec_copy_parts:
  assumes "deep_copier C" "ServiceSpec_den C v h = Some x" "ServiceSpec_reach C v h \<subseteq> {..<hp_next h}"
    and "ServiceSpec_DeepCopyInto C v h = (v', h')"
  shows "extends h h'" "ssm_Gateway v' = ssm_Gateway v" "ServiceSpec_den C v' h' = Some x"
    "ServiceSpec_den C v h' = Some x"
proof -
  let ?g = "pointer_den cell_gateway_of Gateway_den"
  define v0 where "v0 = v\<lparr>ssm_Gateway := None\<rparr>"
  from assms(4) have v': "ServiceSpec_DeepCopyInto C v0 h = (v'\<lparr>ssm_Gateway := None\<rparr>, h')"
    "ssm_Gateway v' = ssm_Gateway v" "ssm_Envoy v' = ssm_Envoy v"
    by (auto simp: ServiceSpec_DeepCopyInto_def v0_def split: prod.splits)
  from assms(2) obtain r g c where x: "leaf_den (\<lambda>_. True) cell_int32_of (ssm_Replicas v) h = Some r"
    "?g (ssm_Gateway v) h = Some g" "cp_den C (ssm_Container v) h = Some c"
    "x = \<lparr>ss_Replicas = r, ss_Gateway = g, ss_Container = c, ss_Envoy = ssm_Envoy v\<rparr>"
    by (auto simp: ServiceSpec_den_def pair_den_def bind_eq_Some_conv)
  have "plain_spec_den C v0 h = Some (x\<lparr>ss_Gateway := None\<rparr>)"
    by (simp add: plain_spec_den_def pair_den_def v0_def x no_gateway_def)
  moreover have "plain_spec_reach C v0 h \<subseteq> {..<hp_next h}"
    using assms(3) by (auto simp: plain_spec_reach_def ServiceSpec_reach_def pair_reach_def v0_def)
  ultimately have c: "extends h h'" "plain_spec_den C (v'\<lparr>ssm_Gateway := None\<rparr>) h' = Some (x\<lparr>ss_Gateway := None\<rparr>)"
    using deep_copy.copies [OF deep_copy_plain_spec [OF assms(1)] _ _ v'(1)] by simp_all
  show "extends h h'" "ssm_Gateway v' = ssm_Gateway v" by (fact c(1), fact v'(2))
  note whole = deep_copy.frame_extends [OF deep_copy_intended_spec [OF assms(1)] assms(2,3) c(1)]
  then show den: "ServiceSpec_den C v h' = Some x" by simp
  then have "?g (ssm_Gateway v) h' = Some g"
    by (auto simp: ServiceSpec_den_def pair_den_def bind_eq_Some_conv x(4))
  with c(2) v'(2,3) show "ServiceSpec_den C v' h' = Some x"
    by (auto simp: ServiceSpec_den_def plain_spec_den_def pair_den_def bind_eq_Some_conv x(4) no_gateway_def)
qed

text \<open>C34: the copy of a service spec with a gateway is not deep. It denotes the same spec, but it points
  to the gateway of the original: whoever changes the ports of the copy's gateway has changed those
  of the original.\<close>

theorem ServiceSpec_DeepCopy_shares_gateway:
  assumes "deep_copier C" "ServiceSpec_den C v h = Some x" "ServiceSpec_reach C v h \<subseteq> {..<hp_next h}"
    and "ServiceSpec_DeepCopyInto C v h = (v', h')"
    and "ssm_Gateway v = Some g" "load cell_gateway_of g h = Some \<lparr>gm_Ports = Some a\<rparr>"
    and "a \<notin> cp_reach C (ssm_Container v) h"
  shows "ServiceSpec_den C v' h' = Some x \<and> g \<in> ServiceSpec_reach C v' h' \<and> a \<in> ServiceSpec_reach C v' h' \<and>
    ServiceSpec_den C v (store_at a (PortsCell ports) h') = Some (x\<lparr>ss_Gateway := Some \<lparr>gw_Ports = ports\<rparr>\<rparr>)"
proof -
  note c = ServiceSpec_copy_parts [OF assms(1-4)]
  have below: "g < hp_next h" "a < hp_next h"
    using assms(3,5,6) by (auto simp: ServiceSpec_reach_def pair_reach_def pointer_reach_def Gateway_reach_def leaf_reach_def)
  have g: "load cell_gateway_of g h' = Some \<lparr>gm_Ports = Some a\<rparr>"
    using assms(6) below(1) c(1) by (simp add: load_def extends_def)
  from assms(2,5,6) obtain r ps k where x: "leaf_den (\<lambda>_. True) cell_int32_of (ssm_Replicas v) h = Some r"
    "load cell_ports_of a h = Some ps" "cp_den C (ssm_Container v) h = Some k"
    "x = \<lparr>ss_Replicas = r, ss_Gateway = Some \<lparr>gw_Ports = ps\<rparr>, ss_Container = k, ss_Envoy = ssm_Envoy v\<rparr>"
    by (auto simp: ServiceSpec_den_def pair_den_def bind_eq_Some_conv pointer_den_def Gateway_den_def
        leaf_den_def or_nil_def)
  let ?h = "store_at a (PortsCell ports) h'"
  have same: "b < hp_next h \<Longrightarrow> b \<noteq> a \<Longrightarrow> hp_cells ?h b = hp_cells h b" for b
    using c(1) by (simp add: extends_def)
  have "g \<noteq> a" using assms(6) x(2) by (auto simp: load_cells)
  have "Some a \<noteq> ssm_Replicas v"
  proof
    assume "Some a = ssm_Replicas v"
    then have "load cell_int32_of a h = None"
      using x(2) by (simp add: load_cells) (simp add: load_def cell_int32_of_def)
    with \<open>Some a = ssm_Replicas v\<close> [symmetric] x(1) show False by (simp add: leaf_den_def)
  qed
  have "load cell_gateway_of g ?h = Some \<lparr>gm_Ports = Some a\<rparr>"
    using g \<open>g \<noteq> a\<close> by (simp add: load_def)
  moreover have "leaf_den (\<lambda>_. True) cell_int32_of (ssm_Replicas v) ?h = Some r"
    using x(1) same assms(3) \<open>Some a \<noteq> ssm_Replicas v\<close>
    by (auto simp: leaf_den_def load_def ServiceSpec_reach_def pair_reach_def leaf_reach_def split: option.splits)
  moreover have "cp_den C (ssm_Container v) ?h = Some k"
  proof -
    have "hp_cells ?h b = hp_cells h b" if "b \<in> cp_reach C (ssm_Container v) h" for b
    proof (rule same)
      show "b < hp_next h" using that assms(3) by (auto simp: ServiceSpec_reach_def pair_reach_def)
      show "b \<noteq> a" using that assms(7) by blast
    qed
    from deep_copy.frame [OF assms(1) [unfolded deep_copier_def] x(3) this] show ?thesis by simp
  qed
  moreover have "load cell_ports_of a ?h = Some ports" by (simp add: load_def)
  ultimately have "ServiceSpec_den C v ?h = Some (x\<lparr>ss_Gateway := Some \<lparr>gw_Ports = ports\<rparr>\<rparr>)"
    by (simp add: ServiceSpec_den_def pair_den_def assms(5) pointer_den_def Gateway_den_def leaf_den_def or_nil_def x(4))
  moreover have "g \<in> ServiceSpec_reach C v' h'" "a \<in> ServiceSpec_reach C v' h'"
    using c(2) g assms(5)
    by (simp_all add: ServiceSpec_reach_def pair_reach_def pointer_reach_def Gateway_reach_def leaf_reach_def)
  ultimately show ?thesis using c(3) by simp
qed

theorem ServiceSpec_DeepCopy_shares_gateway_witness:
  "\<exists>x. let C = plain_copier; v = sample_gateway_spec_mem;
        (v', h') = ServiceSpec_DeepCopyInto C v sample_heap
    in ServiceSpec_den C v' h' = Some x \<and> ss_Gateway x = Some \<lparr>gw_Ports = [80]\<rparr> \<and>
       ServiceSpec_den C v (store_at 14 (PortsCell [443]) h') = Some (x\<lparr>ss_Gateway := Some \<lparr>gw_Ports = [443]\<rparr>\<rparr>)"
proof -
  let ?v = sample_gateway_spec_mem
  obtain v' h' where v': "ServiceSpec_DeepCopyInto plain_copier ?v sample_heap = (v', h')" by force
  have "\<exists>x. ServiceSpec_den plain_copier ?v sample_heap = Some x \<and> ss_Gateway x = Some \<lparr>gw_Ports = [80]\<rparr>"
    by (simp add: sample_memory ServiceSpec_den_def Gateway_den_def)
  then obtain x where x: "ServiceSpec_den plain_copier ?v sample_heap = Some x" "ss_Gateway x = Some \<lparr>gw_Ports = [80]\<rparr>"
    by blast
  have r: "ServiceSpec_reach plain_copier ?v sample_heap \<subseteq> {..<hp_next sample_heap}"
    by (simp add: sample_memory ServiceSpec_reach_def Gateway_reach_def)
  have "ssm_Gateway ?v = Some 10" "load cell_gateway_of 10 sample_heap = Some \<lparr>gm_Ports = Some 14\<rparr>"
    "14 \<notin> cp_reach plain_copier (ssm_Container ?v) sample_heap"
    by (simp_all add: sample_memory)
  from ServiceSpec_DeepCopy_shares_gateway [OF plain_copier x(1) r v' this, of "[443]"] x(2)
  show ?thesis by (auto simp: v')
qed

end
