(* ===== verification/Signals.thy ===== *)
theory Signals
  imports Prelude
begin

text \<open>
  The signal handler (\<open>pkg/signals\<close>): the first signal closes the stop channel, the second ends the
  process with exit code 1. The handler is a goroutine that the process runs concurrently with the
  arrival of signals; its program points, the buffered channel of the Go runtime and the stop channel
  are the state, and the steps are an inductive relation.
\<close>

section \<open>State\<close>

datatype os_signal = Interrupt | SIGTERM

text \<open>The signals of \<open>signal_posix.go\<close> and of \<open>signal_windows.go\<close>.\<close>

definition shutdownSignals_posix :: "os_signal list" where
  "shutdownSignals_posix = [Interrupt, SIGTERM]"

definition shutdownSignals_windows :: "os_signal list" where
  "shutdownSignals_windows = [Interrupt]"

datatype process_status = Running | Panicked | Exited int | KilledBy os_signal

text \<open>
  The points of the goroutine: before the first receive, before \<open>close(stop)\<close>, before the second
  receive, before \<open>os.Exit(1)\<close>.
\<close>

datatype handler_pc = NoHandler | FirstReceive | CloseStop | SecondReceive | ExitNow

record sig_process =
  sp_onlyOneSignalHandler :: bool
  sp_notify :: "os_signal list"
  sp_c :: "os_signal list"
  sp_pc :: handler_pc
  sp_stop :: bool
  sp_status :: process_status

text \<open>\<open>sp_onlyOneSignalHandler\<close> and \<open>sp_stop\<close> say that the channel is closed.\<close>

definition fresh_process :: sig_process where
  "fresh_process = \<lparr>sp_onlyOneSignalHandler = False, sp_notify = [], sp_c = [], sp_pc = NoHandler,
     sp_stop = False, sp_status = Running\<rparr>"

text \<open>Closing a closed channel panics.\<close>

definition SetupSignalHandler :: "os_signal list \<Rightarrow> sig_process \<Rightarrow> sig_process" where
  "SetupSignalHandler shutdownSignals s =
     (if sp_onlyOneSignalHandler s then s\<lparr>sp_status := Panicked\<rparr>
      else s\<lparr>sp_onlyOneSignalHandler := True, sp_stop := False, sp_c := [],
             sp_notify := shutdownSignals, sp_pc := FirstReceive\<rparr>)"

text \<open>
  The runtime sends a signal that was asked for without blocking, so it is lost when the buffer of two
  is full; any other signal ends the process.
\<close>

definition deliver :: "os_signal \<Rightarrow> sig_process \<Rightarrow> sig_process" where
  "deliver sig s =
     (if sig \<in> set (sp_notify s)
      then (if length (sp_c s) < 2 then s\<lparr>sp_c := sp_c s @ [sig]\<rparr> else s)
      else s\<lparr>sp_status := KilledBy sig\<rparr>)"

text \<open>One step of the goroutine, if it is not blocked.\<close>

definition handler_step :: "sig_process \<Rightarrow> sig_process option" where
  "handler_step s =
     (case sp_pc s of
        NoHandler \<Rightarrow> None
      | FirstReceive \<Rightarrow> (case sp_c s of [] \<Rightarrow> None | _ # c \<Rightarrow> Some (s\<lparr>sp_c := c, sp_pc := CloseStop\<rparr>))
      | CloseStop \<Rightarrow> Some (s\<lparr>sp_stop := True, sp_pc := SecondReceive\<rparr>)
      | SecondReceive \<Rightarrow> (case sp_c s of [] \<Rightarrow> None | _ # c \<Rightarrow> Some (s\<lparr>sp_c := c, sp_pc := ExitNow\<rparr>))
      | ExitNow \<Rightarrow> Some (s\<lparr>sp_status := Exited 1\<rparr>))"

datatype sig_event = Arrives os_signal | HandlerRuns

inductive sig_step :: "sig_process \<Rightarrow> sig_event \<Rightarrow> sig_process \<Rightarrow> bool" where
  arrives: "sp_status s = Running \<Longrightarrow> sig_step s (Arrives sig) (deliver sig s)"
| handler: "sp_status s = Running \<Longrightarrow> handler_step s = Some s' \<Longrightarrow> sig_step s HandlerRuns s'"

inductive_cases arrivesE: "sig_step s (Arrives sig) s'"
inductive_cases handlerE: "sig_step s HandlerRuns s'"

inductive sig_run :: "sig_process \<Rightarrow> sig_event list \<Rightarrow> sig_process \<Rightarrow> bool" where
  start: "sig_run s [] s"
| step: "sig_run s es s' \<Longrightarrow> sig_step s' e s'' \<Longrightarrow> sig_run s (es @ [e]) s''"

section \<open>The invariant\<close>

definition arrived :: "sig_event list \<Rightarrow> os_signal list" where
  "arrived es = concat (map (\<lambda>e. case e of Arrives sig \<Rightarrow> [sig] | HandlerRuns \<Rightarrow> []) es)"

definition handled :: "os_signal list \<Rightarrow> sig_event list \<Rightarrow> os_signal list" where
  "handled sigs es = filter (\<lambda>sig. sig \<in> set sigs) (arrived es)"

definition handler_steps :: "sig_event list \<Rightarrow> nat" where
  "handler_steps es = length (filter (\<lambda>e. e = HandlerRuns) es)"

lemma event_simps [simp]:
  "arrived [] = []" "arrived (es @ [Arrives sig]) = arrived es @ [sig]" "arrived (es @ [HandlerRuns]) = arrived es"
  "handler_steps [] = 0" "handler_steps (es @ [Arrives sig]) = handler_steps es"
  "handler_steps (es @ [HandlerRuns]) = Suc (handler_steps es)"
  "handled sigs [] = []" "handled sigs (es @ [HandlerRuns]) = handled sigs es"
  "handled sigs (es @ [Arrives sig]) = handled sigs es @ (if sig \<in> set sigs then [sig] else [])"
  by (simp_all add: arrived_def handled_def handler_steps_def)

text \<open>How many signals the goroutine has taken, and how many steps it has made before it exits.\<close>

fun taken :: "handler_pc \<Rightarrow> nat" where
  "taken NoHandler = 0"
| "taken FirstReceive = 0"
| "taken CloseStop = 1"
| "taken SecondReceive = 1"
| "taken ExitNow = 2"

fun progress :: "handler_pc \<Rightarrow> nat" where
  "progress NoHandler = 0"
| "progress FirstReceive = 0"
| "progress CloseStop = 1"
| "progress SecondReceive = 2"
| "progress ExitNow = 3"

definition sig_inv :: "os_signal list \<Rightarrow> sig_event list \<Rightarrow> sig_process \<Rightarrow> bool" where
  "sig_inv sigs es s \<longleftrightarrow>
     sp_onlyOneSignalHandler s \<and> sp_notify s = sigs \<and> sp_pc s \<noteq> NoHandler \<and>
     taken (sp_pc s) + length (sp_c s) \<le> length (handled sigs es) \<and>
     min 2 (length (handled sigs es)) \<le> taken (sp_pc s) + length (sp_c s) \<and>
     (sp_stop s \<longleftrightarrow> progress (sp_pc s) \<ge> 2) \<and>
     (case sp_status s of
        Running \<Rightarrow> set (arrived es) \<subseteq> set sigs \<and> handler_steps es = progress (sp_pc s)
      | Exited n \<Rightarrow> n = 1 \<and> sp_pc s = ExitNow \<and> handler_steps es = 4
      | KilledBy sig \<Rightarrow> sig \<in> set (arrived es) \<and> sig \<notin> set sigs
      | Panicked \<Rightarrow> False)"

lemma sig_inv_start: "sig_inv sigs [] (SetupSignalHandler sigs fresh_process)"
  by (simp add: sig_inv_def SetupSignalHandler_def fresh_process_def)

lemma sig_inv_step:
  assumes "sig_inv sigs es s" "sig_step s e s'"
  shows "sig_inv sigs (es @ [e]) s'"
proof (cases e)
  case (Arrives sig)
  from assms(2) [unfolded this] have r: "sp_status s = Running" "s' = deliver sig s" by (auto elim: arrivesE)
  show ?thesis
    using assms(1) r(1) unfolding r(2) Arrives by (auto simp: sig_inv_def deliver_def)
next
  case HandlerRuns
  from assms(2) [unfolded this] have r: "sp_status s = Running" "handler_step s = Some s'" by (auto elim: handlerE)
  show ?thesis
    using assms(1) r unfolding HandlerRuns
    by (cases "sp_pc s") (auto simp: sig_inv_def handler_step_def split: list.splits)
qed

lemma sig_inv_run: "sig_run (SetupSignalHandler sigs fresh_process) es s \<Longrightarrow> sig_inv sigs es s"
  by (induction "SetupSignalHandler sigs fresh_process" es s rule: sig_run.induct)
    (auto intro: sig_inv_start sig_inv_step)

section \<open>What the handler guarantees\<close>

definition quiescent :: "sig_process \<Rightarrow> bool" where
  "quiescent s \<longleftrightarrow> sp_status s \<noteq> Running \<or> handler_step s = None"

text \<open>C38: the first signal stops, the second exits. In every interleaving of arriving signals and steps of
  the handler, after one call of \<open>SetupSignalHandler\<close>: the stop channel is closed only if a signal has
  arrived, and the process exits, with code 1, only if two have, and after the stop channel was closed;
  the handler makes at most four steps; and once it has nothing more to do, the stop channel is closed if
  a signal has arrived and the process has exited if two have, however fast they came. A second call of
  \<open>SetupSignalHandler\<close> panics.\<close>

theorem signal_handler_sound:
  assumes "sig_run (SetupSignalHandler sigs fresh_process) es s" "set (arrived es) \<subseteq> set sigs"
  shows "(sp_stop s \<longrightarrow> length (arrived es) \<ge> 1) \<and>
    (sp_status s = Running \<or> sp_status s = Exited 1 \<and> length (arrived es) \<ge> 2 \<and> sp_stop s) \<and>
    handler_steps es \<le> 4 \<and>
    (quiescent s \<longrightarrow> (sp_stop s \<longleftrightarrow> length (arrived es) \<ge> 1) \<and> (sp_status s = Exited 1 \<longleftrightarrow> length (arrived es) \<ge> 2)) \<and>
    sp_status (SetupSignalHandler sigs' s) = Panicked"
proof -
  have inv: "sig_inv sigs es s" using sig_inv_run [OF assms(1)] .
  have same: "handled sigs es = arrived es" using assms(2) by (auto simp: handled_def filter_id_conv)
  show ?thesis
    using inv assms(2) unfolding sig_inv_def same
    by (cases "sp_pc s"; cases "sp_status s")
      (auto simp: quiescent_def handler_step_def SetupSignalHandler_def split: list.splits)
qed

theorem signal_handler_sound_witness:
  "\<exists>s. sig_run (SetupSignalHandler shutdownSignals_posix fresh_process)
       [Arrives SIGTERM, Arrives Interrupt, HandlerRuns, HandlerRuns, HandlerRuns, HandlerRuns] s \<and>
     sp_status s = Exited 1 \<and> sp_stop s"
proof -
  let ?s = "\<lambda>c pc stop st. \<lparr>sp_onlyOneSignalHandler = True, sp_notify = [Interrupt, SIGTERM], sp_c = c, sp_pc = pc,
    sp_stop = stop, sp_status = st\<rparr>"
  have 0: "SetupSignalHandler shutdownSignals_posix fresh_process = ?s [] FirstReceive False Running"
    by (simp add: SetupSignalHandler_def fresh_process_def shutdownSignals_posix_def)
  have a: "sig_step (?s [] FirstReceive False Running) (Arrives SIGTERM) (?s [SIGTERM] FirstReceive False Running)"
    "sig_step (?s [SIGTERM] FirstReceive False Running) (Arrives Interrupt) (?s [SIGTERM, Interrupt] FirstReceive False Running)"
    using sig_step.arrives [of "?s [] FirstReceive False Running" SIGTERM]
      sig_step.arrives [of "?s [SIGTERM] FirstReceive False Running" Interrupt] by (simp_all add: deliver_def)
  have h: "sig_step (?s [SIGTERM, Interrupt] FirstReceive False Running) HandlerRuns (?s [Interrupt] CloseStop False Running)"
    "sig_step (?s [Interrupt] CloseStop False Running) HandlerRuns (?s [Interrupt] SecondReceive True Running)"
    "sig_step (?s [Interrupt] SecondReceive True Running) HandlerRuns (?s [] ExitNow True Running)"
    "sig_step (?s [] ExitNow True Running) HandlerRuns (?s [] ExitNow True (Exited 1))"
    by (auto intro!: sig_step.handler simp: handler_step_def)
  note run = sig_run.step [OF sig_run.step [OF sig_run.step [OF sig_run.step [OF sig_run.step [OF sig_run.step
    [OF sig_run.start a(1)] a(2)] h(1)] h(2)] h(3)] h(4)]
  then have r: "sig_run (SetupSignalHandler shutdownSignals_posix fresh_process)
       [Arrives SIGTERM, Arrives Interrupt, HandlerRuns, HandlerRuns, HandlerRuns, HandlerRuns] (?s [] ExitNow True (Exited 1))"
    by (simp add: 0)
  from signal_handler_sound [OF r] have "sp_stop (?s [] ExitNow True (Exited 1))"
    by (simp add: arrived_def shutdownSignals_posix_def)
  with r show ?thesis by (intro exI [of _ "?s [] ExitNow True (Exited 1)"]) simp
qed

end
