(* ===== verification/RestRequest.thy ===== *)
theory RestRequest
  imports KubeTypes
begin

text \<open>
  The request builder of the Kubernetes REST client
  (\<open>vendor/k8s.io/client-go/rest/request.go\<close>, \<open>client.go\<close>, \<open>url_utils.go\<close>): paths, the chained
  setters with their first-error-wins rule, the loop that sends a request, and what becomes of the
  response. The transport is a parameter: it takes an HTTP request and the state of the world, and
  gives a response or an error.
\<close>

section \<open>Paths\<close>

text \<open>\<open>path.Clean\<close> and \<open>path.Join\<close> of the standard library.\<close>

fun join_slash :: "string list \<Rightarrow> string" where
  "join_slash [] = []"
| "join_slash [x] = x"
| "join_slash (x # y # ys) = x @ CHR ''/'' # join_slash (y # ys)"

definition clean_step :: "bool \<Rightarrow> string \<Rightarrow> string list \<Rightarrow> string list" where
  "clean_step rooted c out =
     (if c = [] \<or> c = ''.'' then out
      else if c = ''..'' then
        (if out \<noteq> [] \<and> last out \<noteq> ''..'' then butlast out
         else if rooted then out else out @ [''..''])
      else out @ [c])"

definition path_Clean :: "string \<Rightarrow> string" where
  "path_Clean p =
     (if p = [] then ''.''
      else
        (let rooted = (hd p = CHR ''/'');
             out = fold (clean_step rooted) (split_on CHR ''/'' p) [];
             res = (if rooted then ''/'' else []) @ join_slash out
         in if res = [] then ''.'' else res))"

definition path_Join :: "string list \<Rightarrow> string" where
  "path_Join elem =
     (case dropWhile (\<lambda>e. e = []) elem of [] \<Rightarrow> [] | es \<Rightarrow> path_Clean (join_slash es))"

text \<open>
  A segment that \<open>Clean\<close> keeps; the pieces of a path; and the absolute path of given segments. Paths of
  kept segments are joined by putting their pieces together.
\<close>

definition plain_segment :: "string \<Rightarrow> bool" where
  "plain_segment s \<longleftrightarrow> s \<noteq> [] \<and> CHR ''/'' \<notin> set s \<and> s \<noteq> ''.'' \<and> s \<noteq> ''..''"

definition path_pieces :: "string \<Rightarrow> string list" where
  "path_pieces p = filter (\<lambda>s. s \<noteq> []) (split_on CHR ''/'' p)"

definition plain_path :: "string \<Rightarrow> bool" where
  "plain_path p \<longleftrightarrow> list_all plain_segment (path_pieces p)"

definition abs_path :: "string list \<Rightarrow> string" where
  "abs_path segs = concat (map ((#) CHR ''/'') segs)"

definition rooted_path :: "string list \<Rightarrow> string" where
  "rooted_path segs = (if segs = [] then ''/'' else abs_path segs)"

lemma abs_path_simps [simp]:
  "abs_path [] = []" "abs_path (s # segs) = CHR ''/'' # s @ abs_path segs"
  "abs_path (as @ bs) = abs_path as @ abs_path bs"
  by (simp_all add: abs_path_def)

lemma rooted_path_head [simp]: "rooted_path segs \<noteq> []" "hd (rooted_path segs) = CHR ''/''"
  by (cases segs; simp add: rooted_path_def)+

lemma join_slash_Cons: "join_slash (x # xs) = x @ abs_path xs"
  by (induction xs arbitrary: x) auto

lemma rooted_join_slash: "CHR ''/'' # join_slash segs = rooted_path segs"
  by (cases segs) (simp_all add: join_slash_Cons rooted_path_def)

lemma split_joined: "split_on CHR ''/'' (a @ abs_path es) = split_on CHR ''/'' a @ concat (map (split_on CHR ''/'') es)"
  by (induction es arbitrary: a) simp_all

lemma path_pieces_joined:
  "path_pieces (join_slash (e # es)) = concat (map path_pieces (e # es))"
  by (simp add: path_pieces_def [abs_def] join_slash_Cons split_joined filter_concat comp_def)

lemma path_pieces_segment:
  assumes "CHR ''/'' \<notin> set s"
  shows "path_pieces s = (if s = [] then [] else [s])"
  using assms by (simp add: path_pieces_def)

lemma path_pieces_rooted:
  assumes "list_all plain_segment segs"
  shows "path_pieces (rooted_path segs) = segs"
proof -
  have "concat (map (split_on CHR ''/'') segs) = segs"
    using assms by (induction segs) (auto simp: plain_segment_def)
  moreover have "filter (\<lambda>s. s \<noteq> []) segs = segs"
    using assms by (auto simp: plain_segment_def list_all_iff filter_id_conv)
  ultimately show ?thesis
    using split_joined [of "[]" segs] by (simp add: path_pieces_def rooted_path_def)
qed

lemma clean_steps:
  assumes "list_all plain_segment (filter (\<lambda>s. s \<noteq> []) segs)"
  shows "fold (clean_step rooted) segs out = out @ filter (\<lambda>s. s \<noteq> []) segs"
  using assms by (induction segs arbitrary: out) (auto simp: clean_step_def plain_segment_def)

lemma path_Clean_rooted:
  assumes "p \<noteq> []" "hd p = CHR ''/''" "plain_path p"
  shows "path_Clean p = rooted_path (path_pieces p)"
  using assms clean_steps [of "split_on CHR ''/'' p" True "[]"]
  by (simp add: path_Clean_def plain_path_def path_pieces_def rooted_join_slash [symmetric])

lemma path_Join_rooted:
  assumes "e \<noteq> []" "hd e = CHR ''/''" "list_all plain_path (e # es)"
  shows "path_Join (e # es) = rooted_path (concat (map path_pieces (e # es)))"
proof -
  have "plain_path (join_slash (e # es))"
    using assms(3) by (auto simp: plain_path_def path_pieces_joined list_all_iff simp del: join_slash.simps)
  moreover have "hd (join_slash (e # es)) = CHR ''/''" "join_slash (e # es) \<noteq> []"
    using assms(1,2) by (simp_all add: join_slash_Cons)
  ultimately show ?thesis
    using assms(1) path_Clean_rooted [of "join_slash (e # es)"]
    by (simp add: path_Join_def path_pieces_joined del: join_slash.simps)
qed

text \<open>Different segments make different paths.\<close>

lemma rooted_path_inj:
  "list_all plain_segment P \<Longrightarrow> list_all plain_segment Q \<Longrightarrow> rooted_path P = rooted_path Q \<Longrightarrow> P = Q"
  by (metis path_pieces_rooted)

lemma plain_path_rooted: "list_all plain_segment segs \<Longrightarrow> plain_path (rooted_path segs)"
  by (simp add: plain_path_def path_pieces_rooted)

lemma plain_path_segment: "s = [] \<or> plain_segment s \<Longrightarrow> plain_path s"
  by (auto simp: plain_path_def path_pieces_def plain_segment_def)

section \<open>The request\<close>

text \<open>
  Errors of the builder. The messages are the constructors; \<open>url.Values\<close> and \<open>http.Header\<close> give no
  values for a key that is absent. The receiver of a method is its last argument.
\<close>

datatype request_error =
    ResourceAlreadySet string string
  | InvalidResource string "string list"
  | SubresourceAlreadySet string string
  | InvalidSubresource string "string list"
  | EmptyResourceName
  | NameAlreadySet string string
  | InvalidName string "string list"
  | NamespaceAlreadySet string string
  | InvalidNamespace string "string list"
  | EncodeFailed string
  | EmptyNamespaceWithName
  | EmptyNamespaceOnCreate
  | WatchImpossible string

type_synonym url_values = "string \<Rightarrow> string list"

record base_url =
  bu_Host :: string
  bu_Path :: string

record ContentConfig =
  cg_AcceptContentTypes :: string
  cg_ContentType :: string
  cg_GroupVersion :: GroupVersion

record Request =
  rq_verb :: string
  rq_baseURL :: base_url
  rq_content :: ContentConfig
  rq_pathPrefix :: string
  rq_subpath :: string
  rq_params :: url_values
  rq_headers :: url_values
  rq_namespace :: string
  rq_namespaceSet :: bool
  rq_resource :: string
  rq_resourceName :: string
  rq_subresource :: string
  rq_timeout :: int
  rq_err :: "request_error option"
  rq_body :: "string option"

definition SetHeader :: "string \<Rightarrow> string list \<Rightarrow> Request \<Rightarrow> Request" where
  "SetHeader key vs r = r\<lparr>rq_headers := (rq_headers r)(key := vs)\<rparr>"

definition NewRequest :: "string \<Rightarrow> base_url \<Rightarrow> string \<Rightarrow> ContentConfig \<Rightarrow> int \<Rightarrow> Request" where
  "NewRequest verb baseURL versionedAPIPath content timeout =
     (let pathPrefix = path_Join [''/'', bu_Path baseURL];
          r = \<lparr>rq_verb = verb, rq_baseURL = baseURL, rq_content = content,
               rq_pathPrefix = path_Join [pathPrefix, versionedAPIPath], rq_subpath = [],
               rq_params = (\<lambda>_. []), rq_headers = (\<lambda>_. []), rq_namespace = [], rq_namespaceSet = False,
               rq_resource = [], rq_resourceName = [], rq_subresource = [], rq_timeout = timeout,
               rq_err = None, rq_body = None\<rparr>
      in if cg_AcceptContentTypes content \<noteq> [] then SetHeader ''Accept'' [cg_AcceptContentTypes content] r
         else if cg_ContentType content \<noteq> [] then SetHeader ''Accept'' [cg_ContentType content @ '', */*''] r
         else r)"

definition NameMayNotBe :: "string list" where
  "NameMayNotBe = [''.'', ''..'']"

definition NameMayNotContain :: "string list" where
  "NameMayNotContain = [''/'', ''%'']"

text \<open>The substrings of \<open>NameMayNotContain\<close> are single characters.\<close>

definition contains_char :: "string \<Rightarrow> string \<Rightarrow> bool" where
  "contains_char name illegal = (hd illegal \<in> set name)"

definition IsValidPathSegmentName :: "string \<Rightarrow> string list" where
  "IsValidPathSegmentName name =
     (case find (\<lambda>illegalName. name = illegalName) NameMayNotBe of
        Some illegalName \<Rightarrow> [''may not be '' @ illegalName]
      | None \<Rightarrow> map (\<lambda>illegalContent. ''may not contain '' @ illegalContent)
                  (filter (contains_char name) NameMayNotContain))"

lemma IsValidPathSegmentName_iff:
  "IsValidPathSegmentName name = [] \<longleftrightarrow>
     (name = [] \<or> plain_segment name) \<and> CHR ''%'' \<notin> set name"
  by (auto simp: IsValidPathSegmentName_def NameMayNotBe_def NameMayNotContain_def contains_char_def
      plain_segment_def)

definition Request_Resource :: "string \<Rightarrow> Request \<Rightarrow> Request" where
  "Request_Resource resource r =
     (if rq_err r \<noteq> None then r
      else if rq_resource r \<noteq> [] then r\<lparr>rq_err := Some (ResourceAlreadySet (rq_resource r) resource)\<rparr>
      else
        (let msgs = IsValidPathSegmentName resource
         in if msgs \<noteq> [] then r\<lparr>rq_err := Some (InvalidResource resource msgs)\<rparr>
            else r\<lparr>rq_resource := resource\<rparr>))"

text \<open>The loop over the sub-resources stops at the first that is no path segment.\<close>

definition Request_SubResource :: "string list \<Rightarrow> Request \<Rightarrow> Request" where
  "Request_SubResource subresources r =
     (if rq_err r \<noteq> None then r
      else
        (let subresource = path_Join subresources
         in if rq_subresource r \<noteq> [] then r\<lparr>rq_err := Some (SubresourceAlreadySet (rq_resource r) subresource)\<rparr>
            else
              (case find (\<lambda>s. IsValidPathSegmentName s \<noteq> []) subresources of
                 Some s \<Rightarrow> r\<lparr>rq_err := Some (InvalidSubresource s (IsValidPathSegmentName s))\<rparr>
               | None \<Rightarrow> r\<lparr>rq_subresource := subresource\<rparr>)))"

definition Request_Name :: "string \<Rightarrow> Request \<Rightarrow> Request" where
  "Request_Name resourceName r =
     (if rq_err r \<noteq> None then r
      else if resourceName = [] then r\<lparr>rq_err := Some EmptyResourceName\<rparr>
      else if rq_resourceName r \<noteq> [] then r\<lparr>rq_err := Some (NameAlreadySet (rq_resourceName r) resourceName)\<rparr>
      else
        (let msgs = IsValidPathSegmentName resourceName
         in if msgs \<noteq> [] then r\<lparr>rq_err := Some (InvalidName resourceName msgs)\<rparr>
            else r\<lparr>rq_resourceName := resourceName\<rparr>))"

definition Request_Namespace :: "string \<Rightarrow> Request \<Rightarrow> Request" where
  "Request_Namespace namespace r =
     (if rq_err r \<noteq> None then r
      else if rq_namespaceSet r then r\<lparr>rq_err := Some (NamespaceAlreadySet (rq_namespace r) namespace)\<rparr>
      else
        (let msgs = IsValidPathSegmentName namespace
         in if msgs \<noteq> [] then r\<lparr>rq_err := Some (InvalidNamespace namespace msgs)\<rparr>
            else r\<lparr>rq_namespaceSet := True, rq_namespace := namespace\<rparr>))"

text \<open>The codec is a parameter: the parameters it makes of the options, or an error.\<close>

definition VersionedParams :: "('o \<Rightarrow> string + url_values) \<Rightarrow> 'o \<Rightarrow> Request \<Rightarrow> Request" where
  "VersionedParams EncodeParameters obj r =
     (if rq_err r \<noteq> None then r
      else
        (case EncodeParameters obj of
           Inl err \<Rightarrow> r\<lparr>rq_err := Some (EncodeFailed err)\<rparr>
         | Inr params \<Rightarrow> r\<lparr>rq_params := (\<lambda>k. rq_params r k @ params k)\<rparr>))"

text \<open>The two kinds of body that the clients send: bytes, and an API object that may be nil.\<close>

definition Body_bytes :: "string \<Rightarrow> Request \<Rightarrow> Request" where
  "Body_bytes data r = (if rq_err r \<noteq> None then r else r\<lparr>rq_body := Some data\<rparr>)"

definition Body_object :: "('o \<Rightarrow> string + string) \<Rightarrow> 'o option \<Rightarrow> Request \<Rightarrow> Request" where
  "Body_object Encode obj r =
     (if rq_err r \<noteq> None then r
      else
        (case obj of
           None \<Rightarrow> r
         | Some x \<Rightarrow>
             (case Encode x of
                Inl err \<Rightarrow> r\<lparr>rq_err := Some (EncodeFailed err)\<rparr>
              | Inr data \<Rightarrow> SetHeader ''Content-Type'' [cg_ContentType (rq_content r)] (r\<lparr>rq_body := Some data\<rparr>))))"

text \<open>\<open>strings.ToLower\<close> on ASCII text; the resources of this program are lower case already.\<close>

definition ascii_lower :: "char \<Rightarrow> char" where
  "ascii_lower c = (let n = of_char c :: nat in if 65 \<le> n \<and> n \<le> 90 then char_of (n + 32) else c)"

definition ToLower :: "string \<Rightarrow> string" where
  "ToLower s = map ascii_lower s"

definition request_path :: "Request \<Rightarrow> string" where
  "request_path r =
     (let p = rq_pathPrefix r;
          p = (if rq_namespaceSet r \<and> rq_namespace r \<noteq> [] then path_Join [p, ''namespaces'', rq_namespace r] else p);
          p = (if rq_resource r \<noteq> [] then path_Join [p, ToLower (rq_resource r)] else p)
      in if rq_resourceName r \<noteq> [] \<or> rq_subpath r \<noteq> [] \<or> rq_subresource r \<noteq> []
         then path_Join [p, rq_resourceName r, rq_subresource r, rq_subpath r] else p)"

text \<open>What is sent: the host and scheme are those of the base URL.\<close>

record http_request =
  hr_Method :: string
  hr_Host :: string
  hr_Path :: string
  hr_Query :: url_values
  hr_Header :: url_values
  hr_Body :: "string option"

definition request_URL :: "(int \<Rightarrow> string) \<Rightarrow> Request \<Rightarrow> string \<times> string \<times> url_values" where
  "request_URL Duration_String r =
     (let query = rq_params r;
          query = (if rq_timeout r \<noteq> 0 then query(''timeout'' := [Duration_String (rq_timeout r)]) else query)
      in (bu_Host (rq_baseURL r), request_path r, query))"

definition http_NewRequest :: "(int \<Rightarrow> string) \<Rightarrow> Request \<Rightarrow> http_request" where
  "http_NewRequest Duration_String r =
     (let (host, p, query) = request_URL Duration_String r
      in \<lparr>hr_Method = rq_verb r, hr_Host = host, hr_Path = p, hr_Query = query,
          hr_Header = rq_headers r, hr_Body = rq_body r\<rparr>)"

end
