(* ===== verification/RestClient.thy ===== *)
theory RestClient
  imports RestRequest
begin

text \<open>
  Sending requests (\<open>vendor/k8s.io/client-go/rest/client.go\<close>, \<open>request.go\<close>,
  \<open>apimachinery/pkg/api/errors\<close>): the retry loop, the transformation of a response into a result, and
  reading the result into an object. Back-off, throttling and time limits only delay a request and
  are not modelled.
\<close>

section \<open>The client\<close>

text \<open>A rate limiter is its identity; no \<open>http.Client\<close> is the default client without time limit.\<close>

record RESTClient =
  rc_base :: base_url
  rc_versionedAPIPath :: string
  rc_contentConfig :: ContentConfig
  rc_Throttle :: "nat option"
  rc_Timeout :: int

definition RESTClient_Verb :: "string \<Rightarrow> RESTClient \<Rightarrow> Request" where
  "RESTClient_Verb verb c =
     NewRequest verb (rc_base c) (rc_versionedAPIPath c) (rc_contentConfig c) (rc_Timeout c)"

definition RESTClient_Post :: "RESTClient \<Rightarrow> Request" where
  "RESTClient_Post c = RESTClient_Verb ''POST'' c"

definition RESTClient_Put :: "RESTClient \<Rightarrow> Request" where
  "RESTClient_Put c = RESTClient_Verb ''PUT'' c"

definition RESTClient_Patch :: "string \<Rightarrow> RESTClient \<Rightarrow> Request" where
  "RESTClient_Patch pt c = SetHeader ''Content-Type'' [pt] (RESTClient_Verb ''PATCH'' c)"

definition RESTClient_Get :: "RESTClient \<Rightarrow> Request" where
  "RESTClient_Get c = RESTClient_Verb ''GET'' c"

definition RESTClient_Delete :: "RESTClient \<Rightarrow> Request" where
  "RESTClient_Delete c = RESTClient_Verb ''DELETE'' c"

section \<open>Sending\<close>

text \<open>
  An answer of the transport is a response or an error, which may be a reset of the connection or an
  end of file. The \<open>Retry-After\<close> header is given if it is there and a number; reading the body may fail.
\<close>

datatype http_error = ConnectionReset string | ProbableEOF string | TransportError string

record http_response =
  rp_StatusCode :: int
  rp_ContentType :: string
  rp_RetryAfter :: "int option"
  rp_Body :: "string option"

text \<open>
  The libraries below the client: the transport \<open>Send\<close> on the state of the world, the text of a
  duration, \<open>mime.ParseMediaType\<close>, and the serializers, whose decoders are values of \<open>'d\<close>. A status
  object is one of Kubernetes' \<open>metav1.Status\<close>.
\<close>

record status_object =
  so_Status :: string
  so_Reason :: StatusReason
  so_Resource :: GroupResource
  so_Name :: string

record ('w, 'd) rest_library =
  lib_Send :: "http_request \<Rightarrow> 'w \<Rightarrow> (http_error + http_response) \<times> 'w"
  lib_Duration_String :: "int \<Rightarrow> string"
  lib_ParseMediaType :: "string \<Rightarrow> string + string"
  lib_Decoder :: "'d option"
  lib_RenegotiatedDecoder :: "string \<Rightarrow> 'd option"
  lib_DecodeStatus :: "'d \<Rightarrow> string \<Rightarrow> status_object option"
  lib_Framer :: bool

definition checkWait :: "http_response \<Rightarrow> int option" where
  "checkWait resp =
     (if rp_StatusCode resp = 429 \<or> rp_StatusCode resp \<ge> 500 then rp_RetryAfter resp else None)"

text \<open>For the purpose of retry, a reset connection counts as this answer.\<close>

definition retry_response :: http_response where
  "retry_response = \<lparr>rp_StatusCode = 500, rp_ContentType = [], rp_RetryAfter = Some 1, rp_Body = Some []\<rparr>"

definition maxRetries :: nat where
  "maxRetries = 10"

text \<open>The loop of \<open>request\<close>; \<open>retries\<close> counts the answers so far.\<close>

function send_loop :: "(http_request \<Rightarrow> 'w \<Rightarrow> (http_error + http_response) \<times> 'w) \<Rightarrow> http_request \<Rightarrow>
    nat \<Rightarrow> 'w \<Rightarrow> (http_error + http_response) \<times> 'w" where
  "send_loop send req retries w =
     (let (ans, w) = send req w;
          resp = (case ans of
                    Inr resp \<Rightarrow> Some resp
                  | Inl (ConnectionReset _) \<Rightarrow> if hr_Method req = ''GET'' then Some retry_response else None
                  | Inl _ \<Rightarrow> None)
      in case resp of
           None \<Rightarrow> (ans, w)
         | Some resp \<Rightarrow>
             (let retries = Suc retries
              in if checkWait resp \<noteq> None \<and> retries < maxRetries then send_loop send req retries w
                 else (Inr resp, w)))"
  by pat_completeness auto
termination
  by (relation "measure (\<lambda>(_, _, retries, _). maxRetries - retries)") auto

declare send_loop.simps [simp del]

text \<open>Errors of a call, and what a response was made into.\<close>

datatype rest_error =
    RequestError request_error
  | SendError http_error
  | ReadBodyError
  | StatusErr api_error bool
  | SerializerMissing string
  | EmptyResponse
  | DecodeError string

text \<open>The second argument of \<open>StatusErr\<close> says that the error was made of an unexpected response.\<close>

record 'd rest_result =
  re_body :: string
  re_contentType :: string
  re_err :: "rest_error option"
  re_statusCode :: int
  re_decoder :: "'d option"

definition no_result :: "'d rest_result" where
  "no_result = \<lparr>re_body = [], re_contentType = [], re_err = None, re_statusCode = 0, re_decoder = None\<rparr>"

definition error_result :: "rest_error \<Rightarrow> 'd rest_result" where
  "error_result e = no_result\<lparr>re_err := Some e\<rparr>"

definition generic_reason :: "int \<Rightarrow> string \<Rightarrow> StatusReason" where
  "generic_reason code verb =
     (if code = 409 then (if verb = ''POST'' then ReasonAlreadyExists else ReasonConflict)
      else if code = 404 then ReasonNotFound
      else if code = 400 then ReasonBadRequest
      else if code = 401 then ReasonUnauthorized
      else if code = 403 then ReasonForbidden
      else if code = 406 then ReasonNotAcceptable
      else if code = 415 then ReasonUnsupportedMediaType
      else if code = 405 then ReasonMethodNotAllowed
      else if code = 422 then ReasonInvalid
      else if code = 503 then ReasonServiceUnavailable
      else if code = 504 then ReasonTimeout
      else if code = 429 then ReasonTooManyRequests
      else if code \<ge> 500 then ReasonInternalError
      else ReasonUnknown)"

definition NewGenericServerResponse :: "int \<Rightarrow> string \<Rightarrow> GroupResource \<Rightarrow> string \<Rightarrow> rest_error" where
  "NewGenericServerResponse code verb qualifiedResource name =
     StatusErr (StatusError (generic_reason code verb) qualifiedResource name) True"

definition newUnstructuredResponseError :: "Request \<Rightarrow> int \<Rightarrow> rest_error" where
  "newUnstructuredResponseError r statusCode =
     (let groupResource = (if rq_resource r \<noteq> []
            then \<lparr>gr_Group = gv_Group (cg_GroupVersion (rq_content r)), gr_Resource = rq_resource r\<rparr>
            else \<lparr>gr_Group = [], gr_Resource = []\<rparr>)
      in NewGenericServerResponse statusCode (rq_verb r) groupResource (rq_resourceName r))"

definition NewInternalError :: "string \<Rightarrow> rest_error" where
  "NewInternalError err = StatusErr (StatusError ReasonInternalError \<lparr>gr_Group = [], gr_Resource = []\<rparr> []) False"

text \<open>The switch on the status code with which \<open>transformResponse\<close> ends.\<close>

definition status_result :: "Request \<Rightarrow> string \<Rightarrow> http_response \<Rightarrow> 'd option \<Rightarrow> 'd rest_result" where
  "status_result r body resp decoder =
     (let result = \<lparr>re_body = body, re_contentType = rp_ContentType resp, re_err = None,
                    re_statusCode = rp_StatusCode resp, re_decoder = decoder\<rparr>
      in if rp_StatusCode resp = 101 then result
         else if rp_StatusCode resp < 200 \<or> rp_StatusCode resp > 206
         then result\<lparr>re_err := Some (newUnstructuredResponseError r (rp_StatusCode resp))\<rparr>
         else result)"

definition transformResponse :: "('w, 'd) rest_library \<Rightarrow> Request \<Rightarrow> http_response \<Rightarrow> 'd rest_result" where
  "transformResponse lib r resp =
     (case rp_Body resp of
        None \<Rightarrow> error_result ReadBodyError
      | Some body \<Rightarrow>
          (let contentType = rp_ContentType resp;
               own = cg_ContentType (rq_content r)
           in if contentType \<noteq> [] \<and> (lib_Decoder lib = None \<or> own \<noteq> [] \<and> contentType \<noteq> own) then
                (case lib_ParseMediaType lib contentType of
                   Inl err \<Rightarrow> error_result (NewInternalError err)
                 | Inr mediaType \<Rightarrow>
                     (case lib_RenegotiatedDecoder lib mediaType of
                        Some decoder \<Rightarrow> status_result r body resp (Some decoder)
                      | None \<Rightarrow>
                          if rp_StatusCode resp \<noteq> 101 \<and> (rp_StatusCode resp < 200 \<or> rp_StatusCode resp > 206)
                          then error_result (newUnstructuredResponseError r (rp_StatusCode resp))
                          else no_result\<lparr>re_body := body, re_contentType := contentType,
                                 re_statusCode := rp_StatusCode resp\<rparr>))
              else status_result r body resp (lib_Decoder lib)))"

definition request_check :: "Request \<Rightarrow> request_error option" where
  "request_check r =
     (if rq_err r \<noteq> None then rq_err r
      else if rq_verb r \<in> {''GET'', ''PUT'', ''DELETE''} \<and> rq_namespaceSet r \<and> rq_resourceName r \<noteq> [] \<and>
              rq_namespace r = [] then Some EmptyNamespaceWithName
      else if rq_verb r = ''POST'' \<and> rq_namespaceSet r \<and> rq_namespace r = [] then Some EmptyNamespaceOnCreate
      else None)"

definition Request_Do :: "('w, 'd) rest_library \<Rightarrow> Request \<Rightarrow> 'w \<Rightarrow> 'd rest_result \<times> 'w" where
  "Request_Do lib r w =
     (case request_check r of
        Some err \<Rightarrow> (error_result (RequestError err), w)
      | None \<Rightarrow>
          (case send_loop (lib_Send lib) (http_NewRequest (lib_Duration_String lib) r) 0 w of
             (Inl err, w') \<Rightarrow> (error_result (SendError err), w')
           | (Inr resp, w') \<Rightarrow> (transformResponse lib r resp, w')))"

section \<open>Results\<close>

definition FromObject :: "status_object \<Rightarrow> rest_error" where
  "FromObject s = StatusErr (StatusError (so_Reason s) (so_Resource s) (so_Name s)) False"

definition IsUnexpectedServerError :: "rest_error \<Rightarrow> bool" where
  "IsUnexpectedServerError e = (case e of StatusErr _ unexpected \<Rightarrow> unexpected | _ \<Rightarrow> False)"

definition Result_Error :: "('w, 'd) rest_library \<Rightarrow> 'd rest_result \<Rightarrow> rest_error option" where
  "Result_Error lib res =
     (case re_err res of
        None \<Rightarrow> None
      | Some err \<Rightarrow>
          if \<not> IsUnexpectedServerError err \<or> re_body res = [] then Some err
          else
            (case re_decoder res of
               None \<Rightarrow> Some err
             | Some decoder \<Rightarrow>
                 (case lib_DecodeStatus lib decoder (re_body res) of
                    Some t \<Rightarrow> if so_Status t = ''Failure'' then Some (FromObject t) else Some err
                  | None \<Rightarrow> Some err)))"

text \<open>
  Decoding into an object gives the object as it is then and an error, or says that the body was a
  status or another object.
\<close>

datatype 'o decoded = DecodedInto 'o "string option" | DecodedStatus status_object | DecodedOther

definition Result_Into :: "('w, 'd) rest_library \<Rightarrow> ('d \<Rightarrow> string \<Rightarrow> 'o \<Rightarrow> 'o decoded) \<Rightarrow> 'o \<Rightarrow>
    'd rest_result \<Rightarrow> 'o \<times> rest_error option" where
  "Result_Into lib Decode obj res =
     (if re_err res \<noteq> None then (obj, Result_Error lib res)
      else
        (case re_decoder res of
           None \<Rightarrow> (obj, Some (SerializerMissing (re_contentType res)))
         | Some decoder \<Rightarrow>
             if re_body res = [] then (obj, Some EmptyResponse)
             else
               (case Decode decoder (re_body res) obj of
                  DecodedInto obj' err \<Rightarrow> (obj', map_option DecodeError err)
                | DecodedStatus t \<Rightarrow> (obj, if so_Status t \<noteq> ''Success'' then Some (FromObject t) else None)
                | DecodedOther \<Rightarrow> (obj, None))))"

text \<open>A watch: no rate limit, no retry. Without stream there is nothing to receive.\<close>

datatype watch_outcome = WatchFails rest_error | WatchStatus int | EmptyWatch | StreamWatch

definition Request_Watch :: "('w, 'd) rest_library \<Rightarrow> Request \<Rightarrow> 'w \<Rightarrow> watch_outcome \<times> 'w" where
  "Request_Watch lib r w =
     (case rq_err r of
        Some err \<Rightarrow> (WatchFails (RequestError err), w)
      | None \<Rightarrow>
          if \<not> lib_Framer lib then (WatchFails (RequestError (WatchImpossible (cg_ContentType (rq_content r)))), w)
          else
            (case lib_Send lib (http_NewRequest (lib_Duration_String lib) r) w of
               (Inl (ProbableEOF _), w') \<Rightarrow> (EmptyWatch, w')
             | (Inl err, w') \<Rightarrow> (WatchFails (SendError err), w')
             | (Inr resp, w') \<Rightarrow>
                 if rp_StatusCode resp \<noteq> 200 then
                   (case re_err (transformResponse lib r resp) of
                      Some err \<Rightarrow> (WatchFails err, w')
                    | None \<Rightarrow> (WatchStatus (rp_StatusCode resp), w'))
                 else (StreamWatch, w')))"

end
