(* ===== verification/TypedClients.thy ===== *)
theory TypedClients
  imports RestClient FakeClient
begin

text \<open>
  The generated REST clients of the mesh API (\<open>pkg/client/clientset/versioned/typed/mesh/v1alpha1\<close>).
  Every method builds one request, named here, and sends it. Encoders, decoders and the query
  parameters of options are the serializer's and are parameters.
\<close>

section \<open>The group client\<close>

record MeshV1alpha1Client =
  mv_restClient :: RESTClient

text \<open>The receiver of \<open>RESTClient\<close> may be nil.\<close>

definition Mesh_RESTClient :: "MeshV1alpha1Client option \<Rightarrow> RESTClient option" where
  "Mesh_RESTClient c = (case c of None \<Rightarrow> None | Some c \<Rightarrow> Some (mv_restClient c))"

definition Mesh_New :: "RESTClient \<Rightarrow> MeshV1alpha1Client" where
  "Mesh_New c = \<lparr>mv_restClient = c\<rparr>"

record GetOptions =
  go_ResourceVersion :: string
  go_IncludeUninitialized :: bool

record DeleteOptions =
  do_GracePeriodSeconds :: "int option"
  do_PreconditionsUID :: "string option"
  do_OrphanDependents :: "bool option"
  do_PropagationPolicy :: "string option"

text \<open>What the scheme and its codecs give for an object type \<open>'o\<close> with list type \<open>'o list\<close>.\<close>

record ('w, 'd, 'o) codecs =
  co_library :: "('w, 'd) rest_library"
  co_GetParams :: "GetOptions \<Rightarrow> string + url_values"
  co_ListParams :: "ListOptions \<Rightarrow> string + url_values"
  co_Encode :: "'o \<Rightarrow> string + string"
  co_EncodeDelete :: "DeleteOptions \<Rightarrow> string + string"
  co_Decode :: "'d \<Rightarrow> string \<Rightarrow> 'o \<Rightarrow> 'o decoded"
  co_DecodeList :: "'d \<Rightarrow> string \<Rightarrow> 'o list \<Rightarrow> 'o list decoded"

text \<open>\<open>Do().Into(result)\<close>, \<open>Do().Error()\<close> and \<open>Watch()\<close> at the end of a chain.\<close>

definition Do_Into :: "('w, 'd, 'o) codecs \<Rightarrow> ('d \<Rightarrow> string \<Rightarrow> 'r \<Rightarrow> 'r decoded) \<Rightarrow> 'r \<Rightarrow> Request \<Rightarrow> 'w \<Rightarrow>
    ('r \<times> rest_error option) \<times> 'w" where
  "Do_Into co Decode result r w =
     (let (res, w') = Request_Do (co_library co) r w in (Result_Into (co_library co) Decode result res, w'))"

definition Do_Error :: "('w, 'd, 'o) codecs \<Rightarrow> Request \<Rightarrow> 'w \<Rightarrow> rest_error option \<times> 'w" where
  "Do_Error co r w =
     (let (res, w') = Request_Do (co_library co) r w in (Result_Error (co_library co) res, w'))"

section \<open>Services\<close>

record services =
  sv_client :: RESTClient
  sv_ns :: string

definition newServices :: "MeshV1alpha1Client \<Rightarrow> string \<Rightarrow> services" where
  "newServices c namespace = \<lparr>sv_client = mv_restClient c, sv_ns = namespace\<rparr>"

definition Client_Services :: "MeshV1alpha1Client \<Rightarrow> string \<Rightarrow> services" where
  "Client_Services c namespace = newServices c namespace"

definition services_Get_request :: "('w, 'd, Service) codecs \<Rightarrow> services \<Rightarrow> string \<Rightarrow> GetOptions \<Rightarrow> Request" where
  "services_Get_request co c name options =
     (let r = RESTClient_Get (sv_client c);
          r = Request_Namespace (sv_ns c) r;
          r = Request_Resource ''services'' r;
          r = Request_Name name r
      in VersionedParams (co_GetParams co) options r)"

definition services_Get :: "('w, 'd, Service) codecs \<Rightarrow> services \<Rightarrow> string \<Rightarrow> GetOptions \<Rightarrow> 'w \<Rightarrow>
    (Service \<times> rest_error option) \<times> 'w" where
  "services_Get co c name options = Do_Into co (co_Decode co) zero_Service (services_Get_request co c name options)"

definition services_List_request :: "('w, 'd, Service) codecs \<Rightarrow> services \<Rightarrow> ListOptions \<Rightarrow> Request" where
  "services_List_request co c opts =
     (let r = RESTClient_Get (sv_client c);
          r = Request_Namespace (sv_ns c) r;
          r = Request_Resource ''services'' r
      in VersionedParams (co_ListParams co) opts r)"

definition services_List :: "('w, 'd, Service) codecs \<Rightarrow> services \<Rightarrow> ListOptions \<Rightarrow> 'w \<Rightarrow>
    (Service list \<times> rest_error option) \<times> 'w" where
  "services_List co c opts = Do_Into co (co_DecodeList co) [] (services_List_request co c opts)"

definition services_Watch_request :: "('w, 'd, Service) codecs \<Rightarrow> services \<Rightarrow> ListOptions \<Rightarrow> Request" where
  "services_Watch_request co c opts =
     (let opts = opts\<lparr>lo_Watch := True\<rparr>;
          r = RESTClient_Get (sv_client c);
          r = Request_Namespace (sv_ns c) r;
          r = Request_Resource ''services'' r
      in VersionedParams (co_ListParams co) opts r)"

definition services_Watch :: "('w, 'd, Service) codecs \<Rightarrow> services \<Rightarrow> ListOptions \<Rightarrow> 'w \<Rightarrow> watch_outcome \<times> 'w" where
  "services_Watch co c opts = Request_Watch (co_library co) (services_Watch_request co c opts)"

definition services_Create_request :: "('w, 'd, Service) codecs \<Rightarrow> services \<Rightarrow> Service \<Rightarrow> Request" where
  "services_Create_request co c service =
     (let r = RESTClient_Post (sv_client c);
          r = Request_Namespace (sv_ns c) r;
          r = Request_Resource ''services'' r
      in Body_object (co_Encode co) (Some service) r)"

definition services_Create :: "('w, 'd, Service) codecs \<Rightarrow> services \<Rightarrow> Service \<Rightarrow> 'w \<Rightarrow> (Service \<times> rest_error option) \<times> 'w" where
  "services_Create co c service = Do_Into co (co_Decode co) zero_Service (services_Create_request co c service)"

definition services_Update_request :: "('w, 'd, Service) codecs \<Rightarrow> services \<Rightarrow> Service \<Rightarrow> Request" where
  "services_Update_request co c service =
     (let r = RESTClient_Put (sv_client c);
          r = Request_Namespace (sv_ns c) r;
          r = Request_Resource ''services'' r;
          r = Request_Name (om_Name (service_Meta service)) r
      in Body_object (co_Encode co) (Some service) r)"

definition services_Update :: "('w, 'd, Service) codecs \<Rightarrow> services \<Rightarrow> Service \<Rightarrow> 'w \<Rightarrow> (Service \<times> rest_error option) \<times> 'w" where
  "services_Update co c service = Do_Into co (co_Decode co) zero_Service (services_Update_request co c service)"

definition services_UpdateStatus_request :: "('w, 'd, Service) codecs \<Rightarrow> services \<Rightarrow> Service \<Rightarrow> Request" where
  "services_UpdateStatus_request co c service =
     (let r = RESTClient_Put (sv_client c);
          r = Request_Namespace (sv_ns c) r;
          r = Request_Resource ''services'' r;
          r = Request_Name (om_Name (service_Meta service)) r;
          r = Request_SubResource [''status''] r
      in Body_object (co_Encode co) (Some service) r)"

definition services_UpdateStatus ::
  "('w, 'd, Service) codecs \<Rightarrow> services \<Rightarrow> Service \<Rightarrow> 'w \<Rightarrow> (Service \<times> rest_error option) \<times> 'w" where
  "services_UpdateStatus co c service = Do_Into co (co_Decode co) zero_Service (services_UpdateStatus_request co c service)"

definition services_Delete_request :: "('w, 'd, Service) codecs \<Rightarrow> services \<Rightarrow> string \<Rightarrow> DeleteOptions option \<Rightarrow> Request" where
  "services_Delete_request co c name options =
     (let r = RESTClient_Delete (sv_client c);
          r = Request_Namespace (sv_ns c) r;
          r = Request_Resource ''services'' r;
          r = Request_Name name r
      in Body_object (co_EncodeDelete co) options r)"

definition services_Delete ::
  "('w, 'd, Service) codecs \<Rightarrow> services \<Rightarrow> string \<Rightarrow> DeleteOptions option \<Rightarrow> 'w \<Rightarrow> rest_error option \<times> 'w" where
  "services_Delete co c name options = Do_Error co (services_Delete_request co c name options)"

definition services_DeleteCollection_request ::
  "('w, 'd, Service) codecs \<Rightarrow> services \<Rightarrow> DeleteOptions option \<Rightarrow> ListOptions \<Rightarrow> Request" where
  "services_DeleteCollection_request co c options listOptions =
     (let r = RESTClient_Delete (sv_client c);
          r = Request_Namespace (sv_ns c) r;
          r = Request_Resource ''services'' r;
          r = VersionedParams (co_ListParams co) listOptions r
      in Body_object (co_EncodeDelete co) options r)"

definition services_DeleteCollection :: "('w, 'd, Service) codecs \<Rightarrow> services \<Rightarrow> DeleteOptions option \<Rightarrow> ListOptions \<Rightarrow> 'w \<Rightarrow>
    rest_error option \<times> 'w" where
  "services_DeleteCollection co c options listOptions =
     Do_Error co (services_DeleteCollection_request co c options listOptions)"

definition services_Patch_request :: "services \<Rightarrow> string \<Rightarrow> string \<Rightarrow> string \<Rightarrow> string list \<Rightarrow> Request" where
  "services_Patch_request c name pt data subresources =
     (let r = RESTClient_Patch pt (sv_client c);
          r = Request_Namespace (sv_ns c) r;
          r = Request_Resource ''services'' r;
          r = Request_SubResource subresources r;
          r = Request_Name name r
      in Body_bytes data r)"

definition services_Patch :: "('w, 'd, Service) codecs \<Rightarrow> services \<Rightarrow> string \<Rightarrow> string \<Rightarrow> string \<Rightarrow> string list \<Rightarrow> 'w \<Rightarrow>
    (Service \<times> rest_error option) \<times> 'w" where
  "services_Patch co c name pt data subresources =
     Do_Into co (co_Decode co) zero_Service (services_Patch_request c name pt data subresources)"

section \<open>Configurations\<close>

record configurations =
  cf_client :: RESTClient
  cf_ns :: string

definition newConfigurations :: "MeshV1alpha1Client \<Rightarrow> string \<Rightarrow> configurations" where
  "newConfigurations c namespace = \<lparr>cf_client = mv_restClient c, cf_ns = namespace\<rparr>"

definition Client_Configurations :: "MeshV1alpha1Client \<Rightarrow> string \<Rightarrow> configurations" where
  "Client_Configurations c namespace = newConfigurations c namespace"

definition configurations_Get_request :: "('w, 'd, Configuration) codecs \<Rightarrow> configurations \<Rightarrow> string \<Rightarrow> GetOptions \<Rightarrow> Request" where
  "configurations_Get_request co c name options =
     (let r = RESTClient_Get (cf_client c);
          r = Request_Namespace (cf_ns c) r;
          r = Request_Resource ''configurations'' r;
          r = Request_Name name r
      in VersionedParams (co_GetParams co) options r)"

definition configurations_Get :: "('w, 'd, Configuration) codecs \<Rightarrow> configurations \<Rightarrow> string \<Rightarrow> GetOptions \<Rightarrow> 'w \<Rightarrow>
    (Configuration \<times> rest_error option) \<times> 'w" where
  "configurations_Get co c name options = Do_Into co (co_Decode co) zero_Configuration (configurations_Get_request co c name options)"

definition configurations_List_request :: "('w, 'd, Configuration) codecs \<Rightarrow> configurations \<Rightarrow> ListOptions \<Rightarrow> Request" where
  "configurations_List_request co c opts =
     (let r = RESTClient_Get (cf_client c);
          r = Request_Namespace (cf_ns c) r;
          r = Request_Resource ''configurations'' r
      in VersionedParams (co_ListParams co) opts r)"

definition configurations_List :: "('w, 'd, Configuration) codecs \<Rightarrow> configurations \<Rightarrow> ListOptions \<Rightarrow> 'w \<Rightarrow>
    (Configuration list \<times> rest_error option) \<times> 'w" where
  "configurations_List co c opts = Do_Into co (co_DecodeList co) [] (configurations_List_request co c opts)"

definition configurations_Watch_request :: "('w, 'd, Configuration) codecs \<Rightarrow> configurations \<Rightarrow> ListOptions \<Rightarrow> Request" where
  "configurations_Watch_request co c opts =
     (let opts = opts\<lparr>lo_Watch := True\<rparr>;
          r = RESTClient_Get (cf_client c);
          r = Request_Namespace (cf_ns c) r;
          r = Request_Resource ''configurations'' r
      in VersionedParams (co_ListParams co) opts r)"

definition configurations_Watch :: "('w, 'd, Configuration) codecs \<Rightarrow> configurations \<Rightarrow> ListOptions \<Rightarrow> 'w \<Rightarrow> watch_outcome \<times> 'w" where
  "configurations_Watch co c opts = Request_Watch (co_library co) (configurations_Watch_request co c opts)"

definition configurations_Create_request :: "('w, 'd, Configuration) codecs \<Rightarrow> configurations \<Rightarrow> Configuration \<Rightarrow> Request" where
  "configurations_Create_request co c configuration =
     (let r = RESTClient_Post (cf_client c);
          r = Request_Namespace (cf_ns c) r;
          r = Request_Resource ''configurations'' r
      in Body_object (co_Encode co) (Some configuration) r)"

definition configurations_Create :: "('w, 'd, Configuration) codecs \<Rightarrow> configurations \<Rightarrow> Configuration \<Rightarrow> 'w \<Rightarrow> (Configuration \<times> rest_error option) \<times> 'w" where
  "configurations_Create co c configuration = Do_Into co (co_Decode co) zero_Configuration (configurations_Create_request co c configuration)"

definition configurations_Update_request :: "('w, 'd, Configuration) codecs \<Rightarrow> configurations \<Rightarrow> Configuration \<Rightarrow> Request" where
  "configurations_Update_request co c configuration =
     (let r = RESTClient_Put (cf_client c);
          r = Request_Namespace (cf_ns c) r;
          r = Request_Resource ''configurations'' r;
          r = Request_Name (om_Name (conf_Meta configuration)) r
      in Body_object (co_Encode co) (Some configuration) r)"

definition configurations_Update :: "('w, 'd, Configuration) codecs \<Rightarrow> configurations \<Rightarrow> Configuration \<Rightarrow> 'w \<Rightarrow> (Configuration \<times> rest_error option) \<times> 'w" where
  "configurations_Update co c configuration = Do_Into co (co_Decode co) zero_Configuration (configurations_Update_request co c configuration)"

definition configurations_UpdateStatus_request :: "('w, 'd, Configuration) codecs \<Rightarrow> configurations \<Rightarrow> Configuration \<Rightarrow> Request" where
  "configurations_UpdateStatus_request co c configuration =
     (let r = RESTClient_Put (cf_client c);
          r = Request_Namespace (cf_ns c) r;
          r = Request_Resource ''configurations'' r;
          r = Request_Name (om_Name (conf_Meta configuration)) r;
          r = Request_SubResource [''status''] r
      in Body_object (co_Encode co) (Some configuration) r)"

definition configurations_UpdateStatus ::
  "('w, 'd, Configuration) codecs \<Rightarrow> configurations \<Rightarrow> Configuration \<Rightarrow> 'w \<Rightarrow> (Configuration \<times> rest_error option) \<times> 'w" where
  "configurations_UpdateStatus co c configuration = Do_Into co (co_Decode co) zero_Configuration (configurations_UpdateStatus_request co c configuration)"

definition configurations_Delete_request :: "('w, 'd, Configuration) codecs \<Rightarrow> configurations \<Rightarrow> string \<Rightarrow> DeleteOptions option \<Rightarrow> Request" where
  "configurations_Delete_request co c name options =
     (let r = RESTClient_Delete (cf_client c);
          r = Request_Namespace (cf_ns c) r;
          r = Request_Resource ''configurations'' r;
          r = Request_Name name r
      in Body_object (co_EncodeDelete co) options r)"

definition configurations_Delete ::
  "('w, 'd, Configuration) codecs \<Rightarrow> configurations \<Rightarrow> string \<Rightarrow> DeleteOptions option \<Rightarrow> 'w \<Rightarrow> rest_error option \<times> 'w" where
  "configurations_Delete co c name options = Do_Error co (configurations_Delete_request co c name options)"

definition configurations_DeleteCollection_request ::
  "('w, 'd, Configuration) codecs \<Rightarrow> configurations \<Rightarrow> DeleteOptions option \<Rightarrow> ListOptions \<Rightarrow> Request" where
  "configurations_DeleteCollection_request co c options listOptions =
     (let r = RESTClient_Delete (cf_client c);
          r = Request_Namespace (cf_ns c) r;
          r = Request_Resource ''configurations'' r;
          r = VersionedParams (co_ListParams co) listOptions r
      in Body_object (co_EncodeDelete co) options r)"

definition configurations_DeleteCollection :: "('w, 'd, Configuration) codecs \<Rightarrow> configurations \<Rightarrow> DeleteOptions option \<Rightarrow> ListOptions \<Rightarrow> 'w \<Rightarrow>
    rest_error option \<times> 'w" where
  "configurations_DeleteCollection co c options listOptions =
     Do_Error co (configurations_DeleteCollection_request co c options listOptions)"

definition configurations_Patch_request :: "configurations \<Rightarrow> string \<Rightarrow> string \<Rightarrow> string \<Rightarrow> string list \<Rightarrow> Request" where
  "configurations_Patch_request c name pt data subresources =
     (let r = RESTClient_Patch pt (cf_client c);
          r = Request_Namespace (cf_ns c) r;
          r = Request_Resource ''configurations'' r;
          r = Request_SubResource subresources r;
          r = Request_Name name r
      in Body_bytes data r)"

definition configurations_Patch :: "('w, 'd, Configuration) codecs \<Rightarrow> configurations \<Rightarrow> string \<Rightarrow> string \<Rightarrow> string \<Rightarrow> string list \<Rightarrow> 'w \<Rightarrow>
    (Configuration \<times> rest_error option) \<times> 'w" where
  "configurations_Patch co c name pt data subresources =
     Do_Into co (co_Decode co) zero_Configuration (configurations_Patch_request c name pt data subresources)"

end
