(* ===== verification/RestClientLaws.thy ===== *)
theory RestClientLaws
  imports RestClient
begin

text \<open>
  Laws of the REST client. The builder's setters accept exactly the names that are path segments, the
  path of a request is made of its pieces and can be taken apart again, and the loop that sends a request
  ends after ten answers.
\<close>

section \<open>Laws of the builder\<close>

definition ok_segment :: "string \<Rightarrow> bool" where
  "ok_segment s \<longleftrightarrow> (s = [] \<or> plain_segment s) \<and> CHR ''%'' \<notin> set s"

lemma ok_segment_iff: "IsValidPathSegmentName s = [] \<longleftrightarrow> ok_segment s"
  by (simp add: IsValidPathSegmentName_iff ok_segment_def)

lemma Request_Name_ok:
  "rq_err (Request_Name n r) = None \<longleftrightarrow>
     rq_err r = None \<and> n \<noteq> [] \<and> ok_segment n \<and> rq_resourceName r = []"
  by (cases "rq_err r"; cases "n = []"; cases "rq_resourceName r = []"; cases "ok_segment n")
    (simp_all add: Request_Name_def ok_segment_iff Let_def)

lemma Request_Resource_ok:
  "rq_err (Request_Resource n r) = None \<longleftrightarrow> rq_err r = None \<and> ok_segment n \<and> rq_resource r = []"
  "rq_err (Request_Resource n r) = None \<Longrightarrow> Request_Resource n r = r\<lparr>rq_resource := n\<rparr>"
  by (cases "rq_err r"; cases "rq_resource r = []"; cases "ok_segment n";
      simp add: Request_Resource_def ok_segment_iff Let_def)+

lemma Request_Namespace_ok:
  "rq_err (Request_Namespace n r) = None \<longleftrightarrow> rq_err r = None \<and> ok_segment n \<and> \<not> rq_namespaceSet r"
  "rq_err (Request_Namespace n r) = None \<Longrightarrow>
     Request_Namespace n r = r\<lparr>rq_namespaceSet := True, rq_namespace := n\<rparr>"
  by (cases "rq_err r"; cases "rq_namespaceSet r"; cases "ok_segment n";
      simp add: Request_Namespace_def ok_segment_iff Let_def)+

lemma find_not_ok: "find (\<lambda>s. \<not> P s) ss = None \<longleftrightarrow> list_all P ss"
  by (auto simp: find_None_iff list_all_iff)

lemma Request_SubResource_ok:
  "rq_err (Request_SubResource ss r) = None \<longleftrightarrow>
     rq_err r = None \<and> list_all ok_segment ss \<and> rq_subresource r = []"
  by (cases "rq_err r"; cases "rq_subresource r = []"; cases "find (\<lambda>s. \<not> ok_segment s) ss")
    (simp_all add: Request_SubResource_def ok_segment_iff Let_def find_not_ok [symmetric])

lemma VersionedParams_ok:
  "rq_err (VersionedParams enc opts r) = None \<longleftrightarrow> rq_err r = None \<and> is_ok (enc opts)"
  by (cases "rq_err r"; cases "enc opts") (simp_all add: VersionedParams_def)

lemma Body_bytes_ok: "rq_err (Body_bytes data r) = None \<longleftrightarrow> rq_err r = None"
  by (simp add: Body_bytes_def)

lemma Body_object_ok:
  "rq_err (Body_object enc obj r) = None \<longleftrightarrow> rq_err r = None \<and> (obj = None \<or> is_ok (enc (the obj)))"
  by (cases "rq_err r"; cases obj; cases "enc (the obj)") (simp_all add: Body_object_def SetHeader_def)

text \<open>A setter leaves the other fields alone.\<close>

lemma Request_Name_frame [simp]:
  "rq_verb (Request_Name n r) = rq_verb r"
  "rq_baseURL (Request_Name n r) = rq_baseURL r"
  "rq_content (Request_Name n r) = rq_content r"
  "rq_pathPrefix (Request_Name n r) = rq_pathPrefix r"
  "rq_subpath (Request_Name n r) = rq_subpath r"
  "rq_params (Request_Name n r) = rq_params r"
  "rq_headers (Request_Name n r) = rq_headers r"
  "rq_namespace (Request_Name n r) = rq_namespace r"
  "rq_namespaceSet (Request_Name n r) = rq_namespaceSet r"
  "rq_resource (Request_Name n r) = rq_resource r"
  "rq_subresource (Request_Name n r) = rq_subresource r"
  "rq_timeout (Request_Name n r) = rq_timeout r"
  "rq_body (Request_Name n r) = rq_body r"
  by (simp_all add: Request_Name_def Let_def)

lemma Request_Resource_frame [simp]:
  "rq_verb (Request_Resource n r) = rq_verb r"
  "rq_baseURL (Request_Resource n r) = rq_baseURL r"
  "rq_content (Request_Resource n r) = rq_content r"
  "rq_pathPrefix (Request_Resource n r) = rq_pathPrefix r"
  "rq_subpath (Request_Resource n r) = rq_subpath r"
  "rq_params (Request_Resource n r) = rq_params r"
  "rq_headers (Request_Resource n r) = rq_headers r"
  "rq_namespace (Request_Resource n r) = rq_namespace r"
  "rq_namespaceSet (Request_Resource n r) = rq_namespaceSet r"
  "rq_resourceName (Request_Resource n r) = rq_resourceName r"
  "rq_subresource (Request_Resource n r) = rq_subresource r"
  "rq_timeout (Request_Resource n r) = rq_timeout r"
  "rq_body (Request_Resource n r) = rq_body r"
  by (simp_all add: Request_Resource_def Let_def)

lemma Request_Namespace_frame [simp]:
  "rq_verb (Request_Namespace n r) = rq_verb r"
  "rq_baseURL (Request_Namespace n r) = rq_baseURL r"
  "rq_content (Request_Namespace n r) = rq_content r"
  "rq_pathPrefix (Request_Namespace n r) = rq_pathPrefix r"
  "rq_subpath (Request_Namespace n r) = rq_subpath r"
  "rq_params (Request_Namespace n r) = rq_params r"
  "rq_headers (Request_Namespace n r) = rq_headers r"
  "rq_resource (Request_Namespace n r) = rq_resource r"
  "rq_resourceName (Request_Namespace n r) = rq_resourceName r"
  "rq_subresource (Request_Namespace n r) = rq_subresource r"
  "rq_timeout (Request_Namespace n r) = rq_timeout r"
  "rq_body (Request_Namespace n r) = rq_body r"
  by (simp_all add: Request_Namespace_def Let_def)

lemma Request_SubResource_frame [simp]:
  "rq_verb (Request_SubResource ss r) = rq_verb r"
  "rq_baseURL (Request_SubResource ss r) = rq_baseURL r"
  "rq_content (Request_SubResource ss r) = rq_content r"
  "rq_pathPrefix (Request_SubResource ss r) = rq_pathPrefix r"
  "rq_subpath (Request_SubResource ss r) = rq_subpath r"
  "rq_params (Request_SubResource ss r) = rq_params r"
  "rq_headers (Request_SubResource ss r) = rq_headers r"
  "rq_namespace (Request_SubResource ss r) = rq_namespace r"
  "rq_namespaceSet (Request_SubResource ss r) = rq_namespaceSet r"
  "rq_resource (Request_SubResource ss r) = rq_resource r"
  "rq_resourceName (Request_SubResource ss r) = rq_resourceName r"
  "rq_timeout (Request_SubResource ss r) = rq_timeout r"
  "rq_body (Request_SubResource ss r) = rq_body r"
  by (simp_all add: Request_SubResource_def Let_def split: option.splits sum.splits)

lemma VersionedParams_frame [simp]:
  "rq_verb (VersionedParams enc opts r) = rq_verb r"
  "rq_baseURL (VersionedParams enc opts r) = rq_baseURL r"
  "rq_content (VersionedParams enc opts r) = rq_content r"
  "rq_pathPrefix (VersionedParams enc opts r) = rq_pathPrefix r"
  "rq_subpath (VersionedParams enc opts r) = rq_subpath r"
  "rq_headers (VersionedParams enc opts r) = rq_headers r"
  "rq_namespace (VersionedParams enc opts r) = rq_namespace r"
  "rq_namespaceSet (VersionedParams enc opts r) = rq_namespaceSet r"
  "rq_resource (VersionedParams enc opts r) = rq_resource r"
  "rq_resourceName (VersionedParams enc opts r) = rq_resourceName r"
  "rq_subresource (VersionedParams enc opts r) = rq_subresource r"
  "rq_timeout (VersionedParams enc opts r) = rq_timeout r"
  "rq_body (VersionedParams enc opts r) = rq_body r"
  by (simp_all add: VersionedParams_def Let_def split: option.splits sum.splits)

lemma Body_bytes_frame [simp]:
  "rq_verb (Body_bytes data r) = rq_verb r"
  "rq_baseURL (Body_bytes data r) = rq_baseURL r"
  "rq_content (Body_bytes data r) = rq_content r"
  "rq_pathPrefix (Body_bytes data r) = rq_pathPrefix r"
  "rq_subpath (Body_bytes data r) = rq_subpath r"
  "rq_params (Body_bytes data r) = rq_params r"
  "rq_headers (Body_bytes data r) = rq_headers r"
  "rq_namespace (Body_bytes data r) = rq_namespace r"
  "rq_namespaceSet (Body_bytes data r) = rq_namespaceSet r"
  "rq_resource (Body_bytes data r) = rq_resource r"
  "rq_resourceName (Body_bytes data r) = rq_resourceName r"
  "rq_subresource (Body_bytes data r) = rq_subresource r"
  "rq_timeout (Body_bytes data r) = rq_timeout r"
  by (simp_all add: Body_bytes_def Let_def)

lemma Body_object_frame [simp]:
  "rq_verb (Body_object enc obj r) = rq_verb r"
  "rq_baseURL (Body_object enc obj r) = rq_baseURL r"
  "rq_content (Body_object enc obj r) = rq_content r"
  "rq_pathPrefix (Body_object enc obj r) = rq_pathPrefix r"
  "rq_subpath (Body_object enc obj r) = rq_subpath r"
  "rq_params (Body_object enc obj r) = rq_params r"
  "rq_namespace (Body_object enc obj r) = rq_namespace r"
  "rq_namespaceSet (Body_object enc obj r) = rq_namespaceSet r"
  "rq_resource (Body_object enc obj r) = rq_resource r"
  "rq_resourceName (Body_object enc obj r) = rq_resourceName r"
  "rq_subresource (Body_object enc obj r) = rq_subresource r"
  "rq_timeout (Body_object enc obj r) = rq_timeout r"
  by (simp_all add: Body_object_def SetHeader_def Let_def split: option.splits sum.splits)

lemmas request_ok = Request_Name_ok Request_Resource_ok(1) Request_Namespace_ok(1) Request_SubResource_ok
  VersionedParams_ok Body_bytes_ok Body_object_ok

section \<open>Where a request goes\<close>

definition api_pieces :: "RESTClient \<Rightarrow> string list" where
  "api_pieces c = path_pieces (bu_Path (rc_base c)) @ path_pieces (rc_versionedAPIPath c)"

definition plain_client :: "RESTClient \<Rightarrow> bool" where
  "plain_client c \<longleftrightarrow> plain_path (bu_Path (rc_base c)) \<and> plain_path (rc_versionedAPIPath c)"

text \<open>The pieces of the path of an object or of a collection, as the Kubernetes API lays them out.\<close>

definition target :: "RESTClient \<Rightarrow> string \<Rightarrow> string \<Rightarrow> string \<Rightarrow> string list \<Rightarrow> string list" where
  "target c ns resource name subs =
     api_pieces c @ (if ns = [] then [] else [''namespaces'', ns]) @ [resource] @ filter (\<lambda>s. s \<noteq> []) (name # subs)"

lemma plain_api_pieces: "plain_client c \<Longrightarrow> list_all plain_segment (api_pieces c)"
  by (simp add: plain_client_def plain_path_def api_pieces_def)

definition client_prefix :: "RESTClient \<Rightarrow> string" where
  "client_prefix c = path_Join [path_Join [''/'', bu_Path (rc_base c)], rc_versionedAPIPath c]"

lemma client_prefix:
  assumes "plain_client c"
  shows "client_prefix c = rooted_path (api_pieces c)"
proof -
  have "path_Join [''/'', bu_Path (rc_base c)] = rooted_path (path_pieces (bu_Path (rc_base c)))"
    using assms path_Join_rooted [of "''/''" "[bu_Path (rc_base c)]"]
    by (simp add: plain_client_def plain_path_def path_pieces_def)
  moreover have "path_Join [rooted_path (path_pieces (bu_Path (rc_base c))), rc_versionedAPIPath c] =
      rooted_path (api_pieces c)"
    using assms path_Join_rooted [of "rooted_path (path_pieces (bu_Path (rc_base c)))" "[rc_versionedAPIPath c]"]
    by (simp add: plain_client_def plain_path_rooted plain_path_def path_pieces_rooted api_pieces_def)
  ultimately show ?thesis by (simp add: client_prefix_def)
qed

lemma request_fresh:
  "rq_verb (RESTClient_Verb verb c) = verb" "rq_err (RESTClient_Verb verb c) = None"
  "rq_namespaceSet (RESTClient_Verb verb c) = False" "rq_resource (RESTClient_Verb verb c) = []"
  "rq_resourceName (RESTClient_Verb verb c) = []" "rq_subresource (RESTClient_Verb verb c) = []"
  "rq_subpath (RESTClient_Verb verb c) = []" "rq_body (RESTClient_Verb verb c) = None"
  "rq_baseURL (RESTClient_Verb verb c) = rc_base c" "rq_params (RESTClient_Verb verb c) = (\<lambda>_. [])"
  "rq_timeout (RESTClient_Verb verb c) = rc_Timeout c"
  "rq_pathPrefix (RESTClient_Verb verb c) = client_prefix c"
  by (simp_all add: RESTClient_Verb_def NewRequest_def SetHeader_def Let_def client_prefix_def)

text \<open>Sub-resources are joined with slashes, and come apart again.\<close>

lemma path_Clean_relative:
  assumes "plain_segment s" "list_all plain_segment (filter (\<lambda>s. s \<noteq> []) ss)"
  shows "path_Clean (join_slash (s # ss)) = join_slash (s # filter (\<lambda>s. s \<noteq> []) ss)"
proof -
  obtain x xs where x: "s = x # xs" "x \<noteq> CHR ''/''"
    using assms(1) by (cases s) (auto simp: plain_segment_def)
  have slash: "CHR ''/'' \<notin> set e" if "e \<in> set (s # ss)" for e
    using assms that by (cases "e = []") (auto simp: plain_segment_def list_all_iff)
  then have "concat (map (split_on CHR ''/'') ss) = ss" by (induction ss) auto
  then have "split_on CHR ''/'' (join_slash (s # ss)) = s # ss"
    using slash by (simp add: join_slash_Cons split_joined)
  moreover have "fold (clean_step False) (s # ss) [] = s # filter (\<lambda>s. s \<noteq> []) ss"
    using clean_steps [of "s # ss" False "[]"] assms by (simp add: plain_segment_def)
  ultimately show ?thesis
    using x by (simp add: path_Clean_def join_slash_Cons)
qed

lemma path_pieces_join:
  assumes "list_all plain_segment l"
  shows "path_pieces (join_slash l) = l"
proof (cases l)
  case (Cons a m)
  have "concat (map path_pieces m) = m" if "list_all plain_segment m" for m
    using that by (induction m) (auto simp: path_pieces_segment plain_segment_def)
  with assms Cons show ?thesis
    by (simp add: path_pieces_joined path_pieces_segment plain_segment_def del: join_slash.simps)
qed (simp add: path_pieces_def)

lemma path_Join_segments:
  assumes "list_all ok_segment ss"
  shows "path_pieces (path_Join ss) = filter (\<lambda>s. s \<noteq> []) ss" "plain_path (path_Join ss)"
proof -
  have ss: "list_all plain_segment (filter (\<lambda>s. s \<noteq> []) ss)"
    using assms by (auto simp: ok_segment_def list_all_iff)
  have "path_pieces (path_Join ss) = filter (\<lambda>s. s \<noteq> []) ss"
  proof (cases "dropWhile (\<lambda>e. e = []) ss")
    case Nil
    then have "filter (\<lambda>s. s \<noteq> []) ss = []" by (auto simp: dropWhile_eq_Nil_conv filter_empty_conv)
    moreover have "path_Join ss = []" unfolding path_Join_def Nil by simp
    ultimately show ?thesis by (simp add: path_pieces_def)
  next
    case (Cons e es)
    have f: "filter (\<lambda>s. s \<noteq> []) ss = e # filter (\<lambda>s. s \<noteq> []) es" "e \<noteq> []"
    proof -
      show "e \<noteq> []" using hd_dropWhile [of "\<lambda>e. e = []" ss] Cons by auto
      have "filter (\<lambda>s. s \<noteq> []) ss = filter (\<lambda>s. s \<noteq> []) (dropWhile (\<lambda>e. e = []) ss)"
        by (induction ss) auto
      with \<open>e \<noteq> []\<close> Cons show "filter (\<lambda>s. s \<noteq> []) ss = e # filter (\<lambda>s. s \<noteq> []) es" by simp
    qed
    with ss have "path_Join ss = join_slash (e # filter (\<lambda>s. s \<noteq> []) es)"
      using path_Clean_relative [of e es] Cons by (simp add: path_Join_def)
    then show ?thesis using f ss path_pieces_join by metis
  qed
  with ss show "path_pieces (path_Join ss) = filter (\<lambda>s. s \<noteq> []) ss" "plain_path (path_Join ss)"
    by (simp_all add: plain_path_def)
qed

lemma ok_segment_plain: "ok_segment s \<Longrightarrow> s = [] \<or> plain_segment s"
  by (simp add: ok_segment_def)

lemma ok_segment_pieces: "ok_segment s \<Longrightarrow> path_pieces s = (if s = [] then [] else [s])"
  by (rule path_pieces_segment) (auto simp: ok_segment_def plain_segment_def)

lemma path_of_request:
  assumes "rq_pathPrefix r = rooted_path (api_pieces c)" "plain_client c" "rq_subpath r = []"
    and "rq_namespaceSet r" "ok_segment (rq_namespace r)"
    and "ok_segment (rq_resource r)" "rq_resource r \<noteq> []" "ToLower (rq_resource r) = rq_resource r"
    and "ok_segment (rq_resourceName r)"
    and "rq_subresource r = path_Join subs" "list_all ok_segment subs"
  shows "request_path r = rooted_path (target c (rq_namespace r) (rq_resource r) (rq_resourceName r) subs)"
    "list_all plain_segment (target c (rq_namespace r) (rq_resource r) (rq_resourceName r) subs)"
proof -
  let ?ns = "if rq_namespace r = [] then [] else [''namespaces'', rq_namespace r]"
  let ?P = "api_pieces c @ ?ns @ [rq_resource r]"
  note plain = ok_segment_plain [OF assms(5)] ok_segment_plain [OF assms(6)] ok_segment_plain [OF assms(9)]
  have "list_all plain_segment (api_pieces c @ ?ns)"
    using plain(1) plain_api_pieces [OF assms(2)] by (auto simp: plain_segment_def)
  then have P: "list_all plain_segment (api_pieces c)" "list_all plain_segment (api_pieces c @ ?ns)"
    "list_all plain_segment ?P"
    using plain(2) assms(7) by auto
  have ns: "rq_namespace r \<noteq> [] \<Longrightarrow>
      path_Join [rooted_path (api_pieces c), ''namespaces'', rq_namespace r] = rooted_path (api_pieces c @ ?ns)"
    using plain(1) P(1) ok_segment_pieces [OF assms(5)]
    by (subst path_Join_rooted) (simp_all add: plain_path_rooted plain_path_segment path_pieces_rooted,
      simp_all add: plain_path_def path_pieces_def plain_segment_def)
  have rs: "path_Join [rooted_path (api_pieces c @ ?ns), ToLower (rq_resource r)] = rooted_path ?P"
    using plain(2) P(2) ok_segment_pieces [OF assms(6)] assms(7)
    by (subst path_Join_rooted) (simp_all add: assms(8) plain_path_rooted plain_path_segment path_pieces_rooted)
  have nm: "path_Join [rooted_path ?P, rq_resourceName r, path_Join subs, []] =
      rooted_path (?P @ filter (\<lambda>s. s \<noteq> []) (rq_resourceName r # subs))"
    using plain(3) P(3) ok_segment_pieces [OF assms(9)] path_Join_segments [OF assms(11)]
    by (subst path_Join_rooted) (simp_all add: plain_path_rooted plain_path_segment path_pieces_rooted,
      simp_all add: plain_path_def path_pieces_def)
  have empty: "path_Join subs = [] \<Longrightarrow> filter (\<lambda>s. s \<noteq> []) subs = []"
    using path_Join_segments(1) [OF assms(11)] by (simp add: path_pieces_def)
  show "request_path r = rooted_path (target c (rq_namespace r) (rq_resource r) (rq_resourceName r) subs)"
    using ns rs nm empty assms(1,3,4,7,10)
    by (auto simp: request_path_def target_def Let_def)
  show "list_all plain_segment (target c (rq_namespace r) (rq_resource r) (rq_resourceName r) subs)"
    using P(3) plain(3) assms(11) by (auto simp: target_def list_all_iff dest: ok_segment_plain)
qed

section \<open>Retries\<close>

text \<open>A transport that also keeps its answers, and the answers after which the request is sent again.\<close>

definition logged :: "(http_request \<Rightarrow> 'w \<Rightarrow> (http_error + http_response) \<times> 'w) \<Rightarrow> http_request \<Rightarrow>
    (http_error + http_response) list \<times> 'w \<Rightarrow>
    (http_error + http_response) \<times> (http_error + http_response) list \<times> 'w" where
  "logged send req s = (let (a, w) = send req (snd s) in (a, (fst s @ [a], w)))"

definition asks_again :: "http_request \<Rightarrow> http_error + http_response \<Rightarrow> bool" where
  "asks_again req a =
     (case a of
        Inr resp \<Rightarrow> checkWait resp \<noteq> None
      | Inl (ConnectionReset _) \<Rightarrow> hr_Method req = ''GET''
      | Inl _ \<Rightarrow> False)"

definition final_answer :: "http_request \<Rightarrow> http_error + http_response \<Rightarrow> http_error + http_response" where
  "final_answer req a = (case a of Inl _ \<Rightarrow> if asks_again req a then Inr retry_response else a | Inr _ \<Rightarrow> a)"

lemma send_loop_step:
  assumes "send req w = (a, w1)"
  shows "send_loop send req n w =
    (if asks_again req a \<and> Suc n < maxRetries then send_loop send req (Suc n) w1 else (final_answer req a, w1))"
  by (subst send_loop.simps)
    (auto simp: assms Let_def asks_again_def final_answer_def retry_response_def checkWait_def
      split: sum.splits http_error.splits)

lemma send_loop_logged:
  assumes "n < maxRetries" "send_loop (logged send) req n (log, w) = (ans, (log', w'))"
  shows "\<exists>new. log' = log @ new \<and> new \<noteq> [] \<and> n + length new \<le> maxRetries \<and>
    list_all (asks_again req) (butlast new) \<and> ans = final_answer req (last new) \<and>
    (asks_again req (last new) \<longrightarrow> n + length new = maxRetries) \<and> send_loop send req n w = (ans, w')"
  using assms
proof (induction "maxRetries - n" arbitrary: n log w)
  case (Suc k)
  obtain a w1 where a: "send req w = (a, w1)" by force
  then have la: "logged send req (log, w) = (a, (log @ [a], w1))" by (simp add: logged_def)
  show ?case
  proof (cases "asks_again req a \<and> Suc n < maxRetries")
    case True
    with Suc.prems(2) have "send_loop (logged send) req (Suc n) (log @ [a], w1) = (ans, (log', w'))"
      by (simp add: send_loop_step [where send = "logged send", OF la])
    moreover have "k = maxRetries - Suc n" using Suc.hyps(2) by simp
    ultimately obtain new where new: "log' = (log @ [a]) @ new" "new \<noteq> []" "Suc n + length new \<le> maxRetries"
      "list_all (asks_again req) (butlast new)" "ans = final_answer req (last new)"
      "asks_again req (last new) \<longrightarrow> Suc n + length new = maxRetries"
      "send_loop send req (Suc n) w1 = (ans, w')"
      using Suc.hyps(1) [of "Suc n" "log @ [a]" w1] True by blast
    with True show ?thesis
      by (intro exI [of _ "a # new"]) (simp add: send_loop_step [where send = send, OF a])
  next
    case False
    with Suc.prems(2) have "ans = final_answer req a" "log' = log @ [a]" "w' = w1"
      by (simp_all add: send_loop_step [where send = "logged send", OF la])
    with False Suc.prems(1) show ?thesis
      by (intro exI [of _ "[a]"]) (auto simp: send_loop_step [where send = send, OF a])
  qed
qed simp

end
