(* ===== verification/TypedClientsLaws.thy ===== *)
theory TypedClientsLaws
  imports TypedClients RestClientLaws
begin

text \<open>
  What the generated REST clients ask of the API server. The locale \<open>typed_client\<close> has the proofs once
  for both generated clients: which arguments are accepted, what is sent, and that the path of every
  request reads back as the object it was made for.
\<close>

section \<open>The calls of a typed client\<close>

text \<open>A call with its arguments, and what it is meant to send: the verb, the object, the body.\<close>

datatype 'o api_call =
    GetCall string GetOptions
  | ListCall ListOptions
  | WatchCall ListOptions
  | CreateCall 'o
  | UpdateCall 'o
  | UpdateStatusCall 'o
  | DeleteCall string "DeleteOptions option"
  | DeleteCollectionCall "DeleteOptions option" ListOptions
  | PatchCall string string string "string list"

fun call_verb :: "'o api_call \<Rightarrow> string" where
  "call_verb (GetCall _ _) = ''GET''"
| "call_verb (ListCall _) = ''GET''"
| "call_verb (WatchCall _) = ''GET''"
| "call_verb (CreateCall _) = ''POST''"
| "call_verb (UpdateCall _) = ''PUT''"
| "call_verb (UpdateStatusCall _) = ''PUT''"
| "call_verb (DeleteCall _ _) = ''DELETE''"
| "call_verb (DeleteCollectionCall _ _) = ''DELETE''"
| "call_verb (PatchCall _ _ _ _) = ''PATCH''"

text \<open>The name of the object a call is about, if it is about one.\<close>

fun call_name :: "('o \<Rightarrow> string) \<Rightarrow> 'o api_call \<Rightarrow> string option" where
  "call_name nm (GetCall name _) = Some name"
| "call_name nm (UpdateCall x) = Some (nm x)"
| "call_name nm (UpdateStatusCall x) = Some (nm x)"
| "call_name nm (DeleteCall name _) = Some name"
| "call_name nm (PatchCall name _ _ _) = Some name"
| "call_name nm _ = None"

fun call_subresources :: "'o api_call \<Rightarrow> string list" where
  "call_subresources (UpdateStatusCall _) = [''status'']"
| "call_subresources (PatchCall _ _ _ ss) = ss"
| "call_subresources _ = []"

fun call_params :: "('w, 'd, 'o) codecs \<Rightarrow> 'o api_call \<Rightarrow> string + url_values" where
  "call_params co (GetCall _ options) = co_GetParams co options"
| "call_params co (ListCall opts) = co_ListParams co opts"
| "call_params co (WatchCall opts) = co_ListParams co (opts\<lparr>lo_Watch := True\<rparr>)"
| "call_params co (DeleteCollectionCall _ opts) = co_ListParams co opts"
| "call_params co _ = Inr (\<lambda>_. [])"

fun call_body :: "('w, 'd, 'o) codecs \<Rightarrow> 'o api_call \<Rightarrow> string + string option" where
  "call_body co (CreateCall x) = map_sum id Some (co_Encode co x)"
| "call_body co (UpdateCall x) = map_sum id Some (co_Encode co x)"
| "call_body co (UpdateStatusCall x) = map_sum id Some (co_Encode co x)"
| "call_body co (DeleteCall _ None) = Inr None"
| "call_body co (DeleteCall _ (Some options)) = map_sum id Some (co_EncodeDelete co options)"
| "call_body co (DeleteCollectionCall None _) = Inr None"
| "call_body co (DeleteCollectionCall (Some options) _) = map_sum id Some (co_EncodeDelete co options)"
| "call_body co (PatchCall _ _ data _) = Inr (Some data)"
| "call_body co _ = Inr None"

text \<open>The chain of setters of every method, with the resource left open.\<close>

definition scoped :: "string \<Rightarrow> string \<Rightarrow> Request \<Rightarrow> Request" where
  "scoped ns resource r = Request_Resource resource (Request_Namespace ns r)"

fun chain :: "RESTClient \<Rightarrow> string \<Rightarrow> string \<Rightarrow> ('o \<Rightarrow> string) \<Rightarrow> ('w, 'd, 'o) codecs \<Rightarrow> 'o api_call \<Rightarrow> Request" where
  "chain c ns resource nm co (GetCall name options) =
     VersionedParams (co_GetParams co) options (Request_Name name (scoped ns resource (RESTClient_Get c)))"
| "chain c ns resource nm co (ListCall opts) =
     VersionedParams (co_ListParams co) opts (scoped ns resource (RESTClient_Get c))"
| "chain c ns resource nm co (WatchCall opts) =
     VersionedParams (co_ListParams co) (opts\<lparr>lo_Watch := True\<rparr>) (scoped ns resource (RESTClient_Get c))"
| "chain c ns resource nm co (CreateCall x) =
     Body_object (co_Encode co) (Some x) (scoped ns resource (RESTClient_Post c))"
| "chain c ns resource nm co (UpdateCall x) =
     Body_object (co_Encode co) (Some x) (Request_Name (nm x) (scoped ns resource (RESTClient_Put c)))"
| "chain c ns resource nm co (UpdateStatusCall x) =
     Body_object (co_Encode co) (Some x)
       (Request_SubResource [''status''] (Request_Name (nm x) (scoped ns resource (RESTClient_Put c))))"
| "chain c ns resource nm co (DeleteCall name options) =
     Body_object (co_EncodeDelete co) options (Request_Name name (scoped ns resource (RESTClient_Delete c)))"
| "chain c ns resource nm co (DeleteCollectionCall options opts) =
     Body_object (co_EncodeDelete co) options
       (VersionedParams (co_ListParams co) opts (scoped ns resource (RESTClient_Delete c)))"
| "chain c ns resource nm co (PatchCall name pt data subresources) =
     Body_bytes data (Request_Name name (Request_SubResource subresources
       (scoped ns resource (RESTClient_Patch pt c))))"

text \<open>
  When the chain has no error, the request is this one: the fields the setters set, on what the client
  starts from. The headers are left open.
\<close>

definition built :: "RESTClient \<Rightarrow> string \<Rightarrow> string \<Rightarrow> ('o \<Rightarrow> string) \<Rightarrow> ('w, 'd, 'o) codecs \<Rightarrow> 'o api_call \<Rightarrow>
    Request \<Rightarrow> bool" where
  "built c ns resource nm co call r \<longleftrightarrow>
     rq_verb r = call_verb call \<and> rq_baseURL r = rc_base c \<and> rq_timeout r = rc_Timeout c \<and>
     rq_pathPrefix r = client_prefix c \<and> rq_subpath r = [] \<and>
     rq_namespaceSet r \<and> rq_namespace r = ns \<and> rq_resource r = resource \<and>
     rq_resourceName r = (case call_name nm call of None \<Rightarrow> [] | Some n \<Rightarrow> n) \<and>
     rq_subresource r = path_Join (call_subresources call) \<and>
     Inr (rq_params r) = call_params co call \<and> Inr (rq_body r) = call_body co call"

definition call_ok :: "string \<Rightarrow> string \<Rightarrow> ('o \<Rightarrow> string) \<Rightarrow> ('w, 'd, 'o) codecs \<Rightarrow> 'o api_call \<Rightarrow> bool" where
  "call_ok ns resource nm co call \<longleftrightarrow>
     ok_segment ns \<and> ok_segment resource \<and>
     (case call_name nm call of None \<Rightarrow> True | Some n \<Rightarrow> n \<noteq> [] \<and> ok_segment n) \<and>
     list_all ok_segment (call_subresources call) \<and> is_ok (call_params co call) \<and> is_ok (call_body co call)"

lemma is_ok_map_sum [simp]: "is_ok (map_sum id f x) = is_ok x"
  by (cases x) simp_all

lemma patch_fresh:
  "rq_verb (RESTClient_Patch pt c) = ''PATCH''" "rq_err (RESTClient_Patch pt c) = None"
  "rq_namespaceSet (RESTClient_Patch pt c) = False" "rq_resource (RESTClient_Patch pt c) = []"
  "rq_resourceName (RESTClient_Patch pt c) = []" "rq_subresource (RESTClient_Patch pt c) = []"
  "rq_subpath (RESTClient_Patch pt c) = []" "rq_body (RESTClient_Patch pt c) = None"
  "rq_baseURL (RESTClient_Patch pt c) = rc_base c" "rq_params (RESTClient_Patch pt c) = (\<lambda>_. [])"
  "rq_timeout (RESTClient_Patch pt c) = rc_Timeout c"
  "rq_pathPrefix (RESTClient_Patch pt c) = client_prefix c"
  by (simp_all add: RESTClient_Patch_def SetHeader_def request_fresh)

lemma scoped_ok:
  "rq_err (scoped ns resource r) = None \<longleftrightarrow>
     rq_err r = None \<and> ok_segment ns \<and> \<not> rq_namespaceSet r \<and> ok_segment resource \<and> rq_resource r = []"
  by (auto simp: scoped_def request_ok)

lemma scoped_eq:
  assumes "rq_err (scoped ns resource r) = None"
  shows "scoped ns resource r = r\<lparr>rq_namespaceSet := True, rq_namespace := ns, rq_resource := resource\<rparr>"
  using assms Request_Resource_ok(2) [of resource "Request_Namespace ns r"] Request_Namespace_ok(2) [of ns r]
  by (simp add: scoped_def request_ok)

lemma scoped_frame [simp]:
  "rq_verb (scoped ns resource r) = rq_verb r"
  "rq_baseURL (scoped ns resource r) = rq_baseURL r"
  "rq_content (scoped ns resource r) = rq_content r"
  "rq_pathPrefix (scoped ns resource r) = rq_pathPrefix r"
  "rq_subpath (scoped ns resource r) = rq_subpath r"
  "rq_params (scoped ns resource r) = rq_params r"
  "rq_headers (scoped ns resource r) = rq_headers r"
  "rq_resourceName (scoped ns resource r) = rq_resourceName r"
  "rq_subresource (scoped ns resource r) = rq_subresource r"
  "rq_timeout (scoped ns resource r) = rq_timeout r"
  "rq_body (scoped ns resource r) = rq_body r"
  by (simp_all add: scoped_def)

lemmas verbs = RESTClient_Get_def RESTClient_Put_def RESTClient_Post_def RESTClient_Delete_def

lemma call_body_delete [simp]:
  "is_ok (call_body co (DeleteCall n options)) \<longleftrightarrow> options = None \<or> is_ok (co_EncodeDelete co (the options))"
  "is_ok (call_body co (DeleteCollectionCall options opts)) \<longleftrightarrow> options = None \<or> is_ok (co_EncodeDelete co (the options))"
  by (cases options; simp)+

lemma ok_status [simp]: "ok_segment ''status''"
  by (simp add: ok_segment_def plain_segment_def)

lemma chain_ok: "rq_err (chain c ns resource nm co call) = None \<longleftrightarrow> call_ok ns resource nm co call"
  by (cases call) (auto simp: call_ok_def request_ok scoped_ok verbs request_fresh patch_fresh)

text \<open>What a setter sets, when it does.\<close>

lemma set_Name:
  assumes "rq_err r = None" "n \<noteq> []" "ok_segment n" "rq_resourceName r = []"
  shows "rq_resourceName (Request_Name n r) = n"
  using assms by (simp add: Request_Name_def ok_segment_iff Let_def)

lemma set_SubResource:
  assumes "rq_err r = None" "list_all ok_segment ss" "rq_subresource r = []"
  shows "rq_subresource (Request_SubResource ss r) = path_Join ss"
  using assms by (simp add: Request_SubResource_def ok_segment_iff Let_def find_not_ok [symmetric])

lemma setters:
  "rq_err r = None \<Longrightarrow> enc opts = Inr params \<Longrightarrow> rq_params r = (\<lambda>_. []) \<Longrightarrow>
     rq_params (VersionedParams enc opts r) = params"
  "rq_err r = None \<Longrightarrow> rq_body (Body_bytes data r) = Some data"
  "rq_err r = None \<Longrightarrow> Encode x = Inr body \<Longrightarrow> rq_body (Body_object Encode (Some x) r) = Some body"
  "rq_body (Body_object Encode None r) = rq_body r"
  by (simp_all add: VersionedParams_def Body_bytes_def Body_object_def SetHeader_def)

lemma scoped_set:
  assumes "rq_err r = None" "ok_segment ns" "\<not> rq_namespaceSet r" "ok_segment resource" "rq_resource r = []"
  shows "rq_namespaceSet (scoped ns resource r)" "rq_namespace (scoped ns resource r) = ns"
    "rq_resource (scoped ns resource r) = resource"
proof -
  have "scoped ns resource r = r\<lparr>rq_namespaceSet := True, rq_namespace := ns, rq_resource := resource\<rparr>"
    by (rule scoped_eq) (use assms in \<open>simp add: scoped_ok\<close>)
  then show "rq_namespaceSet (scoped ns resource r)" "rq_namespace (scoped ns resource r) = ns"
    "rq_resource (scoped ns resource r) = resource" by simp_all
qed

lemma path_Join_simps [simp]: "path_Join [] = []" "path_Join [''status''] = ''status''"
  by (simp_all add: path_Join_def path_Clean_def clean_step_def)

lemmas sets = request_ok(1,4,5,6) scoped_ok verbs request_fresh patch_fresh setters set_Name set_SubResource scoped_set

lemma chain_built:
  assumes "rq_err (chain c ns resource nm co call) = None"
  shows "built c ns resource nm co call (chain c ns resource nm co call)"
proof -
  have ok: "call_ok ns resource nm co call" using assms chain_ok by blast
  then obtain params body where e: "call_params co call = Inr params" "call_body co call = Inr body"
    by (auto simp: call_ok_def is_ok_iff)
  show ?thesis
  proof (cases call)
    case (DeleteCall n options)
    with ok e show ?thesis
      by (cases options; cases "co_EncodeDelete co (the options)") (auto simp: built_def call_ok_def sets)
  next
    case (DeleteCollectionCall options opts)
    with ok e show ?thesis
      by (cases options; cases "co_EncodeDelete co (the options)") (auto simp: built_def call_ok_def sets)
  next
    case (CreateCall x)
    with ok e show ?thesis by (cases "co_Encode co x") (auto simp: built_def call_ok_def sets)
  next
    case (UpdateCall x)
    with ok e show ?thesis by (cases "co_Encode co x") (auto simp: built_def call_ok_def sets)
  next
    case (UpdateStatusCall x)
    with ok e show ?thesis by (cases "co_Encode co x") (auto simp: built_def call_ok_def sets)
  qed (use ok e in \<open>auto simp: built_def call_ok_def sets\<close>)
qed

section \<open>Both generated clients\<close>

text \<open>
  Reading a path back: what the API server finds below the root of the group version, as namespace,
  resource, name and sub-resources.
\<close>

definition read_pieces :: "string list \<Rightarrow> (string \<times> string \<times> string \<times> string list) option" where
  "read_pieces ps =
     (let (ns, rest) = (case ps of x # y # rest \<Rightarrow> if x = ''namespaces'' then (y, rest) else ([], ps) | _ \<Rightarrow> ([], ps))
      in case rest of
           [] \<Rightarrow> None
         | r # names \<Rightarrow> Some (ns, r, (case names of [] \<Rightarrow> [] | n # _ \<Rightarrow> n), tl names))"

definition read_path :: "RESTClient \<Rightarrow> string \<Rightarrow> (string \<times> string \<times> string \<times> string list) option" where
  "read_path c p =
     (let ps = path_pieces p; root = api_pieces c
      in if take (length root) ps = root then read_pieces (drop (length root) ps) else None)"

text \<open>What a call asks for, in terms of the API: the HTTP request for its object or collection.\<close>

definition asks_for :: "(int \<Rightarrow> string) \<Rightarrow> RESTClient \<Rightarrow> string \<Rightarrow> string \<Rightarrow> ('o \<Rightarrow> string) \<Rightarrow>
    ('w, 'd, 'o) codecs \<Rightarrow> 'o api_call \<Rightarrow> http_request \<Rightarrow> bool" where
  "asks_for dur c ns resource nm co call q \<longleftrightarrow>
     hr_Method q = call_verb call \<and> hr_Host q = bu_Host (rc_base c) \<and>
     hr_Path q = rooted_path (target c ns resource (case call_name nm call of None \<Rightarrow> [] | Some n \<Rightarrow> n)
       (call_subresources call)) \<and>
     Inr (hr_Query q) = map_sum id
       (\<lambda>p. if rc_Timeout c \<noteq> 0 then p(''timeout'' := [dur (rc_Timeout c)]) else p) (call_params co call) \<and>
     Inr (hr_Body q) = call_body co call"

locale typed_client =
  fixes resource :: string
    and client :: "'c \<Rightarrow> RESTClient"
    and ns :: "'c \<Rightarrow> string"
    and nm :: "'o \<Rightarrow> string"
    and request :: "('w, 'd, 'o) codecs \<Rightarrow> 'c \<Rightarrow> 'o api_call \<Rightarrow> Request"
  assumes resource_segment: "ok_segment resource" "resource \<noteq> []" "resource \<noteq> ''namespaces''"
    and resource_lower: "ToLower resource = resource"
    and request_chain: "request co c call = chain (client c) (ns c) resource nm co call"
begin

definition name_of :: "'o api_call \<Rightarrow> string" where
  "name_of call = (case call_name nm call of None \<Rightarrow> [] | Some n \<Rightarrow> n)"

text \<open>A call is accepted exactly when its names are path segments and its arguments can be encoded.\<close>

lemma accepted: "rq_err (request co c call) = None \<longleftrightarrow> call_ok (ns c) resource nm co call"
  by (simp add: request_chain chain_ok)

lemma built: "rq_err (request co c call) = None \<Longrightarrow> built (client c) (ns c) resource nm co call (request co c call)"
  by (simp add: request_chain chain_built)

lemma path:
  assumes "plain_client (client c)" "rq_err (request co c call) = None"
  shows "request_path (request co c call) =
      rooted_path (target (client c) (ns c) resource (name_of call) (call_subresources call))"
    "list_all plain_segment (target (client c) (ns c) resource (name_of call) (call_subresources call))"
proof -
  let ?r = "request co c call"
  have b: "built (client c) (ns c) resource nm co call ?r" using built assms(2) .
  have ok: "ok_segment (ns c)" "ok_segment (name_of call)" "list_all ok_segment (call_subresources call)"
    using assms(2) [unfolded accepted] by (auto simp: call_ok_def name_of_def ok_segment_def split: option.splits)
  have fields: "rq_pathPrefix ?r = rooted_path (api_pieces (client c))" "rq_subpath ?r = []" "rq_namespaceSet ?r"
    "rq_namespace ?r = ns c" "rq_resource ?r = resource" "rq_resourceName ?r = name_of call"
    "rq_subresource ?r = path_Join (call_subresources call)"
    using b client_prefix [OF assms(1)] by (auto simp: built_def name_of_def)
  show "request_path ?r = rooted_path (target (client c) (ns c) resource (name_of call) (call_subresources call))"
    "list_all plain_segment (target (client c) (ns c) resource (name_of call) (call_subresources call))"
    using path_of_request [of ?r "client c" "call_subresources call"] fields assms(1) ok resource_segment resource_lower
    by simp_all
qed

text \<open>What is sent.\<close>

lemma sent:
  assumes "plain_client (client c)" "rq_err (request co c call) = None"
  shows "asks_for dur (client c) (ns c) resource nm co call (http_NewRequest dur (request co c call))"
proof -
  let ?r = "request co c call"
  have b: "Inr (rq_params ?r) = call_params co call" "Inr (rq_body ?r) = call_body co call"
    "rq_verb ?r = call_verb call" "rq_baseURL ?r = rc_base (client c)" "rq_timeout ?r = rc_Timeout (client c)"
    using built [OF assms(2)] by (simp_all add: built_def)
  show ?thesis
    using path(1) [OF assms]
    by (simp add: asks_for_def http_NewRequest_def request_URL_def Let_def name_of_def b(3-5)
      b(1,2) [symmetric])
qed

lemma sent_path:
  assumes "plain_client (client c)" "rq_err (request co c call) = None"
  shows "hr_Path (http_NewRequest dur (request co c call)) =
    rooted_path (target (client c) (ns c) resource (name_of call) (call_subresources call))"
  using sent [OF assms] by (simp add: asks_for_def name_of_def)

text \<open>The last check before anything is sent. Patches are not checked.\<close>

lemma checked:
  assumes "rq_err (request co c call) = None"
  shows "request_check (request co c call) =
    (if ns c \<noteq> [] then None
     else if call_verb call = ''POST'' then Some EmptyNamespaceOnCreate
     else if call_verb call \<noteq> ''PATCH'' \<and> call_name nm call \<noteq> None then Some EmptyNamespaceWithName
     else None)"
  using built [OF assms] assms
  by (cases call) (auto simp: request_check_def built_def accepted call_ok_def)

text \<open>And that it can be read back.\<close>

lemma subresources_of_nameless:
  "name_of call = [] \<Longrightarrow> rq_err (request co c call) = None \<Longrightarrow> call_subresources call = []"
  by (cases call) (auto simp: name_of_def accepted call_ok_def)

lemma read_back:
  assumes "plain_client (client c)" "rq_err (request co c call) = None"
  shows "read_path (client c) (hr_Path (http_NewRequest dur (request co c call))) =
    Some (ns c, resource, name_of call, filter (\<lambda>s. s \<noteq> []) (call_subresources call))"
proof -
  have pieces: "path_pieces (hr_Path (http_NewRequest dur (request co c call))) =
      target (client c) (ns c) resource (name_of call) (call_subresources call)"
    unfolding sent_path [OF assms] by (rule path_pieces_rooted [OF path(2) [OF assms]])
  have "read_path (client c) (hr_Path (http_NewRequest dur (request co c call))) =
      read_pieces ((if ns c = [] then [] else [''namespaces'', ns c]) @
        [resource] @ filter (\<lambda>s. s \<noteq> []) (name_of call # call_subresources call))"
    by (simp add: read_path_def pieces target_def)
  then show ?thesis
    using subresources_of_nameless [OF _ assms(2)] resource_segment
    by (cases "name_of call") (auto simp: read_pieces_def split: list.splits)
qed

end

text \<open>The request that a method of a client makes for a call.\<close>

fun services_request :: "('w, 'd, Service) codecs \<Rightarrow> services \<Rightarrow> Service api_call \<Rightarrow> Request" where
  "services_request co c (GetCall name options) = services_Get_request co c name options"
| "services_request co c (ListCall opts) = services_List_request co c opts"
| "services_request co c (WatchCall opts) = services_Watch_request co c opts"
| "services_request co c (CreateCall x) = services_Create_request co c x"
| "services_request co c (UpdateCall x) = services_Update_request co c x"
| "services_request co c (UpdateStatusCall x) = services_UpdateStatus_request co c x"
| "services_request co c (DeleteCall name options) = services_Delete_request co c name options"
| "services_request co c (DeleteCollectionCall options opts) = services_DeleteCollection_request co c options opts"
| "services_request co c (PatchCall name pt data subresources) = services_Patch_request c name pt data subresources"

fun configurations_request :: "('w, 'd, Configuration) codecs \<Rightarrow> configurations \<Rightarrow> Configuration api_call \<Rightarrow> Request" where
  "configurations_request co c (GetCall name options) = configurations_Get_request co c name options"
| "configurations_request co c (ListCall opts) = configurations_List_request co c opts"
| "configurations_request co c (WatchCall opts) = configurations_Watch_request co c opts"
| "configurations_request co c (CreateCall x) = configurations_Create_request co c x"
| "configurations_request co c (UpdateCall x) = configurations_Update_request co c x"
| "configurations_request co c (UpdateStatusCall x) = configurations_UpdateStatus_request co c x"
| "configurations_request co c (DeleteCall name options) = configurations_Delete_request co c name options"
| "configurations_request co c (DeleteCollectionCall options opts) = configurations_DeleteCollection_request co c options opts"
| "configurations_request co c (PatchCall name pt data subresources) = configurations_Patch_request c name pt data subresources"

definition service_name :: "Service \<Rightarrow> string" where
  "service_name x = om_Name (service_Meta x)"

interpretation services_rest: typed_client "''services''" sv_client sv_ns service_name services_request
proof
  show "services_request co c call = chain (sv_client c) (sv_ns c) ''services'' service_name co call" for co c call
    by (cases call) (simp_all add: service_name_def scoped_def Let_def
      services_Get_request_def services_List_request_def services_Watch_request_def services_Create_request_def services_Update_request_def services_UpdateStatus_request_def services_Delete_request_def
      services_DeleteCollection_request_def services_Patch_request_def)
qed (simp_all add: ok_segment_def plain_segment_def ToLower_def ascii_lower_def)

definition configuration_name :: "Configuration \<Rightarrow> string" where
  "configuration_name x = om_Name (conf_Meta x)"

interpretation configurations_rest: typed_client "''configurations''" cf_client cf_ns configuration_name configurations_request
proof
  show "configurations_request co c call = chain (cf_client c) (cf_ns c) ''configurations'' configuration_name co call" for co c call
    by (cases call) (simp_all add: configuration_name_def scoped_def Let_def
      configurations_Get_request_def configurations_List_request_def configurations_Watch_request_def configurations_Create_request_def configurations_Update_request_def
      configurations_UpdateStatus_request_def configurations_Delete_request_def configurations_DeleteCollection_request_def
      configurations_Patch_request_def)
qed (simp_all add: ok_segment_def plain_segment_def ToLower_def ascii_lower_def)

section \<open>What the clients do\<close>

definition namespace_check :: "string \<Rightarrow> ('o \<Rightarrow> string) \<Rightarrow> 'o api_call \<Rightarrow> request_error option" where
  "namespace_check ns nm call =
     (if ns \<noteq> [] then None
      else if call_verb call = ''POST'' then Some EmptyNamespaceOnCreate
      else if call_verb call \<noteq> ''PATCH'' \<and> call_name nm call \<noteq> None then Some EmptyNamespaceWithName
      else None)"

text \<open>C35: what the generated clients ask the API server for. For every method and any arguments that are
  path segments and can be encoded, the chain of setters has no error; the request has the method's verb,
  the path of its object or collection below the group version, the encoded parameters and the encoded
  body; and it is sent unless the namespace is empty and the call creates an object or names one, patches
  excepted.\<close>

theorem typed_clients_ask:
  assumes "plain_client (sv_client c)" "plain_client (cf_client d)"
    and "call_ok (sv_ns c) ''services'' service_name co call"
    and "call_ok (cf_ns d) ''configurations'' configuration_name co' call'"
  shows "asks_for dur (sv_client c) (sv_ns c) ''services'' service_name co call
      (http_NewRequest dur (services_request co c call)) \<and>
    request_check (services_request co c call) = namespace_check (sv_ns c) service_name call \<and>
    asks_for dur (cf_client d) (cf_ns d) ''configurations'' configuration_name co' call'
      (http_NewRequest dur (configurations_request co' d call')) \<and>
    request_check (configurations_request co' d call') = namespace_check (cf_ns d) configuration_name call'"
  using assms by (simp add: services_rest.accepted services_rest.sent services_rest.checked
    configurations_rest.accepted configurations_rest.sent configurations_rest.checked namespace_check_def)

text \<open>A client of an API server without path prefix, with codecs that encode nothing.\<close>

definition sample_rest_client :: RESTClient where
  "sample_rest_client =
     \<lparr>rc_base = \<lparr>bu_Host = ''https://api'', bu_Path = ''/''\<rparr>, rc_versionedAPIPath = ''/apis/mesh.lite.io/v1alpha1'',
      rc_contentConfig = \<lparr>cg_AcceptContentTypes = [], cg_ContentType = ''application/json'',
        cg_GroupVersion = SchemeGroupVersion\<rparr>, rc_Throttle = None, rc_Timeout = 0\<rparr>"

definition sample_library :: "(unit, unit) rest_library" where
  "sample_library = \<lparr>lib_Send = (\<lambda>q w. (Inl (TransportError ''down''), w)), lib_Duration_String = (\<lambda>_. []),
     lib_ParseMediaType = Inr, lib_Decoder = None, lib_RenegotiatedDecoder = (\<lambda>_. None),
     lib_DecodeStatus = (\<lambda>_ _. None), lib_Framer = True\<rparr>"

definition sample_codecs :: "(unit, unit, 'o) codecs" where
  "sample_codecs = \<lparr>co_library = sample_library, co_GetParams = (\<lambda>_. Inr (\<lambda>_. [])),
     co_ListParams = (\<lambda>_. Inr (\<lambda>_. [])), co_Encode = (\<lambda>_. Inr ''{}''), co_EncodeDelete = (\<lambda>_. Inr ''{}''),
     co_Decode = (\<lambda>_ _ x. DecodedInto x None), co_DecodeList = (\<lambda>_ _ xs. DecodedInto xs None)\<rparr>"

lemma sample_plain: "plain_client sample_rest_client"
  "api_pieces sample_rest_client = [''apis'', ''mesh.lite.io'', ''v1alpha1'']"
  by (simp_all add: plain_client_def plain_path_def path_pieces_def api_pieces_def sample_rest_client_def
      plain_segment_def)

definition no_get_options :: GetOptions where
  "no_get_options = \<lparr>go_ResourceVersion = [], go_IncludeUninitialized = False\<rparr>"

theorem typed_clients_ask_witness:
  "hr_Path (http_NewRequest (\<lambda>_. []) (services_request sample_codecs
       \<lparr>sv_client = sample_rest_client, sv_ns = ''shop''\<rparr> (GetCall ''web'' no_get_options))) =
     ''/apis/mesh.lite.io/v1alpha1/namespaces/shop/services/web'' \<and>
   hr_Path (http_NewRequest (\<lambda>_. []) (configurations_request sample_codecs
       \<lparr>cf_client = sample_rest_client, cf_ns = ''shop''\<rparr> (DeleteCollectionCall None all_options))) =
     ''/apis/mesh.lite.io/v1alpha1/namespaces/shop/configurations''"
proof -
  have "call_ok ''shop'' ''services'' service_name sample_codecs (GetCall ''web'' no_get_options)"
    "call_ok ''shop'' ''configurations'' configuration_name sample_codecs (DeleteCollectionCall None all_options)"
    by (simp_all add: call_ok_def ok_segment_def plain_segment_def sample_codecs_def)
  then show ?thesis
    using typed_clients_ask [of "\<lparr>sv_client = sample_rest_client, sv_ns = ''shop''\<rparr>"
        "\<lparr>cf_client = sample_rest_client, cf_ns = ''shop''\<rparr>" sample_codecs "GetCall ''web'' no_get_options"
        sample_codecs "DeleteCollectionCall None all_options" "\<lambda>_. []"]
    by (simp add: sample_plain asks_for_def target_def rooted_path_def
      del: services_request.simps configurations_request.simps)
qed

text \<open>C36: no name reaches out of its collection. Whatever strings are given as namespace, name and
  sub-resources, if the request is made without error then its path reads back as exactly these; so
  requests of clients of one API server that have the same path are for the same object.\<close>

theorem typed_paths_read_back:
  assumes "plain_client (sv_client c)" "plain_client (cf_client d)"
    and "rq_err (services_request co c call) = None" "rq_err (configurations_request co' d call') = None"
  shows "read_path (sv_client c) (hr_Path (http_NewRequest dur (services_request co c call))) =
      Some (sv_ns c, ''services'', (case call_name service_name call of None \<Rightarrow> [] | Some n \<Rightarrow> n),
        filter (\<lambda>s. s \<noteq> []) (call_subresources call)) \<and>
    call_ok (sv_ns c) ''services'' service_name co call \<and>
    read_path (cf_client d) (hr_Path (http_NewRequest dur (configurations_request co' d call'))) =
      Some (cf_ns d, ''configurations'', (case call_name configuration_name call' of None \<Rightarrow> [] | Some n \<Rightarrow> n),
        filter (\<lambda>s. s \<noteq> []) (call_subresources call')) \<and>
    call_ok (cf_ns d) ''configurations'' configuration_name co' call'"
  using assms services_rest.read_back [OF assms(1,3)] configurations_rest.read_back [OF assms(2,4)]
  by (simp add: services_rest.accepted configurations_rest.accepted services_rest.name_of_def
      configurations_rest.name_of_def)

theorem typed_paths_read_back_witness:
  "read_path sample_rest_client (hr_Path (http_NewRequest (\<lambda>_. []) (services_request sample_codecs
       \<lparr>sv_client = sample_rest_client, sv_ns = ''shop''\<rparr> (PatchCall ''web'' ''application/json-patch+json'' ''[]'' [''status''])))) =
     Some (''shop'', ''services'', ''web'', [''status''])"
proof -
  have "call_ok ''shop'' ''services'' service_name sample_codecs
      (PatchCall ''web'' ''application/json-patch+json'' ''[]'' [''status''])"
    "call_ok ''shop'' ''configurations'' configuration_name sample_codecs (ListCall all_options)"
    by (simp_all add: call_ok_def ok_segment_def plain_segment_def sample_codecs_def)
  then show ?thesis
    using typed_paths_read_back [of "\<lparr>sv_client = sample_rest_client, sv_ns = ''shop''\<rparr>"
        "\<lparr>cf_client = sample_rest_client, cf_ns = ''shop''\<rparr>" sample_codecs
        "PatchCall ''web'' ''application/json-patch+json'' ''[]'' [''status'']" sample_codecs "ListCall all_options" "\<lambda>_. []"]
    by (simp add: sample_plain services_rest.accepted configurations_rest.accepted
      del: services_request.simps configurations_request.simps)
qed

text \<open>C37: a request is sent at least once and at most ten times. It is sent again only after an answer that
  says when to come back, or for a GET after a reset of the connection; the answers are those the
  transport gives one after the other, the last is the result, and after the tenth there is no further
  attempt.\<close>

theorem request_attempts_bounded:
  assumes "send_loop (logged send) req 0 ([], w) = (ans, (log, w'))"
  shows "1 \<le> length log \<and> length log \<le> 10 \<and>
    list_all (asks_again req) (butlast log) \<and> ans = final_answer req (last log) \<and>
    (asks_again req (last log) \<longrightarrow> length log = 10) \<and> send_loop send req 0 w = (ans, w')"
  using send_loop_logged [OF _ assms] by (cases log) (auto simp: maxRetries_def)

theorem request_attempts_bounded_witness:
  "let req = http_NewRequest (\<lambda>_. []) (RESTClient_Get sample_rest_client);
       busy = (\<lambda>q n. (Inl (ConnectionReset ''reset''), Suc n));
       (ans, log, n) = send_loop (logged busy) req 0 ([], 0)
   in ans = Inr retry_response \<and> length log = 10"
proof -
  let ?req = "http_NewRequest (\<lambda>_. []) (RESTClient_Get sample_rest_client)"
  let ?busy = "\<lambda>q n. (Inl (ConnectionReset ''reset''), Suc n)"
  have get: "hr_Method ?req = ''GET''"
    by (simp add: http_NewRequest_def request_URL_def Let_def verbs request_fresh)
  obtain ans log n where r: "send_loop (logged ?busy) ?req 0 ([], 0) = (ans, log, n)"
    by (metis prod_cases3)
  have again: "asks_again ?req (Inl (ConnectionReset ''reset''))" by (simp add: asks_again_def get)
  have logged: "logged ?busy q s = (Inl (ConnectionReset ''reset''), fst s @ [Inl (ConnectionReset ''reset'')], Suc (snd s))" for q s
    by (simp add: logged_def)
  have "length log = 10 \<and> last log = Inl (ConnectionReset ''reset'')"
    using r by (simp add: send_loop_step [where send = "logged ?busy", OF logged] again maxRetries_def) auto
  then show ?thesis
    using request_attempts_bounded [OF r] again by (simp add: r final_answer_def)
qed

end
