(* ===== verification/Clientset.thy ===== *)
theory Clientset
  imports Schemes TypedClientsLaws Complex_Main
begin

text \<open>
  Making the clients: the configuration of the REST client
  (\<open>vendor/k8s.io/client-go/rest/config.go\<close>, \<open>url_utils.go\<close>, \<open>client.go\<close>,
  \<open>discovery/discovery_client.go\<close>) and the generated constructors
  (\<open>typed/mesh/v1alpha1/mesh_client.go\<close>, \<open>clientset.go\<close>). Proved are the outcomes
  of the constructors: when they fail, where their clients send requests, and which rate limiters
  they share.
\<close>

section \<open>Configurations of the REST client\<close>

text \<open>
  \<open>rest.Config\<close>: what the constructors read. \<open>cfg_TLS\<close> says whether certificates or the insecure flag
  are given; \<open>'t\<close> is everything the transport is made of. Rate limiters are numbers into the list of
  those made so far, each with its rate and burst.
\<close>

datatype negotiated_serializer = DirectCodecs "GroupVersionKind list" | DiscoverySerializer | OtherSerializer string

record 't rest_config =
  cfg_Host :: string
  cfg_APIPath :: string
  cfg_AcceptContentTypes :: string
  cfg_ContentType :: string
  cfg_GroupVersion :: "GroupVersion option"
  cfg_NegotiatedSerializer :: "negotiated_serializer option"
  cfg_TLS :: bool
  cfg_UserAgent :: string
  cfg_QPS :: rat
  cfg_Burst :: int
  cfg_RateLimiter :: "nat option"
  cfg_Timeout :: int
  cfg_Transport :: 't

type_synonym limiters = "(rat \<times> int) list"

definition NewTokenBucketRateLimiter :: "rat \<Rightarrow> int \<Rightarrow> limiters \<Rightarrow> nat \<times> limiters" where
  "NewTokenBucketRateLimiter qps burst ls = (length ls, ls @ [(qps, burst)])"

text \<open>
  The libraries below: \<open>url.Parse\<close>; \<open>TransportFor\<close>, which says whether the transport is the default one;
  the serializers of a content type, or the error; and the program's default user agent.
\<close>

record parsed_url =
  pu_Scheme :: string
  pu_Host :: string
  pu_Path :: string

record 't config_library =
  cl_Parse :: "string \<Rightarrow> string + parsed_url"
  cl_TransportFor :: "'t \<Rightarrow> string \<Rightarrow> string + bool"
  cl_createSerializers :: "negotiated_serializer \<Rightarrow> string \<Rightarrow> string option"
  cl_UserAgent :: string

datatype config_error =
    GroupVersionRequired
  | SerializerRequired
  | HostRequired
  | HostNotURL string
  | ParseFailed string
  | TransportFailed string
  | SerializersFailed string

definition DefaultVersionedAPIPath :: "string \<Rightarrow> GroupVersion \<Rightarrow> string" where
  "DefaultVersionedAPIPath apiPath groupVersion =
     (let versionedAPIPath = path_Join [''/'', apiPath]
      in if gv_Group groupVersion \<noteq> []
         then path_Join [versionedAPIPath, gv_Group groupVersion, gv_Version groupVersion]
         else path_Join [versionedAPIPath, gv_Version groupVersion])"

definition DefaultServerURL :: "'t config_library \<Rightarrow> string \<Rightarrow> string \<Rightarrow> GroupVersion \<Rightarrow> bool \<Rightarrow>
    config_error + parsed_url \<times> string" where
  "DefaultServerURL lib host apiPath groupVersion defaultTLS =
     (if host = [] then Inl HostRequired
      else
        (let versionedAPIPath = DefaultVersionedAPIPath apiPath groupVersion;
             again = (let scheme = (if defaultTLS then ''https://'' else ''http://'')
                      in case cl_Parse lib (scheme @ host) of
                           Inl err \<Rightarrow> Inl (ParseFailed err)
                         | Inr hostURL \<Rightarrow>
                             if pu_Path hostURL \<noteq> [] \<and> pu_Path hostURL \<noteq> ''/'' then Inl (HostNotURL host)
                             else Inr (hostURL, versionedAPIPath))
         in case cl_Parse lib host of
              Inl _ \<Rightarrow> again
            | Inr hostURL \<Rightarrow>
                if pu_Scheme hostURL = [] \<or> pu_Host hostURL = [] then again
                else Inr (hostURL, versionedAPIPath)))"

definition defaultServerUrlFor :: "'t config_library \<Rightarrow> 't rest_config \<Rightarrow> config_error + parsed_url \<times> string" where
  "defaultServerUrlFor lib config =
     (let defaultTLS = cfg_TLS config;
          host = (if cfg_Host config = [] then ''localhost'' else cfg_Host config)
      in case cfg_GroupVersion config of
           Some gv \<Rightarrow> DefaultServerURL lib host (cfg_APIPath config) gv defaultTLS
         | None \<Rightarrow> DefaultServerURL lib host (cfg_APIPath config) \<lparr>gv_Group = [], gv_Version = []\<rparr> defaultTLS)"

definition NewRESTClient :: "'t config_library \<Rightarrow> parsed_url \<Rightarrow> string \<Rightarrow> 't rest_config \<Rightarrow> GroupVersion option \<Rightarrow>
    negotiated_serializer \<Rightarrow> rat \<Rightarrow> int \<Rightarrow> nat option \<Rightarrow> int \<Rightarrow> limiters \<Rightarrow>
    (config_error + RESTClient) \<times> limiters" where
  "NewRESTClient lib baseURL versionedAPIPath config groupVersion serializer maxQPS maxBurst rateLimiter timeout ls =
     (let base = \<lparr>bu_Host = pu_Scheme baseURL @ ''://'' @ pu_Host baseURL,
            bu_Path = (if pu_Path baseURL \<noteq> [] \<and> last (pu_Path baseURL) = CHR ''/'' then pu_Path baseURL
                       else pu_Path baseURL @ ''/'')\<rparr>;
          gv = (case groupVersion of None \<Rightarrow> \<lparr>gv_Group = [], gv_Version = []\<rparr> | Some gv \<Rightarrow> gv);
          contentType = (if cfg_ContentType config = [] then ''application/json'' else cfg_ContentType config)
      in case cl_createSerializers lib serializer contentType of
           Some err \<Rightarrow> (Inl (SerializersFailed err), ls)
         | None \<Rightarrow>
             (let (throttle, ls) =
                    (if maxQPS > 0 \<and> rateLimiter = None
                     then apfst Some (NewTokenBucketRateLimiter maxQPS maxBurst ls)
                     else (rateLimiter, ls))
              in (Inr \<lparr>rc_base = base, rc_versionedAPIPath = versionedAPIPath,
                       rc_contentConfig = \<lparr>cg_AcceptContentTypes = cfg_AcceptContentTypes config,
                         cg_ContentType = contentType, cg_GroupVersion = gv\<rparr>,
                       rc_Throttle = throttle, rc_Timeout = timeout\<rparr>, ls)))"

definition DefaultQPS :: rat where
  "DefaultQPS = 5"

definition DefaultBurst :: int where
  "DefaultBurst = 10"

text \<open>The time limit of the HTTP client, if there is one of its own.\<close>

definition client_timeout :: "'t rest_config \<Rightarrow> bool \<Rightarrow> int" where
  "client_timeout config default_transport =
     (if default_transport then 0 else if cfg_Timeout config > 0 then cfg_Timeout config else 0)"

definition RESTClientFor :: "'t config_library \<Rightarrow> 't rest_config \<Rightarrow> limiters \<Rightarrow>
    (config_error + RESTClient) \<times> limiters" where
  "RESTClientFor lib config ls =
     (case (cfg_GroupVersion config, cfg_NegotiatedSerializer config) of
        (None, _) \<Rightarrow> (Inl GroupVersionRequired, ls)
      | (Some _, None) \<Rightarrow> (Inl SerializerRequired, ls)
      | (Some gv, Some serializer) \<Rightarrow>
          (let qps = (if cfg_QPS config = 0 then DefaultQPS else cfg_QPS config);
               burst = (if cfg_Burst config = 0 then DefaultBurst else cfg_Burst config)
           in case defaultServerUrlFor lib config of
                Inl err \<Rightarrow> (Inl err, ls)
              | Inr (baseURL, versionedAPIPath) \<Rightarrow>
                  (case cl_TransportFor lib (cfg_Transport config) (cfg_UserAgent config) of
                     Inl err \<Rightarrow> (Inl (TransportFailed err), ls)
                   | Inr default_transport \<Rightarrow>
                       NewRESTClient lib baseURL versionedAPIPath config (Some gv) serializer qps burst
                         (cfg_RateLimiter config) (client_timeout config default_transport) ls)))"

definition UnversionedRESTClientFor :: "'t config_library \<Rightarrow> 't rest_config \<Rightarrow> limiters \<Rightarrow>
    (config_error + RESTClient) \<times> limiters" where
  "UnversionedRESTClientFor lib config ls =
     (case cfg_NegotiatedSerializer config of
        None \<Rightarrow> (Inl SerializerRequired, ls)
      | Some serializer \<Rightarrow>
          (case defaultServerUrlFor lib config of
             Inl err \<Rightarrow> (Inl err, ls)
           | Inr (baseURL, versionedAPIPath) \<Rightarrow>
               (case cl_TransportFor lib (cfg_Transport config) (cfg_UserAgent config) of
                  Inl err \<Rightarrow> (Inl (TransportFailed err), ls)
                | Inr default_transport \<Rightarrow>
                    (let gv = (case cfg_GroupVersion config of
                                 None \<Rightarrow> \<lparr>gv_Group = [], gv_Version = ''v1''\<rparr> | Some gv \<Rightarrow> gv)
                     in NewRESTClient lib baseURL versionedAPIPath config (Some gv) serializer
                          (cfg_QPS config) (cfg_Burst config) (cfg_RateLimiter config)
                          (client_timeout config default_transport) ls))))"

section \<open>The constructors\<close>

definition setConfigDefaults :: "'t config_library \<Rightarrow> 't rest_config \<Rightarrow> 't rest_config" where
  "setConfigDefaults lib config =
     (let config = config\<lparr>cfg_GroupVersion := Some SchemeGroupVersion, cfg_APIPath := ''/apis'',
            cfg_NegotiatedSerializer := Some (DirectCodecs scheme_init)\<rparr>
      in if cfg_UserAgent config = [] then config\<lparr>cfg_UserAgent := cl_UserAgent lib\<rparr> else config)"

definition mesh_NewForConfig :: "'t config_library \<Rightarrow> 't rest_config \<Rightarrow> limiters \<Rightarrow>
    (config_error + MeshV1alpha1Client) \<times> limiters" where
  "mesh_NewForConfig lib c ls =
     (case RESTClientFor lib (setConfigDefaults lib c) ls of
        (Inl err, ls) \<Rightarrow> (Inl err, ls)
      | (Inr client, ls) \<Rightarrow> (Inr \<lparr>mv_restClient = client\<rparr>, ls))"

text \<open>No value: the constructor panicked.\<close>

definition mesh_NewForConfigOrDie :: "'t config_library \<Rightarrow> 't rest_config \<Rightarrow> limiters \<Rightarrow>
    MeshV1alpha1Client option \<times> limiters" where
  "mesh_NewForConfigOrDie lib c ls =
     (case mesh_NewForConfig lib c ls of (Inl err, ls) \<Rightarrow> (None, ls) | (Inr client, ls) \<Rightarrow> (Some client, ls))"

record DiscoveryClient =
  dc_restClient :: RESTClient
  dc_LegacyPrefix :: string

text \<open>Durations are in seconds.\<close>

definition setDiscoveryDefaults :: "'t config_library \<Rightarrow> 't rest_config \<Rightarrow> 't rest_config" where
  "setDiscoveryDefaults lib config =
     (let config = config\<lparr>cfg_APIPath := [], cfg_GroupVersion := None\<rparr>;
          config = (if cfg_Timeout config = 0 then config\<lparr>cfg_Timeout := 32\<rparr> else config);
          config = config\<lparr>cfg_NegotiatedSerializer := Some DiscoverySerializer\<rparr>
      in if cfg_UserAgent config = [] then config\<lparr>cfg_UserAgent := cl_UserAgent lib\<rparr> else config)"

definition NewDiscoveryClientForConfig :: "'t config_library \<Rightarrow> 't rest_config \<Rightarrow> limiters \<Rightarrow>
    (config_error + DiscoveryClient) \<times> limiters" where
  "NewDiscoveryClientForConfig lib c ls =
     (case UnversionedRESTClientFor lib (setDiscoveryDefaults lib c) ls of
        (Inl err, ls) \<Rightarrow> (Inl err, ls)
      | (Inr client, ls) \<Rightarrow> (Inr \<lparr>dc_restClient = client, dc_LegacyPrefix = ''/api''\<rparr>, ls))"

definition NewDiscoveryClientForConfigOrDie :: "'t config_library \<Rightarrow> 't rest_config \<Rightarrow> limiters \<Rightarrow>
    DiscoveryClient option \<times> limiters" where
  "NewDiscoveryClientForConfigOrDie lib c ls =
     (case NewDiscoveryClientForConfig lib c ls of (Inl err, ls) \<Rightarrow> (None, ls) | (Inr client, ls) \<Rightarrow> (Some client, ls))"

record Clientset =
  cs_DiscoveryClient :: DiscoveryClient
  cs_meshV1alpha1 :: MeshV1alpha1Client

definition Clientset_MeshV1alpha1 :: "Clientset \<Rightarrow> MeshV1alpha1Client" where
  "Clientset_MeshV1alpha1 c = cs_meshV1alpha1 c"

definition Clientset_Mesh :: "Clientset \<Rightarrow> MeshV1alpha1Client" where
  "Clientset_Mesh c = cs_meshV1alpha1 c"

definition Clientset_Discovery :: "Clientset option \<Rightarrow> DiscoveryClient option" where
  "Clientset_Discovery c = (case c of None \<Rightarrow> None | Some c \<Rightarrow> Some (cs_DiscoveryClient c))"

definition NewForConfig :: "'t config_library \<Rightarrow> 't rest_config \<Rightarrow> limiters \<Rightarrow>
    (config_error + Clientset) \<times> limiters" where
  "NewForConfig lib c ls =
     (let (configShallowCopy, ls) =
            (if cfg_RateLimiter c = None \<and> cfg_QPS c > 0
             then (let (l, ls) = NewTokenBucketRateLimiter (cfg_QPS c) (cfg_Burst c) ls
                   in (c\<lparr>cfg_RateLimiter := Some l\<rparr>, ls))
             else (c, ls))
      in case mesh_NewForConfig lib configShallowCopy ls of
           (Inl err, ls) \<Rightarrow> (Inl err, ls)
         | (Inr mesh, ls) \<Rightarrow>
             (case NewDiscoveryClientForConfig lib configShallowCopy ls of
                (Inl err, ls) \<Rightarrow> (Inl err, ls)
              | (Inr discovery, ls) \<Rightarrow>
                  (Inr \<lparr>cs_DiscoveryClient = discovery, cs_meshV1alpha1 = mesh\<rparr>, ls)))"

definition NewForConfigOrDie :: "'t config_library \<Rightarrow> 't rest_config \<Rightarrow> limiters \<Rightarrow> Clientset option \<times> limiters" where
  "NewForConfigOrDie lib c ls =
     (case mesh_NewForConfigOrDie lib c ls of
        (None, ls) \<Rightarrow> (None, ls)
      | (Some mesh, ls) \<Rightarrow>
          (case NewDiscoveryClientForConfigOrDie lib c ls of
             (None, ls) \<Rightarrow> (None, ls)
           | (Some discovery, ls) \<Rightarrow>
               (Some \<lparr>cs_DiscoveryClient = discovery, cs_meshV1alpha1 = mesh\<rparr>, ls)))"

definition Clientset_New :: "RESTClient \<Rightarrow> Clientset" where
  "Clientset_New c =
     \<lparr>cs_DiscoveryClient = \<lparr>dc_restClient = c, dc_LegacyPrefix = ''/api''\<rparr>, cs_meshV1alpha1 = Mesh_New c\<rparr>"

section \<open>What the constructors give\<close>

text \<open>
  The part of a constructor that can fail does not look at the rate limits: where a client connects
  to, or the error. What remains is to make the client and its limiter.
\<close>

definition connects :: "'t config_library \<Rightarrow> 't rest_config \<Rightarrow> negotiated_serializer \<Rightarrow>
    config_error + parsed_url \<times> string \<times> bool" where
  "connects lib config serializer =
     (case defaultServerUrlFor lib config of
        Inl err \<Rightarrow> Inl err
      | Inr (baseURL, versionedAPIPath) \<Rightarrow>
          (case cl_TransportFor lib (cfg_Transport config) (cfg_UserAgent config) of
             Inl err \<Rightarrow> Inl (TransportFailed err)
           | Inr default_transport \<Rightarrow>
               (case cl_createSerializers lib serializer
                       (if cfg_ContentType config = [] then ''application/json'' else cfg_ContentType config) of
                  Some err \<Rightarrow> Inl (SerializersFailed err)
                | None \<Rightarrow> Inr (baseURL, versionedAPIPath, default_transport))))"

definition limiter_for :: "rat \<Rightarrow> int \<Rightarrow> nat option \<Rightarrow> limiters \<Rightarrow> nat option \<times> limiters" where
  "limiter_for qps burst rl ls =
     (if qps > 0 \<and> rl = None then (Some (length ls), ls @ [(qps, burst)]) else (rl, ls))"

definition rest_client :: "'t rest_config \<Rightarrow> GroupVersion \<Rightarrow> parsed_url \<times> string \<times> bool \<Rightarrow> nat option \<Rightarrow> RESTClient" where
  "rest_client config gv connection throttle =
     (case connection of
        (baseURL, versionedAPIPath, default_transport) \<Rightarrow>
          \<lparr>rc_base = \<lparr>bu_Host = pu_Scheme baseURL @ ''://'' @ pu_Host baseURL,
             bu_Path = (if pu_Path baseURL \<noteq> [] \<and> last (pu_Path baseURL) = CHR ''/'' then pu_Path baseURL
                        else pu_Path baseURL @ ''/'')\<rparr>,
           rc_versionedAPIPath = versionedAPIPath,
           rc_contentConfig = \<lparr>cg_AcceptContentTypes = cfg_AcceptContentTypes config,
             cg_ContentType = (if cfg_ContentType config = [] then ''application/json'' else cfg_ContentType config),
             cg_GroupVersion = gv\<rparr>,
           rc_Throttle = throttle, rc_Timeout = client_timeout config default_transport\<rparr>)"

lemma NewRESTClient_eq:
  "NewRESTClient lib baseURL path config (Some gv) serializer qps burst rl (client_timeout config dt) ls =
    (case cl_createSerializers lib serializer
            (if cfg_ContentType config = [] then ''application/json'' else cfg_ContentType config) of
       Some err \<Rightarrow> (Inl (SerializersFailed err), ls)
     | None \<Rightarrow>
         (case limiter_for qps burst rl ls of
            (throttle, ls) \<Rightarrow> (Inr (rest_client config gv (baseURL, path, dt) throttle), ls)))"
  by (cases "qps > 0 \<and> rl = None")
    (simp_all only: NewRESTClient_def limiter_for_def NewTokenBucketRateLimiter_def Let_def rest_client_def
      if_True if_False apfst_conv prod.case option.case)

lemma connects_cases:
  "(case connects lib config serializer of Inl err \<Rightarrow> (Inl err, ls) | Inr connection \<Rightarrow> f connection) =
    (case defaultServerUrlFor lib config of
       Inl err \<Rightarrow> (Inl err, ls)
     | Inr (baseURL, versionedAPIPath) \<Rightarrow>
         (case cl_TransportFor lib (cfg_Transport config) (cfg_UserAgent config) of
            Inl err \<Rightarrow> (Inl (TransportFailed err), ls)
          | Inr default_transport \<Rightarrow>
              (case cl_createSerializers lib serializer
                      (if cfg_ContentType config = [] then ''application/json'' else cfg_ContentType config) of
                 Some err \<Rightarrow> (Inl (SerializersFailed err), ls)
               | None \<Rightarrow> f (baseURL, versionedAPIPath, default_transport))))"
  by (cases "defaultServerUrlFor lib config"; cases "cl_TransportFor lib (cfg_Transport config) (cfg_UserAgent config)")
    (auto simp: connects_def split: option.split)

lemma RESTClientFor_connects:
  assumes "cfg_GroupVersion config = Some gv" "cfg_NegotiatedSerializer config = Some serializer"
  shows "RESTClientFor lib config ls =
    (case connects lib config serializer of
       Inl err \<Rightarrow> (Inl err, ls)
     | Inr connection \<Rightarrow>
         (case limiter_for (if cfg_QPS config = 0 then DefaultQPS else cfg_QPS config)
                 (if cfg_Burst config = 0 then DefaultBurst else cfg_Burst config) (cfg_RateLimiter config) ls of
            (throttle, ls) \<Rightarrow> (Inr (rest_client config gv connection throttle), ls)))"
  unfolding connects_cases
  by (simp only: RESTClientFor_def assms NewRESTClient_eq Let_def prod.case option.case)

lemma UnversionedRESTClientFor_connects:
  assumes "cfg_GroupVersion config = None" "cfg_NegotiatedSerializer config = Some serializer"
  shows "UnversionedRESTClientFor lib config ls =
    (case connects lib config serializer of
       Inl err \<Rightarrow> (Inl err, ls)
     | Inr connection \<Rightarrow>
         (case limiter_for (cfg_QPS config) (cfg_Burst config) (cfg_RateLimiter config) ls of
            (throttle, ls) \<Rightarrow>
              (Inr (rest_client config \<lparr>gv_Group = [], gv_Version = ''v1''\<rparr> connection throttle), ls)))"
  unfolding connects_cases
  by (simp only: UnversionedRESTClientFor_def assms NewRESTClient_eq Let_def prod.case option.case)

definition mesh_connects :: "'t config_library \<Rightarrow> 't rest_config \<Rightarrow> config_error + parsed_url \<times> string \<times> bool" where
  "mesh_connects lib c = connects lib (setConfigDefaults lib c) (DirectCodecs scheme_init)"

definition discovery_connects :: "'t config_library \<Rightarrow> 't rest_config \<Rightarrow> config_error + parsed_url \<times> string \<times> bool" where
  "discovery_connects lib c = connects lib (setDiscoveryDefaults lib c) DiscoverySerializer"

lemma defaults_fields [simp]:
  "cfg_GroupVersion (setConfigDefaults lib c) = Some SchemeGroupVersion"
  "cfg_NegotiatedSerializer (setConfigDefaults lib c) = Some (DirectCodecs scheme_init)"
  "cfg_QPS (setConfigDefaults lib c) = cfg_QPS c" "cfg_Burst (setConfigDefaults lib c) = cfg_Burst c"
  "cfg_RateLimiter (setConfigDefaults lib c) = cfg_RateLimiter c"
  "cfg_GroupVersion (setDiscoveryDefaults lib c) = None"
  "cfg_NegotiatedSerializer (setDiscoveryDefaults lib c) = Some DiscoverySerializer"
  "cfg_QPS (setDiscoveryDefaults lib c) = cfg_QPS c" "cfg_Burst (setDiscoveryDefaults lib c) = cfg_Burst c"
  "cfg_RateLimiter (setDiscoveryDefaults lib c) = cfg_RateLimiter c"
  by (simp_all add: setConfigDefaults_def setDiscoveryDefaults_def Let_def)

lemma defaults_limiter:
  "setConfigDefaults lib (c\<lparr>cfg_RateLimiter := l\<rparr>) = (setConfigDefaults lib c)\<lparr>cfg_RateLimiter := l\<rparr>"
  "setDiscoveryDefaults lib (c\<lparr>cfg_RateLimiter := l\<rparr>) = (setDiscoveryDefaults lib c)\<lparr>cfg_RateLimiter := l\<rparr>"
  by (cases c; simp add: setConfigDefaults_def setDiscoveryDefaults_def Let_def)+

lemma connects_limiter [simp]:
  "connects lib (c\<lparr>cfg_RateLimiter := l\<rparr>) s = connects lib c s"
  "mesh_connects lib (c\<lparr>cfg_RateLimiter := l\<rparr>) = mesh_connects lib c"
  "discovery_connects lib (c\<lparr>cfg_RateLimiter := l\<rparr>) = discovery_connects lib c"
proof -
  show c: "connects lib (c\<lparr>cfg_RateLimiter := l\<rparr>) s = connects lib c s" for c :: "'a rest_config" and s
    by (simp add: connects_def defaultServerUrlFor_def Let_def cong: option.case_cong sum.case_cong prod.case_cong)
  show "mesh_connects lib (c\<lparr>cfg_RateLimiter := l\<rparr>) = mesh_connects lib c"
    "discovery_connects lib (c\<lparr>cfg_RateLimiter := l\<rparr>) = discovery_connects lib c"
    by (simp_all add: mesh_connects_def discovery_connects_def defaults_limiter c)
qed

lemma mesh_NewForConfig_eq:
  "mesh_NewForConfig lib c ls =
    (case mesh_connects lib c of
       Inl err \<Rightarrow> (Inl err, ls)
     | Inr connection \<Rightarrow>
         (case limiter_for (if cfg_QPS c = 0 then DefaultQPS else cfg_QPS c)
                 (if cfg_Burst c = 0 then DefaultBurst else cfg_Burst c) (cfg_RateLimiter c) ls of
            (throttle, ls) \<Rightarrow>
              (Inr (Mesh_New (rest_client (setConfigDefaults lib c) SchemeGroupVersion connection throttle)), ls)))"
  by (simp add: mesh_NewForConfig_def mesh_connects_def RESTClientFor_connects Mesh_New_def
      split: sum.split prod.split)

lemma NewDiscoveryClientForConfig_eq:
  "NewDiscoveryClientForConfig lib c ls =
    (case discovery_connects lib c of
       Inl err \<Rightarrow> (Inl err, ls)
     | Inr connection \<Rightarrow>
         (case limiter_for (cfg_QPS c) (cfg_Burst c) (cfg_RateLimiter c) ls of
            (throttle, ls) \<Rightarrow>
              (Inr \<lparr>dc_restClient = rest_client (setDiscoveryDefaults lib c) \<lparr>gv_Group = [], gv_Version = ''v1''\<rparr>
                      connection throttle, dc_LegacyPrefix = ''/api''\<rparr>, ls)))"
  by (simp add: NewDiscoveryClientForConfig_def discovery_connects_def UnversionedRESTClientFor_connects
      split: sum.split prod.split)

definition clientset_throttles :: "Clientset \<Rightarrow> nat option \<times> nat option" where
  "clientset_throttles cs =
     (rc_Throttle (mv_restClient (cs_meshV1alpha1 cs)), rc_Throttle (dc_restClient (cs_DiscoveryClient cs)))"

lemma rest_client_fields [simp]:
  "rc_Throttle (rest_client config gv connection throttle) = throttle"
  "rc_versionedAPIPath (rest_client config gv connection throttle) = fst (snd connection)"
  by (simp_all add: rest_client_def split: prod.split)

lemma DefaultServerURL_path:
  "DefaultServerURL lib host apiPath gv tls = Inr (u, p) \<Longrightarrow> p = DefaultVersionedAPIPath apiPath gv"
  by (simp add: DefaultServerURL_def Let_def split: sum.splits if_splits)

lemma mesh_versioned_path: "DefaultVersionedAPIPath ''/apis'' SchemeGroupVersion = ''/apis/mesh.lite.io/v1alpha1''"
  by (simp add: DefaultVersionedAPIPath_def path_Join_def path_Clean_def clean_step_def SchemeGroupVersion_def GroupName_def)

lemma mesh_path:
  assumes "mesh_connects lib c = Inr (u, p, d)"
  shows "p = ''/apis/mesh.lite.io/v1alpha1''"
proof -
  have "cfg_APIPath (setConfigDefaults lib c) = ''/apis''" by (simp add: setConfigDefaults_def Let_def)
  moreover have "defaultServerUrlFor lib (setConfigDefaults lib c) = Inr (u, p)"
    using assms by (simp add: mesh_connects_def connects_def split: sum.splits prod.splits option.splits)
  ultimately have "\<exists>host. DefaultServerURL lib host ''/apis'' SchemeGroupVersion (cfg_TLS (setConfigDefaults lib c)) = Inr (u, p)"
    by (simp add: defaultServerUrlFor_def Let_def) blast
  then show ?thesis using DefaultServerURL_path mesh_versioned_path by metis
qed

text \<open>Both constructors make the two clients one after the other, on configurations that differ in the
  limiter only.\<close>

definition both_clients :: "'t config_library \<Rightarrow> 't rest_config \<Rightarrow> limiters \<Rightarrow> (config_error + Clientset) \<times> limiters" where
  "both_clients lib c ls =
     (case mesh_NewForConfig lib c ls of
        (Inl err, ls) \<Rightarrow> (Inl err, ls)
      | (Inr mesh, ls) \<Rightarrow>
          (case NewDiscoveryClientForConfig lib c ls of
             (Inl err, ls) \<Rightarrow> (Inl err, ls)
           | (Inr discovery, ls) \<Rightarrow> (Inr \<lparr>cs_DiscoveryClient = discovery, cs_meshV1alpha1 = mesh\<rparr>, ls)))"

lemma NewForConfig_both:
  "NewForConfig lib c ls =
    (if cfg_RateLimiter c = None \<and> cfg_QPS c > 0
     then both_clients lib (c\<lparr>cfg_RateLimiter := Some (length ls)\<rparr>) (ls @ [(cfg_QPS c, cfg_Burst c)])
     else both_clients lib c ls)"
  by (simp add: NewForConfig_def both_clients_def NewTokenBucketRateLimiter_def)

lemma NewForConfigOrDie_both:
  "NewForConfigOrDie lib c ls = apfst (\<lambda>r. case r of Inl _ \<Rightarrow> None | Inr cs \<Rightarrow> Some cs) (both_clients lib c ls)"
  by (auto simp: NewForConfigOrDie_def both_clients_def mesh_NewForConfigOrDie_def
      NewDiscoveryClientForConfigOrDie_def split: prod.split sum.split)

lemma both_clients_fails: "is_ok (fst (both_clients lib c ls)) \<longleftrightarrow> is_ok (mesh_connects lib c) \<and> is_ok (discovery_connects lib c)"
  by (cases "mesh_connects lib c"; cases "discovery_connects lib c")
    (simp_all add: both_clients_def mesh_NewForConfig_eq NewDiscoveryClientForConfig_eq split: prod.split)

lemma both_clients_limits:
  assumes "both_clients lib c ls = (Inr cs, ls')"
    and "limiter_for (if cfg_QPS c = 0 then DefaultQPS else cfg_QPS c)
        (if cfg_Burst c = 0 then DefaultBurst else cfg_Burst c) (cfg_RateLimiter c) ls = (t1, ls1)"
    and "limiter_for (cfg_QPS c) (cfg_Burst c) (cfg_RateLimiter c) ls1 = (t2, ls2)"
  shows "clientset_throttles cs = (t1, t2)" "ls' = ls2"
    "rc_versionedAPIPath (mv_restClient (cs_meshV1alpha1 cs)) = ''/apis/mesh.lite.io/v1alpha1''"
proof -
  have "is_ok (fst (both_clients lib c ls))" by (simp add: assms(1))
  then obtain x y where xy: "mesh_connects lib c = Inr x" "discovery_connects lib c = Inr y"
    unfolding both_clients_fails by (metis is_ok_iff)
  have "mesh_NewForConfig lib c ls =
      (Inr (Mesh_New (rest_client (setConfigDefaults lib c) SchemeGroupVersion x t1)), ls1)"
    by (simp add: mesh_NewForConfig_eq xy assms(2))
  moreover have "NewDiscoveryClientForConfig lib c ls1 =
      (Inr \<lparr>dc_restClient = rest_client (setDiscoveryDefaults lib c) \<lparr>gv_Group = [], gv_Version = ''v1''\<rparr> y t2,
            dc_LegacyPrefix = ''/api''\<rparr>, ls2)"
    by (simp add: NewDiscoveryClientForConfig_eq xy assms(3))
  ultimately show "clientset_throttles cs = (t1, t2)" "ls' = ls2"
    "rc_versionedAPIPath (mv_restClient (cs_meshV1alpha1 cs)) = ''/apis/mesh.lite.io/v1alpha1''"
    using assms(1) mesh_path [of lib c] xy(1)
    by (auto simp: both_clients_def clientset_throttles_def Mesh_New_def) (cases x; simp)
qed

text \<open>The limiters of the two clients, as they are made one after the other.\<close>

definition made_limits :: "'t rest_config \<Rightarrow> limiters \<Rightarrow> (nat option \<times> nat option) \<times> limiters" where
  "made_limits c ls =
     (let n = length ls; b = (if cfg_Burst c = 0 then 10 else cfg_Burst c)
      in case cfg_RateLimiter c of
           Some l \<Rightarrow> ((Some l, Some l), ls)
         | None \<Rightarrow>
             if cfg_QPS c > 0 then ((Some n, Some (Suc n)), ls @ [(cfg_QPS c, b), (cfg_QPS c, cfg_Burst c)])
             else if cfg_QPS c = 0 then ((Some n, None), ls @ [(5, b)])
             else ((None, None), ls))"

text \<open>And as they are shared.\<close>

definition shared_limits :: "'t rest_config \<Rightarrow> limiters \<Rightarrow> (nat option \<times> nat option) \<times> limiters" where
  "shared_limits c ls =
     (if cfg_RateLimiter c = None \<and> cfg_QPS c > 0
      then ((Some (length ls), Some (length ls)), ls @ [(cfg_QPS c, cfg_Burst c)])
      else made_limits c ls)"

lemma both_clients_made:
  assumes "both_clients lib c ls = (Inr cs, ls')"
  shows "(clientset_throttles cs, ls') = made_limits c ls"
    "rc_versionedAPIPath (mv_restClient (cs_meshV1alpha1 cs)) = ''/apis/mesh.lite.io/v1alpha1''"
proof -
  obtain t1 ls1 where l1: "limiter_for (if cfg_QPS c = 0 then DefaultQPS else cfg_QPS c)
      (if cfg_Burst c = 0 then DefaultBurst else cfg_Burst c) (cfg_RateLimiter c) ls = (t1, ls1)" by force
  obtain t2 ls2 where l2: "limiter_for (cfg_QPS c) (cfg_Burst c) (cfg_RateLimiter c) ls1 = (t2, ls2)" by force
  note l = both_clients_limits [OF assms l1 l2]
  show "rc_versionedAPIPath (mv_restClient (cs_meshV1alpha1 cs)) = ''/apis/mesh.lite.io/v1alpha1''" by (fact l(3))
  show "(clientset_throttles cs, ls') = made_limits c ls"
    using l1 l2 unfolding l(1,2)
    by (cases "cfg_RateLimiter c"; cases "cfg_QPS c" "0 :: rat" rule: linorder_cases)
      (auto simp: made_limits_def limiter_for_def DefaultQPS_def DefaultBurst_def Let_def split: if_splits option.splits)
qed

text \<open>The clientset and its rate limits. \<open>NewForConfig\<close> gives an error exactly when
  \<open>NewForConfigOrDie\<close> panics, and that is when one of the two clients has nowhere to connect to. The mesh
  client goes to the group version's path. A limiter of the configuration is used by both clients; a
  configured rate makes one limiter that both share, where \<open>NewForConfigOrDie\<close> makes one for each; without
  a rate the mesh client gets the default of five requests per second and the discovery client is not
  limited. The shared limiter is made with the burst as it is configured, even when that is zero, which
  for the mesh client alone would mean ten.\<close>

theorem clientset_rate_limits:
  assumes "NewForConfig lib c ls = (r, ls1)" "NewForConfigOrDie lib c ls = (r', ls2)"
  shows "(is_ok r \<longleftrightarrow> is_ok (mesh_connects lib c) \<and> is_ok (discovery_connects lib c)) \<and> (r' = None \<longleftrightarrow> \<not> is_ok r) \<and>
    (r = Inr cs \<longrightarrow> (clientset_throttles cs, ls1) = shared_limits c ls \<and>
       rc_versionedAPIPath (mv_restClient (cs_meshV1alpha1 cs)) = ''/apis/mesh.lite.io/v1alpha1'') \<and>
    (r' = Some cs' \<longrightarrow> (clientset_throttles cs', ls2) = made_limits c ls \<and>
       rc_versionedAPIPath (mv_restClient (cs_meshV1alpha1 cs')) = ''/apis/mesh.lite.io/v1alpha1'')"
proof (intro conjI impI)
  let ?c = "c\<lparr>cfg_RateLimiter := Some (length ls)\<rparr>" and ?ls = "ls @ [(cfg_QPS c, cfg_Burst c)]"
  have ok: "is_ok r \<longleftrightarrow> is_ok (fst (both_clients lib c ls))"
    using assms(1) both_clients_fails [of lib c ls] both_clients_fails [of lib ?c ?ls]
    by (simp add: NewForConfig_both split: if_splits)
  then show "is_ok r \<longleftrightarrow> is_ok (mesh_connects lib c) \<and> is_ok (discovery_connects lib c)"
    by (simp add: both_clients_fails)
  have die: "r' = (case fst (both_clients lib c ls) of Inl _ \<Rightarrow> None | Inr cs \<Rightarrow> Some cs)" "ls2 = snd (both_clients lib c ls)"
    using assms(2) by (simp_all add: NewForConfigOrDie_both prod_eq_iff)
  show "r' = None \<longleftrightarrow> \<not> is_ok r" unfolding ok die by (simp add: is_ok_def split: sum.split)
  show "(clientset_throttles cs', ls2) = made_limits c ls"
    "rc_versionedAPIPath (mv_restClient (cs_meshV1alpha1 cs')) = ''/apis/mesh.lite.io/v1alpha1''" if "r' = Some cs'"
    using both_clients_made [of lib c ls cs' ls2] that die
    by (cases "both_clients lib c ls"; simp split: sum.splits)+
  show "(clientset_throttles cs, ls1) = shared_limits c ls"
    "rc_versionedAPIPath (mv_restClient (cs_meshV1alpha1 cs)) = ''/apis/mesh.lite.io/v1alpha1''" if "r = Inr cs"
    using both_clients_made [of lib c ls cs ls1] both_clients_made [of lib ?c ?ls cs ls1] that assms(1)
    by (cases "cfg_RateLimiter c = None \<and> cfg_QPS c > 0"; simp add: NewForConfig_both shared_limits_def;
      simp add: made_limits_def Let_def)+
qed

definition sample_config_library :: "unit config_library" where
  "sample_config_library =
     \<lparr>cl_Parse = (\<lambda>_. Inr \<lparr>pu_Scheme = ''https'', pu_Host = ''api'', pu_Path = []\<rparr>),
      cl_TransportFor = (\<lambda>_ _. Inr False), cl_createSerializers = (\<lambda>_ _. None), cl_UserAgent = ''controller''\<rparr>"

definition sample_config :: "unit rest_config" where
  "sample_config =
     \<lparr>cfg_Host = ''https://api'', cfg_APIPath = [], cfg_AcceptContentTypes = [], cfg_ContentType = [],
      cfg_GroupVersion = None, cfg_NegotiatedSerializer = None, cfg_TLS = True, cfg_UserAgent = [],
      cfg_QPS = 20, cfg_Burst = 0, cfg_RateLimiter = None, cfg_Timeout = 0, cfg_Transport = ()\<rparr>"

lemma sample_config_connects:
  "is_ok (mesh_connects sample_config_library sample_config)"
  "is_ok (discovery_connects sample_config_library sample_config)"
  by (simp_all add: mesh_connects_def discovery_connects_def connects_def defaultServerUrlFor_def DefaultServerURL_def
      setConfigDefaults_def setDiscoveryDefaults_def sample_config_library_def sample_config_def Let_def)

theorem clientset_rate_limits_witness:
  "\<exists>cs cs'. NewForConfig sample_config_library sample_config [] = (Inr cs, [(20, 0)]) \<and>
     clientset_throttles cs = (Some 0, Some 0) \<and>
     NewForConfigOrDie sample_config_library sample_config [] = (Some cs', [(20, 10), (20, 0)]) \<and>
     clientset_throttles cs' = (Some 0, Some 1)"
proof -
  obtain r ls1 where r: "NewForConfig sample_config_library sample_config [] = (r, ls1)" by force
  obtain r' ls2 where r': "NewForConfigOrDie sample_config_library sample_config [] = (r', ls2)" by force
  note t = clientset_rate_limits [OF r r']
  from t sample_config_connects obtain cs cs' where cs: "r = Inr cs" "r' = Some cs'"
    by (metis is_ok_iff option.exhaust)
  from t [of cs cs'] have "(clientset_throttles cs, ls1) = ((Some 0, Some 0), [(20, 0)])"
    "(clientset_throttles cs', ls2) = ((Some 0, Some 1), [(20, 10), (20, 0)])"
    by (simp_all add: cs shared_limits_def made_limits_def sample_config_def)
  with r r' cs show ?thesis by simp
qed

end
