(* ===== verification/EnvoyMessages.thy ===== *)
theory EnvoyMessages
  imports MeshTypes
begin

text \<open>
  The Envoy messages that \<open>pkg/xds/server.go\<close> builds from the rules of a configuration:
  \<open>buildListeners\<close>, \<open>buildClusters\<close> and \<open>MessageToStruct\<close>. A message keeps the fields the program
  sets; every other field has its zero value. \<open>MessageToStruct\<close> prints a message as JSON and reads
  it back as a \<open>Struct\<close>; the model follows \<open>marshalObject\<close> of
  \<open>vendor/github.com/gogo/protobuf/jsonpb/jsonpb.go\<close> on the structure of the message, for strings
  of valid UTF-8, where the text in between loses nothing.
\<close>

section \<open>Messages and structs\<close>

datatype js = JStr string | JList "js list" | JObj "(string \<times> js) list"

type_synonym pb_struct = "(string \<times> js) list"

text \<open>
  A field has its original name and says whether it is a \<open>oneof\<close>. Its value: a string, a repeated
  field (a slice, possibly nil), an embedded message, a pointer that is nil, or a \<open>Struct\<close>.
\<close>

datatype pb =
    PString string
  | PRepeated "pb list option"
  | PMessage "(string \<times> bool \<times> pb) list"
  | PNil
  | PStruct pb_struct

text \<open>Whether the marshaler skips a field: nil interfaces always, and zero values outside a \<open>oneof\<close>.\<close>

fun omitted :: "bool \<Rightarrow> pb \<Rightarrow> bool" where
  "omitted is_oneof PNil = True"
| "omitted is_oneof (PString s) = (\<not> is_oneof \<and> s = [])"
| "omitted is_oneof (PRepeated None) = (\<not> is_oneof)"
| "omitted is_oneof v = False"

fun marshal :: "pb \<Rightarrow> js" where
  "marshal (PString s) = JStr s"
| "marshal (PRepeated None) = JList []"
| "marshal (PRepeated (Some vs)) = JList (map marshal vs)"
| "marshal (PMessage fs) =
     JObj (map (\<lambda>(name, is_oneof, v). (name, marshal v))
       (filter (\<lambda>(name, is_oneof, v). \<not> omitted is_oneof v) fs))"
| "marshal PNil = JObj []"
| "marshal (PStruct s) = JObj s"

text \<open>\<open>None\<close> is the nil that a failed conversion returns: only an object can become a \<open>Struct\<close>.\<close>

definition MessageToStruct :: "pb \<Rightarrow> pb_struct option" where
  "MessageToStruct msg = (case marshal msg of JObj flds \<Rightarrow> Some flds | _ \<Rightarrow> None)"

text \<open>The messages that are converted, with the fields the program sets, in declaration order.\<close>

definition struct_field :: "pb_struct option \<Rightarrow> pb" where
  "struct_field s = (case s of None \<Rightarrow> PNil | Some flds \<Rightarrow> PStruct flds)"

definition TcpProxy :: "string \<Rightarrow> string \<Rightarrow> pb" where
  "TcpProxy statPrefix cluster =
     PMessage [(''stat_prefix'', False, PString statPrefix), (''cluster'', True, PString cluster)]"

definition FileAccessLog :: "string \<Rightarrow> pb" where
  "FileAccessLog path = PMessage [(''path'', False, PString path)]"

definition AccessLog :: "string \<Rightarrow> pb_struct option \<Rightarrow> pb" where
  "AccessLog name config =
     PMessage [(''name'', False, PString name), (''config'', True, struct_field config)]"

definition VirtualHost :: "string \<Rightarrow> string list option \<Rightarrow> pb list \<Rightarrow> pb" where
  "VirtualHost name domains routes =
     PMessage [(''name'', False, PString name),
               (''domains'', False, PRepeated (map_option (map PString) domains)),
               (''routes'', False, PRepeated (Some routes))]"

definition Route :: "string \<Rightarrow> string \<Rightarrow> pb" where
  "Route prefix cluster =
     PMessage [(''match'', False, PMessage [(''prefix'', True, PString prefix)]),
               (''route'', True, PMessage [(''cluster'', True, PString cluster)])]"

definition HttpConnectionManager :: "string \<Rightarrow> string \<Rightarrow> pb list \<Rightarrow> pb list \<Rightarrow> pb list \<Rightarrow> pb" where
  "HttpConnectionManager statPrefix routeName vhosts httpFilters accessLog =
     PMessage [(''stat_prefix'', False, PString statPrefix),
               (''route_config'', True,
                  PMessage [(''name'', False, PString routeName),
                            (''virtual_hosts'', False, PRepeated (Some vhosts))]),
               (''http_filters'', False, PRepeated (Some httpFilters)),
               (''access_log'', False, PRepeated (Some accessLog))]"

section \<open>Listeners and clusters\<close>

record ListenerFilterEntry =
  lf_Name :: string
  lf_Config :: "pb_struct option"

record FilterChain =
  fc_DestinationPort :: "32 word option"
  fc_Filters :: "ListenerFilterEntry list"

record SocketAddress =
  sa_Protocol :: string
  sa_Address :: string
  sa_PortValue :: "32 word"

record Listener =
  l_Name :: string
  l_Address :: SocketAddress
  l_ListenerFilters :: "string list"
  l_FilterChains :: "FilterChain list"

datatype DiscoveryType = STATIC | STRICT_DNS | LOGICAL_DNS | EDS | ORIGINAL_DST

record EnvoyCluster =
  ec_Name :: string
  ec_ConnectTimeout :: nat
  ec_Type :: DiscoveryType
  ec_Hosts :: "SocketAddress list"
  ec_DnsLookupFamily :: string

text \<open>The xDS payloads; of the kinds the program never builds only the name is kept.\<close>

datatype xds_resource =
    ListenerRes Listener
  | ClusterRes EnvoyCluster
  | EndpointRes string
  | RouteRes string
  | SecretRes string

fun virtual_hosts :: "32 word \<Rightarrow> nat \<Rightarrow> Http list \<Rightarrow> pb list" where
  "virtual_hosts port i [] = []"
| "virtual_hosts port i (v # vs) =
     VirtualHost (''http-'' @ uint32_str port @ ''-'' @ nat_str i) (http_Domains v)
       [Route ''/'' (http_Cluster v)] # virtual_hosts port (Suc i) vs"

definition black_hole_chain :: FilterChain where
  "black_hole_chain =
     \<lparr>fc_DestinationPort = None,
      fc_Filters = [\<lparr>lf_Name = ''envoy.tcp_proxy'',
        lf_Config = MessageToStruct (TcpProxy ''BlackHoleCluster'' ''BlackHoleCluster'')\<rparr>]\<rparr>"

definition filter_chain :: "Filter \<Rightarrow> FilterChain" where
  "filter_chain flt =
     (if length (filter_Http flt) > 0 then
        \<lparr>fc_DestinationPort = Some (filter_Port flt),
         fc_Filters = [\<lparr>lf_Name = ''envoy.http_connection_manager'',
           lf_Config = MessageToStruct (HttpConnectionManager
             (''http-'' @ uint32_str (filter_Port flt))
             (''http-route-'' @ uint32_str (filter_Port flt))
             (virtual_hosts (filter_Port flt) 0 (filter_Http flt))
             [PMessage [(''name'', False, PString ''envoy.router'')]]
             [AccessLog ''envoy.file_access_log'' (MessageToStruct (FileAccessLog ''/dev/stdout''))])\<rparr>]\<rparr>
      else
        \<lparr>fc_DestinationPort = Some (filter_Port flt),
         fc_Filters = [\<lparr>lf_Name = ''envoy.tcp_proxy'',
           lf_Config = MessageToStruct (TcpProxy
             (''tcp-'' @ uint32_str (filter_Port flt)) (tcp_Cluster (filter_Tcp flt)))\<rparr>]\<rparr>)"

fun append_chains :: "FilterChain list \<Rightarrow> Filter list \<Rightarrow> FilterChain list" where
  "append_chains fchain [] = fchain"
| "append_chains fchain (flt # filters) = append_chains (fchain @ [filter_chain flt]) filters"

definition buildListeners :: "Filter list \<Rightarrow> xds_resource list" where
  "buildListeners filters =
     [ListenerRes
        \<lparr>l_Name = ''virtual'',
         l_Address = \<lparr>sa_Protocol = ''TCP'', sa_Address = ''0.0.0.0'', sa_PortValue = 15001\<rparr>,
         l_ListenerFilters = [''envoy.listener.original_dst''],
         l_FilterChains = append_chains [black_hole_chain] filters\<rparr>]"

definition build_cluster :: "Cluster \<Rightarrow> EnvoyCluster" where
  "build_cluster cluster =
     \<lparr>ec_Name = cluster_Name cluster,
      ec_ConnectTimeout = 10 * 10 ^ 9,
      ec_Type = STRICT_DNS,
      ec_Hosts = [\<lparr>sa_Protocol = ''TCP'', sa_Address = cluster_Host cluster,
                   sa_PortValue = cluster_Port cluster\<rparr>],
      ec_DnsLookupFamily = ''V4_ONLY''\<rparr>"

fun append_clusters :: "xds_resource list \<Rightarrow> Cluster list \<Rightarrow> xds_resource list" where
  "append_clusters envoyClusters [] = envoyClusters"
| "append_clusters envoyClusters (cluster # clusters) =
     append_clusters (envoyClusters @ [ClusterRes (build_cluster cluster)]) clusters"

definition buildClusters :: "Cluster list \<Rightarrow> xds_resource list" where
  "buildClusters clusters = append_clusters [] clusters"

lemma append_chains_map: "append_chains acc fs = acc @ map filter_chain fs"
  by (induction fs arbitrary: acc) auto

lemma append_clusters_map: "append_clusters acc cs = acc @ map (ClusterRes \<circ> build_cluster) cs"
  by (induction cs arbitrary: acc) auto

lemma buildClusters_map [go_simps]: "buildClusters cs = map (ClusterRes \<circ> build_cluster) cs"
  by (simp add: buildClusters_def append_clusters_map)

section \<open>What Envoy reads in the listeners\<close>

text \<open>
  The meaning of the built configuration: a chain takes connections to its port (any other, without
  one) and either forwards bytes to a cluster or routes requests by domain to clusters. The readers
  walk the \<open>Struct\<close> that was sent, by the field names of Envoy's messages; an absent repeated field
  reads as empty.
\<close>

datatype traffic = Forward string | RouteHttp "(string list \<times> string) list"

fun js_fields :: "js \<Rightarrow> (string \<times> js) list" where
  "js_fields (JObj fs) = fs"
| "js_fields _ = []"

fun js_items :: "js \<Rightarrow> js list" where
  "js_items (JList vs) = vs"
| "js_items _ = []"

fun js_text :: "js \<Rightarrow> string" where
  "js_text (JStr s) = s"
| "js_text _ = []"

definition js_get :: "string \<Rightarrow> js \<Rightarrow> js" where
  "js_get name v = (case map_of (js_fields v) name of None \<Rightarrow> JObj [] | Some w \<Rightarrow> w)"

definition read_vhost :: "js \<Rightarrow> string list \<times> string" where
  "read_vhost v =
     (map js_text (js_items (js_get ''domains'' v)),
      js_text (js_get ''cluster'' (js_get ''route'' (hd (js_items (js_get ''routes'' v))))))"

definition read_filter :: "ListenerFilterEntry \<Rightarrow> traffic option" where
  "read_filter f =
     (case lf_Config f of
        None \<Rightarrow> None
      | Some flds \<Rightarrow>
          if lf_Name f = ''envoy.tcp_proxy'' then Some (Forward (js_text (js_get ''cluster'' (JObj flds))))
          else if lf_Name f = ''envoy.http_connection_manager'' then
            Some (RouteHttp (map read_vhost
              (js_items (js_get ''virtual_hosts'' (js_get ''route_config'' (JObj flds))))))
          else None)"

definition read_chain :: "FilterChain \<Rightarrow> 32 word option \<times> traffic option list" where
  "read_chain c = (fc_DestinationPort c, map read_filter (fc_Filters c))"

text \<open>What the mesh configuration asks for.\<close>

definition filter_traffic :: "Filter \<Rightarrow> traffic" where
  "filter_traffic f =
     (if filter_Http f = [] then Forward (tcp_Cluster (filter_Tcp f))
      else RouteHttp (map (\<lambda>v. (case http_Domains v of None \<Rightarrow> [] | Some ds \<Rightarrow> ds, http_Cluster v))
             (filter_Http f)))"

lemma js_get_Cons [simp]:
  "js_get name (JObj ((k, v) # fs)) = (if k = name then v else js_get name (JObj fs))"
  by (simp add: js_get_def)

lemma js_get_Nil [simp]: "js_get name (JObj []) = JObj []"
  by (simp add: js_get_def)

lemma read_vhost_marshal [simp]:
  "read_vhost (marshal (VirtualHost name domains [Route ''/'' cluster])) =
     (case domains of None \<Rightarrow> [] | Some ds \<Rightarrow> ds, cluster)"
  by (cases domains) (auto simp: read_vhost_def VirtualHost_def Route_def comp_def)

lemma read_virtual_hosts:
  "map (read_vhost \<circ> marshal) (virtual_hosts port i hs) =
     map (\<lambda>v. (case http_Domains v of None \<Rightarrow> [] | Some ds \<Rightarrow> ds, http_Cluster v)) hs"
  by (induction hs arbitrary: i) auto

lemma read_black_hole: "read_chain black_hole_chain = (None, [Some (Forward ''BlackHoleCluster'')])"
  by (simp add: read_chain_def black_hole_chain_def read_filter_def MessageToStruct_def TcpProxy_def)

lemma read_filter_chain:
  "read_chain (filter_chain f) = (Some (filter_Port f), [Some (filter_traffic f)])"
  by (auto simp: read_chain_def filter_chain_def read_filter_def MessageToStruct_def TcpProxy_def
      HttpConnectionManager_def filter_traffic_def read_virtual_hosts [of "filter_Port f" 0, symmetric])

text \<open>Names of virtual hosts: an index per port, with one dash between the two numbers.\<close>

lemma vhost_name_inject:
  "''http-'' @ uint32_str p @ ''-'' @ nat_str i = ''http-'' @ uint32_str q @ ''-'' @ nat_str j \<longleftrightarrow>
     p = q \<and> i = j"
  by (simp add: append_sep_inject)

section \<open>Properties\<close>

text \<open>C17: the listener that is built means what the rule says. There is exactly one listener, on port
  15001; connections to no configured port are sent to the black hole, and for every filter, in
  order, one chain takes the connections to the filter's port and forwards them to its TCP cluster
  or routes them by domain, as read back from the \<open>Struct\<close> that Envoy receives. The matches of the
  chains are distinct, which Envoy demands, exactly when the ports of the filters are.\<close>

theorem buildListeners_meaning:
  "\<exists>l. buildListeners filters = [ListenerRes l] \<and> l_Name l = ''virtual'' \<and>
     sa_PortValue (l_Address l) = 15001 \<and>
     map read_chain (l_FilterChains l) =
       (None, [Some (Forward ''BlackHoleCluster'')]) #
       map (\<lambda>f. (Some (filter_Port f), [Some (filter_traffic f)])) filters \<and>
     (distinct (map fc_DestinationPort (l_FilterChains l)) \<longleftrightarrow> distinct (map filter_Port filters))"
proof -
  have port: "fc_DestinationPort (filter_chain f) = Some (filter_Port f)" for f
    by (simp add: filter_chain_def)
  have "distinct (map (\<lambda>f. Some (filter_Port f)) filters) \<longleftrightarrow> distinct (map filter_Port filters)"
    by (simp add: distinct_map inj_on_def)
  moreover have "None \<notin> (\<lambda>f. Some (filter_Port f)) ` set filters" by auto
  ultimately show ?thesis
    by (simp add: buildListeners_def append_chains_map read_black_hole read_filter_chain comp_def port
        black_hole_chain_def [THEN arg_cong, of fc_DestinationPort])
qed

text \<open>\<open>buildClusters\<close> is a translation entry by entry: the clusters keep their order and names,
  resolve by DNS, and have the one host and port of the configuration; so two configurations with
  different clusters never give the same Envoy clusters.\<close>

theorem buildClusters_faithful:
  "map (\<lambda>r. case r of ClusterRes c \<Rightarrow> (ec_Name c, ec_Type c, map (\<lambda>a. (sa_Address a, sa_PortValue a)) (ec_Hosts c)))
     (buildClusters cs) =
   map (\<lambda>c. (cluster_Name c, STRICT_DNS, [(cluster_Host c, cluster_Port c)])) cs \<and>
   (buildClusters cs = buildClusters ds \<longleftrightarrow> cs = ds)"
proof -
  have "inj (ClusterRes \<circ> build_cluster)"
    by (rule injI) (auto simp: build_cluster_def intro: Cluster.equality)
  then have "buildClusters cs = buildClusters ds \<longleftrightarrow> cs = ds"
    by (simp add: buildClusters_map inj_map_eq_map)
  then show ?thesis by (simp add: buildClusters_map build_cluster_def comp_def)
qed

end
