(* ===== verification/SnapshotCache.thy ===== *)
theory SnapshotCache
  imports EnvoyMessages Listers
begin

text \<open>
  The snapshot cache of go-control-plane (\<open>vendor/github.com/envoyproxy/go-control-plane/pkg/cache\<close>:
  \<open>simple.go\<close>, \<open>snapshot.go\<close>, \<open>resource.go\<close>, \<open>status.go\<close>) that the discovery server fills: one
  snapshot per node, open watches of the nodes' streams, and responses pushed into one-place
  channels. Channels are numbers with the responses sent into them; every operation runs under the
  mutex of the cache.
\<close>

section \<open>Resource types\<close>

datatype xds_type = EndpointType | ClusterType | RouteType | ListenerType | SecretType | OtherType

text \<open>The order of \<open>ResponseTypes\<close>.\<close>

fun xds_type_index :: "xds_type \<Rightarrow> nat" where
  "xds_type_index EndpointType = 0"
| "xds_type_index ClusterType = 1"
| "xds_type_index RouteType = 2"
| "xds_type_index ListenerType = 3"
| "xds_type_index SecretType = 4"
| "xds_type_index OtherType = 5"

lemma xds_type_index_inject [simp]: "xds_type_index s = xds_type_index t \<longleftrightarrow> s = t"
  by (cases s; cases t) auto

instantiation xds_type :: linorder
begin

definition less_eq_xds_type :: "xds_type \<Rightarrow> xds_type \<Rightarrow> bool" where
  "less_eq_xds_type s t = (xds_type_index s \<le> xds_type_index t)"

definition less_xds_type :: "xds_type \<Rightarrow> xds_type \<Rightarrow> bool" where
  "less_xds_type s t = (xds_type_index s < xds_type_index t)"

instance
  by standard (auto simp: less_eq_xds_type_def less_xds_type_def)

end

fun GetResourceName :: "xds_resource \<Rightarrow> string" where
  "GetResourceName (EndpointRes name) = name"
| "GetResourceName (ClusterRes c) = ec_Name c"
| "GetResourceName (RouteRes name) = name"
| "GetResourceName (ListenerRes l) = l_Name l"
| "GetResourceName (SecretRes name) = name"

section \<open>Snapshots\<close>

record Resources =
  res_Version :: string
  res_Items :: "(string \<times> xds_resource) list"

record Snapshot =
  snap_Endpoints :: Resources
  snap_Clusters :: Resources
  snap_Routes :: Resources
  snap_Listeners :: Resources
  snap_Secrets :: Resources

definition zero_Resources :: Resources where
  "zero_Resources = \<lparr>res_Version = [], res_Items = []\<rparr>"

definition zero_Snapshot :: Snapshot where
  "zero_Snapshot = \<lparr>snap_Endpoints = zero_Resources, snap_Clusters = zero_Resources,
     snap_Routes = zero_Resources, snap_Listeners = zero_Resources, snap_Secrets = zero_Resources\<rparr>"

fun index_resources :: "(string \<times> xds_resource) list \<Rightarrow> xds_resource list \<Rightarrow> (string \<times> xds_resource) list" where
  "index_resources indexed [] = indexed"
| "index_resources indexed (item # items) =
     index_resources (AList.update (GetResourceName item) item indexed) items"

definition IndexResourcesByName :: "xds_resource list \<Rightarrow> (string \<times> xds_resource) list" where
  "IndexResourcesByName items = index_resources [] items"

definition NewResources :: "string \<Rightarrow> xds_resource list \<Rightarrow> Resources" where
  "NewResources version items = \<lparr>res_Version = version, res_Items = IndexResourcesByName items\<rparr>"

definition NewSnapshot :: "string \<Rightarrow> xds_resource list \<Rightarrow> xds_resource list \<Rightarrow> xds_resource list \<Rightarrow>
    xds_resource list \<Rightarrow> Snapshot" where
  "NewSnapshot version endpoints clusters routes listeners =
     zero_Snapshot\<lparr>snap_Endpoints := NewResources version endpoints,
       snap_Clusters := NewResources version clusters,
       snap_Routes := NewResources version routes,
       snap_Listeners := NewResources version listeners\<rparr>"

fun GetResources :: "Snapshot \<Rightarrow> xds_type \<Rightarrow> (string \<times> xds_resource) list" where
  "GetResources s EndpointType = res_Items (snap_Endpoints s)"
| "GetResources s ClusterType = res_Items (snap_Clusters s)"
| "GetResources s RouteType = res_Items (snap_Routes s)"
| "GetResources s ListenerType = res_Items (snap_Listeners s)"
| "GetResources s SecretType = res_Items (snap_Secrets s)"
| "GetResources s OtherType = []"

fun GetVersion :: "Snapshot \<Rightarrow> xds_type \<Rightarrow> string" where
  "GetVersion s EndpointType = res_Version (snap_Endpoints s)"
| "GetVersion s ClusterType = res_Version (snap_Clusters s)"
| "GetVersion s RouteType = res_Version (snap_Routes s)"
| "GetVersion s ListenerType = res_Version (snap_Listeners s)"
| "GetVersion s SecretType = res_Version (snap_Secrets s)"
| "GetVersion s OtherType = []"

text \<open>
  \<open>Consistent\<close>: the clusters resolved by EDS and the route configurations fetched by RDS must be
  exactly the endpoints and routes of the snapshot. The route name is read from the \<open>Struct\<close> of an
  HTTP connection manager; a cluster of the program never overrides its EDS name.
\<close>

definition rds_names :: "ListenerFilterEntry \<Rightarrow> string list" where
  "rds_names f =
     (if lf_Name f \<noteq> ''envoy.http_connection_manager'' then []
      else case lf_Config f of
             None \<Rightarrow> []
           | Some config \<Rightarrow>
               (case map_of config ''rds'' of
                  None \<Rightarrow> []
                | Some rds \<Rightarrow> [js_text (js_get ''route_config_name'' rds)]))"

fun resource_references :: "xds_resource \<Rightarrow> string list" where
  "resource_references (ClusterRes c) = (if ec_Type c = EDS then [ec_Name c] else [])"
| "resource_references (ListenerRes l) = concat (map rds_names (concat (map fc_Filters (l_FilterChains l))))"
| "resource_references (EndpointRes _) = []"
| "resource_references (RouteRes _) = []"
| "resource_references (SecretRes _) = []"

definition GetResourceReferences :: "(string \<times> xds_resource) list \<Rightarrow> string list" where
  "GetResourceReferences resources = remdups (concat (map (\<lambda>(_, res). resource_references res) resources))"

definition superset :: "string list \<Rightarrow> (string \<times> xds_resource) list \<Rightarrow> bool" where
  "superset names resources \<longleftrightarrow> list_all (\<lambda>(resourceName, _). resourceName \<in> set names) resources"

definition Consistent :: "Snapshot \<Rightarrow> bool" where
  "Consistent s =
     (let endpoints = GetResourceReferences (res_Items (snap_Clusters s));
          routes = GetResourceReferences (res_Items (snap_Listeners s))
      in if length endpoints \<noteq> length (res_Items (snap_Endpoints s)) then False
         else if \<not> superset endpoints (res_Items (snap_Endpoints s)) then False
         else if length routes \<noteq> length (res_Items (snap_Routes s)) then False
         else superset routes (res_Items (snap_Routes s)))"

section \<open>The cache\<close>

record Request =
  req_NodeId :: string
  req_VersionInfo :: string
  req_ResourceNames :: "string list"
  req_TypeUrl :: xds_type
  req_ResponseNonce :: string

record Response =
  resp_Request :: Request
  resp_Version :: string
  resp_Resources :: "xds_resource list"

record ResponseWatch =
  rw_Request :: Request
  rw_Response :: nat

record statusInfo =
  si_node :: string
  si_watches :: "(nat \<times> ResponseWatch) list"

record snapshotCache =
  sc_ads :: bool
  sc_snapshots :: "string \<rightharpoonup> Snapshot"
  sc_status :: "string \<rightharpoonup> statusInfo"
  sc_watchCount :: nat
  sc_channels :: "nat \<Rightarrow> Response list"
  sc_nextChannel :: nat

definition NewSnapshotCache :: "bool \<Rightarrow> snapshotCache" where
  "NewSnapshotCache ads =
     \<lparr>sc_ads = ads, sc_snapshots = Map.empty, sc_status = Map.empty, sc_watchCount = 0,
      sc_channels = (\<lambda>_. []), sc_nextChannel = 0\<rparr>"

definition createResponse :: "Request \<Rightarrow> (string \<times> xds_resource) list \<Rightarrow> string \<Rightarrow> Response" where
  "createResponse request resources version =
     (let filtered =
            (if length (req_ResourceNames request) \<noteq> 0
             then map snd (filter (\<lambda>(name, _). name \<in> set (req_ResourceNames request)) resources)
             else map snd resources)
      in \<lparr>resp_Request = request, resp_Version = version, resp_Resources = filtered\<rparr>)"

definition respond ::
  "Request \<Rightarrow> nat \<Rightarrow> (string \<times> xds_resource) list \<Rightarrow> string \<Rightarrow> snapshotCache \<Rightarrow> snapshotCache" where
  "respond request value resources version c =
     (if length (req_ResourceNames request) \<noteq> 0 \<and> sc_ads c \<and>
         \<not> superset (req_ResourceNames request) resources
      then c
      else c\<lparr>sc_channels := (sc_channels c)
               (value := sc_channels c value @ [createResponse request resources version])\<rparr>)"

text \<open>The loop over the watches of a node: the cache, and the watches that stay open.\<close>

fun respond_watches ::
  "Snapshot \<Rightarrow> (nat \<times> ResponseWatch) list \<Rightarrow> snapshotCache \<Rightarrow> snapshotCache \<times> (nat \<times> ResponseWatch) list" where
  "respond_watches snapshot [] c = (c, [])"
| "respond_watches snapshot ((wid, watch) # ws) c =
     (let version = GetVersion snapshot (req_TypeUrl (rw_Request watch))
      in if version \<noteq> req_VersionInfo (rw_Request watch)
         then respond_watches snapshot ws
                (respond (rw_Request watch) (rw_Response watch)
                   (GetResources snapshot (req_TypeUrl (rw_Request watch))) version c)
         else (let (c', open) = respond_watches snapshot ws c in (c', (wid, watch) # open)))"

definition SetSnapshot :: "string \<Rightarrow> Snapshot \<Rightarrow> snapshotCache \<Rightarrow> snapshotCache" where
  "SetSnapshot node snapshot c0 =
     (let c = c0\<lparr>sc_snapshots := (sc_snapshots c0)(node \<mapsto> snapshot)\<rparr>
      in case sc_status c node of
           None \<Rightarrow> c
         | Some info \<Rightarrow>
             (let (c', open) = respond_watches snapshot (si_watches info) c
              in c'\<lparr>sc_status := (sc_status c')(node \<mapsto> info\<lparr>si_watches := open\<rparr>)\<rparr>))"

definition GetSnapshot :: "string \<Rightarrow> snapshotCache \<Rightarrow> string + Snapshot" where
  "GetSnapshot node c =
     (case sc_snapshots c node of
        None \<Rightarrow> Inl (''no snapshot found for node '' @ node)
      | Some snap \<Rightarrow> Inr snap)"

definition ClearSnapshot :: "string \<Rightarrow> snapshotCache \<Rightarrow> snapshotCache" where
  "ClearSnapshot node c =
     c\<lparr>sc_snapshots := (sc_snapshots c)(node := None), sc_status := (sc_status c)(node := None)\<rparr>"

text \<open>
  \<open>CreateWatch\<close> asks the hash for the node's name, which may panic. It returns the channel and, when
  the watch stays open, what its cancel function needs.
\<close>

definition CreateWatch ::
  "(string \<Rightarrow> string option) \<Rightarrow> Request \<Rightarrow> snapshotCache \<Rightarrow>
   ((nat \<times> (string \<times> nat) option) \<times> snapshotCache) option" where
  "CreateWatch hash request c =
     (case hash (req_NodeId request) of
        None \<Rightarrow> None
      | Some nodeID \<Rightarrow>
          (let info = (case sc_status c nodeID of
                         None \<Rightarrow> \<lparr>si_node = req_NodeId request, si_watches = []\<rparr>
                       | Some info \<Rightarrow> info);
               value = sc_nextChannel c;
               c1 = c\<lparr>sc_status := (sc_status c)(nodeID \<mapsto> info), sc_nextChannel := Suc value,
                      sc_channels := (sc_channels c)(value := [])\<rparr>;
               snapshot = (case sc_snapshots c nodeID of None \<Rightarrow> zero_Snapshot | Some s \<Rightarrow> s);
               version = GetVersion snapshot (req_TypeUrl request)
           in if sc_snapshots c nodeID = None \<or> req_VersionInfo request = version
              then
                (let watchID = Suc (sc_watchCount c);
                     info' = info\<lparr>si_watches :=
                       si_watches info @ [(watchID, \<lparr>rw_Request = request, rw_Response = value\<rparr>)]\<rparr>
                 in Some ((value, Some (nodeID, watchID)),
                      c1\<lparr>sc_watchCount := watchID, sc_status := (sc_status c1)(nodeID \<mapsto> info')\<rparr>))
              else Some ((value, None),
                     respond request value (GetResources snapshot (req_TypeUrl request)) version c1)))"

definition cancelWatch :: "string \<Rightarrow> nat \<Rightarrow> snapshotCache \<Rightarrow> snapshotCache" where
  "cancelWatch nodeID watchID c =
     (case sc_status c nodeID of
        None \<Rightarrow> c
      | Some info \<Rightarrow>
          c\<lparr>sc_status := (sc_status c)
             (nodeID \<mapsto> info\<lparr>si_watches := AList.delete watchID (si_watches info)\<rparr>)\<rparr>)"

definition Fetch :: "(string \<Rightarrow> string option) \<Rightarrow> Request \<Rightarrow> snapshotCache \<Rightarrow> (string + Response) option" where
  "Fetch hash request c =
     (case hash (req_NodeId request) of
        None \<Rightarrow> None
      | Some nodeID \<Rightarrow>
          Some (case sc_snapshots c nodeID of
             None \<Rightarrow> Inl (''missing snapshot for '' @ nodeID)
           | Some snapshot \<Rightarrow>
               (let version = GetVersion snapshot (req_TypeUrl request)
                in if req_VersionInfo request = version then Inl ''skip fetch: version up to date''
                   else Inr (createResponse request
                               (GetResources snapshot (req_TypeUrl request)) version))))"

section \<open>Watches and channels\<close>

definition open_watch :: "snapshotCache \<Rightarrow> string \<Rightarrow> nat \<Rightarrow> ResponseWatch \<Rightarrow> bool" where
  "open_watch c node wid w \<longleftrightarrow>
     (\<exists>info. sc_status c node = Some info \<and> (wid, w) \<in> set (si_watches info))"

text \<open>A snapshot is news to a watch when its version differs from the one the request has; it is
  answered unless the cache runs for ADS and the request misses a name of the snapshot.\<close>

definition stale :: "Snapshot \<Rightarrow> Request \<Rightarrow> bool" where
  "stale s r \<longleftrightarrow> GetVersion s (req_TypeUrl r) \<noteq> req_VersionInfo r"

definition answerable :: "bool \<Rightarrow> Snapshot \<Rightarrow> Request \<Rightarrow> bool" where
  "answerable ads s r \<longleftrightarrow>
     req_ResourceNames r = [] \<or> \<not> ads \<or> superset (req_ResourceNames r) (GetResources s (req_TypeUrl r))"

definition answer :: "Snapshot \<Rightarrow> Request \<Rightarrow> Response" where
  "answer s r = createResponse r (GetResources s (req_TypeUrl r)) (GetVersion s (req_TypeUrl r))"

definition sc_inv :: "snapshotCache \<Rightarrow> bool" where
  "sc_inv c \<longleftrightarrow>
     (\<forall>n i w m j v. open_watch c n i w \<longrightarrow> open_watch c m j v \<longrightarrow>
        (i = j \<or> rw_Response w = rw_Response v) \<longrightarrow> n = m \<and> i = j \<and> w = v) \<and>
     (\<forall>n i w. open_watch c n i w \<longrightarrow> i \<le> sc_watchCount c \<and> rw_Response w < sc_nextChannel c \<and>
        sc_channels c (rw_Response w) = [] \<and>
        (\<forall>s. sc_snapshots c n = Some s \<longrightarrow> \<not> stale s (rw_Request w))) \<and>
     (\<forall>v. length (sc_channels c v) \<le> 1) \<and>
     (\<forall>n info. sc_status c n = Some info \<longrightarrow> distinct (map fst (si_watches info)))"

lemma sc_inv_unique:
  "sc_inv c \<Longrightarrow> open_watch c n i w \<Longrightarrow> open_watch c m j v \<Longrightarrow>
   i = j \<or> rw_Response w = rw_Response v \<Longrightarrow> n = m \<and> i = j \<and> w = v"
  unfolding sc_inv_def by blast

lemma sc_inv_open:
  "sc_inv c \<Longrightarrow> open_watch c n i w \<Longrightarrow>
   i \<le> sc_watchCount c \<and> rw_Response w < sc_nextChannel c \<and> sc_channels c (rw_Response w) = [] \<and>
   (\<forall>s. sc_snapshots c n = Some s \<longrightarrow> \<not> stale s (rw_Request w))"
  unfolding sc_inv_def by blast

lemma open_watchI: "sc_status c n = Some info \<Longrightarrow> (i, w) \<in> set (si_watches info) \<Longrightarrow> open_watch c n i w"
  unfolding open_watch_def by blast

lemma respond_eq:
  "respond r v (GetResources s (req_TypeUrl r)) (GetVersion s (req_TypeUrl r)) c =
     c\<lparr>sc_channels := (sc_channels c)(v := sc_channels c v @ (if answerable (sc_ads c) s r then [answer s r] else []))\<rparr>"
  by (auto simp: respond_def answerable_def answer_def)

definition pushed :: "bool \<Rightarrow> Snapshot \<Rightarrow> nat \<Rightarrow> nat \<times> ResponseWatch \<Rightarrow> Response list" where
  "pushed ads s v iw =
     (if rw_Response (snd iw) = v \<and> stale s (rw_Request (snd iw)) \<and> answerable ads s (rw_Request (snd iw))
      then [answer s (rw_Request (snd iw))] else [])"

lemma respond_watches_eq:
  "respond_watches s ws c =
     (c\<lparr>sc_channels := (\<lambda>v. sc_channels c v @ concat (map (pushed (sc_ads c) s v) ws))\<rparr>,
      filter (\<lambda>(i, w). \<not> stale s (rw_Request w)) ws)"
proof (induction s ws c rule: respond_watches.induct)
  case (2 s i w ws c)
  then show ?case
    by (auto simp: Let_def respond_eq stale_def pushed_def fun_eq_iff)
qed simp

lemma concat_pushed:
  assumes "distinct (map (rw_Response \<circ> snd) ws)"
  shows "concat (map (pushed ads s v) ws) =
    (case List.find (\<lambda>iw. rw_Response (snd iw) = v) ws of None \<Rightarrow> [] | Some iw \<Rightarrow> pushed ads s v iw)"
  using assms
proof (induction ws)
  case (Cons iw ws)
  show ?case
  proof (cases "rw_Response (snd iw) = v")
    case True
    with Cons.prems have "\<forall>jw \<in> set ws. rw_Response (snd jw) \<noteq> v"
      by (auto simp: image_iff)
    then have "\<forall>jw \<in> set ws. pushed ads s v jw = []"
      by (simp add: pushed_def)
    then have "concat (map (pushed ads s v) ws) = []" by simp
    with True show ?thesis by simp
  next
    case False
    then have "pushed ads s v iw = []" by (simp add: pushed_def)
    with False Cons show ?thesis by simp
  qed
qed simp

text \<open>What a new snapshot does to the watches of its node and to everything else.\<close>

lemma SetSnapshot_snapshots [simp]: "sc_snapshots (SetSnapshot n s c) = (sc_snapshots c)(n \<mapsto> s)"
  by (simp add: SetSnapshot_def Let_def respond_watches_eq split: option.splits)

lemma SetSnapshot_frame [simp]:
  "sc_ads (SetSnapshot n s c) = sc_ads c" "sc_watchCount (SetSnapshot n s c) = sc_watchCount c"
  "sc_nextChannel (SetSnapshot n s c) = sc_nextChannel c"
  by (simp_all add: SetSnapshot_def Let_def respond_watches_eq split: option.splits)

lemma SetSnapshot_open:
  "open_watch (SetSnapshot n s c) m i w \<longleftrightarrow>
     open_watch c m i w \<and> (m = n \<longrightarrow> \<not> stale s (rw_Request w))"
  by (auto simp: SetSnapshot_def Let_def respond_watches_eq open_watch_def split: option.splits)

lemma sc_inv_channels:
  assumes "sc_inv c" "sc_status c n = Some info"
  shows "distinct (map (rw_Response \<circ> snd) (si_watches info))"
proof -
  have "inj_on (rw_Response \<circ> snd) (set (si_watches info))"
  proof (rule inj_onI)
    fix x y
    assume xy: "x \<in> set (si_watches info)" "y \<in> set (si_watches info)"
      "(rw_Response \<circ> snd) x = (rw_Response \<circ> snd) y"
    from sc_inv_unique [OF assms(1) open_watchI [OF assms(2), of "fst x" "snd x"]
        open_watchI [OF assms(2), of "fst y" "snd y"]] xy
    show "x = y" by (simp add: prod_eq_iff)
  qed
  moreover have "distinct (si_watches info)"
    using assms by (simp add: sc_inv_def distinct_map)
  ultimately show ?thesis by (simp add: distinct_map)
qed

lemma SetSnapshot_channels:
  assumes "sc_inv c"
  shows "sc_channels (SetSnapshot n s c) v =
    (if \<exists>i w. open_watch c n i w \<and> rw_Response w = v \<and> stale s (rw_Request w) \<and>
              answerable (sc_ads c) s (rw_Request w)
     then [answer s (rw_Request (THE w. \<exists>i. open_watch c n i w \<and> rw_Response w = v))]
     else sc_channels c v)"
proof (cases "\<exists>i w. open_watch c n i w \<and> rw_Response w = v")
  case False
  have "concat (map (pushed (sc_ads c) s v) (si_watches info)) = []"
    if "sc_status c n = Some info" for info
  proof -
    have "pushed (sc_ads c) s v x = []" if "x \<in> set (si_watches info)" for x
    proof -
      have "open_watch c n (fst x) (snd x)"
        using \<open>sc_status c n = Some info\<close> that by (simp add: open_watchI)
      with False show ?thesis by (auto simp: pushed_def)
    qed
    then show ?thesis by simp
  qed
  with False show ?thesis
    by (auto simp: SetSnapshot_def Let_def respond_watches_eq split: option.splits)
next
  case True
  then obtain i w info where w: "open_watch c n i w" "rw_Response w = v"
    "sc_status c n = Some info" "(i, w) \<in> set (si_watches info)" by (auto simp: open_watch_def)
  have uniq: "j = i \<and> u = w" if "open_watch c n j u" "rw_Response u = v" for j u
    using sc_inv_unique [OF assms _ w(1), of n j u] w(2) that by simp
  have the_w: "(THE w. \<exists>i. open_watch c n i w \<and> rw_Response w = v) = w"
    using w(1,2) uniq by blast
  have empty: "sc_channels c v = []" using sc_inv_open [OF assms w(1)] w(2) by simp
  have "List.find (\<lambda>iw. rw_Response (snd iw) = v) (si_watches info) = Some (i, w)"
  proof (cases "List.find (\<lambda>iw. rw_Response (snd iw) = v) (si_watches info)")
    case None
    with w show ?thesis by (auto simp: find_None_iff)
  next
    case (Some jw)
    then have "jw \<in> set (si_watches info)" "rw_Response (snd jw) = v"
      by (auto simp: find_Some_iff)
    with uniq [of "fst jw" "snd jw"] w(3) have "jw = (i, w)"
      by (auto simp: open_watch_def prod_eq_iff)
    with Some show ?thesis by simp
  qed
  then have "sc_channels (SetSnapshot n s c) v = pushed (sc_ads c) s v (i, w)"
    using w(3) empty concat_pushed [OF sc_inv_channels [OF assms w(3)], of "sc_ads c" s v]
    by (simp add: SetSnapshot_def Let_def respond_watches_eq)
  moreover have "(\<exists>j u. open_watch c n j u \<and> rw_Response u = v \<and> stale s (rw_Request u) \<and>
      answerable (sc_ads c) s (rw_Request u)) \<longleftrightarrow>
      stale s (rw_Request w) \<and> answerable (sc_ads c) s (rw_Request w)"
    using w(1,2) uniq by blast
  ultimately show ?thesis
    unfolding the_w empty by (simp add: pushed_def w(2))
qed

section \<open>The operations preserve the invariant\<close>

lemma sc_inv_New: "sc_inv (NewSnapshotCache ads)"
  by (simp add: sc_inv_def NewSnapshotCache_def open_watch_def)

text \<open>To keep the invariant it is enough to close watches, and to fill only channels whose watch is
  closed.\<close>

lemma sc_inv_close:
  assumes inv: "sc_inv c"
    and sub: "\<And>n i w. open_watch c' n i w \<Longrightarrow> open_watch c n i w \<and>
      sc_channels c' (rw_Response w) = sc_channels c (rw_Response w) \<and>
      (\<forall>s. sc_snapshots c' n = Some s \<longrightarrow> \<not> stale s (rw_Request w))"
    and frame: "sc_watchCount c' = sc_watchCount c" "sc_nextChannel c' = sc_nextChannel c"
    and len: "\<And>v. length (sc_channels c' v) \<le> 1"
    and ids: "\<And>n info. sc_status c' n = Some info \<Longrightarrow> distinct (map fst (si_watches info))"
  shows "sc_inv c'"
  unfolding sc_inv_def
proof (intro conjI allI impI)
  fix n i w m j v
  assume "open_watch c' n i w" "open_watch c' m j v" "i = j \<or> rw_Response w = rw_Response v"
  with sub sc_inv_unique [OF inv] show "n = m" "i = j" "w = v" by blast+
next
  fix n i w
  assume o': "open_watch c' n i w"
  with sub sc_inv_open [OF inv] frame show "i \<le> sc_watchCount c'" "rw_Response w < sc_nextChannel c'"
    "sc_channels c' (rw_Response w) = []" by metis+
  show "\<not> stale s (rw_Request w)" if "sc_snapshots c' n = Some s" for s
    using o' sub that by blast
qed (use len ids in blast)+

lemma sc_inv_SetSnapshot:
  assumes inv: "sc_inv c"
  shows "sc_inv (SetSnapshot n s c)"
proof (rule sc_inv_close [OF inv])
  fix m i w
  assume o': "open_watch (SetSnapshot n s c) m i w"
  then have op: "open_watch c m i w" "m = n \<Longrightarrow> \<not> stale s (rw_Request w)"
    by (simp_all add: SetSnapshot_open)
  have "\<not> (\<exists>j u. open_watch c n j u \<and> rw_Response u = rw_Response w \<and> stale s (rw_Request u) \<and>
      answerable (sc_ads c) s (rw_Request u))"
    using op sc_inv_unique [OF inv _ op(1)] by blast
  then have "sc_channels (SetSnapshot n s c) (rw_Response w) = sc_channels c (rw_Response w)"
    by (simp only: SetSnapshot_channels [OF inv] if_False)
  moreover have "\<forall>s'. sc_snapshots (SetSnapshot n s c) m = Some s' \<longrightarrow> \<not> stale s' (rw_Request w)"
    using op sc_inv_open [OF inv op(1)] by simp
  ultimately show "open_watch c m i w \<and>
      sc_channels (SetSnapshot n s c) (rw_Response w) = sc_channels c (rw_Response w) \<and>
      (\<forall>s'. sc_snapshots (SetSnapshot n s c) m = Some s' \<longrightarrow> \<not> stale s' (rw_Request w))"
    using op(1) by blast
next
  fix v
  have "length (sc_channels c v) \<le> 1" using inv by (simp add: sc_inv_def)
  then show "length (sc_channels (SetSnapshot n s c) v) \<le> 1"
    by (simp only: SetSnapshot_channels [OF inv] split: if_splits) simp
next
  fix m info
  assume "sc_status (SetSnapshot n s c) m = Some info"
  then show "distinct (map fst (si_watches info))"
    using inv
    by (auto simp: SetSnapshot_def Let_def respond_watches_eq sc_inv_def distinct_map_filter
        split: option.splits if_splits)
qed (simp_all)

lemma ClearSnapshot_open: "open_watch (ClearSnapshot n c) m i w \<longleftrightarrow> open_watch c m i w \<and> m \<noteq> n"
  by (auto simp: ClearSnapshot_def open_watch_def)

lemma sc_inv_ClearSnapshot: "sc_inv c \<Longrightarrow> sc_inv (ClearSnapshot n c)"
proof (rule sc_inv_close)
  fix m i w
  assume inv: "sc_inv c" and "open_watch (ClearSnapshot n c) m i w"
  then have "open_watch c m i w" "m \<noteq> n" by (simp_all add: ClearSnapshot_open)
  with sc_inv_open [OF inv this(1)] show "open_watch c m i w \<and>
      sc_channels (ClearSnapshot n c) (rw_Response w) = sc_channels c (rw_Response w) \<and>
      (\<forall>s. sc_snapshots (ClearSnapshot n c) m = Some s \<longrightarrow> \<not> stale s (rw_Request w))"
    by (simp add: ClearSnapshot_def)
next
  fix m info
  assume "sc_inv c" "sc_status (ClearSnapshot n c) m = Some info"
  then show "distinct (map fst (si_watches info))"
    by (auto simp: ClearSnapshot_def sc_inv_def split: if_splits)
qed (auto simp: ClearSnapshot_def sc_inv_def)

lemma cancelWatch_open:
  assumes "sc_inv c"
  shows "open_watch (cancelWatch n i c) m j w \<longleftrightarrow> open_watch c m j w \<and> \<not> (m = n \<and> j = i)"
proof (cases "sc_status c n")
  case None
  then show ?thesis by (auto simp: cancelWatch_def open_watch_def)
next
  case (Some info)
  have "(j, w) \<in> set (AList.delete i (si_watches info)) \<longleftrightarrow> (j, w) \<in> set (si_watches info) \<and> j \<noteq> i"
    by (auto simp: AList.delete_eq)
  with Some show ?thesis by (auto simp: cancelWatch_def open_watch_def)
qed

lemma sc_inv_cancelWatch:
  assumes inv: "sc_inv c"
  shows "sc_inv (cancelWatch n i c)"
proof (rule sc_inv_close [OF inv])
  fix m j w
  assume "open_watch (cancelWatch n i c) m j w"
  then have o': "open_watch c m j w" by (simp add: cancelWatch_open [OF inv])
  with sc_inv_open [OF inv o'] show "open_watch c m j w \<and>
      sc_channels (cancelWatch n i c) (rw_Response w) = sc_channels c (rw_Response w) \<and>
      (\<forall>s. sc_snapshots (cancelWatch n i c) m = Some s \<longrightarrow> \<not> stale s (rw_Request w))"
    by (simp add: cancelWatch_def split: option.splits)
next
  fix m info
  assume "sc_status (cancelWatch n i c) m = Some info"
  then show "distinct (map fst (si_watches info))"
    using inv by (auto simp: cancelWatch_def sc_inv_def distinct_delete split: option.splits if_splits)
next
  fix v
  show "length (sc_channels (cancelWatch n i c) v) \<le> 1"
    using inv by (simp add: cancelWatch_def sc_inv_def split: option.splits)
qed (simp_all add: cancelWatch_def split: option.splits)

definition new_watch :: "Request \<Rightarrow> snapshotCache \<Rightarrow> ResponseWatch" where
  "new_watch r c = \<lparr>rw_Request = r, rw_Response = sc_nextChannel c\<rparr>"

lemma CreateWatch_waits:
  assumes "hash (req_NodeId r) = Some n" "\<forall>s. sc_snapshots c n = Some s \<longrightarrow> \<not> stale s r"
    "CreateWatch hash r c = Some ((v, cancel), c')"
  shows "v = sc_nextChannel c" "cancel = Some (n, Suc (sc_watchCount c))"
    "open_watch c' m i w \<longleftrightarrow> open_watch c m i w \<or>
       m = n \<and> i = Suc (sc_watchCount c) \<and> w = new_watch r c"
    "sc_channels c' = (sc_channels c)(sc_nextChannel c := [])"
    "sc_snapshots c' = sc_snapshots c" "sc_watchCount c' = Suc (sc_watchCount c)"
    "sc_nextChannel c' = Suc (sc_nextChannel c)"
    "sc_status c' = (sc_status c)(n \<mapsto>
       (case sc_status c n of None \<Rightarrow> \<lparr>si_node = req_NodeId r, si_watches = [(Suc (sc_watchCount c), new_watch r c)]\<rparr>
        | Some info \<Rightarrow> info\<lparr>si_watches := si_watches info @ [(Suc (sc_watchCount c), new_watch r c)]\<rparr>))"
proof -
  have waits: "sc_snapshots c n = None \<or> req_VersionInfo r =
      GetVersion (case sc_snapshots c n of None \<Rightarrow> zero_Snapshot | Some s \<Rightarrow> s) (req_TypeUrl r)"
    using assms(2) by (cases "sc_snapshots c n") (auto simp: stale_def)
  note res = assms(3) [unfolded CreateWatch_def assms(1) Let_def option.case if_P [OF waits]]
  show "v = sc_nextChannel c" "cancel = Some (n, Suc (sc_watchCount c))"
    "sc_channels c' = (sc_channels c)(sc_nextChannel c := [])"
    "sc_snapshots c' = sc_snapshots c" "sc_watchCount c' = Suc (sc_watchCount c)"
    "sc_nextChannel c' = Suc (sc_nextChannel c)"
    using res by auto
  show st: "sc_status c' = (sc_status c)(n \<mapsto>
       (case sc_status c n of None \<Rightarrow> \<lparr>si_node = req_NodeId r, si_watches = [(Suc (sc_watchCount c), new_watch r c)]\<rparr>
        | Some info \<Rightarrow> info\<lparr>si_watches := si_watches info @ [(Suc (sc_watchCount c), new_watch r c)]\<rparr>))"
    using res by (auto simp: new_watch_def fun_eq_iff split: option.splits)
  show "open_watch c' m i w \<longleftrightarrow> open_watch c m i w \<or>
       m = n \<and> i = Suc (sc_watchCount c) \<and> w = new_watch r c"
    by (auto simp: open_watch_def st split: option.splits)
qed

lemma CreateWatch_answers:
  assumes "hash (req_NodeId r) = Some n" "sc_snapshots c n = Some s" "stale s r"
    "CreateWatch hash r c = Some ((v, cancel), c')"
  shows "v = sc_nextChannel c" "cancel = None"
    "open_watch c' m i w \<longleftrightarrow> open_watch c m i w"
    "sc_channels c' = (sc_channels c)
       (sc_nextChannel c := if answerable (sc_ads c) s r then [answer s r] else [])"
    "sc_snapshots c' = sc_snapshots c" "sc_watchCount c' = sc_watchCount c"
    "sc_nextChannel c' = Suc (sc_nextChannel c)"
    "sc_status c' = (sc_status c)(n \<mapsto>
       (case sc_status c n of None \<Rightarrow> \<lparr>si_node = req_NodeId r, si_watches = []\<rparr> | Some info \<Rightarrow> info))"
proof -
  have neq: "\<not> (Some s = None \<or> req_VersionInfo r = GetVersion s (req_TypeUrl r))"
    using assms(3) by (auto simp: stale_def)
  note res = assms(4) [unfolded CreateWatch_def assms(1,2) Let_def option.case if_not_P [OF neq] respond_eq]
  show "v = sc_nextChannel c" "cancel = None"
    "sc_channels c' = (sc_channels c)
       (sc_nextChannel c := if answerable (sc_ads c) s r then [answer s r] else [])"
    "sc_snapshots c' = sc_snapshots c" "sc_watchCount c' = sc_watchCount c"
    "sc_nextChannel c' = Suc (sc_nextChannel c)"
    using res assms(2) by auto
  show st: "sc_status c' = (sc_status c)(n \<mapsto>
       (case sc_status c n of None \<Rightarrow> \<lparr>si_node = req_NodeId r, si_watches = []\<rparr> | Some info \<Rightarrow> info))"
    using res by auto
  show "open_watch c' m i w \<longleftrightarrow> open_watch c m i w"
    by (auto simp: open_watch_def st split: option.splits)
qed

lemma CreateWatch_total: "hash (req_NodeId r) = Some n \<Longrightarrow> \<exists>v cancel c'. CreateWatch hash r c = Some ((v, cancel), c')"
  by (simp add: CreateWatch_def Let_def)

text \<open>The number the next watch gets is in no watch list.\<close>

lemma new_watch_unused:
  assumes "sc_inv c" "sc_status c n = Some info"
  shows "Suc (sc_watchCount c) \<notin> fst ` set (si_watches info)"
proof
  assume "Suc (sc_watchCount c) \<in> fst ` set (si_watches info)"
  then obtain w where "(Suc (sc_watchCount c), w) \<in> set (si_watches info)" by auto
  from sc_inv_open [OF assms(1) open_watchI [OF assms(2) this]] show False by simp
qed

lemma sc_inv_waits:
  assumes inv: "sc_inv c" and n: "hash (req_NodeId r) = Some n"
    and waits: "\<forall>s. sc_snapshots c n = Some s \<longrightarrow> \<not> stale s r"
    and cw: "CreateWatch hash r c = Some ((v, cancel), c')"
  shows "sc_inv c'"
proof -
  note W = CreateWatch_waits [OF n waits cw]
  show ?thesis
    unfolding sc_inv_def
  proof (intro conjI allI impI)
    fix m i w m' j u
    assume "open_watch c' m i w" "open_watch c' m' j u" "i = j \<or> rw_Response w = rw_Response u"
    moreover have "i \<noteq> Suc (sc_watchCount c) \<and> rw_Response w \<noteq> sc_nextChannel c"
      if "open_watch c m i w" for m i w
      using sc_inv_open [OF inv that] by auto
    ultimately have "m = m' \<and> i = j \<and> w = u"
      using sc_inv_unique [OF inv] unfolding W(3) by (fastforce simp: new_watch_def)
    then show "m = m'" "i = j" "w = u" by simp_all
  next
    fix m i w
    assume "open_watch c' m i w"
    then consider "open_watch c m i w" | "m = n" "i = Suc (sc_watchCount c)" "w = new_watch r c"
      unfolding W(3) by blast
    then have "i \<le> sc_watchCount c' \<and> rw_Response w < sc_nextChannel c' \<and>
        sc_channels c' (rw_Response w) = [] \<and>
        (\<forall>s. sc_snapshots c' m = Some s \<longrightarrow> \<not> stale s (rw_Request w))"
    proof cases
      case 1
      from sc_inv_open [OF inv 1] show ?thesis by (simp add: W)
    next
      case 2
      with waits show ?thesis by (simp add: W new_watch_def)
    qed
    then show "i \<le> sc_watchCount c'" "rw_Response w < sc_nextChannel c'"
      "sc_channels c' (rw_Response w) = []"
      "\<And>s. sc_snapshots c' m = Some s \<Longrightarrow> \<not> stale s (rw_Request w)" by blast+
  next
    fix v
    show "length (sc_channels c' v) \<le> 1" using inv by (simp add: W sc_inv_def)
  next
    fix m info
    assume "sc_status c' m = Some info"
    then show "distinct (map fst (si_watches info))"
      using inv new_watch_unused [OF inv] by (auto simp: W(8) sc_inv_def split: if_splits option.splits)
  qed
qed

lemma sc_inv_answers:
  assumes inv: "sc_inv c" and n: "hash (req_NodeId r) = Some n" and s: "sc_snapshots c n = Some s" "stale s r"
    and cw: "CreateWatch hash r c = Some ((v, cancel), c')"
  shows "sc_inv c'"
proof -
  note A = CreateWatch_answers [OF n s cw]
  show ?thesis
    unfolding sc_inv_def A(3) A(5) A(6)
  proof (intro conjI allI impI)
    fix m i w m' j u
    assume "open_watch c m i w" "open_watch c m' j u" "i = j \<or> rw_Response w = rw_Response u"
    with sc_inv_unique [OF inv] show "m = m'" "i = j" "w = u" by blast+
  next
    fix m i w
    assume "open_watch c m i w"
    from sc_inv_open [OF inv this] show "i \<le> sc_watchCount c" "rw_Response w < sc_nextChannel c'"
      "sc_channels c' (rw_Response w) = []"
      "\<And>s. sc_snapshots c m = Some s \<Longrightarrow> \<not> stale s (rw_Request w)"
      by (simp_all add: A)
  next
    fix v
    show "length (sc_channels c' v) \<le> 1" using inv by (simp add: A sc_inv_def)
  next
    fix m info
    assume "sc_status c' m = Some info"
    then show "distinct (map fst (si_watches info))"
      using inv by (auto simp: A(8) sc_inv_def split: if_splits option.splits)
  qed
qed

lemma sc_inv_CreateWatch:
  assumes inv: "sc_inv c" and cw: "CreateWatch hash r c = Some ((v, cancel), c')"
  shows "sc_inv c'"
proof -
  obtain n where n: "hash (req_NodeId r) = Some n"
    using cw by (auto simp: CreateWatch_def split: option.splits)
  show ?thesis
    using sc_inv_waits [OF inv n _ cw] sc_inv_answers [OF inv n _ _ cw] by blast
qed

section \<open>Reachable caches\<close>

text \<open>A stream takes the response out of its channel.\<close>

definition receive :: "nat \<Rightarrow> snapshotCache \<Rightarrow> snapshotCache" where
  "receive v c = c\<lparr>sc_channels := (sc_channels c)(v := tl (sc_channels c v))\<rparr>"

lemma sc_inv_receive: "sc_inv c \<Longrightarrow> sc_inv (receive v c)"
proof (rule sc_inv_close)
  fix m i w
  assume inv: "sc_inv c" and "open_watch (receive v c) m i w"
  then have "open_watch c m i w" by (simp add: receive_def open_watch_def)
  with sc_inv_open [OF inv this] show "open_watch c m i w \<and>
      sc_channels (receive v c) (rw_Response w) = sc_channels c (rw_Response w) \<and>
      (\<forall>s. sc_snapshots (receive v c) m = Some s \<longrightarrow> \<not> stale s (rw_Request w))"
    by (auto simp: receive_def)
next
  fix u
  assume "sc_inv c"
  then have "length (sc_channels c v) \<le> 1" "length (sc_channels c u) \<le> 1" by (simp_all add: sc_inv_def)
  then show "length (sc_channels (receive v c) u) \<le> 1" by (simp add: receive_def)
qed (auto simp: receive_def sc_inv_def)

inductive cache_step :: "(string \<Rightarrow> string option) \<Rightarrow> snapshotCache \<Rightarrow> snapshotCache \<Rightarrow> bool"
  for hash :: "string \<Rightarrow> string option" where
  set_snapshot: "cache_step hash c (SetSnapshot n s c)"
| clear_snapshot: "cache_step hash c (ClearSnapshot n c)"
| create_watch: "CreateWatch hash r c = Some (res, c') \<Longrightarrow> cache_step hash c c'"
| cancel_watch: "cache_step hash c (cancelWatch n i c)"
| take_response: "cache_step hash c (receive v c)"

lemma sc_inv_step: "cache_step hash c c' \<Longrightarrow> sc_inv c \<Longrightarrow> sc_inv c'"
proof (induction rule: cache_step.induct)
  case (create_watch r c res c')
  then show ?case using sc_inv_CreateWatch [of c hash r "fst res" "snd res" c'] by simp
qed (auto intro: sc_inv_SetSnapshot sc_inv_ClearSnapshot sc_inv_cancelWatch sc_inv_receive)

lemma sc_inv_reachable: "(cache_step hash)\<^sup>*\<^sup>* (NewSnapshotCache ads) c \<Longrightarrow> sc_inv c"
  by (induction rule: rtranclp_induct) (auto intro: sc_inv_New sc_inv_step)

text \<open>The snapshots alone are a keyed store.\<close>

interpretation snaps: keyed_store "\<lambda>node c. sc_snapshots c node"
  "\<lambda>node s c. Some (SetSnapshot node s c)" "\<lambda>node c. Some (ClearSnapshot node c)" "\<lambda>_. True"
  by unfold_locales (auto simp: ClearSnapshot_def)

section \<open>Properties\<close>

text \<open>C20: in every reachable cache, watches are up to date and answers come once. A watch that is open
  on a node with a snapshot has asked with the version of that snapshot, so no known change is
  withheld; its channel is empty; watch numbers and channels belong to one watch only; and no
  channel ever holds two responses, so a push never blocks while the mutex is held.\<close>

theorem reachable_cache_sound:
  assumes "(cache_step hash)\<^sup>*\<^sup>* (NewSnapshotCache ads) c"
  shows "(\<forall>n i w s. open_watch c n i w \<longrightarrow> sc_snapshots c n = Some s \<longrightarrow>
            GetVersion s (req_TypeUrl (rw_Request w)) = req_VersionInfo (rw_Request w)) \<and>
    (\<forall>n i w. open_watch c n i w \<longrightarrow> sc_channels c (rw_Response w) = []) \<and>
    (\<forall>n i w m j v. open_watch c n i w \<longrightarrow> open_watch c m j v \<longrightarrow>
       (i = j \<or> rw_Response w = rw_Response v) \<longrightarrow> n = m \<and> i = j \<and> w = v) \<and>
    (\<forall>v. length (sc_channels c v) \<le> 1)"
  using sc_inv_reachable [OF assms] unfolding sc_inv_def stale_def by blast

definition sample_request :: Request where
  "sample_request = \<lparr>req_NodeId = ''n'', req_VersionInfo = ''1'', req_ResourceNames = [],
     req_TypeUrl = ClusterType, req_ResponseNonce = []\<rparr>"

definition sample_cache :: snapshotCache where
  "sample_cache = snd (the (CreateWatch Some sample_request (NewSnapshotCache True)))"

lemma sample_cache_watch:
  "CreateWatch Some sample_request (NewSnapshotCache True) = Some ((0, Some (''n'', 1)), sample_cache)"
  "open_watch sample_cache m i w \<longleftrightarrow> m = ''n'' \<and> i = 1 \<and> w = \<lparr>rw_Request = sample_request, rw_Response = 0\<rparr>"
  "sc_snapshots sample_cache = Map.empty"
proof -
  have "\<exists>v cancel c'. CreateWatch Some sample_request (NewSnapshotCache True) = Some ((v, cancel), c')"
    by (rule CreateWatch_total) simp
  then obtain v cancel c' where cw: "CreateWatch Some sample_request (NewSnapshotCache True) = Some ((v, cancel), c')"
    by blast
  have "\<forall>s. sc_snapshots (NewSnapshotCache True) ''n'' = Some s \<longrightarrow> \<not> stale s sample_request"
    by (simp add: NewSnapshotCache_def)
  note W = CreateWatch_waits [OF _ this cw, unfolded sample_request_def, simplified]
  have c': "sample_cache = c'" by (simp add: sample_cache_def cw)
  show "CreateWatch Some sample_request (NewSnapshotCache True) = Some ((0, Some (''n'', 1)), sample_cache)"
    using cw W(1,2) by (simp add: c' NewSnapshotCache_def)
  show "open_watch sample_cache m i w \<longleftrightarrow> m = ''n'' \<and> i = 1 \<and> w = \<lparr>rw_Request = sample_request, rw_Response = 0\<rparr>"
    using W(3) by (simp add: c' NewSnapshotCache_def open_watch_def new_watch_def sample_request_def)
  show "sc_snapshots sample_cache = Map.empty" using W(5) by (simp add: c' NewSnapshotCache_def)
qed

lemma sample_cache_reachable: "(cache_step Some)\<^sup>*\<^sup>* (NewSnapshotCache True) sample_cache"
  using create_watch [OF sample_cache_watch(1)] by blast

theorem reachable_cache_sound_witness:
  "open_watch sample_cache ''n'' 1 \<lparr>rw_Request = sample_request, rw_Response = 0\<rparr> \<and>
   sc_channels sample_cache 0 = [] \<and> length (sc_channels sample_cache 0) \<le> 1"
proof -
  have op: "open_watch sample_cache ''n'' 1 \<lparr>rw_Request = sample_request, rw_Response = 0\<rparr>"
    by (simp add: sample_cache_watch(2))
  then show ?thesis
    using reachable_cache_sound [OF sample_cache_reachable] by fastforce
qed

lemma SetSnapshot_watch:
  assumes "sc_inv c" and op: "open_watch c n i w"
  shows "if GetVersion s (req_TypeUrl (rw_Request w)) = req_VersionInfo (rw_Request w)
        then open_watch (SetSnapshot n s c) n i w \<and> sc_channels (SetSnapshot n s c) (rw_Response w) = []
        else \<not> open_watch (SetSnapshot n s c) n i w \<and>
          sc_channels (SetSnapshot n s c) (rw_Response w) =
            (if answerable (sc_ads c) s (rw_Request w) then [answer s (rw_Request w)] else [])"
proof -
  have uniq: "u = w" if "open_watch c n j u" "rw_Response u = rw_Response w" for j u
    using sc_inv_unique [OF assms(1) that(1) op] that(2) by simp
  then have the_w: "(THE u. \<exists>j. open_watch c n j u \<and> rw_Response u = rw_Response w) = w"
    using op by blast
  have ex: "(\<exists>j u. open_watch c n j u \<and> rw_Response u = rw_Response w \<and> stale s (rw_Request u) \<and>
      answerable (sc_ads c) s (rw_Request u)) \<longleftrightarrow> stale s (rw_Request w) \<and> answerable (sc_ads c) s (rw_Request w)"
    using op uniq by blast
  have empty: "sc_channels c (rw_Response w) = []" using sc_inv_open [OF assms(1) op] by blast
  show ?thesis
    using op unfolding SetSnapshot_channels [OF assms(1)] ex the_w empty SetSnapshot_open
    by (simp add: stale_def)
qed

lemma SetSnapshot_other:
  assumes "sc_inv c" "m \<noteq> n" "open_watch c m i w"
  shows "open_watch (SetSnapshot n s c) m i w \<and> sc_channels (SetSnapshot n s c) (rw_Response w) = []"
proof -
  have "open_watch (SetSnapshot n s c) m i w" using assms by (simp add: SetSnapshot_open)
  with sc_inv_open [OF sc_inv_SetSnapshot [OF assms(1)] this] show ?thesis by blast
qed

text \<open>C12: a new snapshot is delivered. After \<open>SetSnapshot\<close>, a watch of the node that asked with another
  version is closed, and its channel holds exactly the response made from the new snapshot, unless
  the cache serves ADS and the request names only part of the resources: then the watch is closed
  without an answer. A watch that asked with the new version stays open and unanswered, and the
  watches and channels of other nodes are not touched.\<close>

theorem SetSnapshot_delivers:
  assumes "sc_inv c"
  shows "sc_snapshots (SetSnapshot n s c) = (sc_snapshots c)(n \<mapsto> s) \<and>
    (\<forall>i w. open_watch c n i w \<longrightarrow>
       (if GetVersion s (req_TypeUrl (rw_Request w)) = req_VersionInfo (rw_Request w)
        then open_watch (SetSnapshot n s c) n i w \<and> sc_channels (SetSnapshot n s c) (rw_Response w) = []
        else \<not> open_watch (SetSnapshot n s c) n i w \<and>
          sc_channels (SetSnapshot n s c) (rw_Response w) =
            (if answerable (sc_ads c) s (rw_Request w) then [answer s (rw_Request w)] else []))) \<and>
    (\<forall>m i w. m \<noteq> n \<longrightarrow> open_watch c m i w \<longrightarrow> open_watch (SetSnapshot n s c) m i w \<and>
       sc_channels (SetSnapshot n s c) (rw_Response w) = [])"
  using SetSnapshot_watch [OF assms] SetSnapshot_other [OF assms] by (simp only: SetSnapshot_snapshots) blast

theorem SetSnapshot_delivers_witness:
  "\<not> open_watch (SetSnapshot ''n'' (NewSnapshot ''2'' [] [] [] []) sample_cache) ''n'' 1
       \<lparr>rw_Request = sample_request, rw_Response = 0\<rparr> \<and>
   sc_channels (SetSnapshot ''n'' (NewSnapshot ''2'' [] [] [] []) sample_cache) 0 =
     [\<lparr>resp_Request = sample_request, resp_Version = ''2'', resp_Resources = []\<rparr>]"
proof -
  have op: "open_watch sample_cache ''n'' 1 \<lparr>rw_Request = sample_request, rw_Response = 0\<rparr>"
    by (simp add: sample_cache_watch(2))
  have "GetVersion (NewSnapshot ''2'' [] [] [] []) ClusterType = ''2''"
    "GetResources (NewSnapshot ''2'' [] [] [] []) ClusterType = []"
    by (simp_all add: NewSnapshot_def NewResources_def IndexResourcesByName_def)
  with SetSnapshot_delivers [OF sc_inv_reachable [OF sample_cache_reachable],
      of "''n''" "NewSnapshot ''2'' [] [] [] []"] op
  show ?thesis
    by (fastforce simp: sample_request_def answerable_def answer_def createResponse_def)
qed

end
