(* ===== verification/XdsServer.thy ===== *)
theory XdsServer
  imports SnapshotCache
begin

text \<open>
  The discovery server (\<open>pkg/xds/server.go\<close>): for each rule of a changed configuration it selects
  pods by label and stores one snapshot per pod name in the snapshot cache, from which the streams
  of the Envoys are served. \<open>None\<close> as a node's hash is the index panic of \<open>ID\<close>.
\<close>

section \<open>The server\<close>

record server =
  sv_configurationLister :: configurationLister
  sv_pods :: "Pod threadSafeMap"
  sv_snapshotCache :: snapshotCache

definition server_ID :: "string \<Rightarrow> string option" where
  "server_ID nodeId =
     (let parts = split_on (CHR ''@'') nodeId
      in if length parts > 1 then Some (parts ! 1) else None)"

definition rule_snapshot :: "string \<Rightarrow> Rule \<Rightarrow> Snapshot" where
  "rule_snapshot version rule =
     NewSnapshot version [] (buildClusters (rule_Clusters rule)) [] (buildListeners (rule_Filters rule))"

fun set_pods :: "string \<Rightarrow> Rule \<Rightarrow> Pod list \<Rightarrow> snapshotCache \<Rightarrow> snapshotCache" where
  "set_pods version rule [] c = c"
| "set_pods version rule (pod # pods) c =
     set_pods version rule pods (SetSnapshot (om_Name (pod_Meta pod)) (rule_snapshot version rule) c)"

definition podLister_List :: "Pod threadSafeMap \<Rightarrow> Selector \<Rightarrow> Pod list \<times> string option" where
  "podLister_List indexer selector = ListAll pod_Meta indexer selector"

text \<open>An error of the pod lister is printed, and the pods it returned are used.\<close>

fun apply_rules :: "Pod threadSafeMap \<Rightarrow> string \<Rightarrow> Rule list \<Rightarrow> snapshotCache \<Rightarrow> snapshotCache" where
  "apply_rules podStore version [] c = c"
| "apply_rules podStore version (rule # rules) c =
     (let (pods, err) = podLister_List podStore (SelectorFromSet (rule_Match rule))
      in apply_rules podStore version rules (set_pods version rule pods c))"

definition update :: "obj_iface \<Rightarrow> server \<Rightarrow> server" where
  "update obj s =
     (case MetaNamespaceKeyFunc obj of
        Inl err \<Rightarrow> s
      | Inr key \<Rightarrow>
          (case SplitMetaNamespaceKey key of
             Inl err \<Rightarrow> s
           | Inr (namespace, name) \<Rightarrow>
               (case configurationNamespaceLister_Get
                       (Configurations (sv_configurationLister s) namespace) name of
                  Inl err \<Rightarrow> s
                | Inr conf \<Rightarrow>
                    s\<lparr>sv_snapshotCache :=
                        apply_rules (sv_pods s) (om_ResourceVersion (conf_Meta conf))
                          (cs_Rules (conf_Spec conf)) (sv_snapshotCache s)\<rparr>)))"

text \<open>The handlers that \<open>NewServer\<close> registers; deletions have none.\<close>

datatype configuration_event = ConfAdd obj_iface | ConfUpdate obj_iface obj_iface | ConfDelete obj_iface

fun configuration_events :: "configuration_event \<Rightarrow> server \<Rightarrow> server" where
  "configuration_events (ConfAdd obj) s = update obj s"
| "configuration_events (ConfUpdate old new) s = update new s"
| "configuration_events (ConfDelete obj) s = s"

definition NewServer :: "Configuration threadSafeMap \<Rightarrow> Pod threadSafeMap \<Rightarrow> server" where
  "NewServer configurations pods =
     \<lparr>sv_configurationLister = NewConfigurationLister configurations, sv_pods = pods,
      sv_snapshotCache = NewSnapshotCache True\<rparr>"

section \<open>An update as a sequence of writes\<close>

definition rule_pods :: "Pod threadSafeMap \<Rightarrow> Rule \<Rightarrow> Pod list" where
  "rule_pods podStore rule = filter (\<lambda>p. selected_by (rule_Match rule) (om_Labels (pod_Meta p))) (ts_List podStore)"

text \<open>The snapshots an update stores, in order: node and snapshot.\<close>

definition rule_writes :: "Pod threadSafeMap \<Rightarrow> string \<Rightarrow> Rule list \<Rightarrow> (string \<times> Snapshot) list" where
  "rule_writes podStore version rules =
     concat (map (\<lambda>r. map (\<lambda>p. (om_Name (pod_Meta p), rule_snapshot version r)) (rule_pods podStore r)) rules)"

definition write_all :: "(string \<times> Snapshot) list \<Rightarrow> snapshotCache \<Rightarrow> snapshotCache" where
  "write_all ws c = fold (\<lambda>(n, s). SetSnapshot n s) ws c"

lemma set_pods_writes:
  "set_pods v r pods c = write_all (map (\<lambda>p. (om_Name (pod_Meta p), rule_snapshot v r)) pods) c"
  by (induction pods arbitrary: c) (simp_all add: write_all_def)

lemma write_all_append: "write_all (xs @ ys) c = write_all ys (write_all xs c)"
  by (simp add: write_all_def)

lemma apply_rules_writes: "apply_rules podStore v rules c = write_all (rule_writes podStore v rules) c"
proof (induction rules arbitrary: c)
  case (Cons r rules)
  have "rule_writes podStore v (r # rules) =
      map (\<lambda>p. (om_Name (pod_Meta p), rule_snapshot v r)) (rule_pods podStore r) @ rule_writes podStore v rules"
    by (simp add: rule_writes_def)
  with Cons show ?case
    by (simp add: podLister_List_def ListAll_filter SelectorFromSet_selected rule_pods_def [symmetric]
        set_pods_writes write_all_append)
qed (simp add: rule_writes_def write_all_def)

lemma write_all_events:
  "snaps.run_events (map (\<lambda>(n, s). SetKey n s) ws) c = Some (write_all ws c)"
  by (induction ws arbitrary: c) (auto simp: write_all_def)

lemma write_all_snapshots:
  "sc_snapshots (write_all ws c) n =
     (case find_last (\<lambda>w. fst w = n) ws of None \<Rightarrow> sc_snapshots c n | Some w \<Rightarrow> Some (snd w))"
proof -
  have key: "event_key ((\<lambda>(n, s). SetKey n s) w) = fst w" "event_object ((\<lambda>(n, s). SetKey n s) w) = Some (snd w)"
    for w :: "string \<times> Snapshot" by (cases w; simp)+
  have "find_last (\<lambda>e. event_key e = n) (map (\<lambda>(n, s). SetKey n s) ws) =
      map_option (\<lambda>(n, s). SetKey n s) (find_last (\<lambda>w. fst w = n) ws)"
    by (induction ws) (auto simp: key split: option.splits)
  then show ?thesis
    using snaps.run_events_lookup [where s = c and es = "map (\<lambda>(n, s). SetKey n s) ws"]
    by (auto simp: write_all_events key split: option.splits)
qed

definition rule_selects :: "Pod threadSafeMap \<Rightarrow> string \<Rightarrow> Rule \<Rightarrow> bool" where
  "rule_selects podStore n rule \<longleftrightarrow> list_ex (\<lambda>p. om_Name (pod_Meta p) = n) (rule_pods podStore rule)"

lemma find_last_append:
  "find_last P (xs @ ys) = (case find_last P ys of None \<Rightarrow> find_last P xs | Some y \<Rightarrow> Some y)"
  by (induction xs) (auto split: option.splits)

lemma find_last_writes:
  "find_last (\<lambda>w. fst w = n) (rule_writes podStore v rules) =
     map_option (\<lambda>r. (n, rule_snapshot v r)) (find_last (rule_selects podStore n) rules)"
proof (induction rules)
  case (Cons r rules)
  have one: "find_last (\<lambda>w. fst w = n) (map (\<lambda>p. (om_Name (pod_Meta p), rule_snapshot v r)) ps) =
      (if list_ex (\<lambda>p. om_Name (pod_Meta p) = n) ps then Some (n, rule_snapshot v r) else None)" for ps
    by (induction ps) (auto split: option.splits)
  have "rule_writes podStore v (r # rules) =
      map (\<lambda>p. (om_Name (pod_Meta p), rule_snapshot v r)) (rule_pods podStore r) @ rule_writes podStore v rules"
    by (simp add: rule_writes_def)
  with Cons show ?case
    by (auto simp: find_last_append one rule_selects_def split: option.splits)
qed (simp add: rule_writes_def)

definition cached_configuration :: "server \<Rightarrow> Configuration \<Rightarrow> bool" where
  "cached_configuration s conf \<longleftrightarrow> plain_meta (conf_Meta conf) \<and> om_Namespace (conf_Meta conf) \<noteq> [] \<and>
     ts_Get (meta_key (conf_Meta conf)) (cl_indexer (sv_configurationLister s)) = Some conf"

lemma update_cached:
  assumes "cached_configuration s conf"
  shows "update (WithMeta (conf_Meta conf)) s =
    s\<lparr>sv_snapshotCache := write_all (rule_writes (sv_pods s) (om_ResourceVersion (conf_Meta conf))
        (cs_Rules (conf_Spec conf))) (sv_snapshotCache s)\<rparr>"
proof -
  have key: "om_Namespace (conf_Meta conf) @ ''/'' @ om_Name (conf_Meta conf) = meta_key (conf_Meta conf)"
    using assms by (simp add: cached_configuration_def meta_key_def)
  have "configurationNamespaceLister_Get
      (Configurations (sv_configurationLister s) (om_Namespace (conf_Meta conf))) (om_Name (conf_Meta conf)) = Inr conf"
    using assms
    by (simp only: configurationNamespaceLister_Get_def Configurations_def
        configurationNamespaceLister.simps key cached_configuration_def option.case)
  then show ?thesis
    using assms by (simp add: update_def cached_configuration_def Split_meta_key apply_rules_writes)
qed

section \<open>What the streams of a node see of an update\<close>

lemma write_all_Cons [simp]: "write_all ((n, s) # ws) c = write_all ws (SetSnapshot n s c)"
  by (simp add: write_all_def)

lemma write_all_Nil [simp]: "write_all [] c = c"
  by (simp add: write_all_def)

lemma write_all_inv: "sc_inv c \<Longrightarrow> sc_inv (write_all ws c)"
proof (induction ws arbitrary: c)
  case (Cons x ws)
  from Cons.IH [OF sc_inv_SetSnapshot [OF Cons.prems]] show ?case by (cases x) simp
qed simp

lemma write_all_frame [simp]: "sc_ads (write_all ws c) = sc_ads c"
proof (induction ws arbitrary: c)
  case (Cons x ws)
  then show ?case by (cases x) simp
qed simp

text \<open>A channel without an open watch is left alone.\<close>

lemma write_all_quiet:
  assumes "sc_inv c" "\<And>n i w. open_watch c n i w \<Longrightarrow> rw_Response w \<noteq> v"
  shows "sc_channels (write_all ws c) v = sc_channels c v"
  using assms
proof (induction ws arbitrary: c)
  case (Cons x ws)
  obtain n s where x: "x = (n, s)" by force
  have "sc_channels (SetSnapshot n s c) v = sc_channels c v"
    unfolding SetSnapshot_channels [OF Cons.prems(1)] using Cons.prems(2) by (auto split: if_splits)
  moreover have "rw_Response w \<noteq> v" if "open_watch (SetSnapshot n s c) m i w" for m i w
    using that Cons.prems(2) [of m i w] by (simp add: SetSnapshot_open)
  then have "sc_channels (write_all ws (SetSnapshot n s c)) v = sc_channels (SetSnapshot n s c) v"
    by (rule Cons.IH [OF sc_inv_SetSnapshot [OF Cons.prems(1)]])
  ultimately show ?case by (simp add: x write_all_def)
qed (simp add: write_all_def)

text \<open>A watch is answered from the first write to its node, if that has another version.\<close>

lemma write_all_first:
  assumes "sc_inv c" "open_watch c n i w" "List.find (\<lambda>x. fst x = n) ws = Some (n, s)"
    "stale s (rw_Request w)"
  shows "sc_channels (write_all ws c) (rw_Response w) =
    (if answerable (sc_ads c) s (rw_Request w) then [answer s (rw_Request w)] else [])"
  using assms
proof (induction ws arbitrary: c)
  case (Cons x ws)
  obtain m t where x: "x = (m, t)" by force
  note inv = Cons.prems(1) and op = Cons.prems(2)
  have all: "write_all (x # ws) c = write_all ws (SetSnapshot m t c)" by (simp add: x write_all_def)
  show ?case
  proof (cases "m = n")
    case True
    with Cons.prems(3) x have s: "t = s" by simp
    have "\<not> GetVersion s (req_TypeUrl (rw_Request w)) = req_VersionInfo (rw_Request w)"
      using Cons.prems(4) by (simp add: stale_def)
    with SetSnapshot_watch [OF inv op, of s] have closed: "\<not> open_watch (SetSnapshot n s c) n i w"
      and ch: "sc_channels (SetSnapshot n s c) (rw_Response w) =
            (if answerable (sc_ads c) s (rw_Request w) then [answer s (rw_Request w)] else [])" by simp_all
    have "rw_Response u \<noteq> rw_Response w" if "open_watch (SetSnapshot n s c) k j u" for k j u
    proof
      assume eq: "rw_Response u = rw_Response w"
      from that have "open_watch c k j u" by (simp add: SetSnapshot_open)
      from sc_inv_unique [OF inv this op] eq have "k = n" "j = i" "u = w" by simp_all
      with that closed show False by simp
    qed
    from write_all_quiet [OF sc_inv_SetSnapshot [OF inv] this, of n s] ch show ?thesis
      by (simp add: all True s)
  next
    case False
    with Cons.prems(3) x have "List.find (\<lambda>x. fst x = n) ws = Some (n, s)" by simp
    moreover have "open_watch (SetSnapshot m t c) n i w" using op False by (simp add: SetSnapshot_open)
    ultimately show ?thesis
      using Cons.IH [OF sc_inv_SetSnapshot [OF inv] _ _ Cons.prems(4)] by (simp add: all)
  qed
qed simp

lemma find_writes:
  "List.find (\<lambda>w. fst w = n) (rule_writes podStore v rules) =
     map_option (\<lambda>r. (n, rule_snapshot v r)) (List.find (rule_selects podStore n) rules)"
proof (induction rules)
  case (Cons r rules)
  have one: "List.find (\<lambda>w. fst w = n) (map (\<lambda>p. (om_Name (pod_Meta p), rule_snapshot v r)) ps) =
      (if list_ex (\<lambda>p. om_Name (pod_Meta p) = n) ps then Some (n, rule_snapshot v r) else None)" for ps
    by (induction ps) auto
  have "rule_writes podStore v (r # rules) =
      map (\<lambda>p. (om_Name (pod_Meta p), rule_snapshot v r)) (rule_pods podStore r) @ rule_writes podStore v rules"
    by (simp add: rule_writes_def)
  with Cons show ?case by (simp add: find_append one rule_selects_def split: option.splits)
qed (simp add: rule_writes_def)

text \<open>The kinds of resources that carry the version of the configuration.\<close>

definition versioned :: "xds_type \<Rightarrow> bool" where
  "versioned t \<longleftrightarrow> t \<in> {EndpointType, ClusterType, RouteType, ListenerType}"

lemma rule_snapshot_version [simp]:
  "GetVersion (rule_snapshot v r) t = (if versioned t then v else [])"
  by (cases t) (simp_all add: rule_snapshot_def NewSnapshot_def NewResources_def versioned_def
      zero_Snapshot_def zero_Resources_def)

lemma index_resources_distinct:
  "distinct (map GetResourceName rs) \<Longrightarrow> set (map GetResourceName rs) \<inter> fst ` set acc = {} \<Longrightarrow>
   index_resources acc rs = acc @ map (\<lambda>r. (GetResourceName r, r)) rs"
proof (induction rs arbitrary: acc)
  case (Cons r rs)
  have "AList.update (GetResourceName r) r acc = acc @ [(GetResourceName r, r)]"
    using Cons.prems(2) by (intro update_new) auto
  with Cons show ?case by auto
qed simp

text \<open>The resources of a rule, by type; clusters of one name are kept once.\<close>

definition rule_resources :: "xds_type \<Rightarrow> Rule \<Rightarrow> xds_resource list" where
  "rule_resources t r =
     (if t = ListenerType then buildListeners (rule_Filters r)
      else if t = ClusterType then buildClusters (rule_Clusters r)
      else [])"

lemma rule_snapshot_resources:
  assumes "distinct (map cluster_Name (rule_Clusters r))"
  shows "map snd (GetResources (rule_snapshot v r) t) = rule_resources t r"
proof -
  have "map GetResourceName (buildClusters (rule_Clusters r)) = map cluster_Name (rule_Clusters r)"
    by (simp add: buildClusters_map build_cluster_def comp_def)
  then have "map snd (IndexResourcesByName (buildClusters (rule_Clusters r))) = buildClusters (rule_Clusters r)"
    using assms by (simp add: IndexResourcesByName_def index_resources_distinct comp_def)
  moreover have "map snd (IndexResourcesByName (buildListeners (rule_Filters r))) = buildListeners (rule_Filters r)"
    by (simp add: IndexResourcesByName_def buildListeners_def)
  ultimately show ?thesis
    by (cases t) (simp_all add: rule_resources_def rule_snapshot_def NewSnapshot_def NewResources_def
        zero_Snapshot_def zero_Resources_def, simp_all add: IndexResourcesByName_def)
qed

section \<open>Properties\<close>

text \<open>The identity of an Envoy is the part of its node id between the first and the second
  at-sign; on a node id without one, reading it panics.\<close>

theorem server_ID_characterised:
  "(server_ID nodeId = None \<longleftrightarrow> CHR ''@'' \<notin> set nodeId) \<and>
   (server_ID nodeId = Some name \<longleftrightarrow>
     (\<exists>kind rest. CHR ''@'' \<notin> set kind \<and> CHR ''@'' \<notin> set name \<and>
        nodeId = kind @ ''@'' @ name @ rest \<and> (rest = [] \<or> hd rest = CHR ''@'')))"
proof (intro conjI iffI)
  have len: "length (split_on (CHR ''@'') nodeId) = Suc (count_list nodeId (CHR ''@''))"
    by (rule length_split_on)
  show "CHR ''@'' \<notin> set nodeId" if "server_ID nodeId = None"
    using that len by (simp add: server_ID_def Let_def count_list_0_iff split: if_splits)
  show "server_ID nodeId = None" if "CHR ''@'' \<notin> set nodeId"
    using that by (simp add: server_ID_def)
next
  assume some: "server_ID nodeId = Some name"
  then have "CHR ''@'' \<in> set nodeId" by (rule contrapos_pp) (simp add: server_ID_def)
  then obtain kind tl where kind: "nodeId = kind @ CHR ''@'' # tl" "CHR ''@'' \<notin> set kind"
    by (metis split_list_first)
  have name: "name = hd (split_on (CHR ''@'') tl)"
    using some kind by (cases "split_on (CHR ''@'') tl") (auto simp: server_ID_def Let_def split: if_splits)
  show "\<exists>kind rest. CHR ''@'' \<notin> set kind \<and> CHR ''@'' \<notin> set name \<and>
        nodeId = kind @ ''@'' @ name @ rest \<and> (rest = [] \<or> hd rest = CHR ''@'')"
  proof (cases "CHR ''@'' \<in> set tl")
    case False
    with kind name show ?thesis by auto
  next
    case True
    then obtain a b where ab: "tl = a @ CHR ''@'' # b" "CHR ''@'' \<notin> set a" by (metis split_list_first)
    then have "name = a" using name by simp
    with ab kind have "nodeId = kind @ ''@'' @ name @ (CHR ''@'' # b)" by simp
    with kind(2) ab(2) \<open>name = a\<close> show ?thesis by (metis list.sel(1))
  qed
next
  assume "\<exists>kind rest. CHR ''@'' \<notin> set kind \<and> CHR ''@'' \<notin> set name \<and>
        nodeId = kind @ ''@'' @ name @ rest \<and> (rest = [] \<or> hd rest = CHR ''@'')"
  then obtain kind rest where *: "CHR ''@'' \<notin> set kind" "CHR ''@'' \<notin> set name"
    "nodeId = kind @ ''@'' @ name @ rest" "rest = [] \<or> hd rest = CHR ''@''" by blast
  then show "server_ID nodeId = Some name"
    by (cases rest) (auto simp: server_ID_def)
qed

text \<open>C16: what an update stores. Every node whose name is that of a pod selected by some rule of the
  configuration ends up with the snapshot of the last such rule, at the configuration's resource
  version; every other node keeps the snapshot it had, and the informer caches are only read.\<close>

theorem update_outcome:
  assumes "cached_configuration s conf"
  shows "let s' = update (WithMeta (conf_Meta conf)) s
         in sv_pods s' = sv_pods s \<and> sv_configurationLister s' = sv_configurationLister s \<and>
            (\<forall>n. sc_snapshots (sv_snapshotCache s') n =
               (case find_last (rule_selects (sv_pods s) n) (cs_Rules (conf_Spec conf)) of
                  None \<Rightarrow> sc_snapshots (sv_snapshotCache s) n
                | Some r \<Rightarrow> Some (rule_snapshot (om_ResourceVersion (conf_Meta conf)) r)))"
  by (auto simp: update_cached [OF assms] Let_def write_all_snapshots find_last_writes
      split: option.splits)

definition sample_rule :: "string \<Rightarrow> string \<Rightarrow> Rule" where
  "sample_rule app cluster =
     \<lparr>rule_Match = [(''app'', app)],
      rule_Filters = [\<lparr>filter_Port = 80, filter_Http = [], filter_Tcp = \<lparr>tcp_Cluster = cluster\<rparr>\<rparr>],
      rule_Clusters = [\<lparr>cluster_Name = cluster, cluster_Host = ''db.shop'', cluster_Port = 5432\<rparr>]\<rparr>"

definition sample_configuration :: Configuration where
  "sample_configuration =
     \<lparr>conf_Meta = zero_ObjectMeta\<lparr>om_Name := ''mesh'', om_Namespace := ''shop'', om_ResourceVersion := ''7''\<rparr>,
      conf_Spec = \<lparr>cs_Rules = [sample_rule ''cart'' ''db1'', sample_rule ''cart'' ''db2'']\<rparr>\<rparr>"

definition sample_pod :: Pod where
  "sample_pod = \<lparr>pod_Meta = zero_ObjectMeta\<lparr>om_Name := ''cart-0'', om_Namespace := ''shop'',
     om_Labels := [(''app'', ''cart'')]\<rparr>\<rparr>"

definition sample_server :: server where
  "sample_server = NewServer
     ((NewThreadSafeStore [])\<lparr>ts_items := [(''shop/mesh'', sample_configuration)]\<rparr>)
     ((NewThreadSafeStore [])\<lparr>ts_items := [(''shop/cart-0'', sample_pod)]\<rparr>)"

lemma sample_configuration_cached: "cached_configuration sample_server sample_configuration"
  by (simp add: cached_configuration_def sample_server_def NewServer_def sample_configuration_def
      NewConfigurationLister_def plain_meta_def meta_key_def zero_ObjectMeta_def ts_Get_def)

lemma sample_selects:
  "rule_selects (sv_pods sample_server) n (sample_rule ''cart'' cl) \<longleftrightarrow> n = ''cart-0''"
  by (auto simp: rule_selects_def rule_pods_def sample_server_def NewServer_def ts_List_def
      sample_pod_def zero_ObjectMeta_def selected_by_def sample_rule_def)

theorem update_outcome_witness:
  "sc_snapshots (sv_snapshotCache (update (WithMeta (conf_Meta sample_configuration)) sample_server)) ''cart-0'' =
     Some (rule_snapshot ''7'' (sample_rule ''cart'' ''db2''))"
  using update_outcome [OF sample_configuration_cached]
  by (simp add: Let_def sample_configuration_def zero_ObjectMeta_def sample_selects)

text \<open>Updates that name nothing change nothing: an object without metadata, a key with more than
  one slash, or a key that is not in the configuration cache leaves the server as it was; and so
  does the deletion of a configuration, whose snapshots stay in force.\<close>

theorem update_ignored:
  "update NoMeta s = s \<and>
   (count_list key (CHR ''/'') \<ge> 2 \<longrightarrow> update (ExplicitKey key) s = s) \<and>
   (ts_Get (ns @ ''/'' @ name) (cl_indexer (sv_configurationLister s)) = None \<longrightarrow>
      CHR ''/'' \<notin> set ns \<longrightarrow> CHR ''/'' \<notin> set name \<longrightarrow> update (ExplicitKey (ns @ ''/'' @ name)) s = s) \<and>
   configuration_events (ConfDelete obj) s = s"
proof -
  have "update (ExplicitKey key) s = s" if "count_list key (CHR ''/'') \<ge> 2"
  proof -
    from iffD2 [OF Split_error_iff that] obtain e where "SplitMetaNamespaceKey key = Inl e" by (elim exE)
    then show ?thesis by (simp add: update_def MetaNamespaceKeyFunc_def)
  qed
  moreover have "update (ExplicitKey (ns @ ''/'' @ name)) s = s"
    if "ts_Get (ns @ ''/'' @ name) (cl_indexer (sv_configurationLister s)) = None"
      "CHR ''/'' \<notin> set ns" "CHR ''/'' \<notin> set name"
  proof -
    have "SplitMetaNamespaceKey (ns @ ''/'' @ name) = Inr (ns, name)"
      using that(2,3) by (simp add: SplitMetaNamespaceKey_def)
    with that(1) show ?thesis
      by (simp add: update_def MetaNamespaceKeyFunc_def configurationNamespaceLister_Get_def Configurations_def)
  qed
  ultimately show ?thesis by (simp add: update_def MetaNamespaceKeyFunc_def)
qed

theorem update_ignored_witness:
  "update (ExplicitKey ''a/b/c'') sample_server = sample_server \<and>
   update (ExplicitKey ''shop/gone'') sample_server = sample_server"
proof -
  have "ts_Get (''shop'' @ ''/'' @ ''gone'') (cl_indexer (sv_configurationLister sample_server)) = None"
    by (simp add: sample_server_def NewServer_def NewConfigurationLister_def ts_Get_def)
  with update_ignored [of sample_server "''a/b/c''" "''shop''" "''gone''"] show ?thesis by simp
qed

text \<open>C28: a rule whose match is empty, or holds an entry that is not a well-formed label, configures
  every pod of every namespace: after the update each pod's node has a snapshot of this very
  configuration.\<close>

theorem invalid_match_selects_all:
  assumes "cached_configuration s conf" "r \<in> set (cs_Rules (conf_Spec conf))"
    and "rule_Match r = [] \<or> \<not> valid_set (rule_Match r)" and "p \<in> set (ts_List (sv_pods s))"
  shows "\<exists>r' \<in> set (cs_Rules (conf_Spec conf)).
    sc_snapshots (sv_snapshotCache (update (WithMeta (conf_Meta conf)) s)) (om_Name (pod_Meta p)) =
      Some (rule_snapshot (om_ResourceVersion (conf_Meta conf)) r')"
proof -
  have sel: "rule_selects (sv_pods s) (om_Name (pod_Meta p)) r"
    using assms(3,4) by (auto simp: rule_selects_def rule_pods_def selected_by_def list_ex_iff)
  obtain r' where r': "find_last (rule_selects (sv_pods s) (om_Name (pod_Meta p))) (cs_Rules (conf_Spec conf)) = Some r'"
    using assms(2) sel by (cases "find_last (rule_selects (sv_pods s) (om_Name (pod_Meta p))) (cs_Rules (conf_Spec conf))")
      (auto simp: find_last_None_iff)
  then have "r' \<in> set (cs_Rules (conf_Spec conf))" by (simp add: find_last_SomeD)
  with r' show ?thesis
    by (auto simp: update_cached [OF assms(1)] write_all_snapshots find_last_writes)
qed

definition open_configuration :: Configuration where
  "open_configuration = sample_configuration
     \<lparr>conf_Spec := \<lparr>cs_Rules = [(sample_rule ''cart'' ''db1'')\<lparr>rule_Match := []\<rparr>]\<rparr>\<rparr>"

definition open_server :: server where
  "open_server = sample_server
     \<lparr>sv_configurationLister := NewConfigurationLister
        ((NewThreadSafeStore [])\<lparr>ts_items := [(''shop/mesh'', open_configuration)]\<rparr>)\<rparr>"

theorem invalid_match_selects_all_witness:
  "sc_snapshots (sv_snapshotCache (update (WithMeta (conf_Meta open_configuration)) open_server)) ''cart-0'' \<noteq> None"
proof -
  have "cached_configuration open_server open_configuration"
    by (simp add: cached_configuration_def open_server_def open_configuration_def sample_configuration_def
        NewConfigurationLister_def plain_meta_def meta_key_def zero_ObjectMeta_def ts_Get_def)
  moreover have "sample_pod \<in> set (ts_List (sv_pods open_server))" "om_Name (pod_Meta sample_pod) = ''cart-0''"
    by (simp_all add: open_server_def sample_server_def NewServer_def ts_List_def sample_pod_def zero_ObjectMeta_def)
  ultimately show ?thesis
    using invalid_match_selects_all [of open_server open_configuration
        "(sample_rule ''cart'' ''db1'')\<lparr>rule_Match := []\<rparr>" sample_pod]
    by (auto simp: open_configuration_def)
qed

lemma server_snapshot:
  assumes "cached_configuration s conf" "find_last (rule_selects (sv_pods s) n) (cs_Rules (conf_Spec conf)) = Some r"
  shows "sc_snapshots (sv_snapshotCache (update (WithMeta (conf_Meta conf)) s)) n =
    Some (rule_snapshot (om_ResourceVersion (conf_Meta conf)) r)"
  by (simp add: update_cached [OF assms(1)] write_all_snapshots find_last_writes assms(2))

text \<open>C25: when two rules of one configuration select the same pod, its Envoy is sent the resources of
  the first rule while the cache ends up with those of the last one. Both have the configuration's
  resource version, so once the Envoy acknowledges it, its next request waits without an answer:
  the last rule stays unsent for as long as the configuration does not change.\<close>

theorem overlapping_rules_stuck:
  assumes "cached_configuration s conf" "sc_inv (sv_snapshotCache s)"
    and "open_watch (sv_snapshotCache s) n i w" "req_ResourceNames (rw_Request w) = []"
    and "versioned (req_TypeUrl (rw_Request w))"
    and "req_VersionInfo (rw_Request w) \<noteq> om_ResourceVersion (conf_Meta conf)"
    and "List.find (rule_selects (sv_pods s) n) (cs_Rules (conf_Spec conf)) = Some r1"
    and "find_last (rule_selects (sv_pods s) n) (cs_Rules (conf_Spec conf)) = Some r2"
    and "server_ID (req_NodeId ack) = Some n" "req_TypeUrl ack = req_TypeUrl (rw_Request w)"
    and "req_VersionInfo ack = om_ResourceVersion (conf_Meta conf)"
  shows "let v = om_ResourceVersion (conf_Meta conf);
             c = sv_snapshotCache (update (WithMeta (conf_Meta conf)) s)
         in sc_channels c (rw_Response w) = [answer (rule_snapshot v r1) (rw_Request w)] \<and>
            sc_snapshots c n = Some (rule_snapshot v r2) \<and>
            (\<exists>chan wid c'. CreateWatch server_ID ack c = Some ((chan, Some (n, wid)), c') \<and>
               sc_channels c' chan = [])"
proof -
  let ?v = "om_ResourceVersion (conf_Meta conf)"
  let ?ws = "rule_writes (sv_pods s) ?v (cs_Rules (conf_Spec conf))"
  let ?c = "sv_snapshotCache (update (WithMeta (conf_Meta conf)) s)"
  have c: "?c = write_all ?ws (sv_snapshotCache s)" by (simp add: update_cached [OF assms(1)])
  have "sc_channels ?c (rw_Response w) = [answer (rule_snapshot ?v r1) (rw_Request w)]"
    using write_all_first [OF assms(2,3), of ?ws "rule_snapshot ?v r1"] assms(4-7)
    by (simp add: c find_writes stale_def answerable_def)
  moreover have snap: "sc_snapshots ?c n = Some (rule_snapshot ?v r2)"
    by (rule server_snapshot [OF assms(1,8)])
  moreover have "\<exists>chan wid c'. CreateWatch server_ID ack ?c = Some ((chan, Some (n, wid)), c') \<and>
      sc_channels c' chan = []"
  proof -
    obtain chan cancel c' where cw: "CreateWatch server_ID ack ?c = Some ((chan, cancel), c')"
      using CreateWatch_total [of server_ID ack n ?c] assms(9) by blast
    have "\<forall>t. sc_snapshots ?c n = Some t \<longrightarrow> \<not> stale t ack"
      using snap assms(5,10,11) by (simp add: stale_def)
    from CreateWatch_waits [OF assms(9) this cw] cw show ?thesis by simp
  qed
  ultimately show ?thesis by (simp add: Let_def)
qed

text \<open>From a configuration to an Envoy. After the update, an Envoy whose node id names a selected
  pod and which asks for all listeners or clusters with an older version is answered at once, with
  the configuration's version, and with exactly the listener or the clusters of the last rule that
  selects the pod; for endpoints and routes, of which the program has none, the answer is empty.\<close>

theorem node_receives_its_rule:
  assumes "cached_configuration s conf"
    and "find_last (rule_selects (sv_pods s) n) (cs_Rules (conf_Spec conf)) = Some r"
    and "server_ID (req_NodeId req) = Some n" "req_ResourceNames req = []"
    and "req_VersionInfo req \<noteq> om_ResourceVersion (conf_Meta conf)" "versioned (req_TypeUrl req)"
    and "distinct (map cluster_Name (rule_Clusters r))"
  shows "\<exists>chan c'. CreateWatch server_ID req (sv_snapshotCache (update (WithMeta (conf_Meta conf)) s)) =
           Some ((chan, None), c') \<and>
         sc_channels c' chan =
           [\<lparr>resp_Request = req, resp_Version = om_ResourceVersion (conf_Meta conf),
             resp_Resources =
               (if req_TypeUrl req = ListenerType then buildListeners (rule_Filters r)
                else if req_TypeUrl req = ClusterType then buildClusters (rule_Clusters r)
                else [])\<rparr>]"
proof -
  let ?v = "om_ResourceVersion (conf_Meta conf)"
  let ?c = "sv_snapshotCache (update (WithMeta (conf_Meta conf)) s)"
  have snap: "sc_snapshots ?c n = Some (rule_snapshot ?v r)" by (rule server_snapshot [OF assms(1,2)])
  have stale: "stale (rule_snapshot ?v r) req" using assms(5,6) by (simp add: stale_def)
  obtain chan cancel c' where cw: "CreateWatch server_ID req ?c = Some ((chan, cancel), c')"
    using CreateWatch_total [of server_ID req n ?c] assms(3) by blast
  note A = CreateWatch_answers [OF assms(3) snap stale cw]
  have "sc_channels c' chan = [answer (rule_snapshot ?v r) req]"
    using A(1,4) assms(4) by (simp add: answerable_def)
  moreover have "answer (rule_snapshot ?v r) req =
      \<lparr>resp_Request = req, resp_Version = ?v,
             resp_Resources =
               (if req_TypeUrl req = ListenerType then buildListeners (rule_Filters r)
                else if req_TypeUrl req = ClusterType then buildClusters (rule_Clusters r)
                else [])\<rparr>"
    using assms(4,6) by (simp add: answer_def createResponse_def rule_snapshot_resources [OF assms(7)] rule_resources_def)
  ultimately show ?thesis using cw A(2) by simp
qed

definition cart_request :: "string \<Rightarrow> Request" where
  "cart_request version = \<lparr>req_NodeId = ''10.0.0.1@cart-0'', req_VersionInfo = version,
     req_ResourceNames = [], req_TypeUrl = ListenerType, req_ResponseNonce = []\<rparr>"

lemma cart_node: "server_ID (req_NodeId (cart_request version)) = Some ''cart-0''"
  by (simp add: cart_request_def server_ID_def)

lemma sample_last_rule:
  "find_last (rule_selects (sv_pods sample_server) ''cart-0'') (cs_Rules (conf_Spec sample_configuration)) =
     Some (sample_rule ''cart'' ''db2'')"
  "List.find (rule_selects (sv_pods sample_server) ''cart-0'') (cs_Rules (conf_Spec sample_configuration)) =
     Some (sample_rule ''cart'' ''db1'')"
  by (simp_all add: sample_configuration_def sample_selects)

lemma sample_version: "om_ResourceVersion (conf_Meta sample_configuration) = ''7''"
  by (simp add: sample_configuration_def zero_ObjectMeta_def)

theorem node_receives_its_rule_witness:
  "\<exists>chan c'. CreateWatch server_ID (cart_request ''6'')
       (sv_snapshotCache (update (WithMeta (conf_Meta sample_configuration)) sample_server)) = Some ((chan, None), c') \<and>
     map resp_Resources (sc_channels c' chan) = [buildListeners (rule_Filters (sample_rule ''cart'' ''db2''))]"
proof -
  have req: "req_ResourceNames (cart_request ''6'') = []" "req_TypeUrl (cart_request ''6'') = ListenerType"
    "req_VersionInfo (cart_request ''6'') = ''6''" by (simp_all add: cart_request_def)
  have "distinct (map cluster_Name (rule_Clusters (sample_rule ''cart'' ''db2'')))"
    by (simp add: sample_rule_def)
  with node_receives_its_rule [OF sample_configuration_cached sample_last_rule(1) cart_node req(1)]
  show ?thesis by (simp add: req sample_version versioned_def) force
qed

definition watching_server :: server where
  "watching_server = sample_server
     \<lparr>sv_snapshotCache := snd (the (CreateWatch server_ID (cart_request ''6'') (NewSnapshotCache True)))\<rparr>"

lemma watching_server_facts:
  "sc_inv (sv_snapshotCache watching_server)"
  "open_watch (sv_snapshotCache watching_server) ''cart-0'' 1 \<lparr>rw_Request = cart_request ''6'', rw_Response = 0\<rparr>"
  "sv_pods watching_server = sv_pods sample_server"
  "cached_configuration watching_server sample_configuration"
proof -
  obtain chan cancel c' where cw: "CreateWatch server_ID (cart_request ''6'') (NewSnapshotCache True) = Some ((chan, cancel), c')"
    using CreateWatch_total [of server_ID "cart_request ''6''", OF cart_node] by blast
  have c': "sv_snapshotCache watching_server = c'" by (simp add: watching_server_def cw)
  show "sc_inv (sv_snapshotCache watching_server)"
    using sc_inv_CreateWatch [OF sc_inv_New cw] by (simp add: c')
  have "\<forall>s. sc_snapshots (NewSnapshotCache True) ''cart-0'' = Some s \<longrightarrow> \<not> stale s (cart_request ''6'')"
    by (simp add: NewSnapshotCache_def)
  from CreateWatch_waits(3) [OF cart_node [of "''6''"] this cw]
  show "open_watch (sv_snapshotCache watching_server) ''cart-0'' 1 \<lparr>rw_Request = cart_request ''6'', rw_Response = 0\<rparr>"
    by (simp add: c' new_watch_def NewSnapshotCache_def)
  show "sv_pods watching_server = sv_pods sample_server"
    "cached_configuration watching_server sample_configuration"
    using sample_configuration_cached by (simp_all add: watching_server_def cached_configuration_def)
qed

theorem overlapping_rules_stuck_witness:
  "let c = sv_snapshotCache (update (WithMeta (conf_Meta sample_configuration)) watching_server)
   in sc_channels c 0 = [answer (rule_snapshot ''7'' (sample_rule ''cart'' ''db1'')) (cart_request ''6'')] \<and>
      sc_snapshots c ''cart-0'' = Some (rule_snapshot ''7'' (sample_rule ''cart'' ''db2'')) \<and>
      (\<exists>chan wid c'. CreateWatch server_ID (cart_request ''7'') c = Some ((chan, Some (''cart-0'', wid)), c') \<and>
         sc_channels c' chan = [])"
  using overlapping_rules_stuck [OF watching_server_facts(4,1,2), of "sample_rule ''cart'' ''db1''"
      "sample_rule ''cart'' ''db2''" "cart_request ''7''"]
  unfolding watching_server_facts(3) sample_last_rule cart_node sample_version
  by (simp add: cart_request_def versioned_def Let_def)

text \<open>C29: every snapshot the server builds is internally consistent in the sense of go-control-plane:
  its clusters are resolved by DNS and its listeners carry their routes, so they refer to no
  endpoint or route that the snapshot would have to contain.\<close>

theorem rule_snapshot_consistent: "Consistent (rule_snapshot version r)"
proof -
  have item: "\<forall>x \<in> set (index_resources acc rs). Q (snd x)"
    if "\<forall>x \<in> set acc. Q (snd x)" "\<forall>r \<in> set rs. Q r" for Q acc rs
    using that
  proof (induction acc rs rule: index_resources.induct)
    case (2 acc r rs)
    have "\<forall>x \<in> set (AList.update (GetResourceName r) r acc). Q (snd x)"
      using 2(2,3) by (auto dest: update_setD)
    with 2 show ?case by simp
  qed simp
  have none: "GetResourceReferences (IndexResourcesByName rs) = []"
    if "\<forall>r \<in> set rs. resource_references r = []" for rs
    using item [of "[]" "\<lambda>r. resource_references r = []" rs] that
    by (auto simp: GetResourceReferences_def IndexResourcesByName_def split_beta)
  have cl: "\<forall>x \<in> set (buildClusters cs). resource_references x = []" for cs
    by (auto simp: buildClusters_map build_cluster_def)
  have "rds_names f = []" if "f \<in> set (fc_Filters ch)" "ch = black_hole_chain \<or> ch = filter_chain x" for f ch x
    using that
    by (auto simp: rds_names_def black_hole_chain_def filter_chain_def MessageToStruct_def TcpProxy_def
        HttpConnectionManager_def split: if_splits)
  then have li: "\<forall>x \<in> set (buildListeners fs). resource_references x = []" for fs
    by (auto simp: buildListeners_def append_chains_map)
  show ?thesis
    using none [OF cl] none [OF li]
    by (simp add: Consistent_def rule_snapshot_def NewSnapshot_def NewResources_def superset_def Let_def)
      (simp add: IndexResourcesByName_def)
qed

end
