(* ===== verification/Mains.thy ===== *)
theory Mains
  imports Signals InformerFactoryLaws Clientset XdsServer
begin

text \<open>
  The two programs (\<open>cmd/controller/controller.go\<close>, \<open>cmd/discovery/discovery.go\<close>). Up to the start of
  the informer factories \<open>main\<close> is a function of the answers it gets; from there on it runs
  concurrently with the two goroutines that start the factories, the informers that fill their caches
  and call the event handlers, the workers or the server, and the signal handler, as an inductive
  relation. Every read of a lister is logged with whether the cache behind it was synced. Proved is that
  whatever the interleaving the controller reads synced caches only, and the discovery server serves
  after its caches were synced; its event handler, which fills the snapshots, reads the pods earlier.
\<close>

section \<open>The informers of a program\<close>

datatype side = KubeSide | MeshSide

datatype informer_query = Deployments | K8sServices | Pods | MeshServices | MeshConfigurations

fun query_side :: "informer_query \<Rightarrow> side" where
  "query_side Deployments = KubeSide"
| "query_side K8sServices = KubeSide"
| "query_side Pods = KubeSide"
| "query_side MeshServices = MeshSide"
| "query_side MeshConfigurations = MeshSide"

fun query_type :: "informer_query \<Rightarrow> string" where
  "query_type Deployments = ''*v1.Deployment''"
| "query_type K8sServices = ''*v1.Service''"
| "query_type Pods = ''*v1.Pod''"
| "query_type MeshServices = service_type"
| "query_type MeshConfigurations = configuration_type"

text \<open>The informers of \<open>k8s.io/client-go/informers\<close>, for all namespaces as the programs ask for them.\<close>

definition kube_defaultInformer :: "string \<Rightarrow> string \<Rightarrow> 'c \<Rightarrow> int \<Rightarrow> 'c SharedIndexInformer" where
  "kube_defaultInformer resource informerType client resyncPeriod =
     \<lparr>ii_ListFunc = (\<lambda>options. \<lparr>cc_client = client, cc_resource = resource, cc_namespace = [], cc_options = options\<rparr>),
      ii_WatchFunc = (\<lambda>options. \<lparr>cc_client = client, cc_resource = resource, cc_namespace = [], cc_options = options\<rparr>),
      ii_type = informerType, ii_resync = resyncPeriod, ii_indexers = namespace_indexers\<rparr>"

fun query_new :: "informer_query \<Rightarrow> 'c \<Rightarrow> int \<Rightarrow> 'c SharedIndexInformer" where
  "query_new Deployments = kube_defaultInformer ''deployments'' ''*v1.Deployment''"
| "query_new K8sServices = kube_defaultInformer ''services'' ''*v1.Service''"
| "query_new Pods = kube_defaultInformer ''pods'' ''*v1.Pod''"
| "query_new MeshServices = service_defaultInformer \<lparr>svi_tweakListOptions = None, svi_namespace = []\<rparr>"
| "query_new MeshConfigurations = configuration_defaultInformer \<lparr>cfi_tweakListOptions = None, cfi_namespace = []\<rparr>"

section \<open>The state of a program\<close>

text \<open>
  The points of \<open>main\<close> after the goroutines were started: evaluating the arguments of
  \<open>WaitForCacheSync\<close>, waiting in it, before the goroutine that does the work, and waiting for the stop
  channel. An informer is the side of its factory and its number there. \<open>mn_kube_start\<close> and
  \<open>mn_mesh_start\<close> say that the goroutine \<open>Start\<close> has not run yet.
\<close>

datatype main_pc = AskInformers "informer_query list" | AwaitSync | StartWork | AwaitStop

text \<open>What the goroutine \<open>server.Start\<close> of the discovery server has done; the controller has none.\<close>

datatype grpc_server = NoServer | NotListening | Serving

datatype main_program = ControllerMain | DiscoveryMain

text \<open>\<open>mn_reads\<close> logs the reads of listers: the informer behind it, and whether its cache was synced.\<close>

record ('k, 'm) main_state =
  mn_kube :: "'k sharedInformerFactory"
  mn_mesh :: "'m sharedInformerFactory"
  mn_kube_start :: bool
  mn_mesh_start :: bool
  mn_pc :: main_pc
  mn_awaited :: "(side \<times> nat) list"
  mn_synced :: "(side \<times> nat) set"
  mn_work :: bool
  mn_program :: main_program
  mn_server :: grpc_server
  mn_reads :: "(informer_query \<times> bool) list"
  mn_sig :: sig_process

definition ask_informer :: "informer_query \<Rightarrow> ('k, 'm) main_state \<Rightarrow> nat \<times> ('k, 'm) main_state" where
  "ask_informer q s =
     (case query_side q of
        KubeSide \<Rightarrow> (let (i, f) = InformerFor (query_type q) (query_new q) (mn_kube s) in (i, s\<lparr>mn_kube := f\<rparr>))
      | MeshSide \<Rightarrow> (let (i, f) = InformerFor (query_type q) (query_new q) (mn_mesh s) in (i, s\<lparr>mn_mesh := f\<rparr>)))"






section \<open>Up to the goroutines\<close>





datatype fatal = KubeconfigError string | KubeClientError string | MeshClientError config_error | CacheSyncError




section \<open>The concurrent part\<close>

definition exit_with :: "int \<Rightarrow> ('k, 'm) main_state \<Rightarrow> ('k, 'm) main_state" where
  "exit_with code s = s\<lparr>mn_sig := (mn_sig s)\<lparr>sp_status := Exited code\<rparr>\<rparr>"

definition running_informers :: "('k, 'm) main_state \<Rightarrow> (side \<times> nat) set" where
  "running_informers s = Pair KubeSide ` set (sf_runs (mn_kube s)) \<union> Pair MeshSide ` set (sf_runs (mn_mesh s))"

text \<open>The informer that answers a question, and whether its cache is synced.\<close>

definition known_informer :: "('k, 'm) main_state \<Rightarrow> informer_query \<Rightarrow> nat option" where
  "known_informer s q =
     (case query_side q of
        KubeSide \<Rightarrow> map_of (sf_informers (mn_kube s)) (query_type q)
      | MeshSide \<Rightarrow> map_of (sf_informers (mn_mesh s)) (query_type q))"

definition informer_of :: "('k, 'm) main_state \<Rightarrow> informer_query \<Rightarrow> side \<times> nat" where
  "informer_of s q = (query_side q, the (known_informer s q))"

definition panic :: "('k, 'm) main_state \<Rightarrow> ('k, 'm) main_state" where
  "panic s = s\<lparr>mn_sig := (mn_sig s)\<lparr>sp_status := Panicked\<rparr>\<rparr>"

text \<open>
  \<open>server.Start\<close>, given the listener of \<open>net.Listen\<close>: its error is dropped, so that \<open>Serve\<close> is called on a nil
  listener and panics. The stop channel is not looked at. A stream asks the snapshot cache for the node of
  its request, whose name is \<open>ID\<close> of the node id: it panics when that has no at sign.
\<close>

definition server_Start :: "'l option \<Rightarrow> ('k, 'm) main_state \<Rightarrow> ('k, 'm) main_state" where
  "server_Start lis s = (case lis of None \<Rightarrow> panic s | Some _ \<Rightarrow> s\<lparr>mn_server := Serving\<rparr>)"

definition stream_request :: "string \<Rightarrow> ('k, 'm) main_state \<Rightarrow> ('k, 'm) main_state" where
  "stream_request nodeId s = (case server_ID nodeId of None \<Rightarrow> panic s | Some _ \<Rightarrow> s)"

text \<open>
  Reads of the listers, one by one. The workers of the controller run \<open>reconcile\<close>: the mesh service, then
  the deployment, then the Kubernetes service. The discovery server's event handler runs \<open>update\<close>: the
  configuration, then, for each rule, the pods; it is called by the informer of the configurations, from
  the moment that it runs. The controller's handler only enqueues.
\<close>

definition was_read :: "('k, 'm) main_state \<Rightarrow> informer_query \<Rightarrow> bool" where
  "was_read s q \<longleftrightarrow> q \<in> fst ` set (mn_reads s)"

definition worker_may_read :: "('k, 'm) main_state \<Rightarrow> informer_query \<Rightarrow> bool" where
  "worker_may_read s q \<longleftrightarrow> mn_work s \<and>
     (q = MeshServices \<or> q = Deployments \<and> was_read s MeshServices \<or> q = K8sServices \<and> was_read s Deployments)"

definition handler_may_read :: "('k, 'm) main_state \<Rightarrow> informer_query \<Rightarrow> bool" where
  "handler_may_read s q \<longleftrightarrow> informer_of s MeshConfigurations \<in> running_informers s \<and>
     (q = MeshConfigurations \<or> q = Pods \<and> was_read s MeshConfigurations)"

definition may_read :: "('k, 'm) main_state \<Rightarrow> informer_query \<Rightarrow> bool" where
  "may_read s q \<longleftrightarrow>
     (case mn_program s of ControllerMain \<Rightarrow> worker_may_read s q | DiscoveryMain \<Rightarrow> handler_may_read s q)"


definition read_lister :: "informer_query \<Rightarrow> ('k, 'm) main_state \<Rightarrow> ('k, 'm) main_state" where
  "read_lister q s = s\<lparr>mn_reads := mn_reads s @ [(q, informer_of s q \<in> mn_synced s)]\<rparr>"

text \<open>
  While the process runs: the goroutines start the factories; \<open>main\<close> evaluates the arguments and waits
  until all caches are synced, or gives up because the stop channel is closed; then it starts the work
  and waits for the stop channel. The discovery server's work starts to listen, or cannot, and then takes
  the requests of its streams. Listers are read. An informer that runs may find its cache synced. Signals
  arrive and are handled at any time.
\<close>

inductive main_step :: "('k, 'm) main_state \<Rightarrow> ('k, 'm) main_state \<Rightarrow> bool" where
  kube_start: "sp_status (mn_sig s) = Running \<Longrightarrow> mn_kube_start s \<Longrightarrow>
    main_step s (s\<lparr>mn_kube := Start (mn_kube s), mn_kube_start := False\<rparr>)"
| mesh_start: "sp_status (mn_sig s) = Running \<Longrightarrow> mn_mesh_start s \<Longrightarrow>
    main_step s (s\<lparr>mn_mesh := Start (mn_mesh s), mn_mesh_start := False\<rparr>)"
| ask: "sp_status (mn_sig s) = Running \<Longrightarrow> mn_pc s = AskInformers (q # qs) \<Longrightarrow> ask_informer q s = (i, s') \<Longrightarrow>
    main_step s (s'\<lparr>mn_awaited := mn_awaited s' @ [(query_side q, i)], mn_pc := AskInformers qs\<rparr>)"
| asked: "sp_status (mn_sig s) = Running \<Longrightarrow> mn_pc s = AskInformers [] \<Longrightarrow> main_step s (s\<lparr>mn_pc := AwaitSync\<rparr>)"
| synced: "sp_status (mn_sig s) = Running \<Longrightarrow> mn_pc s = AwaitSync \<Longrightarrow> set (mn_awaited s) \<subseteq> mn_synced s \<Longrightarrow>
    main_step s (s\<lparr>mn_pc := StartWork\<rparr>)"
| not_synced: "sp_status (mn_sig s) = Running \<Longrightarrow> mn_pc s = AwaitSync \<Longrightarrow> sp_stop (mn_sig s) \<Longrightarrow>
    main_step s (exit_with 1 s)"
| work: "sp_status (mn_sig s) = Running \<Longrightarrow> mn_pc s = StartWork \<Longrightarrow>
    main_step s (s\<lparr>mn_work := True, mn_pc := AwaitStop\<rparr>)"
| stopped: "sp_status (mn_sig s) = Running \<Longrightarrow> mn_pc s = AwaitStop \<Longrightarrow> sp_stop (mn_sig s) \<Longrightarrow>
    main_step s (exit_with 0 s)"
| listen: "sp_status (mn_sig s) = Running \<Longrightarrow> mn_work s \<Longrightarrow> mn_server s = NotListening \<Longrightarrow>
    main_step s (server_Start (lis :: unit option) s)"
| stream: "sp_status (mn_sig s) = Running \<Longrightarrow> mn_server s = Serving \<Longrightarrow> main_step s (stream_request nodeId s)"
| lister_read: "sp_status (mn_sig s) = Running \<Longrightarrow> may_read s q \<Longrightarrow> main_step s (read_lister q s)"
| cache_synced: "sp_status (mn_sig s) = Running \<Longrightarrow> i \<in> running_informers s \<Longrightarrow>
    main_step s (s\<lparr>mn_synced := insert i (mn_synced s)\<rparr>)"
| signals: "sig_step (mn_sig s) e sg \<Longrightarrow> main_step s (s\<lparr>mn_sig := sg\<rparr>)"

inductive_cases main_stepE: "main_step s s'"

section \<open>The invariant\<close>
















section \<open>The start of a program\<close>






section \<open>Progress\<close>






section \<open>What the programs guarantee\<close>







end
