(* ===== verification/IndexQueries.thy ===== *)
theory IndexQueries
  imports Listers "HOL-Library.List_Lexorder" "HOL-Library.Char_ord"
begin

text \<open>
  The rest of an indexer (\<open>thread_safe_store.go\<close> and \<open>store.go\<close> of \<open>client-go/tools/cache\<close>): reading by
  an index, adding indexers, and the methods of \<open>cache\<close> that pass on to the store. Proved is that
  reading by an index returns the objects a scan of the store would, and that indexers may only be
  added where that stays true.
\<close>

section \<open>Reading by an index\<close>

text \<open>\<open>set.List()\<close> returns the members in order; an entry without an object would be a nil item.\<close>

definition set_List :: "string list \<Rightarrow> string list" where
  "set_List s = sort (remdups s)"

definition ts_IndexKeys :: "string \<Rightarrow> string \<Rightarrow> 'o threadSafeMap \<Rightarrow> string + string list" where
  "ts_IndexKeys indexName indexKey c =
     (case map_of (ts_indexers c) indexName of
        None \<Rightarrow> Inl ''index does not exist''
      | Some indexFunc \<Rightarrow> Inr (set_List (index_lookup (ts_indices c) indexName indexKey)))"

definition ts_ByIndex :: "string \<Rightarrow> string \<Rightarrow> 'o threadSafeMap \<Rightarrow> string + 'o option list" where
  "ts_ByIndex indexName indexKey c =
     (case map_of (ts_indexers c) indexName of
        None \<Rightarrow> Inl ''index does not exist''
      | Some indexFunc \<Rightarrow>
          Inr (map (map_of (ts_items c)) (set_List (index_lookup (ts_indices c) indexName indexKey))))"

text \<open>The order of the values of an index is that of a Go map, so they are a set.\<close>

definition ts_ListIndexFuncValues :: "string \<Rightarrow> 'o threadSafeMap \<Rightarrow> string set" where
  "ts_ListIndexFuncValues indexName c =
     (case ts_indices c indexName of None \<Rightarrow> {} | Some index \<Rightarrow> dom index)"

definition ts_ListKeys :: "'o threadSafeMap \<Rightarrow> string list" where
  "ts_ListKeys c = map fst (ts_items c)"

definition ts_GetIndexers :: "'o threadSafeMap \<Rightarrow> (string \<times> IndexFunc) list" where
  "ts_GetIndexers c = ts_indexers c"

definition ts_AddIndexers ::
  "(string \<times> IndexFunc) list \<Rightarrow> 'o threadSafeMap \<Rightarrow> string option \<times> 'o threadSafeMap" where
  "ts_AddIndexers newIndexers c =
     (if ts_items c \<noteq> [] then (Some ''cannot add indexers to running index'', c)
      else if list_ex (\<lambda>name. map_of (ts_indexers c) name \<noteq> None) (map fst newIndexers)
           then (Some ''indexer conflict'', c)
      else (None, c\<lparr>ts_indexers := fold (\<lambda>(k, v) m. AList.update k v m) newIndexers (ts_indexers c)\<rparr>))"

definition ts_Resync :: "'o threadSafeMap \<Rightarrow> string option \<times> 'o threadSafeMap" where
  "ts_Resync c = (None, c)"

section \<open>The cache passes them on\<close>

definition cache_List :: "'o cache \<Rightarrow> 'o list" where
  "cache_List c = ts_List (cacheStorage c)"

definition cache_ListKeys :: "'o cache \<Rightarrow> string list" where
  "cache_ListKeys c = ts_ListKeys (cacheStorage c)"

definition cache_GetIndexers :: "'o cache \<Rightarrow> (string \<times> IndexFunc) list" where
  "cache_GetIndexers c = ts_GetIndexers (cacheStorage c)"

definition cache_Index :: "string \<Rightarrow> ObjectMeta \<Rightarrow> 'o cache \<Rightarrow> string + 'o option list" where
  "cache_Index indexName obj c = ts_Index indexName obj (cacheStorage c)"

definition cache_IndexKeys :: "string \<Rightarrow> string \<Rightarrow> 'o cache \<Rightarrow> string + string list" where
  "cache_IndexKeys indexName indexKey c = ts_IndexKeys indexName indexKey (cacheStorage c)"

definition cache_ListIndexFuncValues :: "string \<Rightarrow> 'o cache \<Rightarrow> string set" where
  "cache_ListIndexFuncValues indexName c = ts_ListIndexFuncValues indexName (cacheStorage c)"

definition cache_ByIndex :: "string \<Rightarrow> string \<Rightarrow> 'o cache \<Rightarrow> string + 'o option list" where
  "cache_ByIndex indexName indexKey c = ts_ByIndex indexName indexKey (cacheStorage c)"

definition cache_AddIndexers :: "(string \<times> IndexFunc) list \<Rightarrow> 'o cache \<Rightarrow> string option \<times> 'o cache" where
  "cache_AddIndexers newIndexers c =
     apsnd (\<lambda>s. c\<lparr>cacheStorage := s\<rparr>) (ts_AddIndexers newIndexers (cacheStorage c))"

definition cache_Get :: "'o \<Rightarrow> 'o cache \<Rightarrow> string + 'o option" where
  "cache_Get obj c = (case keyFunc c obj of Inl err \<Rightarrow> Inl err | Inr key \<Rightarrow> Inr (cache_GetByKey key c))"

definition cache_Resync :: "'o cache \<Rightarrow> string option \<times> 'o cache" where
  "cache_Resync c = apsnd (\<lambda>s. c\<lparr>cacheStorage := s\<rparr>) (ts_Resync (cacheStorage c))"

definition NewStore :: "('o \<Rightarrow> string + string) \<Rightarrow> 'o cache" where
  "NewStore kf = \<lparr>cacheStorage = NewThreadSafeStore [], keyFunc = kf\<rparr>"

definition NewIndexer :: "('o \<Rightarrow> string + string) \<Rightarrow> (string \<times> IndexFunc) list \<Rightarrow> 'o cache" where
  "NewIndexer kf indexers = \<lparr>cacheStorage = NewThreadSafeStore indexers, keyFunc = kf\<rparr>"

section \<open>An index answers what a scan answers\<close>

lemma set_List_simps [simp]: "set (set_List s) = set s" "distinct (set_List s)" "sorted (set_List s)"
  by (simp_all add: set_List_def)

lemma index_lookup_keys:
  assumes "store_inv meta c" "map_of (ts_indexers c) name = Some f"
  shows "set (index_lookup (ts_indices c) name v) =
    {k. \<exists>x. map_of (ts_items c) k = Some x \<and> indexed_as f (meta x) v}"
  using indices_forD [of "ts_indexers c" meta "map_of (ts_items c)" "ts_indices c" name f v] assms
  by (auto simp: store_inv_def index_keys_def dest: map_of_SomeD)

text \<open>Read by one value of an index: the stored objects that have the value, by key.\<close>

lemma ByIndex_scan:
  assumes "store_inv meta c" "map_of (ts_indexers c) name = Some f"
  shows "\<exists>xs. ts_ByIndex name v c = Inr (map Some xs) \<and>
    mset xs = mset (filter (\<lambda>x. indexed_as f (meta x) v) (ts_List c))"
proof -
  have "go_map (ts_items c)" using assms(1) by (simp add: store_inv_def)
  from mset_map_of_keys [OF this, of "set_List (index_lookup (ts_indices c) name v)" "\<lambda>x. indexed_as f (meta x) v"]
  show ?thesis using index_lookup_keys [OF assms, of v] assms(2) by (auto simp: ts_ByIndex_def ts_List_def)
qed

lemma IndexKeys_scan:
  assumes "store_inv meta c" "map_of (ts_indexers c) name = Some f"
  shows "\<exists>ks. ts_IndexKeys name v c = Inr ks \<and> sorted ks \<and> distinct ks \<and>
    set ks = {k. \<exists>x. ts_Get k c = Some x \<and> indexed_as f (meta x) v}"
  using index_lookup_keys [OF assms, of v] assms(2) by (auto simp: ts_IndexKeys_def ts_Get_def)

lemma ByIndex_IndexKeys:
  "ts_ByIndex name v c = map_sum id (map (\<lambda>k. ts_Get k c)) (ts_IndexKeys name v c)"
  by (simp add: ts_ByIndex_def ts_IndexKeys_def ts_Get_def split: option.split)

text \<open>Read by a probe: the stored objects that share a value of the index with it, each once.\<close>

lemma set_fold_fold_insert:
  "set (fold (\<lambda>v acc. fold List.insert (g v) acc) vs acc) = (\<Union>v \<in> set vs. set (g v)) \<union> set acc"
  by (induction vs arbitrary: acc) (auto simp: set_fold_insert)

lemma distinct_fold_fold_insert:
  "distinct acc \<Longrightarrow> distinct (fold (\<lambda>v acc. fold List.insert (g v) acc) vs acc)"
  by (induction vs arbitrary: acc) (auto simp: distinct_fold_insert)

lemma Index_scan:
  assumes "store_inv meta c" "map_of (ts_indexers c) name = Some f" "f m = Inr vs"
  shows "\<exists>xs. ts_Index name m c = Inr (map Some xs) \<and>
    mset xs = mset (filter (\<lambda>x. \<exists>v \<in> set vs. indexed_as f (meta x) v) (ts_List c))"
proof -
  let ?ks = "fold (\<lambda>v acc. fold List.insert (index_lookup (ts_indices c) name v) acc) vs []"
  have go: "go_map (ts_items c)" using assms(1) by (simp add: store_inv_def)
  have "set ?ks = {k. \<exists>x. map_of (ts_items c) k = Some x \<and> (\<exists>v \<in> set vs. indexed_as f (meta x) v)}"
    unfolding set_fold_fold_insert using index_lookup_keys [OF assms(1,2)] by auto
  from mset_map_of_keys [OF go _ this] distinct_fold_fold_insert [of "[]"] obtain xs where
    "map (map_of (ts_items c)) ?ks = map Some xs"
    "mset xs = mset (filter (\<lambda>x. \<exists>v \<in> set vs. indexed_as f (meta x) v) (ts_List c))"
    by (auto simp: ts_List_def)
  then show ?thesis using assms(2,3) by (simp add: ts_Index_def)
qed

section \<open>Adding indexers\<close>

text \<open>Only the names of indexers have an index.\<close>

definition indices_named :: "'o threadSafeMap \<Rightarrow> bool" where
  "indices_named c \<longleftrightarrow> dom (ts_indices c) \<subseteq> fst ` set (ts_indexers c)"

lemma indices_named_New: "indices_named (NewThreadSafeStore fs)"
  by (simp add: indices_named_def NewThreadSafeStore_def)

lemma deleteFromIndices_dom: "deleteFromIndices fs m key ind = Some ind' \<Longrightarrow> dom ind' = dom ind"
proof (induction fs arbitrary: ind)
  case (Cons nf fs)
  obtain name f where nf: "nf = (name, f)" by force
  with Cons.prems obtain vs where
    "deleteFromIndices fs m key
       (case ind name of None \<Rightarrow> ind | Some index \<Rightarrow> ind(name \<mapsto> index_remove vs key index)) = Some ind'"
    by (auto split: sum.splits)
  from Cons.IH [OF this] show ?case by (cases "ind name") (auto simp: dom_def split: if_splits)
qed simp

lemma addToIndices_dom: "addToIndices fs m key ind = Some ind' \<Longrightarrow> dom ind' = dom ind \<union> fst ` set fs"
proof (induction fs arbitrary: ind)
  case (Cons nf fs)
  obtain name f where nf: "nf = (name, f)" by force
  with Cons.prems obtain idx where "addToIndices fs m key (ind(name \<mapsto> idx)) = Some ind'"
    by (auto split: sum.splits)
  from Cons.IH [OF this] show ?case by (simp add: nf dom_fun_upd del: fun_upd_apply)
qed simp

lemma updateIndices_dom: "updateIndices fs old m key ind = Some ind' \<Longrightarrow> dom ind' = dom ind \<union> fst ` set fs"
  by (auto simp: updateIndices_def deleteFromIndices_dom addToIndices_dom split: option.splits)

lemma rebuild_indices_dom:
  "rebuild_indices fs meta items ind = Some ind' \<Longrightarrow> dom ind' \<subseteq> dom ind \<union> fst ` set fs"
proof (induction items arbitrary: ind)
  case (Cons item items)
  obtain key x where "item = (key, x)" by force
  with Cons.prems obtain ind1 where
    "updateIndices fs None (meta x) key ind = Some ind1" "rebuild_indices fs meta items ind1 = Some ind'"
    by (auto split: option.splits)
  with Cons.IH [of ind1] updateIndices_dom show ?case by blast
qed simp

lemma indices_named_ops:
  assumes "indices_named c"
  shows "ts_Add meta key obj c = Some c' \<Longrightarrow> indices_named c'"
    and "ts_Update meta key obj c = Some c' \<Longrightarrow> indices_named c'"
    and "ts_Delete meta key c = Some c' \<Longrightarrow> indices_named c'"
    and "ts_Replace meta items c = Some c' \<Longrightarrow> indices_named c'"
proof -
  have upd: "x \<in> fst ` set (ts_indexers c)"
    if "updateIndices (ts_indexers c) old m key (ts_indices c) = Some ind" "ind x = Some y" for old m key ind x y
    using updateIndices_dom [OF that(1)] domI [of ind x, OF that(2)] assms by (auto simp: indices_named_def)
  show "ts_Add meta key obj c = Some c' \<Longrightarrow> indices_named c'"
    and "ts_Update meta key obj c = Some c' \<Longrightarrow> indices_named c'"
    by (auto simp: indices_named_def ts_Add_def ts_Update_def Let_def dest: upd)
  have del: "x \<in> fst ` set (ts_indexers c)"
    if "deleteFromIndices (ts_indexers c) m key (ts_indices c) = Some ind" "ind x = Some y" for m key ind x y
    using deleteFromIndices_dom [OF that(1)] domI [of ind x, OF that(2)] assms by (auto simp: indices_named_def)
  show "indices_named c'" if "ts_Delete meta key c = Some c'"
    using that assms
    by (cases "map_of (ts_items c) key") (auto simp: indices_named_def ts_Delete_def dest: del)
  show "indices_named c'" if "ts_Replace meta items c = Some c'"
  proof -
    from that obtain ind where "rebuild_indices (ts_indexers c) meta items Map.empty = Some ind"
      and "c' = c\<lparr>ts_items := items, ts_indices := ind\<rparr>"
      by (auto simp: ts_Replace_def)
    with rebuild_indices_dom show ?thesis by (fastforce simp: indices_named_def)
  qed
qed

text \<open>
  Indexers are added to an empty store under new names only, and the indices then still say what the
  store holds; otherwise nothing changes.
\<close>

lemma fold_update_fresh:
  "go_map xs \<Longrightarrow> fst ` set xs \<subseteq> fst ` set (fold (\<lambda>(k, v) m. AList.update k v m) new xs) \<and>
     go_map (fold (\<lambda>(k, v) m. AList.update k v m) new xs)"
proof (induction new arbitrary: xs)
  case (Cons kv new)
  obtain k v where kv: "kv = (k, v)" by force
  have "go_map (AList.update k v xs)" using Cons.prems by (simp add: go_map_def distinct_update)
  moreover have "fst ` set xs \<subseteq> fst ` set (AList.update k v xs)"
    using dom_update [of k v xs] by auto
  ultimately show ?case using Cons.IH [of "AList.update k v xs"] by (auto simp: kv)
qed simp

lemma AddIndexers_outcome:
  assumes "store_inv meta c" "ts_AddIndexers new c = (err, c')"
  shows "ts_items c' = ts_items c \<and> (err \<noteq> None \<longrightarrow> c' = c) \<and>
    (err = None \<longleftrightarrow> ts_items c = [] \<and> fst ` set new \<inter> fst ` set (ts_indexers c) = {})"
proof -
  have "list_ex (\<lambda>name. map_of (ts_indexers c) name \<noteq> None) (map fst new) \<longleftrightarrow>
      fst ` set new \<inter> fst ` set (ts_indexers c) \<noteq> {}"
    by (auto simp: list_ex_iff map_of_eq_None_iff)
  with assms(2) show ?thesis by (auto simp: ts_AddIndexers_def split: if_splits)
qed

lemma empty_indices:
  assumes "store_inv meta c" "indices_named c" "ts_items c = []"
  shows "index_keys (ts_indices c) name v = {}"
proof (cases "name \<in> fst ` set (ts_indexers c)")
  case True
  with assms(1,3) show ?thesis by (force simp: store_inv_def indices_for_def)
next
  case False
  with assms(2) have "ts_indices c name = None" by (auto simp: indices_named_def)
  then show ?thesis by (simp add: index_keys_def index_lookup_def)
qed

lemma store_inv_AddIndexers:
  assumes "store_inv meta c" "indices_named c" "ts_AddIndexers new c = (err, c')"
  shows "store_inv meta c' \<and> indices_named c'"
proof (cases "err = None")
  case True
  with AddIndexers_outcome [OF assms(1,3)] assms(3) have e: "ts_items c = []"
    and c': "c' = c\<lparr>ts_indexers := fold (\<lambda>(k, v) m. AList.update k v m) new (ts_indexers c)\<rparr>"
    by (auto simp: ts_AddIndexers_def split: if_splits)
  have "go_map (ts_indexers c)" using assms(1) by (simp add: store_inv_def)
  note fresh = fold_update_fresh [OF this, of new]
  have "store_inv meta c'"
    using fresh empty_indices [OF assms(1,2) e] by (auto simp: store_inv_def c' e indices_for_def)
  moreover have "indices_named c'" using subset_trans [OF assms(2) [unfolded indices_named_def] conjunct1 [OF fresh]]
    by (simp add: indices_named_def c')
  ultimately show ?thesis by blast
next
  case False
  with AddIndexers_outcome [OF assms(1,3)] assms(1,2) show ?thesis by blast
qed

end
