(* ===== verification/SharedInformer.thy ===== *)
theory SharedInformer
  imports DeltaFifo
begin

text \<open>
  A shared informer (\<open>vendor/k8s.io/client-go/tools/cache\<close>: \<open>shared_informer.go\<close>, \<open>reflector.go\<close>,
  \<open>controller.go\<close>): the reflector that lists and watches, the delta queue, the loop that brings its deltas
  into the indexer, and the listeners that the handlers are called from. Its goroutines are steps over
  one state; what the API server answers, the time and the moment of each step are inputs. The objects
  are of one type with the metadata \<open>meta\<close>, so keys always exist. Durations and points in time are
  integers. The detector of cache mutations, metrics and logging are left out.
\<close>

section \<open>Listeners\<close>

datatype 'o notification =
    UpdateNotification 'o 'o | AddNotification 'o | DeleteNotification "'o deleted_object"

text \<open>
  \<open>pl_notification\<close> and \<open>pl_pendingNotifications\<close> are the variable of the loop \<open>pop\<close> and its ring buffer.
\<close>

record 'o processorListener =
  pl_notification :: "'o notification option"
  pl_pendingNotifications :: "'o notification list"
  pl_requestedResyncPeriod :: int
  pl_resyncPeriod :: int
  pl_nextResync :: int

definition determineNextResync :: "int \<Rightarrow> 'o processorListener \<Rightarrow> 'o processorListener" where
  "determineNextResync now p = p\<lparr>pl_nextResync := now + pl_resyncPeriod p\<rparr>"

definition newProcessListener :: "int \<Rightarrow> int \<Rightarrow> int \<Rightarrow> 'o processorListener" where
  "newProcessListener requestedResyncPeriod resyncPeriod now =
     determineNextResync now
       \<lparr>pl_notification = None, pl_pendingNotifications = [],
        pl_requestedResyncPeriod = requestedResyncPeriod, pl_resyncPeriod = resyncPeriod, pl_nextResync = 0\<rparr>"

definition listener_shouldResync :: "int \<Rightarrow> 'o processorListener \<Rightarrow> bool" where
  "listener_shouldResync now p \<longleftrightarrow>
     (if pl_resyncPeriod p = 0 then False else now > pl_nextResync p \<or> now = pl_nextResync p)"

definition setResyncPeriod :: "int \<Rightarrow> 'o processorListener \<Rightarrow> 'o processorListener" where
  "setResyncPeriod resyncPeriod p = p\<lparr>pl_resyncPeriod := resyncPeriod\<rparr>"

text \<open>The two cases of the loop \<open>pop\<close>: taking a notification from \<open>add\<close>, and handing one to \<open>run\<close>.\<close>

definition listener_add :: "'o notification \<Rightarrow> 'o processorListener \<Rightarrow> 'o processorListener" where
  "listener_add notificationToAdd p =
     (case pl_notification p of
        None \<Rightarrow> p\<lparr>pl_notification := Some notificationToAdd\<rparr>
      | Some _ \<Rightarrow> p\<lparr>pl_pendingNotifications := pl_pendingNotifications p @ [notificationToAdd]\<rparr>)"

definition listener_pop :: "'o processorListener \<Rightarrow> ('o notification \<times> 'o processorListener) option" where
  "listener_pop p =
     (case pl_notification p of
        None \<Rightarrow> None
      | Some notification \<Rightarrow>
          Some (notification,
            (case pl_pendingNotifications p of
               [] \<Rightarrow> p\<lparr>pl_notification := None\<rparr>
             | n # ns \<Rightarrow> p\<lparr>pl_notification := Some n, pl_pendingNotifications := ns\<rparr>)))"

section \<open>The processor\<close>

text \<open>Listeners are pointers: \<open>pr_syncingListeners\<close> holds positions in \<open>pr_listeners\<close>.\<close>

record 'o sharedProcessor =
  pr_listeners :: "'o processorListener list"
  pr_syncingListeners :: "nat list"

definition addListener :: "'o processorListener \<Rightarrow> 'o sharedProcessor \<Rightarrow> 'o sharedProcessor" where
  "addListener listener p =
     p\<lparr>pr_listeners := pr_listeners p @ [listener],
       pr_syncingListeners := pr_syncingListeners p @ [length (pr_listeners p)]\<rparr>"

definition distribute :: "'o notification \<Rightarrow> bool \<Rightarrow> 'o sharedProcessor \<Rightarrow> 'o sharedProcessor" where
  "distribute obj sync p =
     p\<lparr>pr_listeners :=
         fold (\<lambda>i ls. ls[i := listener_add obj (ls ! i)])
           (if sync then pr_syncingListeners p else [0..<length (pr_listeners p)]) (pr_listeners p)\<rparr>"

definition shouldResync :: "int \<Rightarrow> 'o sharedProcessor \<Rightarrow> bool \<times> 'o sharedProcessor" where
  "shouldResync now p =
     (let due = filter (\<lambda>i. listener_shouldResync now (pr_listeners p ! i)) [0..<length (pr_listeners p)]
      in (due \<noteq> [],
          p\<lparr>pr_syncingListeners := due,
            pr_listeners := fold (\<lambda>i ls. ls[i := determineNextResync now (ls ! i)]) due (pr_listeners p)\<rparr>))"

definition determineResyncPeriod :: "int \<Rightarrow> int \<Rightarrow> int" where
  "determineResyncPeriod desired check =
     (if desired = 0 then desired else if check = 0 then 0 else if desired < check then check else desired)"

definition resyncCheckPeriodChanged :: "int \<Rightarrow> 'o sharedProcessor \<Rightarrow> 'o sharedProcessor" where
  "resyncCheckPeriodChanged resyncCheckPeriod p =
     p\<lparr>pr_listeners := map (\<lambda>l. setResyncPeriod
         (determineResyncPeriod (pl_requestedResyncPeriod l) resyncCheckPeriod) l) (pr_listeners p)\<rparr>"

section \<open>The informer\<close>

record 'o sharedIndexInformer =
  ii_indexer :: "'o threadSafeMap"
  ii_processor :: "'o sharedProcessor"
  ii_resyncCheckPeriod :: int
  ii_defaultEventHandlerResyncPeriod :: int
  ii_started :: bool
  ii_stopped :: bool

definition NewSharedIndexInformer :: "int \<Rightarrow> (string \<times> IndexFunc) list \<Rightarrow> 'o sharedIndexInformer" where
  "NewSharedIndexInformer defaultEventHandlerResyncPeriod indexers =
     \<lparr>ii_indexer = NewThreadSafeStore indexers,
      ii_processor = \<lparr>pr_listeners = [], pr_syncingListeners = []\<rparr>,
      ii_resyncCheckPeriod = defaultEventHandlerResyncPeriod,
      ii_defaultEventHandlerResyncPeriod = defaultEventHandlerResyncPeriod,
      ii_started = False, ii_stopped = False\<rparr>"

definition informer_AddIndexers ::
  "(string \<times> IndexFunc) list \<Rightarrow> 'o sharedIndexInformer \<Rightarrow> string option \<times> 'o sharedIndexInformer" where
  "informer_AddIndexers indexers s =
     (if ii_started s then (Some ''informer has already started'', s)
      else apsnd (\<lambda>ix. s\<lparr>ii_indexer := ix\<rparr>) (ts_AddIndexers indexers (ii_indexer s)))"

definition minimumResyncPeriod :: int where
  "minimumResyncPeriod = 1000000000"

definition AddEventHandlerWithResyncPeriod ::
  "int \<Rightarrow> int \<Rightarrow> 'o sharedIndexInformer \<Rightarrow> 'o sharedIndexInformer" where
  "AddEventHandlerWithResyncPeriod now resyncPeriod s =
     (if ii_stopped s then s
      else
        (let resyncPeriod1 =
               (if resyncPeriod > 0 \<and> resyncPeriod < minimumResyncPeriod then minimumResyncPeriod else resyncPeriod);
             sooner = (resyncPeriod1 > 0 \<and> resyncPeriod1 < ii_resyncCheckPeriod s);
             resyncPeriod2 = (if sooner \<and> ii_started s then ii_resyncCheckPeriod s else resyncPeriod1);
             s = (if sooner \<and> \<not> ii_started s
                  then s\<lparr>ii_resyncCheckPeriod := resyncPeriod1,
                         ii_processor := resyncCheckPeriodChanged resyncPeriod1 (ii_processor s)\<rparr>
                  else s);
             listener = newProcessListener resyncPeriod2
                          (determineResyncPeriod resyncPeriod2 (ii_resyncCheckPeriod s)) now;
             replayed = (if ii_started s then map AddNotification (ts_List (ii_indexer s)) else [])
         in s\<lparr>ii_processor := addListener (fold listener_add replayed listener) (ii_processor s)\<rparr>))"

definition AddEventHandler :: "int \<Rightarrow> 'o sharedIndexInformer \<Rightarrow> 'o sharedIndexInformer" where
  "AddEventHandler now s = AddEventHandlerWithResyncPeriod now (ii_defaultEventHandlerResyncPeriod s) s"

text \<open>
  \<open>HandleDeltas\<close>; \<open>None\<close> is a panic of an index function. \<open>DeletionHandlingMetaNamespaceKeyFunc\<close> finds the
  key of a deleted object.
\<close>

fun DeletionHandling_key :: "('o \<Rightarrow> ObjectMeta) \<Rightarrow> 'o deleted_object \<Rightarrow> string" where
  "DeletionHandling_key meta (LastSeen x) = meta_key (meta x)"
| "DeletionHandling_key meta (FinalStateUnknown key obj) = key"

definition store_object ::
  "('o \<Rightarrow> ObjectMeta) \<Rightarrow> 'o \<Rightarrow> bool \<Rightarrow> 'o sharedIndexInformer \<Rightarrow> 'o sharedIndexInformer option" where
  "store_object meta obj isSync s =
     (let key = meta_key (meta obj)
      in case ts_Get key (ii_indexer s) of
           Some old \<Rightarrow>
             map_option (\<lambda>ix. s\<lparr>ii_indexer := ix,
                 ii_processor := distribute (UpdateNotification old obj) isSync (ii_processor s)\<rparr>)
               (ts_Update meta key obj (ii_indexer s))
         | None \<Rightarrow>
             map_option (\<lambda>ix. s\<lparr>ii_indexer := ix,
                 ii_processor := distribute (AddNotification obj) isSync (ii_processor s)\<rparr>)
               (ts_Add meta key obj (ii_indexer s)))"

fun handle_delta :: "('o \<Rightarrow> ObjectMeta) \<Rightarrow> 'o Delta \<Rightarrow> 'o sharedIndexInformer \<Rightarrow> 'o sharedIndexInformer option" where
  "handle_delta meta (DeltaSync obj) s = store_object meta obj True s"
| "handle_delta meta (DeltaAdded obj) s = store_object meta obj False s"
| "handle_delta meta (DeltaUpdated obj) s = store_object meta obj False s"
| "handle_delta meta (DeltaDeleted d) s =
     map_option (\<lambda>ix. s\<lparr>ii_indexer := ix,
         ii_processor := distribute (DeleteNotification d) False (ii_processor s)\<rparr>)
       (ts_Delete meta (DeletionHandling_key meta d) (ii_indexer s))"

fun HandleDeltas :: "('o \<Rightarrow> ObjectMeta) \<Rightarrow> 'o Deltas \<Rightarrow> 'o sharedIndexInformer \<Rightarrow> 'o sharedIndexInformer option" where
  "HandleDeltas meta [] s = Some s"
| "HandleDeltas meta (d # ds) s = Option.bind (handle_delta meta d s) (HandleDeltas meta ds)"

section \<open>The reflector and the controller\<close>

text \<open>
  Where the reflector is: about to list, about to watch from a resource version, or watching with the
  number of events so far. \<open>ir_resyncTimer\<close> is when the timer of the resync goroutine fires at the
  earliest, \<open>ir_resyncerrc\<close> an error it sent.
\<close>

datatype reflector_pc = Listing | OpeningWatch string | Watching string nat | ReflectorDone

record 'o informer_run =
  ir_informer :: "'o sharedIndexInformer"
  ir_fifo :: "'o DeltaFIFO"
  ir_pc :: reflector_pc
  ir_lastSyncResourceVersion :: string
  ir_clock :: int
  ir_resyncTimer :: "int option"
  ir_resyncerrc :: "string option"
  ir_stop :: bool

definition informer_Run :: "('o \<Rightarrow> ObjectMeta) \<Rightarrow> int \<Rightarrow> 'o sharedIndexInformer \<Rightarrow> 'o informer_run" where
  "informer_Run meta now s =
     \<lparr>ir_informer = s\<lparr>ii_started := True\<rparr>, ir_fifo = NewDeltaFIFO (\<lambda>x. Inr (meta_key (meta x))),
      ir_pc = Listing, ir_lastSyncResourceVersion = [], ir_clock = now, ir_resyncTimer = None,
      ir_resyncerrc = None, ir_stop = False\<rparr>"

definition known_objects :: "'o informer_run \<Rightarrow> 'o KeyListerGetter" where
  "known_objects r =
     \<lparr>kn_ListKeys = ts_ListKeys (ii_indexer (ir_informer r)),
      kn_GetByKey = (\<lambda>k. Inr (ts_Get k (ii_indexer (ir_informer r))))\<rparr>"

definition informer_HasSynced :: "'o informer_run \<Rightarrow> bool" where
  "informer_HasSynced r \<longleftrightarrow> df_HasSynced (ir_fifo r)"

datatype 'o list_watch_event =
    WatchAdded 'o | WatchModified 'o | WatchDeleted 'o | WatchUnknown 'o | WatchSkipped | WatchError

text \<open>\<open>ListAndWatch\<close> after a successful list: \<open>syncWith\<close>, and a new timer for resyncs.\<close>

definition resyncChan :: "int \<Rightarrow> int \<Rightarrow> int option" where
  "resyncChan resyncPeriod now = (if resyncPeriod = 0 then None else Some (now + resyncPeriod))"

definition list_returned :: "'o list \<Rightarrow> string \<Rightarrow> int \<Rightarrow> 'o informer_run \<Rightarrow> 'o informer_run" where
  "list_returned items resourceVersion now r =
     (case df_Replace (Some (known_objects r)) items (ir_fifo r) of
        (Some err, f) \<Rightarrow> r\<lparr>ir_fifo := f, ir_clock := now\<rparr>
      | (None, f) \<Rightarrow>
          r\<lparr>ir_fifo := f, ir_clock := now, ir_lastSyncResourceVersion := resourceVersion,
            ir_resyncTimer := resyncChan (ii_resyncCheckPeriod (ir_informer r)) now,
            ir_resyncerrc := None, ir_pc := OpeningWatch resourceVersion\<rparr>)"

text \<open>Leaving \<open>ListAndWatch\<close> ends the resync goroutine.\<close>

definition leave_ListAndWatch :: "reflector_pc \<Rightarrow> 'o informer_run \<Rightarrow> 'o informer_run" where
  "leave_ListAndWatch pc r = r\<lparr>ir_pc := pc, ir_resyncTimer := None, ir_resyncerrc := None\<rparr>"

text \<open>
  One event of \<open>watchHandler\<close>; errors of the store are reported and dropped. A skipped event is one whose
  object has another type or no metadata.
\<close>

definition store_event ::
  "('o DeltaFIFO \<Rightarrow> string option \<times> 'o DeltaFIFO) \<Rightarrow> string \<Rightarrow> nat \<Rightarrow> 'o informer_run \<Rightarrow> 'o informer_run" where
  "store_event op newResourceVersion eventCount r =
     r\<lparr>ir_fifo := snd (op (ir_fifo r)), ir_lastSyncResourceVersion := newResourceVersion,
       ir_pc := Watching newResourceVersion (eventCount + 1)\<rparr>"

fun watch_event :: "('o \<Rightarrow> ObjectMeta) \<Rightarrow> 'o list_watch_event \<Rightarrow> nat \<Rightarrow> 'o informer_run \<Rightarrow> 'o informer_run" where
  "watch_event meta (WatchAdded x) n r = store_event (df_Add x) (om_ResourceVersion (meta x)) n r"
| "watch_event meta (WatchModified x) n r = store_event (df_Update x) (om_ResourceVersion (meta x)) n r"
| "watch_event meta (WatchDeleted x) n r =
     store_event (df_Delete (Some (known_objects r)) (LastSeen x)) (om_ResourceVersion (meta x)) n r"
| "watch_event meta (WatchUnknown x) n r = store_event (Pair None) (om_ResourceVersion (meta x)) n r"
| "watch_event meta WatchSkipped n r = r"
| "watch_event meta WatchError n r = leave_ListAndWatch Listing r"

text \<open>The resync goroutine when its timer fires.\<close>

definition resync_fires :: "int \<Rightarrow> 'o informer_run \<Rightarrow> 'o informer_run" where
  "resync_fires now r =
     (let s = ir_informer r;
          (needed, p) = shouldResync now (ii_processor s);
          r = r\<lparr>ir_informer := s\<lparr>ii_processor := p\<rparr>, ir_clock := now\<rparr>;
          again = resyncChan (ii_resyncCheckPeriod s) now
      in if needed then
           (case df_Resync (Some (known_objects r)) (ir_fifo r) of
              (Some err, f) \<Rightarrow> r\<lparr>ir_fifo := f, ir_resyncTimer := None, ir_resyncerrc := Some err\<rparr>
            | (None, f) \<Rightarrow> r\<lparr>ir_fifo := f, ir_resyncTimer := again\<rparr>)
         else r\<lparr>ir_resyncTimer := again\<rparr>)"

text \<open>
  The inputs of a run. A watch that could not be opened leaves \<open>ListAndWatch\<close>, unless the connection
  was refused. \<open>HandlerTakes i n\<close> is the call of the handler of listener \<open>i\<close> for the notification \<open>n\<close>.
\<close>

datatype 'o informer_input =
    ListFails | Listed "'o list" string int
  | WatchFails bool | WatchOpens | WatchEvent "'o list_watch_event" | WatchCloses bool
  | ResyncFires int | ResyncFailed
  | PopDeltas | HandlerTakes nat "'o notification"
  | StopRequested | ReflectorStops | QueueCloses

fun informer_step :: "('o \<Rightarrow> ObjectMeta) \<Rightarrow> 'o informer_input \<Rightarrow> 'o informer_run \<Rightarrow> 'o informer_run option" where
  "informer_step meta ListFails r = (if ir_pc r = Listing then Some r else None)"
| "informer_step meta (Listed items rv now) r =
     (if ir_pc r = Listing \<and> ir_clock r \<le> now then Some (list_returned items rv now r) else None)"
| "informer_step meta (WatchFails refused) r =
     (case ir_pc r of
        OpeningWatch rv \<Rightarrow> Some (if refused then r else leave_ListAndWatch Listing r)
      | _ \<Rightarrow> None)"
| "informer_step meta WatchOpens r =
     (case ir_pc r of OpeningWatch rv \<Rightarrow> Some (r\<lparr>ir_pc := Watching rv 0\<rparr>) | _ \<Rightarrow> None)"
| "informer_step meta (WatchEvent ev) r =
     (case ir_pc r of Watching rv n \<Rightarrow> Some (watch_event meta ev n r) | _ \<Rightarrow> None)"
| "informer_step meta (WatchCloses quickly) r =
     (case ir_pc r of
        Watching rv n \<Rightarrow>
          Some (if quickly \<and> n = 0 then leave_ListAndWatch Listing r else r\<lparr>ir_pc := OpeningWatch rv\<rparr>)
      | _ \<Rightarrow> None)"
| "informer_step meta (ResyncFires now) r =
     (case ir_resyncTimer r of
        Some t \<Rightarrow> if t \<le> now \<and> ir_clock r \<le> now then Some (resync_fires now r) else None
      | None \<Rightarrow> None)"
| "informer_step meta ResyncFailed r =
     (case (ir_pc r, ir_resyncerrc r) of
        (Watching rv n, Some err) \<Rightarrow> Some (leave_ListAndWatch Listing r)
      | _ \<Rightarrow> None)"
| "informer_step meta PopDeltas r =
     (case df_Pop (\<lambda>ds s. map_option (Pair None) (HandleDeltas meta ds s)) (ir_fifo r) (ir_informer r) of
        (Popped item err, f, s) \<Rightarrow> Some (r\<lparr>ir_fifo := f, ir_informer := s\<rparr>)
      | _ \<Rightarrow> None)"
| "informer_step meta (HandlerTakes i n) r =
     (let p = ii_processor (ir_informer r)
      in if i < length (pr_listeners p) then
           (case listener_pop (pr_listeners p ! i) of
              Some (n', l) \<Rightarrow>
                if n' = n then
                  Some (r\<lparr>ir_informer := (ir_informer r)
                      \<lparr>ii_processor := p\<lparr>pr_listeners := (pr_listeners p)[i := l]\<rparr>\<rparr>\<rparr>)
                else None
            | None \<Rightarrow> None)
         else None)"
| "informer_step meta StopRequested r = Some (r\<lparr>ir_stop := True\<rparr>)"
| "informer_step meta ReflectorStops r =
     (if ir_stop r then Some (leave_ListAndWatch ReflectorDone r) else None)"
| "informer_step meta QueueCloses r =
     (if ir_stop r then Some (r\<lparr>ir_fifo := df_Close (ir_fifo r)\<rparr>) else None)"

fun informer_steps ::
  "('o \<Rightarrow> ObjectMeta) \<Rightarrow> 'o informer_input list \<Rightarrow> 'o informer_run \<Rightarrow> 'o informer_run option" where
  "informer_steps meta [] r = Some r"
| "informer_steps meta (i # is) r = Option.bind (informer_step meta i r) (informer_steps meta is)"

end
