(* ===== verification/DeltaFifoLaws.thy ===== *)
theory DeltaFifoLaws
  imports DeltaFifo
begin

text \<open>
  The laws of the delta queue: its invariant, and for every operation what becomes of the deltas of a
  key and of their effect on a store. \<open>settle\<close> is the effect of deltas on what is stored under their key.
\<close>

section \<open>The effect of deltas\<close>

fun deleted_key :: "('o \<Rightarrow> string) \<Rightarrow> 'o deleted_object \<Rightarrow> string" where
  "deleted_key key (LastSeen x) = key x"
| "deleted_key key (FinalStateUnknown k obj) = k"

fun delta_key :: "('o \<Rightarrow> string) \<Rightarrow> 'o Delta \<Rightarrow> string" where
  "delta_key key (DeltaAdded x) = key x"
| "delta_key key (DeltaUpdated x) = key x"
| "delta_key key (DeltaSync x) = key x"
| "delta_key key (DeltaDeleted d) = deleted_key key d"

fun delta_value :: "'o Delta \<Rightarrow> 'o option" where
  "delta_value (DeltaAdded x) = Some x"
| "delta_value (DeltaUpdated x) = Some x"
| "delta_value (DeltaSync x) = Some x"
| "delta_value (DeltaDeleted d) = None"

definition settle :: "'o Deltas \<Rightarrow> 'o option \<Rightarrow> 'o option" where
  "settle ds v = (if ds = [] then v else delta_value (last ds))"

lemma settle_simps [simp]: "settle [] v = v" "settle (ds @ [d]) v = delta_value d"
  by (simp_all add: settle_def)

lemma settle_Cons: "settle (d # ds) v = settle ds (delta_value d)"
  by (simp add: settle_def)

lemma delta_value_None [simp]: "delta_value d = None \<longleftrightarrow> is_deleted d"
  by (cases d) simp_all

lemma KeyOf_total [simp]: "KeyOf (\<lambda>x. Inr (key x)) d = Inr (delta_key key d)"
  "KeyOf_deleted (\<lambda>x. Inr (key x)) o' = Inr (deleted_key key o')"
proof -
  show "KeyOf_deleted (\<lambda>x. Inr (key x)) o' = Inr (deleted_key key o')" for o' by (cases o') simp_all
  then show "KeyOf (\<lambda>x. Inr (key x)) d = Inr (delta_key key d)" by (cases d) simp_all
qed

text \<open>Two deletions in a row become one; nothing else changes.\<close>

lemma dedup_append:
  "dedupDeltas (ds @ [d]) = ds @ [d] \<or>
   (\<exists>ds' b out. ds = ds' @ [b] \<and> is_deleted b \<and> is_deleted d \<and> out \<in> {b, d} \<and> dedupDeltas (ds @ [d]) = ds' @ [out])"
proof (cases ds rule: rev_cases)
  case (snoc ds' b)
  have nth: "(ds' @ [b, d]) ! Suc (length ds') = d" "(ds' @ [b, d]) ! length ds' = b"
    by (simp_all add: nth_append)
  show ?thesis
  proof (cases "isDup d b")
    case None
    then show ?thesis by (simp add: snoc dedupDeltas_def nth Let_def)
  next
    case (Some out)
    then have "is_deleted b" "is_deleted d" "out \<in> {b, d}"
      by (cases d; cases b; auto simp: isDup_def split: deleted_object.splits)+
    with Some show ?thesis by (simp add: snoc dedupDeltas_def nth Let_def)
  qed
qed (simp add: dedupDeltas_def)

lemma dedup_settle [simp]:
  "dedupDeltas (ds @ [d]) \<noteq> []" "settle (dedupDeltas (ds @ [d])) v = delta_value d"
  "is_deleted (last (dedupDeltas (ds @ [d]))) \<longleftrightarrow> is_deleted d"
  using dedup_append [of ds d] by auto (metis delta_value_None)+

lemma dedup_set: "set (dedupDeltas (ds @ [d])) \<subseteq> set ds \<union> {d}"
  using dedup_append [of ds d] by auto

text \<open>A delta that is no deletion stays in the list.\<close>

lemma dedup_keeps: "x \<in> set (ds @ [d]) \<Longrightarrow> \<not> is_deleted x \<Longrightarrow> x \<in> set (dedupDeltas (ds @ [d]))"
  using dedup_append [of ds d] by auto

section \<open>The invariant\<close>

definition df_inv :: "('o \<Rightarrow> string) \<Rightarrow> 'o DeltaFIFO \<Rightarrow> bool" where
  "df_inv key f \<longleftrightarrow> df_keyFunc f = (\<lambda>x. Inr (key x)) \<and> go_map (df_items f) \<and> distinct (df_queue f) \<and>
     set (df_queue f) = dom (map_of (df_items f)) \<and> df_initialPopulationCount f \<ge> 0 \<and>
     (\<forall>k ds. map_of (df_items f) k = Some ds \<longrightarrow> ds \<noteq> [] \<and> (\<forall>d \<in> set ds. delta_key key d = k))"

lemma df_inv_New: "df_inv key (NewDeltaFIFO (\<lambda>x. Inr (key x)))"
  by (simp add: df_inv_def NewDeltaFIFO_def)

lemma df_inv_D:
  assumes "df_inv key f"
  shows "df_keyFunc f = (\<lambda>x. Inr (key x))" "go_map (df_items f)" "distinct (df_queue f)"
    "k \<in> set (df_queue f) \<longleftrightarrow> map_of (df_items f) k \<noteq> None" "df_initialPopulationCount f \<ge> 0"
    "map_of (df_items f) k = Some ds \<Longrightarrow> ds \<noteq> []" "d \<in> set (df_deltas f k) \<Longrightarrow> delta_key key d = k"
    "df_deltas f k = [] \<longleftrightarrow> k \<notin> set (df_queue f)"
  using assms by (cases "map_of (df_items f) k"; auto simp: df_inv_def df_deltas_def)+

lemma will_be_deleted: "willObjectBeDeletedLocked k f \<longleftrightarrow> df_deltas f k \<noteq> [] \<and> is_deleted (last (df_deltas f k))"
  by (auto simp: willObjectBeDeletedLocked_def Let_def last_conv_nth)

definition skipped :: "('o \<Rightarrow> string) \<Rightarrow> 'o Delta \<Rightarrow> 'o DeltaFIFO \<Rightarrow> bool" where
  "skipped key d f \<longleftrightarrow> is_sync d \<and> willObjectBeDeletedLocked (delta_key key d) f"

lemma queue_action:
  assumes "df_inv key f" "queueActionLocked d f = (err, f')"
  shows "err = None" "df_inv key f'"
    "df_deltas f' k = (if delta_key key d = k \<and> \<not> skipped key d f then dedupDeltas (df_deltas f k @ [d]) else df_deltas f k)"
    "df_queue f' = (if delta_key key d \<in> set (df_queue f) then df_queue f else df_queue f @ [delta_key key d])"
    "df_populated f' = df_populated f" "df_initialPopulationCount f' = df_initialPopulationCount f"
    "df_closed f' = df_closed f"
proof -
  let ?k = "delta_key key d"
  note D = df_inv_D [OF assms(1)]
  have skip: "skipped key d f \<Longrightarrow> ?k \<in> set (df_queue f)"
    using D(8) [of ?k] by (auto simp: skipped_def will_be_deleted)
  have f': "err = None \<and> f' = (if skipped key d f then f
      else f\<lparr>df_queue := (if ?k \<in> set (df_queue f) then df_queue f else df_queue f @ [?k]),
             df_items := AList.update ?k (dedupDeltas (df_deltas f ?k @ [d])) (df_items f)\<rparr>)"
    using assms(2) D(1,4) by (auto simp: queueActionLocked_def skipped_def Let_def split: if_splits)
  then show "err = None" "df_populated f' = df_populated f" "df_initialPopulationCount f' = df_initialPopulationCount f"
    "df_closed f' = df_closed f" by simp_all
  show "df_queue f' = (if ?k \<in> set (df_queue f) then df_queue f else df_queue f @ [?k])" using f' skip by simp
  show "df_deltas f' k = (if ?k = k \<and> \<not> skipped key d f then dedupDeltas (df_deltas f k @ [d]) else df_deltas f k)"
    using f' by (auto simp: df_deltas_def)
  have "delta_key key e = ?k" if "e \<in> set (dedupDeltas (df_deltas f ?k @ [d]))" for e
    using that dedup_set [of "df_deltas f ?k" d] D(7) [of e ?k] by auto
  with f' assms(1) D(4) show "df_inv key f'" by (auto simp: df_inv_def)
qed

lemma queue_action_settle:
  assumes "df_inv key f" "queueActionLocked d f = (err, f')"
  shows "settle (df_deltas f' k) v = (if delta_key key d = k \<and> \<not> skipped key d f then delta_value d else settle (df_deltas f k) v)"
    "willObjectBeDeletedLocked k f' \<longleftrightarrow>
       (if delta_key key d = k \<and> \<not> skipped key d f then is_deleted d else willObjectBeDeletedLocked k f)"
  by (simp_all add: will_be_deleted queue_action(3) [OF assms])

section \<open>Listing again\<close>

text \<open>The last listed object with a key.\<close>

definition listed :: "('o \<Rightarrow> string) \<Rightarrow> 'o list \<Rightarrow> string \<Rightarrow> 'o option" where
  "listed key xs k = map_of (rev (map (\<lambda>x. (key x, x)) xs)) k"

lemma listed_simps [simp]: "listed key [] k = None"
  "listed key (x # xs) k = (case listed key xs k of None \<Rightarrow> if key x = k then Some x else None | Some y \<Rightarrow> Some y)"
  by (simp_all add: listed_def map_add_def split: option.split)

lemma listed_None_iff: "listed key xs k = None \<longleftrightarrow> k \<notin> key ` set xs"
  by (auto simp: listed_def map_of_eq_None_iff image_image)

lemma listed_key: "listed key xs k = Some x \<Longrightarrow> key x = k \<and> x \<in> set xs"
  by (auto simp: listed_def dest: map_of_SomeD)

lemma sync_listed_laws:
  assumes "df_inv key f" "sync_listed xs f = (r, f')"
  shows "r = Inr (map key xs) \<and> df_inv key f' \<and>
    df_populated f' = df_populated f \<and> df_initialPopulationCount f' = df_initialPopulationCount f \<and>
    df_closed f' = df_closed f \<and>
    (\<forall>k v. settle (df_deltas f' k) v =
       (case listed key xs k of
          Some x \<Rightarrow> if willObjectBeDeletedLocked k f then settle (df_deltas f k) v else Some x
        | None \<Rightarrow> settle (df_deltas f k) v))"
  using assms
proof (induction xs arbitrary: f r)
  case (Cons x xs)
  note D = df_inv_D [OF Cons.prems(1)]
  obtain e f1 where q: "queueActionLocked (DeltaSync x) f = (e, f1)" by force
  note Q = queue_action [OF Cons.prems(1) q] and S = queue_action_settle [OF Cons.prems(1) q]
  obtain r1 where r1: "sync_listed xs f1 = (r1, f')" "r = map_sum (\<lambda>err. err) ((#) (key x)) r1"
    using Cons.prems(2) q Q(1) D(1) by (cases "sync_listed xs f1") auto
  note IH = Cons.IH [OF Q(2) r1(1)]
  have "settle (df_deltas f' k) v =
      (case listed key (x # xs) k of
         Some y \<Rightarrow> if willObjectBeDeletedLocked k f then settle (df_deltas f k) v else Some y
       | None \<Rightarrow> settle (df_deltas f k) v)" for k v
    using IH S [of k] by (auto simp: skipped_def split: option.split)
  with IH r1(2) Q S show ?case by (auto simp: skipped_def)
qed simp

lemma delete_unlisted_laws:
  assumes "df_inv key f" "distinct ks" "delete_unlisted object keys ks f = (err, n, f')"
  shows "err = None \<and> df_inv key f' \<and> n = int (length (filter (\<lambda>k. k \<notin> set keys) ks)) \<and>
    df_populated f' = df_populated f \<and> df_initialPopulationCount f' = df_initialPopulationCount f \<and>
    df_closed f' = df_closed f \<and>
    (\<forall>k v. settle (df_deltas f' k) v = (if k \<in> set ks \<and> k \<notin> set keys then None else settle (df_deltas f k) v))"
  using assms
proof (induction ks arbitrary: f err n)
  case (Cons k ks)
  show ?case
  proof (cases "k \<in> set keys")
    case True
    with Cons.prems Cons.IH [OF Cons.prems(1)] show ?thesis by auto
  next
    case False
    let ?d = "DeltaDeleted (FinalStateUnknown k (object k f))"
    obtain e f1 where q: "queueActionLocked ?d f = (e, f1)" by force
    note Q = queue_action [OF Cons.prems(1) q] and S = queue_action_settle [OF Cons.prems(1) q]
    obtain m where m: "delete_unlisted object keys ks f1 = (err, m, f')" "n = m + 1"
      using Cons.prems(3) False q Q(1) by (auto split: prod.splits)
    with Cons.IH [OF Q(2) _ m(1)] Cons.prems(2) Q S False show ?thesis by (auto simp: skipped_def)
  qed
qed simp

text \<open>
  What \<open>Replace\<close> leaves: a listed object, unless its deletion waits; nothing for a key that the store
  knows; and for any other key what waited before.
\<close>

definition lists :: "'o KeyListerGetter \<Rightarrow> (string \<rightharpoonup> 'o) \<Rightarrow> bool" where
  "lists known m \<longleftrightarrow> distinct (kn_ListKeys known) \<and> set (kn_ListKeys known) = dom m \<and>
     (\<forall>k. kn_GetByKey known k = Inr (m k))"

definition replaced :: "('o \<Rightarrow> string) \<Rightarrow> (string \<rightharpoonup> 'o) \<Rightarrow> 'o list \<Rightarrow> 'o DeltaFIFO \<Rightarrow> string \<Rightarrow> 'o option" where
  "replaced key m xs f k =
     (case listed key xs k of
        Some x \<Rightarrow> if willObjectBeDeletedLocked k f then None else Some x
      | None \<Rightarrow> if m k \<noteq> None then None else settle (df_deltas f k) None)"

lemma Replace_laws:
  assumes "df_inv key f" "lists known m" "df_Replace (Some known) xs f = (err, f')"
  shows "err = None" "df_inv key f'" "settle (df_deltas f' k) (m k) = replaced key m xs f k"
    "df_populated f'" "df_closed f' = df_closed f"
    "df_populated f \<Longrightarrow> df_initialPopulationCount f' = df_initialPopulationCount f"
    "\<not> df_populated f \<Longrightarrow> df_initialPopulationCount f' =
       int (length xs + length (filter (\<lambda>k. k \<notin> key ` set xs) (kn_ListKeys known)))"
proof -
  obtain r f1 where s: "sync_listed xs f = (r, f1)" by force
  note S = sync_listed_laws [OF assms(1) s]
  then have f1: "df_inv key f1" by blast
  have ks: "distinct (kn_ListKeys known)" "set (kn_ListKeys known) = dom m" using assms(2) by (auto simp: lists_def)
  obtain e n f2 where d: "delete_unlisted (known_object known) (map key xs) (kn_ListKeys known) f1 = (e, n, f2)"
    by (metis prod_cases3)
  note L = delete_unlisted_laws [OF f1 ks(1) d]
  have "err = None \<and> f' = populate (int (length xs) + n) f2"
    using assms(3) s d S L by (simp add: df_Replace_def)
  moreover have "df_inv key (populate i f2)" if "i \<ge> 0" for i
    using that conjunct1 [OF conjunct2 [OF L]] by (simp add: populate_def df_inv_def)
  moreover have "int (length xs) + n \<ge> 0" using L by simp
  moreover have "df_deltas (populate i f2) = df_deltas f2" for i
    by (simp add: populate_def df_deltas_def fun_eq_iff)
  ultimately have f': "err = None" "f' = populate (int (length xs) + n) f2" "df_inv key f'" "df_deltas f' = df_deltas f2"
    by simp_all
  then show "err = None" "df_inv key f'" by blast+
  show "df_populated f'" "df_closed f' = df_closed f"
    "df_populated f \<Longrightarrow> df_initialPopulationCount f' = df_initialPopulationCount f"
    "\<not> df_populated f \<Longrightarrow> df_initialPopulationCount f' =
       int (length xs + length (filter (\<lambda>k. k \<notin> key ` set xs) (kn_ListKeys known)))"
    using S L by (auto simp: f'(2) populate_def)
  show "settle (df_deltas f' k) (m k) = replaced key m xs f k"
  proof -
    have f2: "settle (df_deltas f2 k) (m k) =
        (if m k \<noteq> None \<and> listed key xs k = None then None else settle (df_deltas f1 k) (m k))"
      using L ks(2) by (auto simp: listed_None_iff)
    have f1: "settle (df_deltas f1 k) (m k) = (case listed key xs k of
          Some x \<Rightarrow> if willObjectBeDeletedLocked k f then settle (df_deltas f k) (m k) else Some x
        | None \<Rightarrow> settle (df_deltas f k) (m k))"
      using S by blast
    have "willObjectBeDeletedLocked k f \<Longrightarrow> settle (df_deltas f k) (m k) = None"
      by (simp add: will_be_deleted settle_def)
    with f1 f2 show ?thesis
      by (cases "listed key xs k"; cases "m k") (simp_all add: f'(4) replaced_def)
  qed
qed

section \<open>Resync and the operations of a watch\<close>

lemma sync_keys_laws:
  assumes "df_inv key f" "\<forall>k. kn_GetByKey known k = Inr (m k)" "\<forall>k x. m k = Some x \<longrightarrow> key x = k"
    and "sync_keys known ks f = (err, f')"
  shows "err = None \<and> df_inv key f' \<and> df_populated f' = df_populated f \<and> df_closed f' = df_closed f \<and>
    df_initialPopulationCount f' = df_initialPopulationCount f \<and>
    (\<forall>k. df_deltas f' k = (if k \<in> set ks \<and> df_deltas f k = [] then (case m k of None \<Rightarrow> [] | Some x \<Rightarrow> [DeltaSync x])
                           else df_deltas f k))"
  using assms
proof (induction ks arbitrary: f err)
  case (Cons k ks)
  note D = df_inv_D [OF Cons.prems(1)]
  obtain e f1 where s: "syncKeyLocked known k f = (e, f1)" by force
  have f1: "e = None \<and> df_inv key f1 \<and> df_populated f1 = df_populated f \<and> df_closed f1 = df_closed f \<and>
      df_initialPopulationCount f1 = df_initialPopulationCount f \<and>
      (\<forall>j. df_deltas f1 j = (if j = k \<and> df_deltas f j = [] then (case m j of None \<Rightarrow> [] | Some x \<Rightarrow> [DeltaSync x])
                              else df_deltas f j))"
  proof (cases "m k = None \<or> df_deltas f k \<noteq> []")
    case True
    then have "e = None \<and> f1 = f"
      using s Cons.prems(2,3) D(1) by (auto simp: syncKeyLocked_def split: option.splits)
    with Cons.prems(1) True show ?thesis by (auto split: option.split)
  next
    case False
    then obtain x where x: "m k = Some x" "key x = k" "df_deltas f k = []" using Cons.prems(3) by auto
    then have q: "queueActionLocked (DeltaSync x) f = (e, f1)"
      using s Cons.prems(2) D(1) by (simp add: syncKeyLocked_def)
    note Q = queue_action [OF Cons.prems(1) q]
    have "\<not> skipped key (DeltaSync x) f" using x by (simp add: skipped_def will_be_deleted)
    with Q x show ?thesis by (auto simp: dedupDeltas_def)
  qed
  with s Cons.prems(4) have "sync_keys known ks f1 = (err, f')" by simp
  from Cons.IH [OF _ Cons.prems(2,3) this] f1 show ?case by (auto split: option.splits)
qed (simp split: option.split)

lemma Resync_laws:
  assumes "df_inv key f" "lists known m" "\<forall>k x. m k = Some x \<longrightarrow> key x = k"
    and "df_Resync (Some known) f = (err, f')"
  shows "err = None" "df_inv key f'" "df_populated f' = df_populated f" "df_closed f' = df_closed f"
    "df_initialPopulationCount f' = df_initialPopulationCount f"
    "df_deltas f' k = (if df_deltas f k = [] then (case m k of None \<Rightarrow> [] | Some x \<Rightarrow> [DeltaSync x]) else df_deltas f k)"
  using sync_keys_laws [OF assms(1) _ assms(3), of known "kn_ListKeys known" err f'] assms(2,4)
  by (auto simp: lists_def df_Resync_def split: option.split)

lemma df_populated_simps [simp]: "df_inv key (f\<lparr>df_populated := b\<rparr>) = df_inv key f"
  "df_deltas (f\<lparr>df_populated := b\<rparr>) = df_deltas f"
  "skipped key d (f\<lparr>df_populated := b\<rparr>) = skipped key d f"
  by (simp_all add: df_inv_def df_deltas_def fun_eq_iff skipped_def willObjectBeDeletedLocked_def)

lemma Delete_laws:
  assumes "df_inv key f" "\<forall>k. kn_GetByKey known k = Inr (m k)" "df_Delete (Some known) d f = (err, f')"
  shows "err = None" "df_inv key f'" "df_populated f'" "df_closed f' = df_closed f"
    "df_initialPopulationCount f' = df_initialPopulationCount f"
    "settle (df_deltas f' k) (m k) = (if k = deleted_key key d then None else settle (df_deltas f k) (m k))"
proof -
  let ?k = "deleted_key key d" and ?f = "f\<lparr>df_populated := True\<rparr>"
  note D = df_inv_D [OF assms(1)]
  have inv: "df_inv key ?f" using assms(1) by simp
  have "err = None \<and> df_inv key f' \<and> df_populated f' \<and> df_closed f' = df_closed f \<and>
      df_initialPopulationCount f' = df_initialPopulationCount f \<and>
      settle (df_deltas f' k) (m k) = (if k = ?k then None else settle (df_deltas f k) (m k))"
  proof (cases "m ?k = None \<and> map_of (df_items f) ?k = None")
    case True
    then have "err = None \<and> f' = ?f" "df_deltas f ?k = []"
      using assms(2,3) D(1) by (auto simp: df_Delete_def df_deltas_def)
    with inv True show ?thesis by auto
  next
    case False
    then have q: "queueActionLocked (DeltaDeleted d) ?f = (err, f')"
      using assms(2,3) D(1) by (auto simp: df_Delete_def Let_def split: if_splits)
    from queue_action [OF inv q] queue_action_settle(1) [OF inv q, of k "m k"] show ?thesis
      by (auto simp: skipped_def)
  qed
  then show "err = None" "df_inv key f'" "df_populated f'" "df_closed f' = df_closed f"
    "df_initialPopulationCount f' = df_initialPopulationCount f"
    "settle (df_deltas f' k) (m k) = (if k = ?k then None else settle (df_deltas f k) (m k))" by blast+
qed

section \<open>Taking the deltas of a key\<close>

definition popped :: "string \<Rightarrow> string list \<Rightarrow> 'o DeltaFIFO \<Rightarrow> 'o DeltaFIFO" where
  "popped k q f = f\<lparr>df_queue := q, df_items := AList.delete k (df_items f),
     df_initialPopulationCount := (if df_initialPopulationCount f > 0 then df_initialPopulationCount f - 1
                                   else df_initialPopulationCount f)\<rparr>"

lemma popped_laws:
  assumes "df_inv key f" "df_queue f = k # q"
  shows "df_inv key (popped k q f)" "df_deltas (popped k q f) = (df_deltas f)(k := [])"
    "df_populated (popped k q f) = df_populated f" "df_closed (popped k q f) = df_closed f"
    "df_queue (popped k q f) = q"
proof -
  have "set q = dom ((map_of (df_items f))(k := None))" "distinct q"
    using assms by (auto simp: df_inv_def)
  with assms(1) show "df_inv key (popped k q f)" by (auto simp: df_inv_def popped_def)
qed (simp_all add: popped_def df_deltas_def fun_eq_iff)

lemma Pop_first:
  assumes "df_inv key f" "df_queue f = k # q" "process (df_deltas f k) s = Some (None, s')"
  shows "df_Pop process f s = (Popped (df_deltas f k) None, popped k q f, s')"
proof -
  from df_inv_D(4) [OF assms(1), of k] assms(2) obtain ds where "map_of (df_items f) k = Some ds" by auto
  with assms(2,3) show ?thesis by (simp add: df_Pop_def popped_def df_deltas_def Let_def)
qed

section \<open>Nothing is lost from the queue\<close>

text \<open>Keys keep their place, deltas that are no deletions stay, and the count of the first list stands.\<close>

definition grows :: "'o DeltaFIFO \<Rightarrow> 'o DeltaFIFO \<Rightarrow> bool" where
  "grows f f' \<longleftrightarrow> (\<exists>B. df_queue f' = df_queue f @ B) \<and> (df_populated f \<longrightarrow> df_populated f') \<and>
     df_initialPopulationCount f' = df_initialPopulationCount f \<and>
     (\<forall>k d. d \<in> set (df_deltas f k) \<and> \<not> is_deleted d \<longrightarrow> d \<in> set (df_deltas f' k))"

lemma grows_refl [simp]: "grows f f"
  by (simp add: grows_def)

lemma grows_trans: "grows f g \<Longrightarrow> grows g h \<Longrightarrow> grows f h"
  by (auto simp: grows_def)

lemma grows_populated: "grows f (f\<lparr>df_populated := True\<rparr>)"
  by (simp add: grows_def)

lemma grows_action:
  assumes "df_inv key f" "queueActionLocked d f = (err, f')"
  shows "grows f f'"
proof -
  note Q = queue_action [OF assms]
  have "e \<in> set (df_deltas f' k)" if "e \<in> set (df_deltas f k)" "\<not> is_deleted e" for e k
    unfolding Q(3) using that dedup_keeps [of e "df_deltas f k" d] by auto
  then show ?thesis by (auto simp: grows_def Q(4-6))
qed

lemma grows_sync_listed:
  assumes "df_inv key f" "sync_listed xs f = (r, f')"
  shows "grows f f'"
  using assms
proof (induction xs arbitrary: f r)
  case (Cons x xs)
  obtain e f1 where q: "queueActionLocked (DeltaSync x) f = (e, f1)" by force
  note Q = queue_action [OF Cons.prems(1) q]
  obtain r1 where "sync_listed xs f1 = (r1, f')"
    using Cons.prems q Q(1) by (cases "sync_listed xs f1") (auto simp: df_inv_def)
  with Cons.IH [OF Q(2)] grows_action [OF Cons.prems(1) q] show ?case by (blast intro: grows_trans)
qed simp

lemma grows_delete_unlisted:
  assumes "df_inv key f" "delete_unlisted object keys ks f = (err, n, f')"
  shows "grows f f'"
  using assms
proof (induction ks arbitrary: f err n)
  case (Cons k ks)
  show ?case
  proof (cases "k \<in> set keys")
    case True
    with Cons.prems Cons.IH [OF Cons.prems(1)] show ?thesis by simp
  next
    case False
    let ?d = "DeltaDeleted (FinalStateUnknown k (object k f))"
    obtain e f1 where q: "queueActionLocked ?d f = (e, f1)" by force
    note Q = queue_action [OF Cons.prems(1) q]
    obtain m where "delete_unlisted object keys ks f1 = (err, m, f')"
      using Cons.prems(2) False q Q(1) by (auto split: prod.splits)
    with Cons.IH [OF Q(2)] grows_action [OF Cons.prems(1) q] show ?thesis by (blast intro: grows_trans)
  qed
qed simp

lemma grows_Replace:
  assumes "df_inv key f" "df_Replace (Some known) xs f = (err, f')" "df_populated f" "distinct (kn_ListKeys known)"
  shows "grows f f'"
proof -
  obtain r f1 where s: "sync_listed xs f = (r, f1)" by force
  note S = sync_listed_laws [OF assms(1) s]
  obtain e n f2 where d: "delete_unlisted (known_object known) (map key xs) (kn_ListKeys known) f1 = (e, n, f2)"
    by (metis prod_cases3)
  have f1: "df_inv key f1" "df_populated f1" using S assms(3) by blast+
  note L = delete_unlisted_laws [OF f1(1) assms(4) d]
  then have "df_populated f2" "e = None" using f1(2) by blast+
  with assms(2) s d S have "f' = f2" by (simp add: df_Replace_def populate_def)
  with grows_sync_listed [OF assms(1) s] grows_delete_unlisted [OF f1(1) d] show ?thesis by (blast intro: grows_trans)
qed

lemma grows_sync_keys:
  assumes "df_inv key f" "sync_keys known ks f = (err, f')"
  shows "grows f f'"
  using assms
proof (induction ks arbitrary: f err)
  case (Cons k ks)
  obtain e f1 where s: "syncKeyLocked known k f = (e, f1)" by force
  have f1: "e = None \<and> df_inv key f1 \<and> grows f f1"
  proof -
    have "e = None \<and> f1 = f \<or> (\<exists>x. queueActionLocked (DeltaSync x) f = (e, f1))"
      using s df_inv_D(1) [OF Cons.prems(1)]
      by (auto simp: syncKeyLocked_def split: sum.splits option.splits if_splits)
    then show ?thesis
    proof (elim disjE exE)
      fix x assume q: "queueActionLocked (DeltaSync x) f = (e, f1)"
      from queue_action(1,2) [OF Cons.prems(1) q] grows_action [OF Cons.prems(1) q] show ?thesis by simp
    qed (use Cons.prems(1) in simp)
  qed
  with s Cons.prems(2) have "sync_keys known ks f1 = (err, f')" by simp
  from Cons.IH [OF _ this] f1 grows_trans show ?case by metis
qed simp

lemma grows_Delete:
  assumes "df_inv key f" "df_Delete (Some known) d f = (err, f')"
  shows "grows f f'"
proof -
  let ?f = "f\<lparr>df_populated := True\<rparr>"
  have "f' = ?f \<or> queueActionLocked (DeltaDeleted d) ?f = (err, f')"
    using assms(2) df_inv_D(1) [OF assms(1)] by (simp add: df_Delete_def Let_def split: if_splits)
  with grows_action [of key ?f] assms(1) grows_populated [of f] show ?thesis by (auto intro: grows_trans)
qed

text \<open>Where no deletion waits, every listed object gets its \<open>Sync\<close>.\<close>

lemma sync_listed_queues:
  assumes "df_inv key f" "sync_listed xs f = (r, f')" "\<forall>x \<in> set xs. \<not> willObjectBeDeletedLocked (key x) f" "x \<in> set xs"
  shows "DeltaSync x \<in> set (df_deltas f' (key x))"
  using assms
proof (induction xs arbitrary: f r)
  case (Cons y xs)
  obtain e f1 where q: "queueActionLocked (DeltaSync y) f = (e, f1)" by force
  note Q = queue_action [OF Cons.prems(1) q]
  have ns: "\<not> skipped key (DeltaSync y) f" using Cons.prems(3) by (simp add: skipped_def)
  obtain r1 where r1: "sync_listed xs f1 = (r1, f')"
    using Cons.prems(1,2) q Q(1) by (cases "sync_listed xs f1") (auto simp: df_inv_def)
  have "\<forall>z \<in> set xs. \<not> willObjectBeDeletedLocked (key z) f1"
    using Cons.prems(3) ns by (auto simp: queue_action_settle(2) [OF Cons.prems(1) q])
  note IH = Cons.IH [OF Q(2) r1 this]
  show ?case
  proof (cases "x = y")
    case True
    have "DeltaSync y \<in> set (df_deltas f1 (key y))"
      using dedup_keeps [of "DeltaSync y" "df_deltas f (key y)" "DeltaSync y"] ns by (simp add: Q(3))
    with grows_sync_listed [OF Q(2) r1] True show ?thesis by (auto simp: grows_def)
  next
    case False
    with IH Cons.prems(4) show ?thesis by simp
  qed
qed simp

end
