(* ===== verification/InformerRuns.thy ===== *)
theory InformerRuns
  imports SharedInformerLaws
begin

text \<open>
  The runs of a shared informer: an invariant of the state after any inputs, and what each input does to
  the expected contents of the indexer (what it will hold once the waiting deltas are handled) and to what
  the handlers are told.
\<close>

section \<open>The invariant\<close>

definition store_of :: "'o informer_run \<Rightarrow> string \<rightharpoonup> 'o" where
  "store_of r = stored_objects (ii_indexer (ir_informer r))"

definition listeners :: "'o informer_run \<Rightarrow> 'o processorListener list" where
  "listeners r = pr_listeners (ii_processor (ir_informer r))"

definition resync_period :: "'o informer_run \<Rightarrow> int" where
  "resync_period r = ii_resyncCheckPeriod (ir_informer r)"

definition expected :: "'o informer_run \<Rightarrow> string \<rightharpoonup> 'o" where
  "expected r = (\<lambda>k. settle (df_deltas (ir_fifo r) k) (store_of r k))"

definition run_ok :: "('o \<Rightarrow> ObjectMeta) \<Rightarrow> 'o informer_run \<Rightarrow> bool" where
  "run_ok meta r \<longleftrightarrow> indexer_ok meta (ii_indexer (ir_informer r)) \<and> df_inv (meta_keyed meta) (ir_fifo r) \<and>
     (\<exists>t \<le> ir_clock r + resync_period r. processor_ok (resync_period r) t (ii_processor (ir_informer r)) \<and>
        (\<forall>t'. ir_resyncTimer r = Some t' \<longrightarrow> t \<le> t' \<and> resync_period r \<noteq> 0))"

lemma run_ok_D:
  assumes "run_ok meta r"
  shows "indexer_ok meta (ii_indexer (ir_informer r))" "df_inv (meta_keyed meta) (ir_fifo r)"
    "lists (known_objects r) (store_of r)" "store_of r k = Some x \<Longrightarrow> meta_key (meta x) = k"
    "l \<in> set (listeners r) \<Longrightarrow> listener_ok l"
  using assms
  by (auto simp: run_ok_def lists_def known_objects_def store_of_def stored_objects_def ts_ListKeys_def ts_Get_def
      indexer_ok_def informer_inv_def store_inv_def go_map_def listeners_def processor_ok_def dom_map_of_conv_image_fst)

text \<open>What the handler of listener \<open>i\<close> is called for.\<close>

fun calls :: "nat \<Rightarrow> 'o informer_input list \<Rightarrow> 'o notification list" where
  "calls i [] = []"
| "calls i (HandlerTakes j n # is) = (if j = i then n # calls i is else calls i is)"
| "calls i (_ # is) = calls i is"

lemma calls_append: "calls i (is @ js) = calls i is @ calls i js"
  by (induction "is" rule: calls.induct [of _ i]) auto

lemma calls_Cons: "calls i (a # is) = calls i [a] @ calls i is"
  using calls_append [of i "[a]" "is"] by simp

text \<open>What an input makes of the expected contents.\<close>

fun reported :: "('o \<Rightarrow> ObjectMeta) \<Rightarrow> 'o informer_input \<Rightarrow> 'o informer_run \<Rightarrow> string \<rightharpoonup> 'o" where
  "reported meta (Listed xs rv now) r = replaced (meta_keyed meta) (store_of r) xs (ir_fifo r)"
| "reported meta (WatchEvent (WatchAdded x)) r = (expected r)(meta_key (meta x) \<mapsto> x)"
| "reported meta (WatchEvent (WatchModified x)) r = (expected r)(meta_key (meta x) \<mapsto> x)"
| "reported meta (WatchEvent (WatchDeleted x)) r = (expected r)(meta_key (meta x) := None)"
| "reported meta _ r = expected r"

definition told_by :: "('o \<Rightarrow> ObjectMeta) \<Rightarrow> 'o informer_input \<Rightarrow> 'o informer_run \<Rightarrow> 'o informer_run \<Rightarrow> bool" where
  "told_by meta i r r' \<longleftrightarrow> length (listeners r') = length (listeners r) \<and>
     (\<forall>j < length (listeners r). \<exists>new. waiting (listeners r ! j) @ new = calls j [i] @ waiting (listeners r' ! j) \<and>
        replay (meta_keyed meta) new (store_of r) = Some (store_of r'))"

lemma told_by_quiet:
  assumes "map waiting (listeners r') = map waiting (listeners r)" "store_of r' = store_of r" "\<And>j. calls j [i] = []"
  shows "told_by meta i r r'"
proof -
  have len: "length (listeners r') = length (listeners r)" using assms(1) map_eq_imp_length_eq by blast
  moreover have "waiting (listeners r' ! j) = waiting (listeners r ! j)" if "j < length (listeners r)" for j
    using arg_cong [OF assms(1), of "\<lambda>ws. ws ! j"] that len by simp
  ultimately show ?thesis using assms(2,3) by (auto simp: told_by_def intro!: exI [of _ "[]"])
qed

section \<open>The inputs one by one\<close>

lemma step_Listed:
  assumes "run_ok meta r" "ir_clock r \<le> now"
  shows "run_ok meta (list_returned xs rv now r)"
    "expected (list_returned xs rv now r) = reported meta (Listed xs rv now) r"
    "told_by meta (Listed xs rv now) r (list_returned xs rv now r)"
proof -
  obtain e f where f: "df_Replace (Some (known_objects r)) xs (ir_fifo r) = (e, f)" by force
  note R = Replace_laws [OF run_ok_D(2,3) [OF assms(1)] f]
  let ?r = "list_returned xs rv now r"
  have r': "ir_informer ?r = ir_informer r" "ir_fifo ?r = f" "ir_clock ?r = now"
    "ir_resyncTimer ?r = resyncChan (resync_period r) now"
    using f R(1) by (simp_all add: list_returned_def resync_period_def)
  have same: "store_of ?r = store_of r" "listeners ?r = listeners r" "resync_period ?r = resync_period r"
    by (simp_all add: store_of_def listeners_def resync_period_def r')
  from assms(1) obtain t where t: "t \<le> ir_clock r + resync_period r"
    "processor_ok (resync_period r) t (ii_processor (ir_informer r))" by (auto simp: run_ok_def)
  with assms R(2) show "run_ok meta ?r"
    unfolding run_ok_def same r' by (auto simp: resyncChan_def split: if_splits intro!: exI [of _ t])
  show "expected ?r = reported meta (Listed xs rv now) r"
    by (simp add: expected_def same r' R(3) fun_eq_iff)
  show "told_by meta (Listed xs rv now) r ?r" by (rule told_by_quiet) (simp_all add: same)
qed

text \<open>Steps that touch neither the informer nor the queue.\<close>

lemma step_quiet:
  assumes "run_ok meta r" "ir_informer r' = ir_informer r" "df_deltas (ir_fifo r') = df_deltas (ir_fifo r)"
    "df_inv (meta_keyed meta) (ir_fifo r')" "ir_clock r' = ir_clock r" "ir_resyncTimer r' \<in> {None, ir_resyncTimer r}"
    and "\<And>j. calls j [i] = []"
  shows "run_ok meta r'" "expected r' = expected r" "told_by meta i r r'"
proof -
  have same: "store_of r' = store_of r" "listeners r' = listeners r" "resync_period r' = resync_period r"
    by (simp_all add: store_of_def listeners_def resync_period_def assms(2))
  from assms(1,4,6) show "run_ok meta r'" unfolding run_ok_def same assms(2,5) by auto
  show "expected r' = expected r" by (simp add: expected_def same assms(3))
  show "told_by meta i r r'" by (rule told_by_quiet) (simp_all add: same assms(7))
qed

lemma step_store_event:
  assumes "run_ok meta r" "df_inv (meta_keyed meta) (snd (op (ir_fifo r)))" "\<And>j. calls j [i] = []"
    and "\<And>k. settle (df_deltas (snd (op (ir_fifo r))) k) (store_of r k) = m k"
  shows "run_ok meta (store_event op v n r)" "expected (store_event op v n r) = m"
    "told_by meta i r (store_event op v n r)"
proof -
  let ?r = "store_event op v n r"
  have same: "ir_informer ?r = ir_informer r" "ir_fifo ?r = snd (op (ir_fifo r))" "ir_clock ?r = ir_clock r"
    "ir_resyncTimer ?r = ir_resyncTimer r" "store_of ?r = store_of r" "listeners ?r = listeners r"
    "resync_period ?r = resync_period r"
    by (simp_all add: store_event_def store_of_def listeners_def resync_period_def)
  from assms(1,2) show "run_ok meta ?r" unfolding run_ok_def same by auto
  show "expected ?r = m" using assms(4) by (simp add: expected_def same fun_eq_iff)
  show "told_by meta i r ?r" by (rule told_by_quiet) (simp_all add: same assms(3))
qed

lemma step_WatchEvent:
  assumes "run_ok meta r"
  shows "run_ok meta (watch_event meta ev n r)"
    "expected (watch_event meta ev n r) = reported meta (WatchEvent ev) r"
    "told_by meta (WatchEvent ev) r (watch_event meta ev n r)"
proof -
  note inv = run_ok_D(2) [OF assms]
  have put: "df_inv (meta_keyed meta) f' \<and>
      settle (df_deltas f' k) (store_of r k) = ((expected r)(meta_key (meta x) \<mapsto> x)) k"
    if "queueActionLocked d (ir_fifo r\<lparr>df_populated := True\<rparr>) = (e, f')" "d \<in> {DeltaAdded x, DeltaUpdated x}"
    for d x e f' k
    using queue_action(2) [OF _ that(1), where key = "meta_keyed meta"] queue_action_settle(1) [OF _ that(1), where key = "meta_keyed meta" and k = k and v = "store_of r k"] inv that(2)
    by (auto simp: skipped_def expected_def)
  have del: "df_inv (meta_keyed meta) f' \<and>
      settle (df_deltas f' k) (store_of r k) = ((expected r)(meta_key (meta x) := None)) k"
    if "df_Delete (Some (known_objects r)) (LastSeen x) (ir_fifo r) = (e, f')" for x e f' k
  proof -
    have "\<forall>k. kn_GetByKey (known_objects r) k = Inr (store_of r k)" using run_ok_D(3) [OF assms] by (simp add: lists_def)
    note D = Delete_laws [OF inv this that]
    show ?thesis using D(2) D(6) [of k] by (simp add: expected_def)
  qed
  have "run_ok meta (watch_event meta ev n r) \<and> expected (watch_event meta ev n r) = reported meta (WatchEvent ev) r \<and>
      told_by meta (WatchEvent ev) r (watch_event meta ev n r)"
  proof (cases ev)
    case (WatchAdded x)
    obtain e f' where q: "queueActionLocked (DeltaAdded x) (ir_fifo r\<lparr>df_populated := True\<rparr>) = (e, f')" by force
    from step_store_event [OF assms, of "df_Add x" "WatchEvent ev" "(expected r)(meta_key (meta x) \<mapsto> x)"] put [OF q]
    show ?thesis by (simp add: WatchAdded df_Add_def q)
  next
    case (WatchModified x)
    obtain e f' where q: "queueActionLocked (DeltaUpdated x) (ir_fifo r\<lparr>df_populated := True\<rparr>) = (e, f')" by force
    from step_store_event [OF assms, of "df_Update x" "WatchEvent ev" "(expected r)(meta_key (meta x) \<mapsto> x)"] put [OF q]
    show ?thesis by (simp add: WatchModified df_Update_def q)
  next
    case (WatchDeleted x)
    obtain e f' where q: "df_Delete (Some (known_objects r)) (LastSeen x) (ir_fifo r) = (e, f')" by force
    from step_store_event [OF assms, of "df_Delete (Some (known_objects r)) (LastSeen x)" "WatchEvent ev"
        "(expected r)(meta_key (meta x) := None)"] del [OF q]
    show ?thesis by (simp add: WatchDeleted q)
  next
    case (WatchUnknown x)
    from step_store_event [OF assms, of "Pair None" "WatchEvent ev" "expected r"] inv
    show ?thesis by (simp add: WatchUnknown expected_def)
  next
    case WatchSkipped
    with step_quiet [OF assms, of r "WatchEvent ev"] inv show ?thesis by simp
  next
    case WatchError
    with step_quiet [OF assms, of "leave_ListAndWatch Listing r" "WatchEvent ev"] inv show ?thesis
      by (simp add: leave_ListAndWatch_def)
  qed
  then show "run_ok meta (watch_event meta ev n r)"
    "expected (watch_event meta ev n r) = reported meta (WatchEvent ev) r"
    "told_by meta (WatchEvent ev) r (watch_event meta ev n r)" by blast+
qed

text \<open>The resync goroutine: every listener is due, and nothing that waits is overwritten.\<close>

lemma resync_fires_laws:
  assumes "run_ok meta r" "ir_resyncTimer r = Some t" "t \<le> now" "ir_clock r \<le> now"
  shows "run_ok meta (resync_fires now r)" "expected (resync_fires now r) = expected r"
    "store_of (resync_fires now r) = store_of r"
    "map waiting (listeners (resync_fires now r)) = map waiting (listeners r)"
    "listeners r \<noteq> [] \<Longrightarrow> df_deltas (ir_fifo (resync_fires now r)) k =
       (if df_deltas (ir_fifo r) k = [] then (case store_of r k of None \<Rightarrow> [] | Some x \<Rightarrow> [DeltaSync x])
        else df_deltas (ir_fifo r) k)"
proof -
  let ?s = "ir_informer r" and ?r = "resync_fires now r" and ?period = "resync_period r"
  let ?p = "(ii_processor ?s)\<lparr>pr_listeners := map (determineNextResync now) (listeners r)\<rparr>"
  let ?r1 = "r\<lparr>ir_informer := ?s\<lparr>ii_processor := ?p\<rparr>, ir_clock := now\<rparr>"
  from assms(1,2) obtain t0 where p: "processor_ok ?period t0 (ii_processor ?s)" "t0 \<le> t" "?period \<noteq> 0"
    by (auto simp: run_ok_def)
  have due: "shouldResync now (ii_processor ?s) = (listeners r \<noteq> [], ?p)"
    "processor_ok ?period (now + ?period) ?p"
    using shouldResync_all [OF p(1,3)] p(2) assms(3) by (simp_all add: listeners_def)
  have known: "known_objects ?r1 = known_objects r" by (simp add: known_objects_def)
  obtain e f where f: "df_Resync (Some (known_objects r)) (ir_fifo r) = (e, f)" by force
  note R = Resync_laws [OF run_ok_D(2,3) [OF assms(1)] _ f]
  have keyed: "\<forall>k x. store_of r k = Some x \<longrightarrow> meta_key (meta x) = k" using run_ok_D(4) [OF assms(1)] by blast
  let ?f = "if listeners r \<noteq> [] then f else ir_fifo r"
  have r': "?r = ?r1\<lparr>ir_fifo := ?f, ir_resyncTimer := Some (now + ?period)\<rparr>"
    using f R(1) [OF keyed] p(3)
    by (simp add: resync_fires_def due(1) Let_def known resyncChan_def resync_period_def split: option.split)
  have same: "store_of ?r = store_of r" "resync_period ?r = ?period" "listeners ?r = map (determineNextResync now) (listeners r)"
    "ii_indexer (ir_informer ?r) = ii_indexer ?s" "ir_fifo ?r = ?f"
    by (simp_all add: r' store_of_def resync_period_def listeners_def)
  have deltas: "df_deltas ?f k = (if df_deltas (ir_fifo r) k = [] \<and> listeners r \<noteq> []
      then (case store_of r k of None \<Rightarrow> [] | Some x \<Rightarrow> [DeltaSync x]) else df_deltas (ir_fifo r) k)" for k
    using R(6) [OF keyed, of k] by simp
  show "store_of ?r = store_of r" by (rule same)
  show "map waiting (listeners ?r) = map waiting (listeners r)"
    by (simp add: same determineNextResync_def waiting_def cong: option.case_cong)
  show "listeners r \<noteq> [] \<Longrightarrow> df_deltas (ir_fifo ?r) k =
       (if df_deltas (ir_fifo r) k = [] then (case store_of r k of None \<Rightarrow> [] | Some x \<Rightarrow> [DeltaSync x])
        else df_deltas (ir_fifo r) k)" using deltas by (simp add: same)
  show "expected ?r = expected r"
    by (auto simp: expected_def same deltas settle_def fun_eq_iff split: option.split)
  have "df_inv (meta_keyed meta) ?f" using R(2) [OF keyed] run_ok_D(2) [OF assms(1)] by simp
  with run_ok_D(1) [OF assms(1)] due(2) p(3) show "run_ok meta ?r"
    unfolding run_ok_def same by (auto simp: r' intro!: exI [of _ "now + ?period"])
qed

lemma step_ResyncFires:
  assumes "run_ok meta r" "ir_resyncTimer r = Some t" "t \<le> now" "ir_clock r \<le> now"
  shows "told_by meta (ResyncFires now) r (resync_fires now r)"
  by (rule told_by_quiet) (simp_all add: resync_fires_laws(3,4) [OF assms])

text \<open>Taking deltas: the indexer and the handlers get them, and the expectation stays.\<close>

lemma step_PopDeltas:
  assumes "run_ok meta r" "df_queue (ir_fifo r) = k # q"
  shows "\<exists>r'. informer_step meta PopDeltas r = Some r' \<and> run_ok meta r' \<and> expected r' = expected r \<and>
    store_of r' = (store_of r)(k := expected r k) \<and> ir_fifo r' = popped k q (ir_fifo r) \<and>
    map waiting (listeners r') =
      map (\<lambda>l. waiting l @ notices (meta_keyed meta) (df_deltas (ir_fifo r) k) (store_of r)) (listeners r) \<and>
    told_by meta PopDeltas r r' \<and> ir_pc r' = ir_pc r"
proof -
  let ?key = "meta_keyed meta" and ?f = "ir_fifo r" and ?s = "ir_informer r"
  let ?ds = "df_deltas ?f k"
  from assms(1) obtain t where t: "t \<le> ir_clock r + resync_period r" "processor_ok (resync_period r) t (ii_processor ?s)"
    "\<forall>t'. ir_resyncTimer r = Some t' \<longrightarrow> t \<le> t' \<and> resync_period r \<noteq> 0" by (auto simp: run_ok_def)
  note D = run_ok_D(1,2) [OF assms(1)]
  obtain s' where s': "HandleDeltas meta ?ds ?s = Some s'" "indexer_ok meta (ii_indexer s')"
    "stored_objects (ii_indexer s') = fold (\<lambda>d m. m(delta_key ?key d := delta_value d)) ?ds (store_of r)"
    "processor_ok (resync_period r) t (ii_processor s')"
    "map waiting (pr_listeners (ii_processor s')) = map (\<lambda>l. waiting l @ notices ?key ?ds (store_of r)) (listeners r)"
    "ii_resyncCheckPeriod s' = resync_period r"
    using HandleDeltas_laws [OF D(1) t(2), of ?ds]
    by (auto simp: store_of_def listeners_def resync_period_def simp del: fun_upd_apply)
  let ?r = "r\<lparr>ir_fifo := popped k q ?f, ir_informer := s'\<rparr>"
  have "df_Pop (\<lambda>ds s. map_option (Pair None) (HandleDeltas meta ds s)) ?f ?s = (Popped ?ds None, popped k q ?f, s')"
    by (rule Pop_first [OF D(2) assms(2)]) (simp add: s'(1))
  then have step: "informer_step meta PopDeltas r = Some ?r" by simp
  note P = popped_laws [OF D(2) assms(2)]
  have "\<forall>d \<in> set ?ds. delta_key ?key d = k" using df_inv_D(7) [OF D(2)] by blast
  note folded = fold_deltas [OF this, of "store_of r"]
  have store: "store_of ?r = (store_of r)(k := expected r k)"
    using s'(3) folded by (simp add: store_of_def expected_def)
  have same: "resync_period ?r = resync_period r" "listeners ?r = pr_listeners (ii_processor s')"
    by (simp_all add: resync_period_def listeners_def s'(6))
  have ok: "run_ok meta ?r" unfolding run_ok_def same using s'(2,4) P(1) t(1,3) by auto
  have exp: "expected ?r = expected r" unfolding expected_def store by (auto simp: P(2) expected_def fun_eq_iff)
  have "told_by meta PopDeltas r ?r"
    unfolding told_by_def same
  proof (intro conjI allI impI)
    show len: "length (pr_listeners (ii_processor s')) = length (listeners r)"
      using map_eq_imp_length_eq [OF s'(5)] .
    fix j assume "j < length (listeners r)"
    then have "waiting (pr_listeners (ii_processor s') ! j) = waiting (listeners r ! j) @ notices ?key ?ds (store_of r)"
      using arg_cong [OF s'(5), of "\<lambda>ws. ws ! j"] len by simp
    moreover have "replay ?key (notices ?key ?ds (store_of r)) (store_of r) = Some (store_of ?r)"
      using replay_notices [of ?key ?ds "store_of r"] s'(3) by (simp add: store_of_def)
    ultimately show "\<exists>new. waiting (listeners r ! j) @ new =
        calls j [PopDeltas] @ waiting (pr_listeners (ii_processor s') ! j) \<and>
        replay ?key new (store_of r) = Some (store_of ?r)" by auto
  qed
  with step ok exp store s'(5) show ?thesis by (intro exI [of _ ?r]) (simp add: same)
qed

lemma step_PopDeltas_empty: "df_queue (ir_fifo r) = [] \<Longrightarrow> informer_step meta PopDeltas r = None"
  by (simp add: df_Pop_def)

lemma step_HandlerTakes:
  assumes "run_ok meta r" "informer_step meta (HandlerTakes i n) r = Some r'"
  shows "run_ok meta r' \<and> expected r' = expected r \<and> store_of r' = store_of r \<and> ir_fifo r' = ir_fifo r \<and>
    ir_pc r' = ir_pc r \<and> told_by meta (HandlerTakes i n) r r'"
proof -
  obtain l where l: "i < length (listeners r)" "listener_pop (listeners r ! i) = Some (n, l)"
    and r': "r' = r\<lparr>ir_informer := (ir_informer r)\<lparr>ii_processor :=
      (ii_processor (ir_informer r))\<lparr>pr_listeners := (listeners r)[i := l]\<rparr>\<rparr>\<rparr>"
    using assms(2) by (auto simp: Let_def listeners_def split: if_splits option.splits prod.splits)
  note P = listener_pop_laws [OF l(2)]
  have same: "store_of r' = store_of r" "listeners r' = (listeners r)[i := l]" "resync_period r' = resync_period r"
    "ir_fifo r' = ir_fifo r" "ir_clock r' = ir_clock r" "ir_resyncTimer r' = ir_resyncTimer r"
    "ii_indexer (ir_informer r') = ii_indexer (ir_informer r)" "ir_pc r' = ir_pc r"
    by (simp_all add: r' store_of_def listeners_def resync_period_def)
  from assms(1) obtain t where t: "t \<le> ir_clock r + resync_period r"
    "processor_ok (resync_period r) t (ii_processor (ir_informer r))"
    "\<forall>t'. ir_resyncTimer r = Some t' \<longrightarrow> t \<le> t' \<and> resync_period r \<noteq> 0" by (auto simp: run_ok_def)
  have "listeners r ! i \<in> set (listeners r)" using l(1) by simp
  with t(2) P(2-4) have "processor_ok (resync_period r) t (ii_processor (ir_informer r'))"
    by (auto simp: processor_ok_def r' listeners_def dest!: set_update_subset_insert [THEN subsetD])
  with t assms(1) have ok: "run_ok meta r'" unfolding run_ok_def same by auto
  have "told_by meta (HandlerTakes i n) r r'"
    using l(1) P(1) by (auto simp: told_by_def same nth_list_update)
  with ok show ?thesis by (simp add: same expected_def)
qed

section \<open>Any input\<close>

lemma informer_step_laws:
  assumes "run_ok meta r" "informer_step meta i r = Some r'"
  shows "run_ok meta r'" "expected r' = reported meta i r" "told_by meta i r r'"
proof -
  note inv = run_ok_D(2) [OF assms(1)]
  have quiet: "run_ok meta r' \<and> expected r' = expected r \<and> told_by meta i r r'"
    if "ir_informer r' = ir_informer r" "df_deltas (ir_fifo r') = df_deltas (ir_fifo r)"
      "df_inv (meta_keyed meta) (ir_fifo r')" "ir_clock r' = ir_clock r" "ir_resyncTimer r' \<in> {None, ir_resyncTimer r}"
      "\<And>j. calls j [i] = []"
    using step_quiet [OF assms(1) that] by blast
  have close: "df_inv (meta_keyed meta) (df_Close f) = df_inv (meta_keyed meta) f"
    "df_deltas (df_Close f) = df_deltas f" for f
    by (simp_all add: df_Close_def df_inv_def df_deltas_def fun_eq_iff)
  have "run_ok meta r' \<and> expected r' = reported meta i r \<and> told_by meta i r r'"
  proof (cases i)
    case (Listed xs rv now)
    with assms(2) step_Listed [OF assms(1), of now] show ?thesis by (auto split: if_splits)
  next
    case (WatchEvent ev)
    with assms(2) step_WatchEvent [OF assms(1)] show ?thesis by (auto split: reflector_pc.splits)
  next
    case (ResyncFires now)
    with assms(2) obtain t where t: "ir_resyncTimer r = Some t" "t \<le> now" "ir_clock r \<le> now" "r' = resync_fires now r"
      by (auto split: option.splits if_splits)
    with resync_fires_laws(1,2) [OF assms(1) t(1-3)] step_ResyncFires [OF assms(1) t(1-3)] ResyncFires
    show ?thesis by simp
  next
    case PopDeltas
    show ?thesis
    proof (cases "df_queue (ir_fifo r)")
      case Nil
      with step_PopDeltas_empty [of r meta] assms(2) PopDeltas show ?thesis by (simp del: informer_step.simps)
    next
      case (Cons k q)
      from step_PopDeltas [OF assms(1) Cons] assms(2) PopDeltas show ?thesis by auto
    qed
  next
    case (HandlerTakes j n)
    with step_HandlerTakes [OF assms(1)] assms(2) show ?thesis by auto
  next
    case QueueCloses
    with assms(2) have "r' = r\<lparr>ir_fifo := df_Close (ir_fifo r)\<rparr>" by (auto split: if_splits)
    with quiet QueueCloses inv close show ?thesis by simp
  qed (use quiet assms(2) inv in \<open>auto simp: leave_ListAndWatch_def split: if_splits reflector_pc.splits option.splits\<close>)
  then show "run_ok meta r'" "expected r' = reported meta i r" "told_by meta i r r'" by blast+
qed

end
