(* ===== verification/InformerProps.thy ===== *)
theory InformerProps
  imports InformerRuns
begin

text \<open>
  The guarantees of a shared informer over whole runs, from its creation and the registration of its
  handlers on.
\<close>

section \<open>Creation and registration\<close>

definition started_informer ::
  "('o \<Rightarrow> ObjectMeta) \<Rightarrow> int \<Rightarrow> (string \<times> IndexFunc) list \<Rightarrow> int list \<Rightarrow> int \<Rightarrow> 'o informer_run" where
  "started_informer meta period indexers regs now =
     informer_Run meta now (fold AddEventHandler regs (NewSharedIndexInformer period indexers))"

definition sound_setup :: "int \<Rightarrow> (string \<times> IndexFunc) list \<Rightarrow> int list \<Rightarrow> int \<Rightarrow> bool" where
  "sound_setup period indexers regs now \<longleftrightarrow> go_map indexers \<and> total_indexers indexers \<and>
     (period = 0 \<or> period \<ge> minimumResyncPeriod) \<and> (\<forall>t \<in> set regs. t \<le> now)"

definition registered :: "int \<Rightarrow> int \<Rightarrow> (string \<times> IndexFunc) list \<Rightarrow> nat \<Rightarrow> 'o sharedIndexInformer \<Rightarrow> bool" where
  "registered period now indexers n s \<longleftrightarrow> ii_indexer s = NewThreadSafeStore indexers \<and>
     processor_ok period (now + period) (ii_processor s) \<and> ii_resyncCheckPeriod s = period \<and>
     ii_defaultEventHandlerResyncPeriod s = period \<and> \<not> ii_started s \<and> \<not> ii_stopped s \<and>
     length (pr_listeners (ii_processor s)) = n \<and> (\<forall>l \<in> set (pr_listeners (ii_processor s)). waiting l = [])"

lemma registered_New: "registered period now indexers 0 (NewSharedIndexInformer period indexers)"
  by (simp add: registered_def NewSharedIndexInformer_def processor_ok_def)

lemma registered_AddEventHandler:
  assumes "registered period now indexers n s" "period = 0 \<or> period \<ge> minimumResyncPeriod" "t \<le> now"
  shows "registered period now indexers (Suc n) (AddEventHandler t s)"
proof -
  let ?l = "newProcessListener period period t"
  have "AddEventHandler t s = s\<lparr>ii_processor := addListener ?l (ii_processor s)\<rparr>"
    using assms(1,2)
    by (auto simp: registered_def AddEventHandler_def AddEventHandlerWithResyncPeriod_def Let_def determineResyncPeriod_def
        minimumResyncPeriod_def)
  moreover have "listener_ok ?l" "pl_resyncPeriod ?l = period" "pl_nextResync ?l \<le> now + period" "waiting ?l = []"
    using assms(3) by (simp_all add: newProcessListener_def determineNextResync_def listener_ok_def waiting_def)
  ultimately show ?thesis using assms(1) by (auto simp: registered_def processor_ok_def addListener_def)
qed

lemma registered_fold:
  "registered period now indexers n s \<Longrightarrow> period = 0 \<or> period \<ge> minimumResyncPeriod \<Longrightarrow> \<forall>t \<in> set regs. t \<le> now \<Longrightarrow>
   registered period now indexers (n + length regs) (fold AddEventHandler regs s)"
proof (induction regs arbitrary: n s)
  case (Cons t regs)
  from Cons.IH [OF registered_AddEventHandler [OF Cons.prems(1,2)]] Cons.prems(2,3) show ?case by simp
qed simp

lemma started_informer_laws:
  fixes meta :: "'o \<Rightarrow> ObjectMeta"
  assumes "sound_setup period indexers regs now"
  defines "r \<equiv> started_informer meta period indexers regs now"
  shows "run_ok meta r" "expected r = Map.empty" "store_of r = Map.empty" "length (listeners r) = length regs"
    "j < length regs \<Longrightarrow> waiting (listeners r ! j) = []" "ir_fifo r = NewDeltaFIFO (\<lambda>x. Inr (meta_key (meta x)))"
    "ir_pc r = Listing" "ir_resyncTimer r = None" "resync_period r = period"
proof -
  let ?s = "fold AddEventHandler regs (NewSharedIndexInformer period indexers) :: 'o sharedIndexInformer"
  have s: "registered period now indexers (length regs) ?s"
    using registered_fold [OF registered_New, of period regs now indexers] assms(1) by (simp add: sound_setup_def)
  have inv: "indexer_ok meta (NewThreadSafeStore indexers)"
    using assms(1) store_inv_New [of indexers meta]
    by (simp add: indexer_ok_def informer_inv_def sound_setup_def ts_Get_def) (simp add: NewThreadSafeStore_def)
  have r: "r = informer_Run meta now ?s" by (simp add: r_def started_informer_def)
  show fifo: "ir_fifo r = NewDeltaFIFO (\<lambda>x. Inr (meta_key (meta x)))" "ir_pc r = Listing" "ir_resyncTimer r = None"
    by (simp_all add: r informer_Run_def)
  show period: "resync_period r = period" using s by (simp add: r informer_Run_def resync_period_def registered_def)
  show store: "store_of r = Map.empty"
    using s by (simp add: r informer_Run_def store_of_def registered_def stored_objects_def ts_Get_def NewThreadSafeStore_def)
  show "expected r = Map.empty" by (simp add: expected_def store fifo df_deltas_def NewDeltaFIFO_def)
  show "run_ok meta r"
    unfolding run_ok_def period using s inv df_inv_New [of "meta_keyed meta"] by (auto simp: r informer_Run_def registered_def)
  show "length (listeners r) = length regs" using s by (simp add: r informer_Run_def listeners_def registered_def)
  then show "j < length regs \<Longrightarrow> waiting (listeners r ! j) = []"
    using s by (simp add: r informer_Run_def listeners_def registered_def)
qed

section \<open>Runs\<close>

lemma informer_steps_append:
  "informer_steps meta (is @ js) r = Option.bind (informer_steps meta is r) (informer_steps meta js)"
proof (induction "is" arbitrary: r)
  case (Cons i "is")
  then show ?case by (cases "informer_step meta i r") simp_all
qed simp

lemma run_ok_steps: "run_ok meta r \<Longrightarrow> informer_steps meta is r = Some r' \<Longrightarrow> run_ok meta r'"
proof (induction "is" arbitrary: r)
  case (Cons i "is")
  then obtain r1 where "informer_step meta i r = Some r1" "informer_steps meta is r1 = Some r'"
    by (auto split: bind_splits)
  with Cons.IH informer_step_laws(1) [OF Cons.prems(1)] show ?case by blast
qed simp

text \<open>All the handlers were told replays to what the indexer holds.\<close>

lemma told_steps:
  assumes "run_ok meta r" "informer_steps meta is r = Some r'"
  shows "length (listeners r') = length (listeners r)"
    "j < length (listeners r) \<Longrightarrow> \<exists>new. waiting (listeners r ! j) @ new = calls j is @ waiting (listeners r' ! j) \<and>
       replay (meta_keyed meta) new (store_of r) = Some (store_of r')"
proof -
  have "length (listeners r') = length (listeners r) \<and>
    (j < length (listeners r) \<longrightarrow> (\<exists>new. waiting (listeners r ! j) @ new = calls j is @ waiting (listeners r' ! j) \<and>
       replay (meta_keyed meta) new (store_of r) = Some (store_of r')))"
    using assms
  proof (induction "is" arbitrary: r)
    case (Cons i "is")
    then obtain r1 where r1: "informer_step meta i r = Some r1" "informer_steps meta is r1 = Some r'"
      by (auto split: bind_splits)
    note L = informer_step_laws(1,3) [OF Cons.prems(1) r1(1)]
    note IH = Cons.IH [OF L(1) r1(2)]
    have len: "length (listeners r1) = length (listeners r)" using L(2) by (simp add: told_by_def)
    have "\<exists>new. waiting (listeners r ! j) @ new = calls j (i # is) @ waiting (listeners r' ! j) \<and>
       replay (meta_keyed meta) new (store_of r) = Some (store_of r')" if j: "j < length (listeners r)"
    proof -
      obtain n1 where n1: "waiting (listeners r ! j) @ n1 = calls j [i] @ waiting (listeners r1 ! j)"
        "replay (meta_keyed meta) n1 (store_of r) = Some (store_of r1)" using L(2) j by (auto simp: told_by_def)
      obtain n2 where n2: "waiting (listeners r1 ! j) @ n2 = calls j is @ waiting (listeners r' ! j)"
        "replay (meta_keyed meta) n2 (store_of r1) = Some (store_of r')" using IH j len by auto
      have "waiting (listeners r ! j) @ n1 @ n2 = calls j (i # is) @ waiting (listeners r' ! j)"
        using n1(1) n2(1) calls_Cons [of j i "is"] by (metis append.assoc)
      with n1(2) n2(2) show ?thesis by (intro exI [of _ "n1 @ n2"]) (simp add: replay_append)
    qed
    with IH len show ?case by simp
  qed simp
  then show "length (listeners r') = length (listeners r)"
    "j < length (listeners r) \<Longrightarrow> \<exists>new. waiting (listeners r ! j) @ new = calls j is @ waiting (listeners r' ! j) \<and>
       replay (meta_keyed meta) new (store_of r) = Some (store_of r')" by blast+
qed

text \<open>The process loop alone empties the queue, and the indexer then holds what was expected.\<close>

definition drain :: "'o informer_run \<Rightarrow> 'o informer_input list" where
  "drain r = replicate (length (df_queue (ir_fifo r))) PopDeltas"

lemma drain_laws:
  assumes "run_ok meta r"
  shows "\<exists>r'. informer_steps meta (drain r) r = Some r' \<and> run_ok meta r' \<and> df_queue (ir_fifo r') = [] \<and>
    store_of r' = expected r \<and> expected r' = expected r"
  using assms
proof (induction "df_queue (ir_fifo r)" arbitrary: r)
  case Nil
  then have "df_deltas (ir_fifo r) k = []" for k using df_inv_D(8) [OF run_ok_D(2) [OF Nil.prems], of k] by simp
  with Nil show ?case by (simp add: drain_def expected_def)
next
  case (Cons k q)
  obtain r1 where r1: "informer_step meta PopDeltas r = Some r1" "run_ok meta r1" "expected r1 = expected r"
    "ir_fifo r1 = popped k q (ir_fifo r)"
    using step_PopDeltas [OF Cons.prems Cons.hyps(2) [symmetric]] by blast
  have q: "df_queue (ir_fifo r1) = q" by (simp add: r1(4) popped_def)
  with Cons.hyps(2) have "drain r = PopDeltas # drain r1" by (simp add: drain_def flip: Cons.hyps(2))
  with Cons.hyps(1) [OF q [symmetric] r1(2)] r1(1,3) show ?case by simp
qed

section \<open>Following the API server\<close>

text \<open>What the API server has told the reflector.\<close>

fun told1 :: "('o \<Rightarrow> ObjectMeta) \<Rightarrow> 'o informer_input \<Rightarrow> (string \<rightharpoonup> 'o) \<Rightarrow> (string \<rightharpoonup> 'o)" where
  "told1 meta (Listed xs rv now) m = listed (meta_keyed meta) xs"
| "told1 meta (WatchEvent (WatchAdded x)) m = m(meta_key (meta x) \<mapsto> x)"
| "told1 meta (WatchEvent (WatchModified x)) m = m(meta_key (meta x) \<mapsto> x)"
| "told1 meta (WatchEvent (WatchDeleted x)) m = m(meta_key (meta x) := None)"
| "told1 meta _ m = m"

definition told :: "('o \<Rightarrow> ObjectMeta) \<Rightarrow> 'o informer_input list \<Rightarrow> string \<rightharpoonup> 'o" where
  "told meta is = fold (told1 meta) is Map.empty"

text \<open>
  A list is clean when no deletion of a listed object waits, and nothing waits to be stored under a key
  that is neither listed nor stored.
\<close>

definition relist_clean :: "('o \<Rightarrow> ObjectMeta) \<Rightarrow> 'o list \<Rightarrow> 'o informer_run \<Rightarrow> bool" where
  "relist_clean meta xs r \<longleftrightarrow>
     (\<forall>x \<in> set xs. \<not> willObjectBeDeletedLocked (meta_key (meta x)) (ir_fifo r)) \<and>
     (\<forall>k. store_of r k = None \<and> k \<notin> meta_keyed meta ` set xs \<longrightarrow> expected r k = None)"

fun lists_clean :: "('o \<Rightarrow> ObjectMeta) \<Rightarrow> 'o informer_input list \<Rightarrow> 'o informer_run \<Rightarrow> bool" where
  "lists_clean meta [] r \<longleftrightarrow> True"
| "lists_clean meta (i # is) r \<longleftrightarrow>
     (case i of Listed xs rv now \<Rightarrow> relist_clean meta xs r | _ \<Rightarrow> True) \<and>
     (case informer_step meta i r of None \<Rightarrow> True | Some r' \<Rightarrow> lists_clean meta is r')"

lemma replaced_clean:
  "relist_clean meta xs r \<Longrightarrow> replaced (meta_keyed meta) (store_of r) xs (ir_fifo r) = listed (meta_keyed meta) xs"
proof
  fix k
  assume clean: "relist_clean meta xs r"
  show "replaced (meta_keyed meta) (store_of r) xs (ir_fifo r) k = listed (meta_keyed meta) xs k"
  proof (cases "listed (meta_keyed meta) xs k")
    case None
    with clean listed_None_iff [of "meta_keyed meta" xs k] show ?thesis
      by (auto simp: replaced_def relist_clean_def expected_def)
  next
    case (Some x)
    with clean listed_key [OF Some] show ?thesis by (auto simp: replaced_def relist_clean_def)
  qed
qed

lemma expected_told:
  "run_ok meta r \<Longrightarrow> informer_steps meta is r = Some r' \<Longrightarrow> lists_clean meta is r \<Longrightarrow>
     expected r' = fold (told1 meta) is (expected r)"
proof (induction "is" arbitrary: r)
  case (Cons i "is")
  then obtain r1 where r1: "informer_step meta i r = Some r1" "informer_steps meta is r1 = Some r'"
    by (auto split: bind_splits)
  note L = informer_step_laws(1,2) [OF Cons.prems(1) r1(1)]
  have "reported meta i r = told1 meta i (expected r)"
  proof (cases i)
    case (Listed xs rv now)
    with Cons.prems(3) replaced_clean show ?thesis by auto
  next
    case (WatchEvent ev)
    then show ?thesis by (cases ev) simp_all
  qed simp_all
  with Cons.IH [OF L(1) r1(2)] Cons.prems(3) r1(1) L(2) show ?case by simp
qed simp

text \<open>A run of an informer with the controller's period: one object is listed and stored, later deleted.\<close>

definition sample_inputs :: "'o \<Rightarrow> 'o informer_input list" where
  "sample_inputs x = [Listed [x] ''5'' 0, PopDeltas]"

definition sample_start :: "('o \<Rightarrow> ObjectMeta) \<Rightarrow> 'o informer_run" where
  "sample_start meta = started_informer meta 30000000000 [] [0] 0"

lemma sample_setup: "sound_setup 30000000000 [] [0] 0"
  by (simp add: sound_setup_def minimumResyncPeriod_def go_map_def total_indexers_def)

lemmas listing_defs = list_returned_def df_Replace_def populate_def known_objects_def ts_ListKeys_def
  resyncChan_def queueActionLocked_def willObjectBeDeletedLocked_def df_deltas_def dedupDeltas_def
  df_Pop_def ts_Get_def ts_Add_def ts_Update_def ts_Delete_def updateIndices_def store_object_def
  distribute_def listener_add_def

lemma sample_start_fields:
  "sample_start meta = 
   \<lparr>ir_informer = \<lparr>ii_indexer = \<lparr>ts_items = [], ts_indexers = [], ts_indices = Map.empty\<rparr>,
      ii_processor = \<lparr>pr_listeners = [\<lparr>pl_notification = None, pl_pendingNotifications = [],
        pl_requestedResyncPeriod = 30000000000, pl_resyncPeriod = 30000000000, pl_nextResync = 30000000000\<rparr>],
        pr_syncingListeners = [0]\<rparr>,
      ii_resyncCheckPeriod = 30000000000, ii_defaultEventHandlerResyncPeriod = 30000000000,
      ii_started = True, ii_stopped = False\<rparr>,
    ir_fifo = \<lparr>df_items = [], df_queue = [], df_populated = False, df_initialPopulationCount = 0,
      df_keyFunc = (\<lambda>x. Inr (meta_key (meta x))), df_closed = False\<rparr>,
      ir_pc = Listing, ir_lastSyncResourceVersion = [], ir_clock = 0, ir_resyncTimer = None,
      ir_resyncerrc = None, ir_stop = False\<rparr>"
  by (simp add: sample_start_def started_informer_def informer_Run_def AddEventHandler_def AddEventHandlerWithResyncPeriod_def
    NewSharedIndexInformer_def NewThreadSafeStore_def minimumResyncPeriod_def determineResyncPeriod_def newProcessListener_def
    determineNextResync_def addListener_def NewDeltaFIFO_def Let_def)

lemma sample_run: "informer_steps meta (sample_inputs x) (sample_start meta) =
   Some \<lparr>ir_informer = \<lparr>ii_indexer = \<lparr>ts_items = [(meta_key (meta x), x)], ts_indexers = [], ts_indices = Map.empty\<rparr>,
      ii_processor = \<lparr>pr_listeners = [\<lparr>pl_notification = Some (AddNotification x), pl_pendingNotifications = [],
        pl_requestedResyncPeriod = 30000000000, pl_resyncPeriod = 30000000000, pl_nextResync = 30000000000\<rparr>],
        pr_syncingListeners = [0]\<rparr>,
      ii_resyncCheckPeriod = 30000000000, ii_defaultEventHandlerResyncPeriod = 30000000000,
      ii_started = True, ii_stopped = False\<rparr>,
    ir_fifo = \<lparr>df_items = [], df_queue = [], df_populated = True, df_initialPopulationCount = 0,
      df_keyFunc = (\<lambda>x. Inr (meta_key (meta x))), df_closed = False\<rparr>,
      ir_pc = OpeningWatch ''5'', ir_lastSyncResourceVersion = ''5'', ir_clock = 0, ir_resyncTimer = Some 30000000000,
      ir_resyncerrc = None, ir_stop = False\<rparr>"
  by (simp add: sample_inputs_def sample_start_fields listing_defs Let_def)

definition sample_meta :: ObjectMeta where
  "sample_meta = zero_ObjectMeta\<lparr>om_Name := ''cart'', om_Namespace := ''shop''\<rparr>"

lemma sample_key: "meta_key sample_meta = ''shop/cart''"
  by (simp add: sample_meta_def meta_key_def zero_ObjectMeta_def)

definition sample_watch :: "'o \<Rightarrow> 'o informer_input list" where
  "sample_watch x = sample_inputs x @ [WatchOpens, WatchEvent (WatchDeleted x)]"

lemma lists_clean_watching: "\<forall>i \<in> set is. \<forall>xs rv t. i \<noteq> Listed xs rv t \<Longrightarrow> lists_clean meta is r"
proof (induction "is" arbitrary: r)
  case (Cons i "is")
  then have "lists_clean meta is r'" for r' by simp
  with Cons.prems show ?case by (cases i) (simp_all del: informer_step.simps split: option.split)
qed simp

lemma sample_lists_clean:
  "lists_clean meta (sample_watch x) (sample_start meta)" "lists_clean meta (sample_inputs x) (sample_start meta)"
proof -
  note S = started_informer_laws(2,6) [OF sample_setup, where meta = meta, folded sample_start_def]
  have "relist_clean meta [x] (sample_start meta)"
    by (simp add: relist_clean_def S willObjectBeDeletedLocked_def df_deltas_def NewDeltaFIFO_def)
  then show "lists_clean meta (sample_watch x) (sample_start meta)" "lists_clean meta (sample_inputs x) (sample_start meta)"
    by (simp_all add: sample_watch_def sample_inputs_def lists_clean_watching del: informer_step.simps split: option.split)
qed

lemma sample_watch_run:
  "\<exists>r. informer_steps meta (sample_watch x) (sample_start meta) = Some r \<and> (\<exists>rv n. ir_pc r = Watching rv n) \<and>
     ir_clock r = 0 \<and> willObjectBeDeletedLocked (meta_key (meta x)) (ir_fifo r)"
  by (simp add: sample_watch_def informer_steps_append sample_run listing_defs store_event_def df_Delete_def Let_def)

text \<open>C6: an informer follows the API server. After any run from the creation of the informer on, the process
  loop alone empties the queue, and the indexer then holds exactly the objects of the last list as the
  watch events after it changed them, whatever lists, events, resyncs, broken watches and handler calls
  came in whatever order; provided that no list meets a waiting deletion of a listed object, or a waiting
  object that is neither listed nor stored yet.\<close>

theorem informer_follows_server:
  assumes "sound_setup period indexers regs now"
    and "informer_steps meta is (started_informer meta period indexers regs now) = Some r"
    and "lists_clean meta is (started_informer meta period indexers regs now)"
  shows "\<exists>r'. informer_steps meta (drain r) r = Some r' \<and> df_queue (ir_fifo r') = [] \<and> store_of r' = told meta is"
proof -
  note S = started_informer_laws(1,2) [OF assms(1), where meta = meta]
  have "expected r = told meta is" using expected_told [OF S(1) assms(2,3)] by (simp add: S(2) told_def)
  with drain_laws [OF run_ok_steps [OF S(1) assms(2)]] show ?thesis by auto
qed

theorem informer_follows_server_witness:
  "\<exists>r r'. informer_steps (\<lambda>x. x) (sample_watch sample_meta) (sample_start (\<lambda>x. x)) = Some r \<and>
     informer_steps (\<lambda>x. x) (drain r) r = Some r' \<and> store_of r' = Map.empty"
proof -
  obtain r where r: "informer_steps (\<lambda>x. x) (sample_watch sample_meta) (sample_start (\<lambda>x. x)) = Some r"
    "lists_clean (\<lambda>x. x) (sample_watch sample_meta) (sample_start (\<lambda>x. x))"
    using sample_watch_run [of "\<lambda>x. x" sample_meta] sample_lists_clean(1) [of "\<lambda>x. x" sample_meta] by blast
  have "told (\<lambda>x. x) (sample_watch sample_meta) = Map.empty"
    by (simp add: told_def sample_watch_def sample_inputs_def listed_def fun_eq_iff)
  with informer_follows_server [OF sample_setup, of "\<lambda>x. x" "sample_watch sample_meta" r] r show ?thesis
    by (auto simp: sample_start_def)
qed

text \<open>C7: handlers see the history of the store. In every run, what the handler of any listener was called for
  so far, followed by what still waits for it, replays to exactly the objects of the indexer: an object is
  announced as added only when it is not there, as updated from the object that is there, and as deleted
  only under its key.\<close>

theorem handlers_replay_store:
  assumes "sound_setup period indexers regs now"
    and "informer_steps meta is (started_informer meta period indexers regs now) = Some r"
    and "j < length regs"
  shows "replay (meta_keyed meta) (calls j is @ waiting (listeners r ! j)) Map.empty = Some (store_of r)"
  using told_steps(2) [OF started_informer_laws(1) [OF assms(1)] assms(2), of j] started_informer_laws(3-5) [OF assms(1), where meta = meta]
    assms(3) by auto

theorem handlers_replay_store_witness:
  "\<exists>r. informer_steps (\<lambda>x. x) (sample_inputs sample_meta) (sample_start (\<lambda>x. x)) = Some r \<and>
     replay meta_key [AddNotification sample_meta] Map.empty = Some (store_of r)"
proof -
  obtain r where r: "informer_steps (\<lambda>x. x) (sample_inputs sample_meta) (sample_start (\<lambda>x. x)) = Some r"
    "waiting (listeners r ! 0) = [AddNotification sample_meta]"
    unfolding sample_run by (simp add: waiting_def listeners_def)
  with handlers_replay_store [OF sample_setup, of "\<lambda>x. x" "sample_inputs sample_meta" r 0]
  show ?thesis by (simp add: sample_start_def sample_inputs_def)
qed

section \<open>Listing again\<close>

text \<open>C8: what listing again loses. Whatever the queue holds when a list is received, once it is empty the
  indexer holds each listed object, except one whose deletion was still waiting: that one is lost though
  the server has it. Of the keys that are not listed, those stored at the time of the list are gone, but
  an object that waited in the queue and was not stored yet stays though the server does not have it.\<close>

theorem relist_outcome:
  assumes "sound_setup period indexers regs now"
    and "informer_steps meta is (started_informer meta period indexers regs now) = Some r"
    and "informer_step meta (Listed xs rv t) r = Some r1"
  shows "\<exists>r'. informer_steps meta (drain r1) r1 = Some r' \<and> df_queue (ir_fifo r') = [] \<and>
    (\<forall>k. store_of r' k =
       (case listed (meta_keyed meta) xs k of
          Some x \<Rightarrow> if willObjectBeDeletedLocked k (ir_fifo r) then None else Some x
        | None \<Rightarrow> if store_of r k \<noteq> None then None else expected r k))"
proof -
  note ok = run_ok_steps [OF started_informer_laws(1) [OF assms(1)] assms(2)]
  note L = informer_step_laws(1,2) [OF ok assms(3)]
  obtain r' where r': "informer_steps meta (drain r1) r1 = Some r'" "df_queue (ir_fifo r') = []" "store_of r' = expected r1"
    using drain_laws [OF L(1)] by blast
  have "expected r1 k = (case listed (meta_keyed meta) xs k of
          Some x \<Rightarrow> if willObjectBeDeletedLocked k (ir_fifo r) then None else Some x
        | None \<Rightarrow> if store_of r k \<noteq> None then None else expected r k)" for k
    unfolding L(2) by (auto simp: replaced_def expected_def split: option.split)
  with r' show ?thesis by auto
qed

theorem relist_outcome_witness:
  "\<exists>r r1 r'. informer_steps (\<lambda>x. x) (sample_watch sample_meta @ [WatchEvent WatchError]) (sample_start (\<lambda>x. x)) = Some r \<and>
     informer_step (\<lambda>x. x) (Listed [sample_meta] ''6'' 1) r = Some r1 \<and>
     informer_steps (\<lambda>x. x) (drain r1) r1 = Some r' \<and> store_of r' ''shop/cart'' = None"
proof -
  obtain r0 rv n where r0: "informer_steps (\<lambda>x. x) (sample_watch sample_meta) (sample_start (\<lambda>x. x)) = Some r0"
    "ir_pc r0 = Watching rv n" "ir_clock r0 = 0" "willObjectBeDeletedLocked ''shop/cart'' (ir_fifo r0)"
    using sample_watch_run [of "\<lambda>x. x" sample_meta] by (auto simp: sample_key)
  let ?r = "leave_ListAndWatch Listing r0"
  have r: "informer_steps (\<lambda>x. x) (sample_watch sample_meta @ [WatchEvent WatchError]) (sample_start (\<lambda>x. x)) = Some ?r"
    "ir_pc ?r = Listing" "ir_clock ?r = 0" "willObjectBeDeletedLocked ''shop/cart'' (ir_fifo ?r)"
    using r0 by (simp_all add: informer_steps_append leave_ListAndWatch_def)
  then obtain r1 where r1: "informer_step (\<lambda>x. x) (Listed [sample_meta] ''6'' 1) ?r = Some r1" by simp
  have "listed meta_key [sample_meta] ''shop/cart'' = Some sample_meta" by (simp add: listed_def sample_key)
  with relist_outcome [OF sample_setup r(1) [unfolded sample_start_def] r1] r(1,4) r1 obtain r' where
    "informer_steps (\<lambda>x. x) (drain r1) r1 = Some r'" "store_of r' ''shop/cart'' = None" by auto
  with r(1) r1 show ?thesis by blast
qed

section \<open>Resyncs\<close>

fun announces :: "'o notification \<Rightarrow> 'o \<Rightarrow> bool" where
  "announces (AddNotification y) x \<longleftrightarrow> y = x"
| "announces (UpdateNotification old y) x \<longleftrightarrow> y = x"
| "announces (DeleteNotification d) x \<longleftrightarrow> False"

lemma announces_notice: "delta_value d = Some x \<Longrightarrow> announces (notice key m d) x"
  by (cases d) (auto split: option.split)

lemma announces_notices: "d \<in> set ds \<Longrightarrow> delta_value d = Some x \<Longrightarrow> \<exists>n \<in> set (notices key ds m). announces n x"
  by (induction ds arbitrary: m) (auto simp: announces_notice)

lemma settle_delta: "ds \<noteq> [] \<Longrightarrow> settle ds v = Some x \<Longrightarrow> \<exists>d \<in> set ds. delta_value d = Some x"
  by (auto simp: settle_def intro: last_in_set)

text \<open>Emptying the queue tells every handler of all that waited.\<close>

lemma drain_tells:
  assumes "run_ok meta r" "j < length (listeners r)" "informer_steps meta (drain r) r = Some r'"
  shows "\<exists>new. waiting (listeners r' ! j) = waiting (listeners r ! j) @ new \<and>
    (\<forall>k x. df_deltas (ir_fifo r) k \<noteq> [] \<and> expected r k = Some x \<longrightarrow> (\<exists>n \<in> set new. announces n x))"
  using assms
proof (induction "df_queue (ir_fifo r)" arbitrary: r)
  case Nil
  then have "df_deltas (ir_fifo r) k = []" for k using df_inv_D(8) [OF run_ok_D(2) [OF Nil.prems(1)], of k] by simp
  with Nil show ?case by (auto simp: drain_def)
next
  case (Cons k q)
  let ?new = "notices (meta_keyed meta) (df_deltas (ir_fifo r) k) (store_of r)"
  note inv = run_ok_D(2) [OF Cons.prems(1)]
  obtain r1 where r1: "informer_step meta PopDeltas r = Some r1" "run_ok meta r1" "expected r1 = expected r"
    "ir_fifo r1 = popped k q (ir_fifo r)" "map waiting (listeners r1) = map (\<lambda>l. waiting l @ ?new) (listeners r)"
    using step_PopDeltas [OF Cons.prems(1) Cons.hyps(2) [symmetric]] by blast
  note P = popped_laws [OF inv Cons.hyps(2) [symmetric]]
  have q: "q = df_queue (ir_fifo r1)" by (simp add: r1(4) P)
  have "drain r = PopDeltas # drain r1" by (simp add: drain_def q [symmetric] flip: Cons.hyps(2))
  with Cons.prems(3) r1(1) have steps: "informer_steps meta (drain r1) r1 = Some r'" by (simp del: informer_step.simps)
  have len: "length (listeners r1) = length (listeners r)" using map_eq_imp_length_eq [OF r1(5)] by simp
  with Cons.prems(2) have j: "j < length (listeners r1)" by simp
  have w: "waiting (listeners r1 ! j) = waiting (listeners r ! j) @ ?new"
    using arg_cong [OF r1(5), of "\<lambda>ws. ws ! j"] Cons.prems(2) len by simp
  obtain new where new: "waiting (listeners r' ! j) = waiting (listeners r1 ! j) @ new"
    "\<forall>k x. df_deltas (ir_fifo r1) k \<noteq> [] \<and> expected r1 k = Some x \<longrightarrow> (\<exists>n \<in> set new. announces n x)"
    using Cons.hyps(1) [OF q r1(2) j steps] by blast
  have "\<exists>n \<in> set (?new @ new). announces n x" if x: "df_deltas (ir_fifo r) i \<noteq> []" "expected r i = Some x" for i x
  proof (cases "i = k")
    case True
    with settle_delta x announces_notices show ?thesis by (fastforce simp: expected_def)
  next
    case False
    then have "df_deltas (ir_fifo r1) i \<noteq> []" "expected r1 i = Some x" using x by (simp_all add: r1(3,4) P(2))
    with new(2) have "\<exists>n \<in> set new. announces n x" by blast
    then show ?thesis by auto
  qed
  with new(1) w show ?case by (intro exI [of _ "?new @ new"]) auto
qed

text \<open>A resync announces every object: in any run of an informer whose handlers ask for its own period, when
  the resync timer fires and the process loop empties the queue, every handler is told anew of every
  object that the indexer then holds, by an addition or an update to this very object.\<close>

lemma resync_tells:
  assumes "sound_setup period indexers regs now"
    and "informer_steps meta is (started_informer meta period indexers regs now) = Some r"
    and "informer_step meta (ResyncFires t) r = Some r1" "j < length regs"
  shows "\<exists>r' new. informer_steps meta (drain r1) r1 = Some r' \<and> df_queue (ir_fifo r') = [] \<and>
    store_of r' = expected r \<and> waiting (listeners r' ! j) = waiting (listeners r ! j) @ new \<and>
    (\<forall>k x. store_of r' k = Some x \<longrightarrow> (\<exists>n \<in> set new. announces n x))"
proof -
  note S = started_informer_laws [OF assms(1), where meta = meta]
  have ok: "run_ok meta r" using run_ok_steps [OF S(1) assms(2)] .
  have j: "j < length (listeners r)" using told_steps(1) [OF S(1) assms(2)] S(4) assms(4) by simp
  obtain t0 where t0: "ir_resyncTimer r = Some t0" "t0 \<le> t" "ir_clock r \<le> t" "r1 = resync_fires t r"
    using assms(3) by (auto split: option.splits if_splits)
  note R = resync_fires_laws [OF ok t0(1-3), folded t0(4)]
  have len: "length (listeners r1) = length (listeners r)" using map_eq_imp_length_eq [OF R(4)] .
  obtain r' where r': "informer_steps meta (drain r1) r1 = Some r'" "df_queue (ir_fifo r') = []" "store_of r' = expected r1"
    using drain_laws [OF R(1)] by blast
  obtain new where new: "waiting (listeners r' ! j) = waiting (listeners r1 ! j) @ new"
    "\<forall>k x. df_deltas (ir_fifo r1) k \<noteq> [] \<and> expected r1 k = Some x \<longrightarrow> (\<exists>n \<in> set new. announces n x)"
    using drain_tells [OF R(1) _ r'(1), of j] j len by auto
  have "waiting (listeners r1 ! j) = waiting (listeners r ! j)"
    using arg_cong [OF R(4), of "\<lambda>ws. ws ! j"] j len by simp
  moreover have "df_deltas (ir_fifo r1) k \<noteq> []" if "store_of r' k = Some x" for k x
  proof -
    have "listeners r \<noteq> []" using j by auto
    note R5 = R(5) [OF this, of k]
    from that r'(3) R(2) have "expected r k = Some x" by simp
    then show ?thesis unfolding R5 by (auto simp: expected_def split: option.split)
  qed
  ultimately show ?thesis
    using r' R(2) new by (intro exI [of _ r'] exI [of _ new]) (simp del: not_None_eq, metis)
qed

end
