(* ===== verification/InformerSynced.thy ===== *)
theory InformerSynced
  imports InformerProps
begin

text \<open>
  What \<open>HasSynced\<close> says: the count of the first list has run out, so every object of that list has been
  taken from the queue, stored and announced to every handler.
\<close>

section \<open>Objects of the first list\<close>

definition sync_pending :: "('o \<Rightarrow> string) \<Rightarrow> 'o \<Rightarrow> 'o DeltaFIFO \<Rightarrow> bool" where
  "sync_pending key x f \<longleftrightarrow> (\<exists>A B. df_queue f = A @ B \<and> int (length A) \<le> df_initialPopulationCount f \<and>
     key x \<in> set A \<and> DeltaSync x \<in> set (df_deltas f (key x)))"

lemma sync_pending_grows:
  assumes "sync_pending key x f" "grows f f'"
  shows "sync_pending key x f'"
proof -
  obtain A B where A: "df_queue f = A @ B" "int (length A) \<le> df_initialPopulationCount f" "key x \<in> set A"
    "DeltaSync x \<in> set (df_deltas f (key x))" using assms(1) by (auto simp: sync_pending_def)
  obtain C where "df_queue f' = df_queue f @ C" using assms(2) by (auto simp: grows_def)
  with A assms(2) have "df_queue f' = A @ (B @ C) \<and> int (length A) \<le> df_initialPopulationCount f' \<and>
     key x \<in> set A \<and> DeltaSync x \<in> set (df_deltas f' (key x))" by (auto simp: grows_def)
  then show ?thesis unfolding sync_pending_def by blast
qed

lemma sync_pending_popped:
  assumes "df_inv key f" "df_queue f = k # q" "sync_pending key x f"
  shows "key x = k \<and> DeltaSync x \<in> set (df_deltas f k) \<or> sync_pending key x (popped k q f)"
proof -
  obtain A B where A: "df_queue f = A @ B" "int (length A) \<le> df_initialPopulationCount f" "key x \<in> set A"
    "DeltaSync x \<in> set (df_deltas f (key x))" using assms(3) by (auto simp: sync_pending_def)
  then obtain A' where A': "A = k # A'" using assms(2) by (cases A) auto
  show ?thesis
  proof (cases "key x = k")
    case False
    with A A' assms(2) popped_laws(2) [OF assms(1,2)]
    have "df_queue (popped k q f) = A' @ B \<and> int (length A') \<le> df_initialPopulationCount (popped k q f) \<and>
      key x \<in> set A' \<and> DeltaSync x \<in> set (df_deltas (popped k q f) (key x))"
      by (auto simp: popped_def df_deltas_def)
    then show ?thesis unfolding sync_pending_def by blast
  qed (use A in auto)
qed

text \<open>Every input but a pop lets the queue grow.\<close>

lemma step_grows:
  assumes "run_ok meta r" "df_populated (ir_fifo r)" "informer_step meta i r = Some r'" "i \<noteq> PopDeltas"
  shows "grows (ir_fifo r) (ir_fifo r')"
proof -
  note inv = run_ok_D(2) [OF assms(1)]
  have known: "distinct (kn_ListKeys (known_objects r))" using run_ok_D(3) [OF assms(1)] by (simp add: lists_def)
  have inv': "df_inv (meta_keyed meta) (ir_fifo r\<lparr>df_populated := True\<rparr>)" using inv by simp
  have put: "grows (ir_fifo r) (snd (queueActionLocked d (ir_fifo r\<lparr>df_populated := True\<rparr>)))" for d
    using grows_action [OF inv'] grows_trans [OF grows_populated] by (metis prod.collapse)
  show ?thesis
  proof (cases i)
    case (Listed xs rv now)
    obtain e f where f: "df_Replace (Some (known_objects r)) xs (ir_fifo r) = (e, f)" by force
    have "ir_fifo r' = f" using assms(3) Listed f by (auto simp: list_returned_def split: if_splits option.splits)
    with grows_Replace [OF inv f assms(2) known] show ?thesis by simp
  next
    case (WatchEvent ev)
    then obtain n where r': "r' = watch_event meta ev n r" using assms(3) by (auto split: reflector_pc.splits)
    show ?thesis
    proof (cases ev)
      case (WatchDeleted x)
      obtain e f where f: "df_Delete (Some (known_objects r)) (LastSeen x) (ir_fifo r) = (e, f)" by force
      with grows_Delete [OF inv f] WatchDeleted show ?thesis by (simp add: r' store_event_def)
    qed (use put in \<open>simp_all add: r' store_event_def df_Add_def df_Update_def leave_ListAndWatch_def\<close>)
  next
    case (ResyncFires now)
    then have r': "r' = resync_fires now r" using assms(3) by (auto split: option.splits if_splits)
    obtain b p where p: "shouldResync now (ii_processor (ir_informer r)) = (b, p)" by force
    let ?known = "known_objects (r\<lparr>ir_informer := ir_informer r\<lparr>ii_processor := p\<rparr>, ir_clock := now\<rparr>)"
    obtain e f where f: "df_Resync (Some ?known) (ir_fifo r) = (e, f)" by force
    then have "grows (ir_fifo r) f" using grows_sync_keys [OF inv] by (simp add: df_Resync_def)
    moreover have "ir_fifo r' \<in> {f, ir_fifo r}"
      using f by (auto simp: r' resync_fires_def p Let_def split: option.split)
    ultimately show ?thesis by auto
  next
    case (HandlerTakes j n)
    with step_HandlerTakes [OF assms(1)] assms(3) show ?thesis by auto
  next
    case QueueCloses
    with assms(3) show ?thesis by (auto simp: grows_def df_Close_def df_deltas_def split: if_splits)
  qed (use assms(3,4) in \<open>auto simp: leave_ListAndWatch_def split: if_splits reflector_pc.splits option.splits\<close>)
qed

section \<open>The first list\<close>

lemma first_list_pending:
  assumes "sound_setup period indexers regs now"
    and "informer_step meta (Listed xs rv t) (started_informer meta period indexers regs now) = Some r" "x \<in> set xs"
  shows "df_populated (ir_fifo r)" "sync_pending (meta_keyed meta) x (ir_fifo r)"
proof -
  let ?r0 = "started_informer meta period indexers regs now" and ?key = "meta_keyed meta"
  note S = started_informer_laws [OF assms(1), where meta = meta]
  note inv = run_ok_D(2) [OF S(1)]
  have empty: "df_deltas (ir_fifo ?r0) k = []" for k by (simp add: S(6) df_deltas_def NewDeltaFIFO_def)
  have keys: "kn_ListKeys (known_objects ?r0) = []"
    using run_ok_D(3) [OF S(1)] S(3) by (simp add: lists_def)
  obtain e f where f: "df_Replace (Some (known_objects ?r0)) xs (ir_fifo ?r0) = (e, f)" by force
  note R = Replace_laws [OF inv run_ok_D(3) [OF S(1)] f]
  have r: "ir_fifo r = f" using assms(2) f by (auto simp: list_returned_def split: if_splits option.splits)
  show "df_populated (ir_fifo r)" using R(4) r by simp
  obtain q f1 where s: "sync_listed xs (ir_fifo ?r0) = (q, f1)" by force
  have "DeltaSync x \<in> set (df_deltas f1 (?key x))"
    using sync_listed_queues [OF inv s _ assms(3)] by (simp add: will_be_deleted empty)
  moreover have "df_deltas f = df_deltas f1"
    using f s sync_listed_laws [OF inv s] keys by (auto simp: df_Replace_def populate_def df_deltas_def fun_eq_iff)
  ultimately have sync: "DeltaSync x \<in> set (df_deltas f (?key x))" by simp
  have "k \<in> set (df_queue f) \<Longrightarrow> k \<in> ?key ` set xs" for k
  proof -
    assume "k \<in> set (df_queue f)"
    then have ds: "df_deltas f k \<noteq> []" using df_inv_D(8) [OF R(2)] by blast
    have "settle (df_deltas f k) None = listed ?key xs k"
      using R(3) [of k] S(3) by (auto simp: replaced_def will_be_deleted empty split: option.split)
    moreover have "settle (df_deltas f1 k) (Some x) = (case listed ?key xs k of Some y \<Rightarrow> Some y | None \<Rightarrow> Some x)"
      using sync_listed_laws [OF inv s] by (auto simp: will_be_deleted empty split: option.split)
    ultimately show "k \<in> ?key ` set xs"
      using ds \<open>df_deltas f = df_deltas f1\<close> listed_None_iff [of ?key xs k] by (auto simp: settle_def split: if_splits)
  qed
  then have "card (set (df_queue f)) \<le> length xs"
    by (meson List.finite_set card_image_le card_length card_mono finite_imageI le_trans subsetI)
  then have "length (df_queue f) \<le> length xs" using distinct_card [OF df_inv_D(3) [OF R(2)]] by simp
  moreover have "df_initialPopulationCount f = int (length xs)"
    using R(7) keys by (simp add: S(6) NewDeltaFIFO_def)
  moreover have "?key x \<in> set (df_queue f)" using df_inv_D(8) [OF R(2), of "?key x"] sync by auto
  ultimately show "sync_pending ?key x (ir_fifo r)"
    unfolding sync_pending_def r using sync by (intro exI [of _ "df_queue f"] exI [of _ "[]"]) simp
qed

text \<open>From then on it waits in its place, or the handlers have been told of it.\<close>

definition announced :: "'o \<Rightarrow> nat \<Rightarrow> 'o informer_input list \<Rightarrow> 'o informer_run \<Rightarrow> bool" where
  "announced x j is r \<longleftrightarrow> (\<exists>n \<in> set (calls j is @ waiting (listeners r ! j)). announces n x)"

lemma announced_steps:
  assumes "run_ok meta r" "j < length (listeners r)" "informer_steps meta is r = Some r'"
    and "\<exists>n \<in> set (waiting (listeners r ! j)). announces n x"
  shows "announced x j is r'"
proof -
  obtain new where "waiting (listeners r ! j) @ new = calls j is @ waiting (listeners r' ! j)"
    using told_steps(2) [OF assms(1,3,2)] by blast
  with assms(4) show ?thesis unfolding announced_def by (metis UnI1 set_append)
qed

lemma pending_or_announced:
  assumes "run_ok meta r" "df_populated (ir_fifo r)" "sync_pending (meta_keyed meta) x (ir_fifo r)"
    "j < length (listeners r)" "informer_steps meta is r = Some r'"
  shows "sync_pending (meta_keyed meta) x (ir_fifo r') \<or> announced x j is r'"
  using assms
proof (induction "is" arbitrary: r)
  case (Cons i "is")
  let ?key = "meta_keyed meta"
  from Cons.prems(5) obtain r1 where r1: "informer_step meta i r = Some r1" "informer_steps meta is r1 = Some r'"
    by (auto split: bind_splits)
  note L = informer_step_laws(1,3) [OF Cons.prems(1) r1(1)]
  have j: "j < length (listeners r1)" using L(2) Cons.prems(4) by (simp add: told_by_def)
  have later: "announced x j (i # is) r'" if "announced x j is r'"
    using that calls_Cons [of j i "is"] by (auto simp: announced_def)
  have next': ?case if "df_populated (ir_fifo r1)" "sync_pending ?key x (ir_fifo r1)"
    using Cons.IH [OF L(1) that j r1(2)] later by blast
  show ?case
  proof (cases "i = PopDeltas")
    case False
    note g = step_grows [OF Cons.prems(1,2) r1(1) False]
    with next' sync_pending_grows [OF Cons.prems(3)] Cons.prems(2) show ?thesis by (auto simp: grows_def)
  next
    case True
    obtain k q where q: "df_queue (ir_fifo r) = k # q" using Cons.prems(3) by (cases "df_queue (ir_fifo r)") (auto simp: sync_pending_def)
    let ?new = "notices ?key (df_deltas (ir_fifo r) k) (store_of r)"
    have P: "ir_fifo r1 = popped k q (ir_fifo r)"
      "map waiting (listeners r1) = map (\<lambda>l. waiting l @ ?new) (listeners r)"
      using step_PopDeltas [OF Cons.prems(1) q] r1(1) True by auto
    from sync_pending_popped [OF run_ok_D(2) [OF Cons.prems(1)] q Cons.prems(3)] show ?thesis
    proof
      assume "sync_pending ?key x (popped k q (ir_fifo r))"
      with next' P(1) Cons.prems(2) show ?thesis by (simp add: popped_def)
    next
      assume x: "?key x = k \<and> DeltaSync x \<in> set (df_deltas (ir_fifo r) k)"
      have "waiting (listeners r1 ! j) = waiting (listeners r ! j) @ ?new"
        using arg_cong [OF P(2), of "\<lambda>ws. ws ! j"] Cons.prems(4) j by simp
      moreover have "\<exists>n \<in> set ?new. announces n x" using announces_notices [of "DeltaSync x"] x by simp
      ultimately have "\<exists>n \<in> set (waiting (listeners r1 ! j)). announces n x" by auto
      from announced_steps [OF L(1) j r1(2) this] later show ?thesis by blast
    qed
  qed
qed simp

text \<open>C9: a synced informer has told its handlers. In any run that begins with a successful list, once
  \<open>HasSynced\<close> is true every handler has been called for, or has waiting for it, an addition of or an
  update to each object of that list; so a worker that starts on synced caches misses none.\<close>

theorem synced_handlers_told:
  assumes "sound_setup period indexers regs now"
    and "informer_steps meta (Listed xs rv t # is) (started_informer meta period indexers regs now) = Some r"
    and "informer_HasSynced r" "x \<in> set xs" "j < length regs"
  shows "\<exists>n \<in> set (calls j is @ waiting (listeners r ! j)). announces n x"
proof -
  let ?r0 = "started_informer meta period indexers regs now"
  note S = started_informer_laws(1,4) [OF assms(1), where meta = meta]
  obtain r1 where r1: "informer_step meta (Listed xs rv t) ?r0 = Some r1" "informer_steps meta is r1 = Some r"
    using assms(2) by (auto simp del: informer_step.simps split: bind_splits)
  note L = informer_step_laws(1,3) [OF S(1) r1(1)]
  have j: "j < length (listeners r1)" using L(2) S(2) assms(5) by (simp add: told_by_def)
  note F = first_list_pending [OF assms(1) r1(1) assms(4)]
  have "\<not> sync_pending (meta_keyed meta) x (ir_fifo r)"
    using assms(3) by (auto simp: informer_HasSynced_def df_HasSynced_def sync_pending_def)
  with pending_or_announced [OF L(1) F j r1(2)] show ?thesis by (simp add: announced_def)
qed

theorem synced_handlers_told_witness:
  "\<exists>r. informer_steps (\<lambda>x. x) (sample_inputs sample_meta) (sample_start (\<lambda>x. x)) = Some r \<and> informer_HasSynced r \<and>
    (\<exists>n \<in> set (waiting (listeners r ! 0)). announces n sample_meta)"
proof -
  obtain r where r: "informer_steps (\<lambda>x. x) (sample_inputs sample_meta) (sample_start (\<lambda>x. x)) = Some r" "informer_HasSynced r"
    unfolding sample_run by (simp add: informer_HasSynced_def df_HasSynced_def)
  with synced_handlers_told [OF sample_setup, of "\<lambda>x. x" "[sample_meta]" "''5''" 0 "[PopDeltas]" r sample_meta 0]
  show ?thesis by (auto simp: sample_start_def sample_inputs_def simp del: informer_steps.simps)
qed

end
