(* ===== verification/Workqueue.thy ===== *)
theory Workqueue
  imports Prelude
begin

text \<open>
  The work queue of the controller (\<open>vendor/k8s.io/client-go/util/workqueue\<close>): \<open>queue.go\<close>
  with its \<open>queue\<close>, \<open>dirty\<close> and \<open>processing\<close> sets, and the per-item exponential rate limiter that
  \<open>Forget\<close> resets. Every operation runs under the queue's lock, so it is one state transformer.
  \<open>Get\<close> waits on a condition variable; here it answers \<open>Blocked\<close> and leaves the queue alone.
  The locale \<open>work_queue\<close> states the contract a pool of workers relies on.
\<close>

section \<open>The queue\<close>

record 't workqueue =
  wq_queue :: "'t list"
  wq_dirty :: "'t set"
  wq_processing :: "'t set"
  wq_shuttingDown :: bool

datatype 't get_result = Blocked | Quit | Item 't

definition NewNamed :: "'t workqueue" where
  "NewNamed = \<lparr>wq_queue = [], wq_dirty = {}, wq_processing = {}, wq_shuttingDown = False\<rparr>"

definition Add :: "'t \<Rightarrow> 't workqueue \<Rightarrow> 't workqueue" where
  "Add item q =
     (if wq_shuttingDown q then q
      else if item \<in> wq_dirty q then q
      else let q = q\<lparr>wq_dirty := insert item (wq_dirty q)\<rparr>
           in if item \<in> wq_processing q then q
              else q\<lparr>wq_queue := wq_queue q @ [item]\<rparr>)"

definition Len :: "'t workqueue \<Rightarrow> nat" where
  "Len q = length (wq_queue q)"

definition Get :: "'t workqueue \<Rightarrow> 't get_result \<times> 't workqueue" where
  "Get q =
     (case wq_queue q of
        [] \<Rightarrow> if wq_shuttingDown q then (Quit, q) else (Blocked, q)
      | item # rest \<Rightarrow>
          (Item item,
           q\<lparr>wq_queue := rest,
             wq_processing := insert item (wq_processing q),
             wq_dirty := wq_dirty q - {item}\<rparr>))"

definition Done :: "'t \<Rightarrow> 't workqueue \<Rightarrow> 't workqueue" where
  "Done item q =
     (let q = q\<lparr>wq_processing := wq_processing q - {item}\<rparr>
      in if item \<in> wq_dirty q then q\<lparr>wq_queue := wq_queue q @ [item]\<rparr> else q)"

definition ShutDown :: "'t workqueue \<Rightarrow> 't workqueue" where
  "ShutDown q = q\<lparr>wq_shuttingDown := True\<rparr>"

definition ShuttingDown :: "'t workqueue \<Rightarrow> bool" where
  "ShuttingDown q = wq_shuttingDown q"

text \<open>
  The invariant the source states at the field \<open>queue\<close>: its elements are dirty and not being
  processed. The code also relies on the converse and on the absence of duplicates.
\<close>

definition wq_inv :: "'t workqueue \<Rightarrow> bool" where
  "wq_inv q \<longleftrightarrow> distinct (wq_queue q) \<and> set (wq_queue q) = wq_dirty q - wq_processing q"

lemmas wq_defs = Add_def Get_def Done_def ShutDown_def NewNamed_def

lemma wq_inv_NewNamed [simp, go_intros]: "wq_inv NewNamed"
  by (simp add: wq_inv_def NewNamed_def)

lemma wq_inv_Add [simp, go_intros]: "wq_inv q \<Longrightarrow> wq_inv (Add item q)"
  by (auto simp: wq_inv_def Add_def Let_def)

lemma wq_inv_Get [go_intros]: "wq_inv q \<Longrightarrow> Get q = (r, q') \<Longrightarrow> wq_inv q'"
  by (auto simp: wq_inv_def Get_def split: list.splits if_splits)

lemma Diff_remove: "A - (B - {x}) = (if x \<in> A then insert x (A - B) else A - B)"
  by auto

lemma wq_inv_Done [go_intros]: "wq_inv q \<Longrightarrow> item \<in> wq_processing q \<Longrightarrow> wq_inv (Done item q)"
  by (simp add: wq_inv_def Done_def Let_def Diff_remove)

lemma wq_inv_ShutDown [simp, go_intros]: "wq_inv q \<Longrightarrow> wq_inv (ShutDown q)"
  by (simp add: wq_inv_def ShutDown_def)

text \<open>What each operation does to the sets: the facts the clients use.\<close>

lemma Add_sets [simp, go_simps]:
  "wq_dirty (Add x q) = (if wq_shuttingDown q then wq_dirty q else insert x (wq_dirty q))"
  "wq_processing (Add x q) = wq_processing q"
  "wq_shuttingDown (Add x q) = wq_shuttingDown q"
  by (auto simp: Add_def Let_def)

lemma Done_sets [simp, go_simps]:
  "wq_dirty (Done x q) = wq_dirty q"
  "wq_processing (Done x q) = wq_processing q - {x}"
  "wq_shuttingDown (Done x q) = wq_shuttingDown q"
  by (simp_all add: Done_def Let_def)

lemma ShutDown_sets [simp, go_simps]:
  "wq_dirty (ShutDown q) = wq_dirty q"
  "wq_processing (ShutDown q) = wq_processing q"
  "wq_queue (ShutDown q) = wq_queue q"
  "wq_shuttingDown (ShutDown q)"
  by (simp_all add: ShutDown_def)

lemma Get_ItemE:
  assumes "Get q = (Item x, q')"
  obtains rest where "wq_queue q = x # rest" "wq_queue q' = rest"
    "wq_dirty q' = wq_dirty q - {x}" "wq_processing q' = insert x (wq_processing q)"
    "wq_shuttingDown q' = wq_shuttingDown q"
  using assms by (auto simp: Get_def split: list.splits if_splits)

lemma Get_not_Item:
  "Get q = (Blocked, q') \<Longrightarrow> q' = q \<and> wq_queue q = [] \<and> \<not> wq_shuttingDown q"
  "Get q = (Quit, q') \<Longrightarrow> q' = q \<and> wq_queue q = [] \<and> wq_shuttingDown q"
  by (auto simp: Get_def split: list.splits if_splits)

section \<open>The contract of a work queue\<close>

text \<open>
  A client sees two sets: the items that still need work (\<open>pending\<close>) and those handed out
  (\<open>inflight\<close>). The claim table of a pool of workers says which worker holds which item.
\<close>

definition claims :: "('w \<rightharpoonup> 't) \<Rightarrow> 't set \<Rightarrow> bool" where
  "claims held S \<longleftrightarrow> ran held = S \<and> inj_on held (dom held)"

locale work_queue =
  fixes add :: "'t \<Rightarrow> 'q \<Rightarrow> 'q"
    and get :: "'q \<Rightarrow> 't get_result \<times> 'q"
    and don :: "'t \<Rightarrow> 'q \<Rightarrow> 'q"
    and shut :: "'q \<Rightarrow> 'q"
    and down :: "'q \<Rightarrow> bool"
    and pending :: "'q \<Rightarrow> 't set"
    and inflight :: "'q \<Rightarrow> 't set"
    and invar :: "'q \<Rightarrow> bool"
  assumes invar_add: "invar q \<Longrightarrow> invar (add x q)"
    and invar_get: "invar q \<Longrightarrow> get q = (r, q') \<Longrightarrow> invar q'"
    and invar_don: "invar q \<Longrightarrow> x \<in> inflight q \<Longrightarrow> invar (don x q)"
    and invar_shut: "invar q \<Longrightarrow> invar (shut q)"
    and pending_add: "pending (add x q) = (if down q then pending q else insert x (pending q))"
    and inflight_add: "inflight (add x q) = inflight q"
    and get_item: "invar q \<Longrightarrow> get q = (Item x, q') \<Longrightarrow>
          x \<in> pending q - inflight q \<and> pending q' = pending q - {x} \<and>
          inflight q' = insert x (inflight q)"
    and get_none: "invar q \<Longrightarrow> get q = (r, q') \<Longrightarrow> \<forall>x. r \<noteq> Item x \<Longrightarrow>
          q' = q \<and> pending q \<subseteq> inflight q \<and> (r = Quit \<longleftrightarrow> down q)"
    and pending_don: "pending (don x q) = pending q"
    and inflight_don: "inflight (don x q) = inflight q - {x}"
    and pending_shut: "pending (shut q) = pending q"
    and inflight_shut: "inflight (shut q) = inflight q"
begin

text \<open>A worker that takes an item becomes its only holder.\<close>

lemma acquire_claims:
  assumes "invar q" "claims held (inflight q)" "held w = None" "get q = (Item x, q')"
  shows "claims (held(w \<mapsto> x)) (inflight q')"
proof -
  from get_item [OF assms(1,4)] have x: "x \<notin> inflight q" "inflight q' = insert x (inflight q)"
    by auto
  from assms(2) have r: "ran held = inflight q" and inj: "inj_on held (dom held)"
    by (simp_all add: claims_def)
  from x r have fresh: "held v \<noteq> Some x" for v
    by (auto simp: ran_def)
  have "inj_on (held(w \<mapsto> x)) (dom (held(w \<mapsto> x)))"
    using inj fresh by (simp add: inj_on_def dom_def) metis
  then show ?thesis using r x(2) assms(3) by (simp add: claims_def)
qed

lemma release_claims:
  assumes "claims held (inflight q)" "held w = Some x"
  shows "claims (held(w := None)) (inflight (don x q))"
proof -
  from assms have r: "ran held = inflight q" and inj: "inj_on held (dom held)"
    by (simp_all add: claims_def)
  have "ran (held(w := None)) = inflight q - {x}"
  proof
    show "ran (held(w := None)) \<subseteq> inflight q - {x}"
      using r inj assms(2) by (fastforce simp: ran_def inj_on_def dom_def split: if_splits)
    show "inflight q - {x} \<subseteq> ran (held(w := None))"
    proof
      fix y
      assume y: "y \<in> inflight q - {x}"
      with r obtain v where v: "held v = Some y" by (auto simp: ran_def)
      with y assms(2) have "v \<noteq> w" by auto
      with v have "(held(w := None)) v = Some y" by simp
      then show "y \<in> ran (held(w := None))" by (rule ranI)
    qed
  qed
  moreover have "inj_on (held(w := None)) (dom (held(w := None)))"
    using inj by (auto simp: inj_on_def dom_def)
  ultimately show ?thesis by (simp add: claims_def inflight_don)
qed

lemma held_inflight: "claims held (inflight q) \<Longrightarrow> held w = Some x \<Longrightarrow> x \<in> inflight q"
  by (auto simp: claims_def ran_def)

text \<open>An item added while a worker holds it is still pending once that worker is done.\<close>

lemma add_not_lost: "\<not> down q \<Longrightarrow> x \<in> pending (don x (add x q))"
  by (simp add: pending_add pending_don)

lemma drained: "invar q \<Longrightarrow> get q = (Quit, q') \<Longrightarrow> inflight q = {} \<Longrightarrow> pending q = {}"
  using get_none [of q Quit q'] by auto

end

interpretation wq: work_queue Add Get Done ShutDown wq_shuttingDown wq_dirty wq_processing wq_inv
proof (unfold_locales, goal_cases)
  case (7 q x q')
  then show ?case
    by (auto simp: wq_inv_def elim!: Get_ItemE)
next
  case (8 q r q')
  then show ?case
    by (cases r) (auto simp: wq_inv_def dest!: Get_not_Item)
qed (auto intro: go_intros)

section \<open>Per-item exponential back-off\<close>

text \<open>
  \<open>default_rate_limiters.go\<close>: delays in nanoseconds. The product is computed in \<open>float64\<close>, exact
  here because the base delay is below \<open>2^53\<close> and the other factor is a power of two; the
  comparison with \<open>math.MaxInt64\<close> guards the conversion back.
\<close>

record 't ItemExponentialFailureRateLimiter =
  rl_failures :: "'t \<rightharpoonup> nat"
  rl_baseDelay :: nat
  rl_maxDelay :: nat

definition failures_of :: "'t ItemExponentialFailureRateLimiter \<Rightarrow> 't \<Rightarrow> nat" where
  "failures_of r item = (case rl_failures r item of None \<Rightarrow> 0 | Some n \<Rightarrow> n)"

definition NewItemExponentialFailureRateLimiter ::
  "nat \<Rightarrow> nat \<Rightarrow> 't ItemExponentialFailureRateLimiter" where
  "NewItemExponentialFailureRateLimiter base mx =
     \<lparr>rl_failures = Map.empty, rl_baseDelay = base, rl_maxDelay = mx\<rparr>"

definition When ::
  "'t ItemExponentialFailureRateLimiter \<Rightarrow> 't \<Rightarrow> nat \<times> 't ItemExponentialFailureRateLimiter" where
  "When r item =
     (let exp = failures_of r item;
          r' = r\<lparr>rl_failures := (rl_failures r)(item \<mapsto> failures_of r item + 1)\<rparr>;
          backoff = rl_baseDelay r * 2 ^ exp
      in if backoff > 2 ^ 63 then (rl_maxDelay r, r')
         else if backoff > rl_maxDelay r then (rl_maxDelay r, r')
         else (backoff, r'))"

definition NumRequeues :: "'t ItemExponentialFailureRateLimiter \<Rightarrow> 't \<Rightarrow> nat" where
  "NumRequeues r item = failures_of r item"

definition Forget ::
  "'t \<Rightarrow> 't ItemExponentialFailureRateLimiter \<Rightarrow> 't ItemExponentialFailureRateLimiter" where
  "Forget item r = r\<lparr>rl_failures := (rl_failures r)(item := None)\<rparr>"

lemma When_delay:
  assumes "rl_maxDelay r \<le> 2 ^ 63"
  shows "fst (When r item) = min (rl_baseDelay r * 2 ^ failures_of r item) (rl_maxDelay r)"
  using assms by (auto simp: When_def Let_def min_def)

lemma When_counts [simp]:
  "failures_of (snd (When r item)) x = (if x = item then Suc (failures_of r item) else failures_of r x)"
  by (auto simp: When_def Let_def failures_of_def)

lemma When_delays [simp]:
  "rl_baseDelay (snd (When r item)) = rl_baseDelay r"
  "rl_maxDelay (snd (When r item)) = rl_maxDelay r"
  by (auto simp: When_def Let_def)

lemma Forget_resets [simp]:
  "failures_of (Forget item r) x = (if x = item then 0 else failures_of r x)"
  by (simp add: Forget_def failures_of_def)

text \<open>\<open>n\<close> consecutive failures of one item.\<close>

fun fail_times :: "nat \<Rightarrow> 't \<Rightarrow> 't ItemExponentialFailureRateLimiter \<Rightarrow>
    't ItemExponentialFailureRateLimiter" where
  "fail_times 0 item r = r"
| "fail_times (Suc n) item r = fail_times n item (snd (When r item))"

lemma fail_times_simps [simp]:
  "failures_of (fail_times n item r) item = failures_of r item + n"
  "rl_baseDelay (fail_times n item r) = rl_baseDelay r"
  "rl_maxDelay (fail_times n item r) = rl_maxDelay r"
  by (induction n arbitrary: r) auto

end
