(* ===== verification/Resources.thy ===== *)
theory Resources
  imports MeshTypes Labels
begin

text \<open>
  The Kubernetes objects the controller creates for a mesh \<open>Service\<close> (\<open>pkg/controller/resource.go\<close>,
  \<open>pkg/controller/meta.go\<close>): the deployment with the Envoy side-car and the Kubernetes service, with
  labels, selectors and owner references. \<open>CreateServiceDeployment\<close> writes a default container name
  into the service it is given, so it returns the service as well.
\<close>

section \<open>Names, labels and owners\<close>

definition deploymentName :: "Service \<Rightarrow> string" where
  "deploymentName service = om_Name (service_Meta service)"

definition k8sServiceName :: "Service \<Rightarrow> string" where
  "k8sServiceName service = om_Name (service_Meta service)"

definition createLabels :: "Service \<Rightarrow> gomap" where
  "createLabels service =
     range_store [(''app'', om_Name (service_Meta service))] (om_Labels (service_Meta service))"

definition createSelector :: "Service \<Rightarrow> LabelSelector" where
  "createSelector service = \<lparr>ls_MatchLabels = createLabels service\<rparr>"

definition createServiceOwnerRef :: "ObjectMeta \<Rightarrow> OwnerReference" where
  "createServiceOwnerRef obj =
     NewControllerRef obj
       \<lparr>gvk_Group = gv_Group SchemeGroupVersion, gvk_Version = gv_Version SchemeGroupVersion,
        gvk_Kind = ''Service''\<rparr>"

definition envoyLogLevel :: "Service \<Rightarrow> string" where
  "envoyLogLevel service =
     (if length (envoy_LogLevel (ss_Envoy (service_Spec service))) > 0
      then envoy_LogLevel (ss_Envoy (service_Spec service)) else ''info'')"

definition envoyDiscoveryAddress :: "Service \<Rightarrow> string" where
  "envoyDiscoveryAddress service =
     (if length (envoy_DiscoveryAddress (ss_Envoy (service_Spec service))) > 0
      then envoy_DiscoveryAddress (ss_Envoy (service_Spec service)) else ''10.100.5.46'')"

definition envoyDiscoveryPort :: "Service \<Rightarrow> string" where
  "envoyDiscoveryPort service =
     (if length (envoy_DiscoveryPort (ss_Envoy (service_Spec service))) > 0
      then envoy_DiscoveryPort (ss_Envoy (service_Spec service)) else ''9000'')"

section \<open>The deployment\<close>

definition field_env :: "string \<Rightarrow> string \<Rightarrow> EnvVar" where
  "field_env name path =
     \<lparr>ev_Name = name, ev_Value = [],
      ev_ValueFrom = Some \<lparr>es_FieldRef = Some \<lparr>fs_APIVersion = ''v1'', fs_FieldPath = path\<rparr>,
        es_Rest = None\<rparr>\<rparr>"

definition envoy_args :: "Service \<Rightarrow> string list" where
  "envoy_args service =
     [''--bootstrapTemplate'', ''/etc/conf/envoy-bootstrap-template.yaml'',
      ''--bootstrapConfig'', ''/etc/conf/envoy-bootstrap.yaml'',
      ''--envoyBinary'', ''/usr/local/bin/envoy'',
      ''--logLevel'', envoyLogLevel service,
      ''--serviceCluster'', om_Name (service_Meta service),
      ''--discoveryAddress'', envoyDiscoveryAddress service,
      ''--discoveryPort'', envoyDiscoveryPort service]"

definition envoy_container :: "Service \<Rightarrow> Container" where
  "envoy_container service = zero_Container
     \<lparr>c_Args := envoy_args service,
      c_Env := [field_env ''POD_NAME'' ''metadata.name'', field_env ''POD_IP'' ''status.podIP''],
      c_Image := ''mirage20/lite-mesh-envoy-bootstrap'',
      c_Name := ''envoy-proxy''\<rparr>"

definition init_container :: Container where
  "init_container = zero_Container
     \<lparr>c_Args := [''-p'', ''15001'', ''-u'', ''2020'', ''-m'', ''REDIRECT'', ''-i'', ''*'',
        ''-x'', '''', ''-b'', ''*'', ''-d'', ''''],
      c_Image := ''gcr.io/istio-release/proxy_init:1.0.2'',
      c_Name := ''iptable-init'',
      c_SecurityContext := Some \<lparr>sc_CapabilitiesAdd = [''NET_ADMIN''], sc_Rest = None\<rparr>\<rparr>"

definition default_container_name :: "Service \<Rightarrow> Service" where
  "default_container_name service =
     (let spec = service_Spec service
      in if length (c_Name (ss_Container spec)) = 0
         then service\<lparr>service_Spec :=
                spec\<lparr>ss_Container := (ss_Container spec)\<lparr>c_Name := om_Name (service_Meta service)\<rparr>\<rparr>\<rparr>
         else service)"

definition CreateServiceDeployment :: "Service \<Rightarrow> Deployment \<times> Service" where
  "CreateServiceDeployment service0 =
     (let podTemplateAnnotations = AList.update ''sidecar.istio.io/inject'' ''false'' [];
          service = default_container_name service0;
          containers = [envoy_container service];
          containers =
            (case ss_Gateway (service_Spec service) of
               None \<Rightarrow> containers @ [ss_Container (service_Spec service)]
             | Some _ \<Rightarrow> containers)
      in (\<lparr>dep_Meta = zero_ObjectMeta
              \<lparr>om_Name := deploymentName service,
               om_Namespace := om_Namespace (service_Meta service),
               om_Labels := createLabels service,
               om_OwnerReferences := [createServiceOwnerRef (service_Meta service)]\<rparr>,
           dep_Replicas = ss_Replicas (service_Spec service),
           dep_Selector = createSelector service,
           dep_Template =
             \<lparr>pt_Labels = createLabels service, pt_Annotations = podTemplateAnnotations,
              pt_InitContainers = [init_container], pt_Containers = containers\<rparr>\<rparr>,
          service))"

section \<open>The Kubernetes service\<close>

definition tcp_port :: "32 word \<Rightarrow> ServicePort" where
  "tcp_port v = \<lparr>sp_Name = ''tcp-'' @ int32_str v, sp_Protocol = ''TCP'', sp_Port = v,
     sp_TargetPort = IntVal v\<rparr>"

fun append_service_ports :: "ServicePort list \<Rightarrow> 32 word list \<Rightarrow> ServicePort list" where
  "append_service_ports servicePorts [] = servicePorts"
| "append_service_ports servicePorts (v # vs) = append_service_ports (servicePorts @ [tcp_port v]) vs"

definition CreateServiceK8sService :: "Service \<Rightarrow> K8sService" where
  "CreateServiceK8sService service =
     (let servicePorts =
            (case ss_Gateway (service_Spec service) of
               Some gateway \<Rightarrow> append_service_ports [] (gw_Ports gateway)
             | None \<Rightarrow> append_service_ports [] (Ports (service_Spec service)))
      in \<lparr>svc_Meta = zero_ObjectMeta
            \<lparr>om_Name := k8sServiceName service,
             om_Namespace := om_Namespace (service_Meta service),
             om_Labels := createLabels service,
             om_OwnerReferences := [createServiceOwnerRef (service_Meta service)]\<rparr>,
          svc_Ports = servicePorts,
          svc_Selector = createLabels service\<rparr>)"

section \<open>Facts about the created objects\<close>

lemma default_container_name_frame [simp, go_simps]:
  "service_Meta (default_container_name s) = service_Meta s"
  "ss_Gateway (service_Spec (default_container_name s)) = ss_Gateway (service_Spec s)"
  "ss_Replicas (service_Spec (default_container_name s)) = ss_Replicas (service_Spec s)"
  "ss_Envoy (service_Spec (default_container_name s)) = ss_Envoy (service_Spec s)"
  "Ports (service_Spec (default_container_name s)) = Ports (service_Spec s)"
  by (simp_all add: default_container_name_def Let_def Ports_map)

lemma default_container_name_idem [simp]:
  "default_container_name (default_container_name s) = default_container_name s"
  by (simp add: default_container_name_def Let_def)

lemma labels_frame [simp, go_simps]:
  "createLabels (default_container_name s) = createLabels s"
  "createSelector (default_container_name s) = createSelector s"
  "deploymentName (default_container_name s) = deploymentName s"
  "k8sServiceName (default_container_name s) = k8sServiceName s"
  "envoy_container (default_container_name s) = envoy_container s"
  by (simp_all add: createLabels_def createSelector_def deploymentName_def k8sServiceName_def
      envoy_container_def envoy_args_def envoyLogLevel_def envoyDiscoveryAddress_def
      envoyDiscoveryPort_def)

lemma append_service_ports_map: "append_service_ports acc vs = acc @ map tcp_port vs"
  by (induction vs arbitrary: acc) auto

lemma tcp_port_inject: "sp_Name (tcp_port v) = sp_Name (tcp_port w) \<longleftrightarrow> v = w"
  by (simp add: tcp_port_def)

lemma go_map_createLabels [simp]: "go_map (createLabels s)"
  by (simp add: createLabels_def)

lemma map_of_createLabels:
  "go_map (om_Labels (service_Meta s)) \<Longrightarrow>
   map_of (createLabels s) =
     [''app'' \<mapsto> om_Name (service_Meta s)] ++ map_of (om_Labels (service_Meta s))"
  by (simp add: createLabels_def map_of_range_store)

lemma createLabels_app:
  "go_map (om_Labels (service_Meta s)) \<Longrightarrow>
   map_of (createLabels s) ''app'' =
     (case map_of (om_Labels (service_Meta s)) ''app'' of
        None \<Rightarrow> Some (om_Name (service_Meta s)) | Some v \<Rightarrow> Some v)"
  by (simp add: map_of_createLabels map_add_def split: option.splits)

text \<open>The template of a created deployment, its selector and its owner.\<close>

lemma CreateServiceDeployment_fields:
  "fst (CreateServiceDeployment s) =
     \<lparr>dep_Meta = zero_ObjectMeta
        \<lparr>om_Name := om_Name (service_Meta s), om_Namespace := om_Namespace (service_Meta s),
         om_Labels := createLabels s,
         om_OwnerReferences := [createServiceOwnerRef (service_Meta s)]\<rparr>,
      dep_Replicas = ss_Replicas (service_Spec s),
      dep_Selector = createSelector s,
      dep_Template = \<lparr>pt_Labels = createLabels s,
        pt_Annotations = [(''sidecar.istio.io/inject'', ''false'')],
        pt_InitContainers = [init_container],
        pt_Containers = envoy_container s #
          (if ss_Gateway (service_Spec s) = None
           then [ss_Container (service_Spec (default_container_name s))] else [])\<rparr>\<rparr>"
  "snd (CreateServiceDeployment s) = default_container_name s"
  by (auto simp: CreateServiceDeployment_def Let_def deploymentName_def split: option.splits)

lemma CreateServiceK8sService_fields:
  "CreateServiceK8sService s =
     \<lparr>svc_Meta = zero_ObjectMeta
        \<lparr>om_Name := om_Name (service_Meta s), om_Namespace := om_Namespace (service_Meta s),
         om_Labels := createLabels s,
         om_OwnerReferences := [createServiceOwnerRef (service_Meta s)]\<rparr>,
      svc_Ports = map tcp_port
        (case ss_Gateway (service_Spec s) of
           Some gateway \<Rightarrow> gw_Ports gateway | None \<Rightarrow> Ports (service_Spec s)),
      svc_Selector = createLabels s\<rparr>"
  by (auto simp: CreateServiceK8sService_def append_service_ports_map k8sServiceName_def
      split: option.splits)

text \<open>The Kubernetes service is computed from parts that naming the container does not touch.\<close>

lemma CreateServiceK8sService_default_name [simp]:
  "CreateServiceK8sService (default_container_name s) = CreateServiceK8sService s"
  by (simp add: CreateServiceK8sService_fields split: option.splits)

lemma default_name_nonempty:
  "om_Name (service_Meta s) \<noteq> [] \<Longrightarrow>
   c_Name (ss_Container (service_Spec (default_container_name s))) =
     (if c_Name (ss_Container (service_Spec s)) = [] then om_Name (service_Meta s)
      else c_Name (ss_Container (service_Spec s)))"
  by (simp add: default_container_name_def Let_def)

lemma owner_ref_controls:
  "om_OwnerReferences m = [createServiceOwnerRef o'] \<Longrightarrow> IsControlledBy m o'"
  by (simp add: IsControlledBy_def GetControllerOf_def createServiceOwnerRef_def NewControllerRef_def)

section \<open>Properties\<close>

text \<open>The labels of a pod made from a template extend those of the template.\<close>

definition pod_of_template :: "Deployment \<Rightarrow> gomap \<Rightarrow> bool" where
  "pod_of_template d labels \<longleftrightarrow>
     list_all (\<lambda>(k, v). map_of labels k = Some v) (pt_Labels (dep_Template d))"

lemma pod_of_template_selected:
  "pod_of_template (fst (CreateServiceDeployment s)) labels \<Longrightarrow> selected_by (createLabels s) labels"
  by (auto simp: selected_by_def pod_of_template_def CreateServiceDeployment_fields list_all_iff)

text \<open>C19: every pod that carries the labels of the created deployment's template is selected by the
  deployment's own selector and by the Kubernetes service created for the same mesh service,
  whatever labels the user gave the service.\<close>

theorem created_objects_select_their_pods:
  assumes "pod_of_template (fst (CreateServiceDeployment s)) labels"
  shows "Selector_Matches
           (SelectorFromSet (ls_MatchLabels (dep_Selector (fst (CreateServiceDeployment s))))) labels \<and>
         Selector_Matches (SelectorFromSet (svc_Selector (CreateServiceK8sService s))) labels"
  using pod_of_template_selected [OF assms]
  by (simp add: SelectorFromSet_selected CreateServiceDeployment_fields
      CreateServiceK8sService_fields createSelector_def)

definition sample_container :: Container where
  "sample_container = zero_Container
     \<lparr>c_Image := ''shop/app'',
      c_Ports := [\<lparr>cp_Name = ''http'', cp_HostPort = 0, cp_ContainerPort = 8080,
                   cp_Protocol = ''TCP'', cp_HostIP = []\<rparr>]\<rparr>"

definition sample_service :: Service where
  "sample_service =
     \<lparr>service_Meta = zero_ObjectMeta
        \<lparr>om_Name := ''cart'', om_Namespace := ''shop'', om_UID := ''u1'',
         om_Labels := [(''tier'', ''web''), (''app'', ''mine'')]\<rparr>,
      service_Spec = \<lparr>ss_Replicas = Some 2, ss_Gateway = None, ss_Container = sample_container,
        ss_Envoy = \<lparr>envoy_LogLevel = [], envoy_DiscoveryAddress = [],
          envoy_DiscoveryPort = ''9001''\<rparr>\<rparr>\<rparr>"

lemma sample_labels [simp]:
  "createLabels sample_service = [(''app'', ''mine''), (''tier'', ''web'')]"
  by (simp add: createLabels_def sample_service_def zero_ObjectMeta_def)

theorem created_objects_select_their_pods_witness:
  "Selector_Matches
     (SelectorFromSet (ls_MatchLabels (dep_Selector (fst (CreateServiceDeployment sample_service)))))
     [(''pod-template-hash'', ''12''), (''app'', ''mine''), (''tier'', ''web'')] \<and>
   Selector_Matches (SelectorFromSet (svc_Selector (CreateServiceK8sService sample_service)))
     [(''pod-template-hash'', ''12''), (''app'', ''mine''), (''tier'', ''web'')]"
  by (rule created_objects_select_their_pods)
    (simp add: pod_of_template_def CreateServiceDeployment_fields)

text \<open>The containers of the created deployment. A service without gateway runs the Envoy
  side-car first and the user's container second, named after the service when it had no name;
  their names are distinct unless the user chose (or the default became) \<open>envoy-proxy\<close>. A gateway
  runs the side-car alone. Nothing else of the service is changed on the way.\<close>

theorem CreateServiceDeployment_containers:
  "(let (d, s') = CreateServiceDeployment s;
        names = map c_Name (pt_Containers (dep_Template d));
        user = c_Name (ss_Container (service_Spec s));
        name = (if user = [] then om_Name (service_Meta s) else user)
    in hd (pt_Containers (dep_Template d)) = envoy_container s \<and>
       names = (if ss_Gateway (service_Spec s) = None then [''envoy-proxy'', name]
                else [''envoy-proxy'']) \<and>
       (distinct names \<longleftrightarrow> \<not> (ss_Gateway (service_Spec s) = None \<and> name = ''envoy-proxy'')) \<and>
       s' = s\<lparr>service_Spec := (service_Spec s)
                \<lparr>ss_Container := (ss_Container (service_Spec s))\<lparr>c_Name := name\<rparr>\<rparr>\<rparr>)"
proof -
  have env: "c_Name (envoy_container s) = ''envoy-proxy''"
    by (simp add: envoy_container_def)
  have def': "default_container_name s = s\<lparr>service_Spec := (service_Spec s)
      \<lparr>ss_Container := (ss_Container (service_Spec s))
        \<lparr>c_Name := if c_Name (ss_Container (service_Spec s)) = [] then om_Name (service_Meta s)
                  else c_Name (ss_Container (service_Spec s))\<rparr>\<rparr>\<rparr>"
    by (simp add: default_container_name_def Let_def)
  show ?thesis
    using CreateServiceDeployment_fields [of s]
    by (cases "CreateServiceDeployment s") (auto simp: env def' Let_def)
qed

text \<open>The ports of the created Kubernetes service are the gateway's ports, or the ports of the
  user's container, in order; each is forwarded to itself, and the API server's demand that port
  names be unique holds exactly when the port numbers are distinct.\<close>

theorem CreateServiceK8sService_ports:
  "(let ports = (case ss_Gateway (service_Spec s) of
                   None \<Rightarrow> map cp_ContainerPort (c_Ports (ss_Container (service_Spec s)))
                 | Some g \<Rightarrow> gw_Ports g);
        created = svc_Ports (CreateServiceK8sService s)
    in map sp_Port created = ports \<and>
       map sp_TargetPort created = map IntVal ports \<and>
       (distinct (map sp_Name created) \<longleftrightarrow> distinct ports))"
proof -
  have "distinct (map sp_Name (map tcp_port ps)) \<longleftrightarrow> distinct ps" for ps
    by (induction ps) (auto simp: tcp_port_inject image_iff)
  moreover have "map sp_Port (map tcp_port ps) = ps" for ps
    by (simp add: tcp_port_def comp_def)
  moreover have "sp_TargetPort (tcp_port v) = IntVal v" for v
    by (simp add: tcp_port_def)
  ultimately show ?thesis
    by (simp add: Let_def CreateServiceK8sService_fields Ports_map split: option.splits)
qed

end
