(* ===== verification/Controller.thy ===== *)
theory Controller
  imports Workqueue Listers Resources TrackerWatch
begin

text \<open>
  The service controller (\<open>pkg/controller/controller.go\<close>). The informer caches and the Kubernetes API
  live in a world of type \<open>'k\<close>; the controller reaches them through the interfaces it was built
  with, which are the fields of its record: reads of the listers, and creations. \<open>DeepCopy\<close> of the
  listed service is the value itself. A fallible call returns \<open>None\<close> for a nil error.
\<close>

section \<open>The controller and its handlers\<close>

record 'k controller =
  deploymentLister_Get :: "'k \<Rightarrow> string \<Rightarrow> string \<Rightarrow> api_error + Deployment"
  k8sServiceLister_Get :: "'k \<Rightarrow> string \<Rightarrow> string \<Rightarrow> api_error + K8sService"
  serviceLister_of :: "'k \<Rightarrow> serviceLister"
  Deployments_Create :: "string \<Rightarrow> Deployment \<Rightarrow> 'k \<Rightarrow> (api_error + Deployment) \<times> 'k"
  K8sServices_Create :: "string \<Rightarrow> K8sService \<Rightarrow> 'k \<Rightarrow> (api_error + K8sService) \<times> 'k"

text \<open>Items of the queue are interfaces: a string, or anything else.\<close>

datatype work_item = StringItem string | OtherItem nat

record 'k ctl_state =
  cs_queue :: "work_item workqueue"
  cs_limiter :: "work_item ItemExponentialFailureRateLimiter"
  cs_world :: 'k

definition enqueue :: "obj_iface \<Rightarrow> work_item workqueue \<Rightarrow> work_item workqueue" where
  "enqueue obj q =
     (case MetaNamespaceKeyFunc obj of
        Inl err \<Rightarrow> q
      | Inr key \<Rightarrow> Add (StringItem key) q)"

text \<open>The handlers that \<open>New\<close> registers with the service informer; deletions have none.\<close>

datatype informer_event = OnAdd obj_iface | OnUpdate obj_iface obj_iface | OnDelete obj_iface

fun service_events :: "informer_event \<Rightarrow> work_item workqueue \<Rightarrow> work_item workqueue" where
  "service_events (OnAdd obj) q = enqueue obj q"
| "service_events (OnUpdate old new) q = enqueue new q"
| "service_events (OnDelete obj) q = q"

text \<open>\<open>DefaultControllerRateLimiter\<close>: 5 ms to 1000 s per item.\<close>

definition New :: "'k \<Rightarrow> 'k ctl_state" where
  "New world =
     \<lparr>cs_queue = NewNamed,
      cs_limiter = NewItemExponentialFailureRateLimiter (5 * 10 ^ 6) (1000 * 10 ^ 9),
      cs_world = world\<rparr>"

section \<open>Reconciling a service\<close>

definition reconcileDeployment ::
  "'k controller \<Rightarrow> Service \<Rightarrow> 'k \<Rightarrow> api_error option \<times> 'k \<times> Service" where
  "reconcileDeployment c service k =
     (case deploymentLister_Get c k (om_Namespace (service_Meta service)) (deploymentName service) of
        Inl err \<Rightarrow>
          if IsNotFound err then
            (let (deployment, service') = CreateServiceDeployment service
             in case Deployments_Create c (om_Namespace (service_Meta service)) deployment k of
                  (Inl err', k') \<Rightarrow> (Some err', k', service')
                | (Inr _, k') \<Rightarrow> (None, k', service'))
          else (Some err, k, service)
      | Inr _ \<Rightarrow> (None, k, service))"

definition reconcileK8sService ::
  "'k controller \<Rightarrow> Service \<Rightarrow> 'k \<Rightarrow> api_error option \<times> 'k" where
  "reconcileK8sService c service k =
     (case k8sServiceLister_Get c k (om_Namespace (service_Meta service)) (k8sServiceName service) of
        Inl err \<Rightarrow>
          if IsNotFound err then
            (case K8sServices_Create c (om_Namespace (service_Meta service))
                    (CreateServiceK8sService service) k of
               (Inl err', k') \<Rightarrow> (Some err', k')
             | (Inr _, k') \<Rightarrow> (None, k'))
          else (Some err, k)
      | Inr _ \<Rightarrow> (None, k))"

definition reconcile :: "'k controller \<Rightarrow> string \<Rightarrow> 'k \<Rightarrow> api_error option \<times> 'k" where
  "reconcile c key k =
     (case SplitMetaNamespaceKey key of
        Inl _ \<Rightarrow> (None, k)
      | Inr (namespace, name) \<Rightarrow>
          (case serviceNamespaceLister_Get (Services (serviceLister_of c k) namespace) name of
             Inl err \<Rightarrow> if IsNotFound err then (None, k) else (Some err, k)
           | Inr service \<Rightarrow>
               (case reconcileDeployment c service k of
                  (Some err, k', _) \<Rightarrow> (Some err, k')
                | (None, k', service') \<Rightarrow>
                    if length (Ports (service_Spec service')) > 0 \<or> ss_Gateway (service_Spec service') \<noteq> None
                    then reconcileK8sService c service' k'
                    else (None, k'))))"

section \<open>The worker\<close>

text \<open>The function literal of \<open>processNextWorkItem\<close>, without its deferred \<open>Done\<close>.\<close>

definition sync_item ::
  "'k controller \<Rightarrow> work_item \<Rightarrow> 'k ctl_state \<Rightarrow> api_error option \<times> 'k ctl_state" where
  "sync_item c obj st =
     (case obj of
        OtherItem _ \<Rightarrow> (None, st\<lparr>cs_limiter := Forget obj (cs_limiter st)\<rparr>)
      | StringItem key \<Rightarrow>
          (case reconcile c key (cs_world st) of
             (Some err, k') \<Rightarrow> (Some err, st\<lparr>cs_world := k'\<rparr>)
           | (None, k') \<Rightarrow> (None, st\<lparr>cs_world := k', cs_limiter := Forget obj (cs_limiter st)\<rparr>)))"

definition finish_item :: "'k controller \<Rightarrow> work_item \<Rightarrow> 'k ctl_state \<Rightarrow> api_error option \<times> 'k ctl_state" where
  "finish_item c obj st =
     (let (err, st') = sync_item c obj st
      in (err, st'\<lparr>cs_queue := Done obj (cs_queue st')\<rparr>))"

text \<open>One round of a worker that is alone; \<open>None\<close> while \<open>Get\<close> waits for an item.\<close>

definition processNextWorkItem :: "'k controller \<Rightarrow> 'k ctl_state \<Rightarrow> (bool \<times> 'k ctl_state) option" where
  "processNextWorkItem c st =
     (case Get (cs_queue st) of
        (Blocked, _) \<Rightarrow> None
      | (Quit, q) \<Rightarrow> Some (False, st\<lparr>cs_queue := q\<rparr>)
      | (Item obj, q) \<Rightarrow> Some (True, snd (finish_item c obj (st\<lparr>cs_queue := q\<rparr>))))"

text \<open>The loop of a worker; the fuel bounds its rounds, and \<open>None\<close> says it was not enough.\<close>

datatype 'k worker_end = Returned "'k ctl_state" | Waiting "'k ctl_state"

fun runWorker :: "nat \<Rightarrow> 'k controller \<Rightarrow> 'k ctl_state \<Rightarrow> 'k worker_end option" where
  "runWorker 0 c st = None"
| "runWorker (Suc fuel) c st =
     (case processNextWorkItem c st of
        None \<Rightarrow> Some (Waiting st)
      | Some (False, st') \<Rightarrow> Some (Returned st')
      | Some (True, st') \<Rightarrow> runWorker fuel c st')"

section \<open>Facts about the operations\<close>

lemma sync_item_frame [simp]: "cs_queue (snd (sync_item c obj st)) = cs_queue st"
  by (auto simp: sync_item_def split: work_item.splits prod.splits option.splits)

lemma finish_item_queue [simp]: "cs_queue (snd (finish_item c obj st)) = Done obj (cs_queue st)"
  by (simp add: finish_item_def case_prod_beta Let_def)

lemma reconcileDeployment_service:
  "reconcileDeployment c s k = (r, k', s') \<Longrightarrow> s' = s \<or> s' = default_container_name s"
  by (auto simp: reconcileDeployment_def CreateServiceDeployment_def Let_def split: result_splits)

lemma reconcileK8sService_default [simp]:
  "reconcileK8sService c (default_container_name s) k = reconcileK8sService c s k"
  by (simp add: reconcileK8sService_def cong: sum.case_cong if_cong)

definition wants_service :: "Service \<Rightarrow> bool" where
  "wants_service s \<longleftrightarrow> Ports (service_Spec s) \<noteq> [] \<or> ss_Gateway (service_Spec s) \<noteq> None"

lemma wants_service_default [simp]: "wants_service (default_container_name s) = wants_service s"
  by (simp add: wants_service_def)

text \<open>Reconciling a listed service: first the deployment, then, if that went well and the service
  has ports or is a gateway, the Kubernetes service.\<close>

lemma reconcile_listed:
  assumes "SplitMetaNamespaceKey key = Inr (ns, name)"
    and "serviceNamespaceLister_Get (Services (serviceLister_of c k) ns) name = Inr s"
  shows "reconcile c key k =
    (case reconcileDeployment c s k of
       (Some err, k', _) \<Rightarrow> (Some err, k')
     | (None, k', _) \<Rightarrow> if wants_service s then reconcileK8sService c s k' else (None, k'))"
proof -
  obtain r k' s' where rd: "reconcileDeployment c s k = (r, k', s')" by (metis prod_cases3)
  from reconcileDeployment_service [OF rd] have "wants_service s' = wants_service s"
    "reconcileK8sService c s' k' = reconcileK8sService c s k'" by auto
  with rd assms show ?thesis
    by (simp add: reconcile_def wants_service_def split: option.splits)
qed

end
