(* ===== verification/Cluster.thy ===== *)
theory Cluster
  imports Controller
begin

text \<open>
  The controller on a Kubernetes API. The locale \<open>kube_cluster\<close> combines two object APIs (for
  deployments and for Kubernetes services) with the listers of the controller; its lemmas describe
  one reconciliation completely. It is interpreted on the cluster made of the object tracker as
  the API and three informer caches, read through the generated listers
  (\<open>vendor/k8s.io/client-go/listers\<close> for Kubernetes' own types).
\<close>

section \<open>Reconciliation against any cluster\<close>

locale kube_cluster =
  deps: object_api "Deployments_Create c" lookupD dep_Meta inv +
  svcs: object_api "K8sServices_Create c" lookupS svc_Meta inv
  for c :: "'k controller" and lookupD :: "string \<times> string \<Rightarrow> 'k \<Rightarrow> Deployment option"
    and lookupS :: "string \<times> string \<Rightarrow> 'k \<Rightarrow> K8sService option" and inv :: "'k \<Rightarrow> bool" +
  assumes dep_frame: "Deployments_Create c ns d k = (r, k') \<Longrightarrow>
      (\<forall>j. lookupS j k' = lookupS j k) \<and> k8sServiceLister_Get c k' = k8sServiceLister_Get c k"
    and svc_frame: "K8sServices_Create c ns v k = (r', k') \<Longrightarrow> \<forall>j. lookupD j k' = lookupD j k"
begin

lemma reconcileDeployment_ensure:
  "\<exists>s'. reconcileDeployment c s k =
     (fst (deps.ensure (deploymentLister_Get c k) (fst (CreateServiceDeployment s)) k),
      snd (deps.ensure (deploymentLister_Get c k) (fst (CreateServiceDeployment s)) k), s')"
  by (auto simp: reconcileDeployment_def deps.ensure_def CreateServiceDeployment_fields
      deploymentName_def case_prod_beta Let_def split: sum.splits prod.splits)

lemma reconcileK8sService_ensure:
  "reconcileK8sService c s k = svcs.ensure (k8sServiceLister_Get c k) (CreateServiceK8sService s) k"
  by (auto simp: reconcileK8sService_def svcs.ensure_def CreateServiceK8sService_fields
      k8sServiceName_def split: sum.splits prod.splits)

definition listed :: "string \<Rightarrow> 'k \<Rightarrow> Service \<Rightarrow> bool" where
  "listed key k s \<longleftrightarrow> (\<exists>ns name. SplitMetaNamespaceKey key = Inr (ns, name) \<and> ns \<noteq> [] \<and> name \<noteq> [] \<and>
     om_Namespace (service_Meta s) = ns \<and> om_Name (service_Meta s) = name \<and>
     serviceNamespaceLister_Get (Services (serviceLister_of c k) ns) name = Inr s)"

definition service_id :: "Service \<Rightarrow> string \<times> string" where
  "service_id s = (om_Namespace (service_Meta s), om_Name (service_Meta s))"

definition seenD :: "'k \<Rightarrow> Service \<Rightarrow> bool" where
  "seenD k s \<longleftrightarrow> is_ok (deploymentLister_Get c k (fst (service_id s)) (snd (service_id s)))"

definition seenS :: "'k \<Rightarrow> Service \<Rightarrow> bool" where
  "seenS k s \<longleftrightarrow> is_ok (k8sServiceLister_Get c k (fst (service_id s)) (snd (service_id s)))"

text \<open>The listers answer, or say that the object does not exist.\<close>

definition listers_work :: "'k \<Rightarrow> bool" where
  "listers_work k \<longleftrightarrow>
     (\<forall>ns name e. (deploymentLister_Get c k ns name = Inl e \<longrightarrow> IsNotFound e) \<and>
                  (k8sServiceLister_Get c k ns name = Inl e \<longrightarrow> IsNotFound e))"

lemma ensure_deployment:
  assumes "inv k" "listed key k s" "listers_work k"
    and "deps.ensure (deploymentLister_Get c k) (fst (CreateServiceDeployment s)) k = (r, k')"
  shows "inv k' \<and> (r = None \<longleftrightarrow> seenD k s \<or> lookupD (service_id s) k = None) \<and>
    (\<forall>j. lookupD j k' = (if j = service_id s \<and> \<not> seenD k s \<and> lookupD (service_id s) k = None
                         then Some (fst (CreateServiceDeployment s)) else lookupD j k)) \<and>
    (\<forall>j. lookupS j k' = lookupS j k) \<and> k8sServiceLister_Get c k' = k8sServiceLister_Get c k"
proof -
  let ?d = "fst (CreateServiceDeployment s)"
  have id: "(om_Namespace (dep_Meta ?d), om_Name (dep_Meta ?d)) = service_id s"
    by (simp add: CreateServiceDeployment_fields service_id_def)
  have "deps.named ?d"
    using assms(2) by (auto simp: deps.named_def listed_def CreateServiceDeployment_fields)
  note cases = deps.ensure_cases [OF assms(1) this assms(4)]
  have frame: "(\<forall>j. lookupS j k' = lookupS j k) \<and> k8sServiceLister_Get c k' = k8sServiceLister_Get c k"
    using assms(4) dep_frame by (auto simp: deps.ensure_def split: sum.splits prod.splits if_splits)
  from id have seen: "seenD k s \<longleftrightarrow> is_ok (deploymentLister_Get c k (om_Namespace (dep_Meta ?d)) (om_Name (dep_Meta ?d)))"
    by (simp add: seenD_def service_id_def)
  show ?thesis
  proof (rule cases, goal_cases)
    case (2 e)
    with assms(3) show ?case unfolding listers_work_def by blast
  qed (use assms(1) frame id seen in \<open>simp_all del: split_paired_All\<close>)
qed

lemma ensure_service:
  assumes "inv k" "listed key k0 s" "listers_work k"
    and "svcs.ensure (k8sServiceLister_Get c k) (CreateServiceK8sService s) k = (r, k')"
  shows "inv k' \<and> (r = None \<longleftrightarrow> seenS k s \<or> lookupS (service_id s) k = None) \<and>
    (\<forall>j. lookupS j k' = (if j = service_id s \<and> \<not> seenS k s \<and> lookupS (service_id s) k = None
                         then Some (CreateServiceK8sService s) else lookupS j k)) \<and>
    (\<forall>j. lookupD j k' = lookupD j k)"
proof -
  let ?v = "CreateServiceK8sService s"
  have id: "(om_Namespace (svc_Meta ?v), om_Name (svc_Meta ?v)) = service_id s"
    by (simp add: CreateServiceK8sService_fields service_id_def)
  have "svcs.named ?v"
    using assms(2) by (auto simp: svcs.named_def listed_def CreateServiceK8sService_fields)
  note cases = svcs.ensure_cases [OF assms(1) this assms(4)]
  have frame: "\<forall>j. lookupD j k' = lookupD j k"
    using assms(4) svc_frame by (auto simp: svcs.ensure_def split: sum.splits prod.splits if_splits)
  from id have seen: "seenS k s \<longleftrightarrow> is_ok (k8sServiceLister_Get c k (om_Namespace (svc_Meta ?v)) (om_Name (svc_Meta ?v)))"
    by (simp add: seenS_def service_id_def)
  show ?thesis
  proof (rule cases, goal_cases)
    case (2 e)
    with assms(3) show ?case unfolding listers_work_def by blast
  qed (use assms(1) frame id seen in \<open>simp_all del: split_paired_All\<close>)
qed

text \<open>One reconciliation of a listed service, on every branch.\<close>

lemma reconcile_table:
  assumes inv: "inv k" and listed: "listed key k s" and work: "\<And>k. listers_work k"
  defines "okD \<equiv> seenD k s \<or> lookupD (service_id s) k = None"
    and "okS \<equiv> seenS k s \<or> lookupS (service_id s) k = None"
  shows "\<exists>r k'. reconcile c key k = (r, k') \<and> inv k' \<and>
    (r = None \<longleftrightarrow> okD \<and> (wants_service s \<longrightarrow> okS)) \<and>
    (\<forall>j. lookupD j k' = (if j = service_id s \<and> \<not> seenD k s \<and> lookupD j k = None
                         then Some (fst (CreateServiceDeployment s)) else lookupD j k)) \<and>
    (\<forall>j. lookupS j k' = (if j = service_id s \<and> okD \<and> wants_service s \<and> \<not> seenS k s \<and> lookupS j k = None
                         then Some (CreateServiceK8sService s) else lookupS j k))"
proof -
  obtain r1 k1 s1 where rd: "reconcileDeployment c s k = (r1, k1, s1)"
    and en: "deps.ensure (deploymentLister_Get c k) (fst (CreateServiceDeployment s)) k = (r1, k1)"
    using reconcileDeployment_ensure [of s k] by (metis prod.collapse)
  note D = ensure_deployment [OF inv listed work en]
  have rec: "reconcile c key k = (case r1 of Some err \<Rightarrow> (Some err, k1)
      | None \<Rightarrow> if wants_service s then reconcileK8sService c s k1 else (None, k1))"
  proof -
    obtain ns name where "SplitMetaNamespaceKey key = Inr (ns, name)"
      "serviceNamespaceLister_Get (Services (serviceLister_of c k) ns) name = Inr s"
      using listed by (auto simp: listed_def)
    from reconcile_listed [OF this] rd show ?thesis by (simp split: option.splits)
  qed
  show ?thesis
  proof (cases "r1 = None \<and> wants_service s")
    case True
    obtain r2 k2 where es: "svcs.ensure (k8sServiceLister_Get c k1) (CreateServiceK8sService s) k1 = (r2, k2)"
      by fastforce
    have "inv k1" using D by blast
    note S = ensure_service [OF this listed work es]
    have "seenS k1 s = seenS k s" using D by (simp add: seenS_def)
    moreover have "reconcile c key k = (r2, k2)"
      using rec True es by (simp add: reconcileK8sService_ensure)
    ultimately show ?thesis
      using True D S by (simp add: okD_def okS_def del: split_paired_All)
  next
    case False
    then have "reconcile c key k = (r1, k1)"
      using rec by (auto split: option.splits)
    then show ?thesis
      using False D by (auto simp: okD_def okS_def simp del: split_paired_All)
  qed
qed

end

section \<open>The cluster of the model\<close>

text \<open>Kubernetes' own listers, generated like the program's.\<close>

definition deploymentNamespaceLister_Get ::
  "Deployment threadSafeMap \<Rightarrow> string \<Rightarrow> string \<Rightarrow> api_error + Deployment" where
  "deploymentNamespaceLister_Get indexer namespace name =
     (case ts_Get (namespace @ ''/'' @ name) indexer of
        None \<Rightarrow> Inl (NewNotFound (gvr_GroupResource (WithResource apps_gv ''deployment'')) name)
      | Some obj \<Rightarrow> Inr obj)"

definition k8sServiceNamespaceLister_Get ::
  "K8sService threadSafeMap \<Rightarrow> string \<Rightarrow> string \<Rightarrow> api_error + K8sService" where
  "k8sServiceNamespaceLister_Get indexer namespace name =
     (case ts_Get (namespace @ ''/'' @ name) indexer of
        None \<Rightarrow> Inl (NewNotFound (gvr_GroupResource (WithResource core_gv ''service'')) name)
      | Some obj \<Rightarrow> Inr obj)"

record cluster =
  cl_api :: tracker
  cl_deployments :: "Deployment threadSafeMap"
  cl_k8sServices :: "K8sService threadSafeMap"
  cl_services :: "Service threadSafeMap"

definition deploymentsResource :: GroupVersionResource where
  "deploymentsResource = WithResource apps_gv ''deployments''"

definition k8sServicesResource :: GroupVersionResource where
  "k8sServicesResource = WithResource core_gv ''services''"

lemma resources_differ [simp]: "deploymentsResource \<noteq> k8sServicesResource"
  "k8sServicesResource \<noteq> deploymentsResource"
  by (simp_all add: deploymentsResource_def k8sServicesResource_def WithResource_def)

fun as_deployment :: "runtime_object \<Rightarrow> Deployment option" where
  "as_deployment (DeploymentObj d) = Some d"
| "as_deployment _ = None"

fun as_k8sService :: "runtime_object \<Rightarrow> K8sService option" where
  "as_k8sService (K8sServiceObj s) = Some s"
| "as_k8sService _ = None"

definition on_api :: "(tracker \<Rightarrow> 'r \<times> tracker) \<Rightarrow> cluster \<Rightarrow> 'r \<times> cluster" where
  "on_api f k = (let (r, t) = f (cl_api k) in (r, k\<lparr>cl_api := t\<rparr>))"

definition cluster_controller :: "cluster controller" where
  "cluster_controller =
     \<lparr>deploymentLister_Get = (\<lambda>k. deploymentNamespaceLister_Get (cl_deployments k)),
      k8sServiceLister_Get = (\<lambda>k. k8sServiceNamespaceLister_Get (cl_k8sServices k)),
      serviceLister_of = (\<lambda>k. NewServiceLister (cl_services k)),
      Deployments_Create = (\<lambda>ns d. on_api (create_through deploymentsResource DeploymentObj as_deployment ns d)),
      K8sServices_Create = (\<lambda>ns v. on_api (create_through k8sServicesResource K8sServiceObj as_k8sService ns v))\<rparr>"

definition api_deployment :: "string \<times> string \<Rightarrow> cluster \<Rightarrow> Deployment option" where
  "api_deployment j k = lookup_through deploymentsResource as_deployment j (cl_api k)"

definition api_k8sService :: "string \<times> string \<Rightarrow> cluster \<Rightarrow> K8sService option" where
  "api_k8sService j k = lookup_through k8sServicesResource as_k8sService j (cl_api k)"

definition cluster_inv :: "cluster \<Rightarrow> bool" where
  "cluster_inv k \<longleftrightarrow> tracker_inv (cl_api k) \<and>
     typed_at deploymentsResource as_deployment (cl_api k) \<and>
     typed_at k8sServicesResource as_k8sService (cl_api k)"

lemma create_through_frame:
  assumes "create_through gvr wrap unwrap ns x t = (r, t')" "gvr' \<noteq> gvr"
  shows "objects_at t' gvr' = objects_at t gvr'"
proof -
  have "objects_at (snd (tracker_add gvr y ns False t)) gvr' = objects_at t gvr'" for y
    using assms(2) by (auto simp: tracker_add_def Let_def split: option.splits)
  moreover have "t' = snd (tracker_add gvr (wrap x) ns False t)"
    using assms(1)
    by (auto simp: create_through_def tracker_Create_def one_object_def split: prod.splits option.splits
        reply.splits sum.splits)
  ultimately show ?thesis by simp
qed

lemma create_through_other:
  assumes "create_through gvr wrap unwrap ns x t = (r, t')" "gvr' \<noteq> gvr"
  shows "stored gvr' t' = stored gvr' t" "typed_at gvr' u t' = typed_at gvr' u t"
    "lookup_through gvr' u j t' = lookup_through gvr' u j t"
proof -
  show "stored gvr' t' = stored gvr' t"
    using create_through_frame [OF assms] by (simp add: stored_def fun_eq_iff)
  then show "typed_at gvr' u t' = typed_at gvr' u t"
    "lookup_through gvr' u j t' = lookup_through gvr' u j t"
    by (simp_all add: typed_at_def lookup_through_def)
qed

lemmas cluster_simps = cluster_controller_def on_api_def api_deployment_def api_k8sService_def
  cluster_inv_def

interpretation kc: kube_cluster cluster_controller api_deployment api_k8sService cluster_inv
proof (unfold_locales, goal_cases)
  case (1 k x ns)
  then obtain t' where
    "create_through deploymentsResource DeploymentObj as_deployment ns x (cl_api k) = (Inr x, t')"
    "tracker_inv t' \<and> typed_at deploymentsResource as_deployment t'"
    "\<forall>j. lookup_through deploymentsResource as_deployment j t' =
       (if j = (ns, om_Name (dep_Meta x)) then Some x
        else lookup_through deploymentsResource as_deployment j (cl_api k))"
    using create_through_free [of as_deployment DeploymentObj dep_Meta "cl_api k" deploymentsResource x ns]
    by (auto simp: cluster_inv_def api_deployment_def simp del: split_paired_All)
  with 1 show ?case
    using create_through_other(2) [of deploymentsResource _ _ ns x "cl_api k" _ t' k8sServicesResource as_k8sService]
    by (simp add: cluster_simps del: split_paired_All)
next
  case (2 k x ns)
  then show ?case
    using create_through_taken [of DeploymentObj dep_Meta x ns deploymentsResource as_deployment "cl_api k"]
    by (auto simp: cluster_simps)
next
  case (3 k x ns)
  then obtain t' where
    "create_through k8sServicesResource K8sServiceObj as_k8sService ns x (cl_api k) = (Inr x, t')"
    "tracker_inv t' \<and> typed_at k8sServicesResource as_k8sService t'"
    "\<forall>j. lookup_through k8sServicesResource as_k8sService j t' =
       (if j = (ns, om_Name (svc_Meta x)) then Some x
        else lookup_through k8sServicesResource as_k8sService j (cl_api k))"
    using create_through_free [of as_k8sService K8sServiceObj svc_Meta "cl_api k" k8sServicesResource x ns]
    by (auto simp: cluster_inv_def api_k8sService_def simp del: split_paired_All)
  with 3 show ?case
    using create_through_other(2) [of k8sServicesResource _ _ ns x "cl_api k" _ t' deploymentsResource as_deployment]
    by (simp add: cluster_simps del: split_paired_All)
next
  case (4 k x ns)
  then show ?case
    using create_through_taken [of K8sServiceObj svc_Meta x ns k8sServicesResource as_k8sService "cl_api k"]
    by (auto simp: cluster_simps)
next
  case (5 ns d k r k')
  then show ?case
    using create_through_other(3) [of deploymentsResource DeploymentObj as_deployment ns d "cl_api k" r _
        k8sServicesResource as_k8sService]
    by (auto simp: cluster_simps split: prod.splits)
next
  case (6 ns v k r k')
  then show ?case
    using create_through_other(3) [of k8sServicesResource K8sServiceObj as_k8sService ns v "cl_api k" r _
        deploymentsResource as_deployment]
    by (auto simp: cluster_simps split: prod.splits)
qed

section \<open>Properties of a reconciliation\<close>

lemma cluster_controller_sel [simp]:
  "deploymentLister_Get cluster_controller = (\<lambda>k. deploymentNamespaceLister_Get (cl_deployments k))"
  "k8sServiceLister_Get cluster_controller = (\<lambda>k. k8sServiceNamespaceLister_Get (cl_k8sServices k))"
  "serviceLister_of cluster_controller = (\<lambda>k. NewServiceLister (cl_services k))"
  by (simp_all add: cluster_controller_def)

lemma cluster_listers_work: "kc.listers_work k"
  by (auto simp: kc.listers_work_def deploymentNamespaceLister_Get_def
      k8sServiceNamespaceLister_Get_def split: option.splits)

definition id_key :: "string \<times> string \<Rightarrow> string" where
  "id_key j = fst j @ ''/'' @ snd j"

definition service_id :: "Service \<Rightarrow> string \<times> string" where
  "service_id s = (om_Namespace (service_Meta s), om_Name (service_Meta s))"

text \<open>A stored service sits under its own name, which has no slash.\<close>

definition service_keyed :: "string \<Rightarrow> Service \<Rightarrow> bool" where
  "service_keyed key s \<longleftrightarrow> plain_meta (service_Meta s) \<and> om_Namespace (service_Meta s) \<noteq> [] \<and>
     om_Name (service_Meta s) \<noteq> [] \<and> key = meta_key (service_Meta s)"

definition cached_service :: "string \<Rightarrow> cluster \<Rightarrow> Service \<Rightarrow> bool" where
  "cached_service key k s \<longleftrightarrow> service_keyed key s \<and> ts_Get key (cl_services k) = Some s"

definition deployment_seen :: "cluster \<Rightarrow> string \<times> string \<Rightarrow> bool" where
  "deployment_seen k j \<longleftrightarrow> ts_Get (id_key j) (cl_deployments k) \<noteq> None"

definition k8sService_seen :: "cluster \<Rightarrow> string \<times> string \<Rightarrow> bool" where
  "k8sService_seen k j \<longleftrightarrow> ts_Get (id_key j) (cl_k8sServices k) \<noteq> None"

lemma cached_listed:
  assumes "cached_service key k s"
  shows "kc.listed key k s"
proof -
  from assms have keyed: "plain_meta (service_Meta s)" "om_Namespace (service_Meta s) \<noteq> []"
      "om_Name (service_Meta s) \<noteq> []" "key = meta_key (service_Meta s)"
    and get: "ts_Get key (cl_services k) = Some s"
    by (auto simp: cached_service_def service_keyed_def)
  have "key = om_Namespace (service_Meta s) @ ''/'' @ om_Name (service_Meta s)"
    using keyed(2,4) by (simp add: meta_key_def)
  then have "serviceNamespaceLister_Get (Services (serviceLister_of cluster_controller k)
      (om_Namespace (service_Meta s))) (om_Name (service_Meta s)) = Inr s"
    using get by (simp add: NewServiceLister_def Services_def serviceNamespaceLister_Get_def)
  then show ?thesis
    unfolding kc.listed_def using Split_meta_key [OF keyed(1)] keyed(2-4) by blast
qed

lemma seen_simps:
  "kc.seenD k s = deployment_seen k (service_id s)" "kc.seenS k s = k8sService_seen k (service_id s)"
  "kc.service_id s = service_id s"
  by (auto simp: kc.seenD_def kc.seenS_def kc.service_id_def service_id_def deployment_seen_def
      k8sService_seen_def deploymentNamespaceLister_Get_def
      k8sServiceNamespaceLister_Get_def id_key_def split: option.splits)

lemmas reconcile_cached =
  kc.reconcile_table [OF _ cached_listed cluster_listers_work, unfolded seen_simps]

text \<open>C1: one reconciliation of a service, completely. Its deployment is created when neither the
  cache nor the API has one; when the cache lacks one that the API has, creation is refused and
  the call fails. After the deployment step succeeded, a service with ports or a gateway gets its
  Kubernetes service in the same way; when it failed, none is created. Nothing else in the API
  changes: no other name appears, and nothing is replaced.\<close>

theorem reconcile_outcome:
  assumes "cluster_inv k" "cached_service key k s"
  shows "let j0 = service_id s;
             okD = (deployment_seen k j0 \<or> api_deployment j0 k = None);
             okS = (k8sService_seen k j0 \<or> api_k8sService j0 k = None)
         in \<exists>r k'. reconcile cluster_controller key k = (r, k') \<and> cluster_inv k' \<and>
              (r = None \<longleftrightarrow> okD \<and> (wants_service s \<longrightarrow> okS)) \<and>
              (\<forall>j. api_deployment j k' =
                 (if j = j0 \<and> \<not> deployment_seen k j0 \<and> api_deployment j k = None
                  then Some (fst (CreateServiceDeployment s)) else api_deployment j k)) \<and>
              (\<forall>j. api_k8sService j k' =
                 (if j = j0 \<and> okD \<and> wants_service s \<and> \<not> k8sService_seen k j0 \<and> api_k8sService j k = None
                  then Some (CreateServiceK8sService s) else api_k8sService j k))"
  unfolding Let_def by (rule reconcile_cached [OF assms])

definition empty_store :: "'o threadSafeMap" where
  "empty_store = NewThreadSafeStore [(NamespaceIndex, MetaNamespaceIndexFunc)]"

definition sample_cluster :: cluster where
  "sample_cluster =
     \<lparr>cl_api = NewObjectTracker [], cl_deployments = empty_store, cl_k8sServices = empty_store,
      cl_services = the (ts_Add service_Meta ''shop/cart'' sample_service empty_store)\<rparr>"

lemma sample_cluster_inv: "cluster_inv sample_cluster"
  by (simp add: cluster_inv_def sample_cluster_def tracker_inv_def typed_at_def stored_def
      objects_at_def NewObjectTracker_def)

lemma sample_cached: "cached_service ''shop/cart'' sample_cluster sample_service"
  by (simp add: cached_service_def service_keyed_def plain_meta_def meta_key_def sample_cluster_def
      sample_service_def zero_ObjectMeta_def ts_Get_def ts_Add_def empty_store_def
      NewThreadSafeStore_def updateIndices_def MetaNamespaceIndexFunc_def)

lemma sample_empty:
  "\<not> deployment_seen sample_cluster j" "\<not> k8sService_seen sample_cluster j"
  "api_deployment j sample_cluster = None" "api_k8sService j sample_cluster = None"
  by (simp_all add: deployment_seen_def k8sService_seen_def api_deployment_def api_k8sService_def
      sample_cluster_def empty_store_def NewThreadSafeStore_def ts_Get_def lookup_through_def
      stored_def objects_at_def NewObjectTracker_def)

theorem reconcile_outcome_witness:
  "\<exists>k'. reconcile cluster_controller ''shop/cart'' sample_cluster = (None, k') \<and>
     api_deployment (''shop'', ''cart'') k' = Some (fst (CreateServiceDeployment sample_service)) \<and>
     api_k8sService (''shop'', ''cart'') k' = Some (CreateServiceK8sService sample_service)"
proof -
  have "wants_service sample_service" "service_id sample_service = (''shop'', ''cart'')"
    by (simp_all add: wants_service_def Ports_map sample_service_def sample_container_def
        service_id_def zero_ObjectMeta_def)
  with reconcile_outcome [OF sample_cluster_inv sample_cached] show ?thesis
    by (auto simp: sample_empty Let_def simp del: split_paired_All)
qed

text \<open>The caches are never newer than the API for objects nobody deletes.\<close>

definition caches_sound :: "cluster \<Rightarrow> string \<times> string \<Rightarrow> bool" where
  "caches_sound k j \<longleftrightarrow> (deployment_seen k j \<longrightarrow> api_deployment j k \<noteq> None) \<and>
     (k8sService_seen k j \<longrightarrow> api_k8sService j k \<noteq> None)"

text \<open>C22: a successful reconciliation has established what the service asks for, and it is stable:
  once the caches show the created objects, a further reconciliation succeeds and leaves the
  cluster exactly as it is.\<close>

theorem reconcile_establishes:
  assumes "cluster_inv k" "cached_service key k s" "caches_sound k (service_id s)"
    and "reconcile cluster_controller key k = (None, k')"
    and "cached_service key k2 s" "deployment_seen k2 (service_id s)"
    and "wants_service s \<longrightarrow> k8sService_seen k2 (service_id s)"
  shows "api_deployment (service_id s) k' \<noteq> None \<and>
         (wants_service s \<longrightarrow> api_k8sService (service_id s) k' \<noteq> None) \<and>
         reconcile cluster_controller key k2 = (None, k2)"
proof -
  obtain ns name where key: "SplitMetaNamespaceKey key = Inr (ns, name)"
    "serviceNamespaceLister_Get (Services (serviceLister_of cluster_controller k2) ns) name = Inr s"
    using cached_listed [OF assms(5)] by (auto simp: kc.listed_def)
  have "reconcile cluster_controller key k2 = (None, k2)"
    using assms(6,7)
    by (auto simp: reconcile_listed [OF key] reconcileDeployment_def reconcileK8sService_def
        deploymentNamespaceLister_Get_def k8sServiceNamespaceLister_Get_def
        deployment_seen_def k8sService_seen_def service_id_def id_key_def deploymentName_def
        k8sServiceName_def)
  moreover have "api_deployment (service_id s) k' \<noteq> None \<and>
      (wants_service s \<longrightarrow> api_k8sService (service_id s) k' \<noteq> None)"
    using reconcile_cached [OF assms(1,2)] assms(3,4)
    by (auto simp: caches_sound_def simp del: split_paired_All)
  ultimately show ?thesis by blast
qed

definition synced_cluster :: cluster where
  "synced_cluster = sample_cluster
     \<lparr>cl_deployments := the (ts_Add dep_Meta ''shop/cart''
        (fst (CreateServiceDeployment sample_service)) empty_store),
      cl_k8sServices := the (ts_Add svc_Meta ''shop/cart''
        (CreateServiceK8sService sample_service) empty_store)\<rparr>"

lemma synced_cached: "cached_service ''shop/cart'' synced_cluster sample_service"
  using sample_cached by (simp add: cached_service_def synced_cluster_def)

lemma synced_seen: "deployment_seen synced_cluster (''shop'', ''cart'')"
  "k8sService_seen synced_cluster (''shop'', ''cart'')"
  by (simp_all add: deployment_seen_def k8sService_seen_def synced_cluster_def empty_store_def
      NewThreadSafeStore_def ts_Add_def ts_Get_def updateIndices_def MetaNamespaceIndexFunc_def
      id_key_def)

lemma sample_id: "service_id sample_service = (''shop'', ''cart'')"
  by (simp add: sample_service_def service_id_def zero_ObjectMeta_def)

theorem reconcile_establishes_witness:
  "\<exists>k'. reconcile cluster_controller ''shop/cart'' sample_cluster = (None, k') \<and>
     api_deployment (''shop'', ''cart'') k' \<noteq> None \<and>
     reconcile cluster_controller ''shop/cart'' synced_cluster = (None, synced_cluster)"
proof -
  have sound: "caches_sound sample_cluster (service_id sample_service)"
    by (simp add: caches_sound_def sample_empty)
  obtain k' where k': "reconcile cluster_controller ''shop/cart'' sample_cluster = (None, k')"
    using reconcile_cached [OF sample_cluster_inv sample_cached] by (auto simp: sample_empty)
  show ?thesis
    using reconcile_establishes [OF sample_cluster_inv sample_cached sound k' synced_cached]
      synced_seen k' by (simp add: sample_id)
qed

text \<open>A key that names a cached service names it by its own namespace and name.\<close>

definition services_keyed :: "cluster \<Rightarrow> bool" where
  "services_keyed k \<longleftrightarrow> (\<forall>key s. ts_Get key (cl_services k) = Some s \<longrightarrow> service_keyed key s)"

lemma reconcile_cases:
  assumes "services_keyed k"
  obtains (none) "reconcile cluster_controller key k = (None, k)"
    | (cached) key' s where "cached_service key' k s"
        "reconcile cluster_controller key k = reconcile cluster_controller key' k"
proof (cases "SplitMetaNamespaceKey key")
  case (Inl e)
  then show ?thesis using none by (simp add: reconcile_def)
next
  case (Inr p)
  obtain ns name where p: "p = (ns, name)" by force
  show ?thesis
  proof (cases "ts_Get (ns @ ''/'' @ name) (cl_services k)")
    case None
    with Inr p none show ?thesis
      by (simp add: reconcile_def NewServiceLister_def Services_def serviceNamespaceLister_Get_def)
  next
    case (Some s)
    with assms have keyed: "service_keyed (ns @ ''/'' @ name) s" by (simp add: services_keyed_def)
    then have eq: "ns @ CHR ''/'' # name = om_Namespace (service_Meta s) @ CHR ''/'' # om_Name (service_Meta s)"
      by (simp add: service_keyed_def meta_key_def)
    have c1: "CHR ''/'' \<notin> set ns" using Split_pieces [of key ns name] Inr p by simp
    have c2: "CHR ''/'' \<notin> set (om_Namespace (service_Meta s))"
      using keyed by (simp add: service_keyed_def plain_meta_def)
    from iffD1 [OF append_sep_inject [OF c1 c2] eq]
    have "ns = om_Namespace (service_Meta s)" "name = om_Name (service_Meta s)" by simp_all
    then have "SplitMetaNamespaceKey key = SplitMetaNamespaceKey (ns @ ''/'' @ name)"
      using Inr p keyed Split_meta_key [of "service_Meta s"] by (simp add: service_keyed_def)
    then have "reconcile cluster_controller key k = reconcile cluster_controller (ns @ ''/'' @ name) k"
      by (simp add: reconcile_def)
    with Some keyed cached show ?thesis by (simp add: cached_service_def)
  qed
qed

lemma if_cases: "a' = (if c then x else a) \<Longrightarrow> a' = a \<or> c \<and> a' = x"
  by simp

text \<open>What one reconciliation of a cached service leaves of the API, name by name.\<close>

lemma reconcile_adds:
  assumes "cluster_inv k" "cached_service key k s" "reconcile cluster_controller key k = (r, k')"
  shows "cluster_inv k'"
    and "api_deployment j k' = api_deployment j k \<or>
      j = service_id s \<and> api_deployment j k = None \<and> api_deployment j k' = Some (fst (CreateServiceDeployment s))"
    and "api_k8sService j k' = api_k8sService j k \<or>
      j = service_id s \<and> api_k8sService j k = None \<and> api_k8sService j k' = Some (CreateServiceK8sService s)"
proof -
  let ?okD = "deployment_seen k (service_id s) \<or> api_deployment (service_id s) k = None"
  from reconcile_cached [OF assms(1,2)] assms(3) have inv: "cluster_inv k'"
    and tD: "\<forall>j. api_deployment j k' =
      (if j = service_id s \<and> \<not> deployment_seen k (service_id s) \<and> api_deployment j k = None
       then Some (fst (CreateServiceDeployment s)) else api_deployment j k)"
    and tS: "\<forall>j. api_k8sService j k' =
      (if j = service_id s \<and> ?okD \<and> wants_service s \<and> \<not> k8sService_seen k (service_id s) \<and>
          api_k8sService j k = None
       then Some (CreateServiceK8sService s) else api_k8sService j k)"
    by (auto simp del: split_paired_All)
  show "cluster_inv k'" by (rule inv)
  show "api_deployment j k' = api_deployment j k \<or>
      j = service_id s \<and> api_deployment j k = None \<and> api_deployment j k' = Some (fst (CreateServiceDeployment s))"
    using if_cases [OF tD [rule_format, of j]] by blast
  show "api_k8sService j k' = api_k8sService j k \<or>
      j = service_id s \<and> api_k8sService j k = None \<and> api_k8sService j k' = Some (CreateServiceK8sService s)"
    using if_cases [OF tS [rule_format, of j]] by blast
qed

text \<open>C21: whatever key is processed, and whether or not it fails, reconciliation never changes or
  removes an existing deployment or Kubernetes service, and every object it adds is controlled by
  a cached mesh service and carries that service's namespace and name.\<close>

theorem reconcile_only_adds_owned:
  assumes "cluster_inv k" "services_keyed k" "reconcile cluster_controller key k = (r, k')"
  shows "cluster_inv k' \<and>
    (\<forall>j d. api_deployment j k = Some d \<longrightarrow> api_deployment j k' = Some d) \<and>
    (\<forall>j v. api_k8sService j k = Some v \<longrightarrow> api_k8sService j k' = Some v) \<and>
    (\<forall>j d. api_deployment j k = None \<longrightarrow> api_deployment j k' = Some d \<longrightarrow>
       (\<exists>key' s. cached_service key' k s \<and> j = service_id s \<and> IsControlledBy (dep_Meta d) (service_Meta s))) \<and>
    (\<forall>j v. api_k8sService j k = None \<longrightarrow> api_k8sService j k' = Some v \<longrightarrow>
       (\<exists>key' s. cached_service key' k s \<and> j = service_id s \<and> IsControlledBy (svc_Meta v) (service_Meta s)))"
proof (rule reconcile_cases [OF assms(2), of key])
  assume "reconcile cluster_controller key k = (None, k)"
  with assms(1,3) show ?thesis by simp
next
  fix key' s
  assume s: "cached_service key' k s"
    and eq: "reconcile cluster_controller key k = reconcile cluster_controller key' k"
  have own: "IsControlledBy (dep_Meta (fst (CreateServiceDeployment s))) (service_Meta s)"
    "IsControlledBy (svc_Meta (CreateServiceK8sService s)) (service_Meta s)"
    by (rule owner_ref_controls, simp add: CreateServiceDeployment_fields CreateServiceK8sService_fields)+
  note added = reconcile_adds [OF assms(1) s eq [symmetric, unfolded assms(3)]]
  show ?thesis
  proof (intro conjI allI impI)
    fix j d
    assume "api_deployment j k = None" "api_deployment j k' = Some d"
    with added(2) [of j] s own(1) show "\<exists>key' s. cached_service key' k s \<and> j = service_id s \<and>
        IsControlledBy (dep_Meta d) (service_Meta s)" by force
  next
    fix j v
    assume "api_k8sService j k = None" "api_k8sService j k' = Some v"
    with added(3) [of j] s own(2) show "\<exists>key' s. cached_service key' k s \<and> j = service_id s \<and>
        IsControlledBy (svc_Meta v) (service_Meta s)" by force
  next
    fix j d
    assume "api_deployment j k = Some d"
    with added(2) [of j] show "api_deployment j k' = Some d" by auto
  next
    fix j v
    assume "api_k8sService j k = Some v"
    with added(3) [of j] show "api_k8sService j k' = Some v" by auto
  qed (rule added(1))
qed

lemma sample_services_keyed: "services_keyed sample_cluster"
proof -
  have "ts_Get key (cl_services sample_cluster) = (if key = ''shop/cart'' then Some sample_service else None)" for key
    by (simp add: sample_cluster_def ts_Get_def ts_Add_def empty_store_def
        NewThreadSafeStore_def updateIndices_def MetaNamespaceIndexFunc_def)
  with sample_cached show ?thesis by (auto simp: services_keyed_def cached_service_def)
qed

theorem reconcile_only_adds_owned_witness:
  "\<exists>k' d. reconcile cluster_controller ''shop/cart'' sample_cluster = (None, k') \<and>
     api_deployment (''shop'', ''cart'') k' = Some d \<and>
     (\<exists>key' s. cached_service key' sample_cluster s \<and> IsControlledBy (dep_Meta d) (service_Meta s))"
proof -
  have id: "service_id sample_service = (''shop'', ''cart'')" by (rule sample_id)
  from reconcile_cached [OF sample_cluster_inv sample_cached] obtain r k' where
    k': "reconcile cluster_controller ''shop/cart'' sample_cluster = (r, k')"
    "r = None" "api_deployment (''shop'', ''cart'') k' = Some (fst (CreateServiceDeployment sample_service))"
    by (auto simp: sample_empty id simp del: split_paired_All)
  have "\<exists>key' s. cached_service key' sample_cluster s \<and>
      IsControlledBy (dep_Meta (fst (CreateServiceDeployment sample_service))) (service_Meta s)"
    using reconcile_only_adds_owned [OF sample_cluster_inv sample_services_keyed k'(1)] k'(3)
      sample_empty(3) [of "(''shop'', ''cart'')"] by blast
  with k' show ?thesis by blast
qed

text \<open>From event to reconciliation. The key that the handlers queue for a service is the one
  under which the cache keeps it, so processing the key reconciles that very service; an object
  without metadata queues nothing, and a deletion queues nothing.\<close>

theorem event_key_reaches_service:
  assumes "plain_meta (service_Meta s)" "om_Namespace (service_Meta s) \<noteq> []" "om_Name (service_Meta s) \<noteq> []"
    and "ts_Add service_Meta (meta_key (service_Meta s)) s (cl_services k) = Some store"
    and "\<not> wq_shuttingDown q"
  shows "(\<exists>key. StringItem key \<in> wq_dirty (service_events (OnAdd (WithMeta (service_Meta s))) q) \<and>
             StringItem key \<in> wq_dirty (service_events (OnUpdate old (WithMeta (service_Meta s))) q) \<and>
             cached_service key (k\<lparr>cl_services := store\<rparr>) s) \<and>
         service_events (OnAdd NoMeta) q = q \<and> service_events (OnDelete obj) q = q"
proof -
  have "ts_Get (meta_key (service_Meta s)) store = Some s"
    using ts_effects(1) [OF assms(4)] by (simp add: ts_Get_def)
  then show ?thesis
    using assms(1-3,5)
    by (auto simp: enqueue_def cached_service_def service_keyed_def MetaNamespaceKeyFunc_def meta_key_def)
qed

theorem event_key_reaches_service_witness:
  "\<exists>key. StringItem key \<in> wq_dirty (service_events (OnAdd (WithMeta (service_Meta sample_service))) NewNamed) \<and>
     cached_service key (sample_cluster\<lparr>cl_services := the (ts_Add service_Meta ''shop/cart'' sample_service empty_store)\<rparr>)
       sample_service"
proof -
  have "meta_key (service_Meta sample_service) = ''shop/cart''"
    "plain_meta (service_Meta sample_service)" "om_Namespace (service_Meta sample_service) \<noteq> []"
    "om_Name (service_Meta sample_service) \<noteq> []"
    by (simp_all add: meta_key_def plain_meta_def sample_service_def zero_ObjectMeta_def)
  moreover have "ts_Add service_Meta ''shop/cart'' sample_service (cl_services (sample_cluster\<lparr>cl_services := empty_store\<rparr>)) =
      Some (the (ts_Add service_Meta ''shop/cart'' sample_service empty_store))"
    by (simp add: ts_Add_def empty_store_def NewThreadSafeStore_def updateIndices_def
        MetaNamespaceIndexFunc_def)
  moreover have "\<not> wq_shuttingDown NewNamed" by (simp add: NewNamed_def)
  ultimately show ?thesis
    using event_key_reaches_service [of sample_service "sample_cluster\<lparr>cl_services := empty_store\<rparr>" _ NewNamed]
    by auto
qed

end
