(* ===== verification/ControllerPool.thy ===== *)
theory ControllerPool
  imports Controller
begin

text \<open>
  The workers that \<open>Run\<close> starts (\<open>pkg/controller/controller.go\<close>), as a step relation: any number of
  workers take items, reconcile them and finish them in any interleaving, while the informer's
  handlers queue keys, the rest of the cluster changes, and the queue is shut down at the end. A
  reconciliation with its \<open>Done\<close> is one step. The invariants rest on the facts of the locale
  \<open>work_queue\<close>, interpreted on the model of the queue.
\<close>

section \<open>The pool\<close>

record 'k pool =
  po_state :: "'k ctl_state"
  po_holding :: "nat \<rightharpoonup> work_item"

datatype 'k label =
    Take nat work_item
  | Finish nat work_item "api_error option"
  | Event informer_event
  | World
  | Stop

abbreviation po_queue :: "'k pool \<Rightarrow> work_item workqueue" where
  "po_queue p \<equiv> cs_queue (po_state p)"

inductive pool_step :: "'k controller \<Rightarrow> nat \<Rightarrow> 'k pool \<Rightarrow> 'k label \<Rightarrow> 'k pool \<Rightarrow> bool"
  for c :: "'k controller" and threadiness :: nat where
  take_step: "\<lbrakk> w < threadiness; po_holding p w = None; Get (po_queue p) = (Item x, q) \<rbrakk> \<Longrightarrow>
     pool_step c threadiness p (Take w x)
       (p\<lparr>po_state := (po_state p)\<lparr>cs_queue := q\<rparr>, po_holding := (po_holding p)(w \<mapsto> x)\<rparr>)"
| finish_step: "\<lbrakk> po_holding p w = Some x; finish_item c x (po_state p) = (err, st) \<rbrakk> \<Longrightarrow>
     pool_step c threadiness p (Finish w x err)
       (p\<lparr>po_state := st, po_holding := (po_holding p)(w := None)\<rparr>)"
| event_step: "pool_step c threadiness p (Event ev)
     (p\<lparr>po_state := (po_state p)\<lparr>cs_queue := service_events ev (po_queue p)\<rparr>\<rparr>)"
| world_step: "pool_step c threadiness p World (p\<lparr>po_state := (po_state p)\<lparr>cs_world := k\<rparr>\<rparr>)"
| stop_step: "pool_step c threadiness p Stop
     (p\<lparr>po_state := (po_state p)\<lparr>cs_queue := ShutDown (po_queue p)\<rparr>\<rparr>)"

inductive_cases take_stepE: "pool_step c n p (Take w x) p'"
inductive_cases finish_stepE: "pool_step c n p (Finish w x err) p'"
inductive_cases event_stepE: "pool_step c n p (Event ev) p'"

inductive pool_run :: "'k controller \<Rightarrow> nat \<Rightarrow> 'k pool \<Rightarrow> 'k label list \<Rightarrow> 'k pool \<Rightarrow> bool"
  for c :: "'k controller" and threadiness :: nat where
  run_none: "pool_run c threadiness p [] p"
| run_step: "\<lbrakk> pool_run c threadiness p ls p'; pool_step c threadiness p' l p'' \<rbrakk> \<Longrightarrow>
     pool_run c threadiness p (ls @ [l]) p''"

definition start_pool :: "'k \<Rightarrow> 'k pool" where
  "start_pool k = \<lparr>po_state = New k, po_holding = Map.empty\<rparr>"

section \<open>Invariants\<close>

definition pool_inv :: "'k pool \<Rightarrow> bool" where
  "pool_inv p \<longleftrightarrow> wq_inv (po_queue p) \<and> claims (po_holding p) (wq_processing (po_queue p)) \<and>
     (\<forall>x. failures_of (cs_limiter (po_state p)) x = 0)"

lemma enqueue_sets [simp]:
  "wq_processing (enqueue obj q) = wq_processing q"
  "wq_shuttingDown (enqueue obj q) = wq_shuttingDown q"
  "wq_inv q \<Longrightarrow> wq_inv (enqueue obj q)"
  "x \<in> wq_dirty q \<Longrightarrow> x \<in> wq_dirty (enqueue obj q)"
  by (auto simp: enqueue_def split: sum.splits)

lemma service_events_sets [simp]:
  "wq_processing (service_events ev q) = wq_processing q"
  "wq_shuttingDown (service_events ev q) = wq_shuttingDown q"
  "wq_inv q \<Longrightarrow> wq_inv (service_events ev q)"
  "x \<in> wq_dirty q \<Longrightarrow> x \<in> wq_dirty (service_events ev q)"
  by (cases ev; simp)+

lemma sync_item_limiter:
  "failures_of (cs_limiter (snd (sync_item c x st))) y = failures_of (cs_limiter st) y \<or>
   failures_of (cs_limiter (snd (sync_item c x st))) y = 0"
  by (auto simp: sync_item_def split: work_item.splits prod.splits option.splits)

lemma finish_item_fields:
  "finish_item c x st = (err, st') \<Longrightarrow>
     cs_queue st' = Done x (cs_queue st) \<and> cs_limiter st' = cs_limiter (snd (sync_item c x st)) \<and>
     err = fst (sync_item c x st)"
  using sync_item_frame [of c x st] by (auto simp: finish_item_def Let_def split: prod.splits simp del: sync_item_frame)

lemma pool_inv_start: "pool_inv (start_pool k)"
  by (simp add: pool_inv_def start_pool_def New_def claims_def NewNamed_def wq_inv_def failures_of_def
      NewItemExponentialFailureRateLimiter_def)

lemma pool_inv_step: "pool_step c n p l p' \<Longrightarrow> pool_inv p \<Longrightarrow> pool_inv p'"
proof (induction rule: pool_step.induct)
  case (take_step w p x q)
  then show ?case
    using wq.acquire_claims [of "po_queue p" "po_holding p" w x q]
      wq.invar_get [of "po_queue p" "Item x" q]
    by (simp add: pool_inv_def)
next
  case (finish_step p w x err st)
  from finish_item_fields [OF finish_step.hyps(2)] have f: "cs_queue st = Done x (po_queue p)"
    "cs_limiter st = cs_limiter (snd (sync_item c x (po_state p)))" by simp_all
  from finish_step have cl: "claims (po_holding p) (wq_processing (po_queue p))"
    and inv: "wq_inv (po_queue p)" by (simp_all add: pool_inv_def)
  have "wq_inv (Done x (po_queue p))"
    by (rule wq_inv_Done [OF inv wq.held_inflight [OF cl finish_step.hyps(1)]])
  moreover have "claims ((po_holding p)(w := None)) (wq_processing (Done x (po_queue p)))"
    by (rule wq.release_claims [OF cl finish_step.hyps(1)])
  moreover have "failures_of (cs_limiter st) y = 0" for y
    using finish_step.prems sync_item_limiter [of c x "po_state p" y] by (auto simp: f pool_inv_def)
  ultimately show ?case by (simp add: pool_inv_def f(1))
qed (simp_all add: pool_inv_def)

lemma pool_inv_run: "pool_run c n p ls p' \<Longrightarrow> pool_inv p \<Longrightarrow> pool_inv p'"
  by (induction rule: pool_run.induct) (auto intro: pool_inv_step)

text \<open>Which labels queue a key, and a key stays dirty until it is taken.\<close>

fun queues :: "'k label \<Rightarrow> work_item \<Rightarrow> bool" where
  "queues (Event (OnAdd obj)) x = (\<exists>key. MetaNamespaceKeyFunc obj = Inr key \<and> x = StringItem key)"
| "queues (Event (OnUpdate old new)) x = (\<exists>key. MetaNamespaceKeyFunc new = Inr key \<and> x = StringItem key)"
| "queues _ x = False"

lemma queues_dirty:
  assumes "pool_step c n p l p'" "queues l x" "\<not> wq_shuttingDown (po_queue p)"
  shows "x \<in> wq_dirty (po_queue p')"
  using assms by (induction rule: pool_step.induct)
    (auto simp: enqueue_def elim!: queues.elims(2))

lemma dirty_kept:
  assumes "pool_step c n p l p'" "x \<in> wq_dirty (po_queue p)" "\<And>w. l \<noteq> Take w x"
  shows "x \<in> wq_dirty (po_queue p')"
  using assms
proof (induction rule: pool_step.induct)
  case (take_step w p y q)
  then show ?case by (auto elim!: Get_ItemE)
next
  case (finish_step p w y err st)
  then show ?case using finish_item_fields [OF finish_step.hyps(2)] by simp
qed simp_all

lemma dirty_kept_run:
  "pool_run c n p ls p' \<Longrightarrow> x \<in> wq_dirty (po_queue p) \<Longrightarrow> \<forall>w. Take w x \<notin> set ls \<Longrightarrow>
   x \<in> wq_dirty (po_queue p')"
  by (induction rule: pool_run.induct) (auto intro: dirty_kept)

section \<open>Properties\<close>

text \<open>C18: two workers never reconcile the same key at the same time, however many workers there
  are and however their steps, the informer's events and other changes interleave.\<close>

theorem workers_exclusive:
  assumes "pool_run c threadiness (start_pool k) ls p"
    and "po_holding p v = Some x" "po_holding p w = Some x"
  shows "v = w"
proof -
  have "inj_on (po_holding p) (dom (po_holding p))"
    using pool_inv_run [OF assms(1) pool_inv_start] by (simp add: pool_inv_def claims_def)
  with assms(2,3) show ?thesis by (auto simp: inj_on_def dom_def)
qed

text \<open>C3: no event is lost. After a handler queued a key (the queue was not shut down), and as long
  as no worker has taken the key since, the key waits in the queue or the worker that still
  holds it from before will put it back there when it finishes.\<close>

theorem event_not_lost:
  assumes "pool_run c threadiness (start_pool k) ls p0" "pool_step c threadiness p0 l p1"
    "pool_run c threadiness p1 ls' p" "queues l x" "\<not> wq_shuttingDown (po_queue p0)"
    "\<forall>w. Take w x \<notin> set ls'"
  shows "x \<in> set (wq_queue (po_queue p)) \<or>
    (\<exists>w. po_holding p w = Some x \<and>
       (\<forall>err st. finish_item c x (po_state p) = (err, st) \<longrightarrow> x \<in> set (wq_queue (cs_queue st))))"
proof -
  have dirty: "x \<in> wq_dirty (po_queue p)"
    by (rule dirty_kept_run [OF assms(3) queues_dirty [OF assms(2,4,5)] assms(6)])
  have inv: "pool_inv p"
    using pool_inv_run [OF assms(3)] pool_inv_step [OF assms(2)] pool_inv_run [OF assms(1) pool_inv_start]
    by blast
  show ?thesis
  proof (cases "x \<in> wq_processing (po_queue p)")
    case False
    with dirty inv show ?thesis by (simp add: pool_inv_def wq_inv_def)
  next
    case True
    then obtain w where "po_holding p w = Some x"
      using inv by (auto simp: pool_inv_def claims_def ran_def)
    moreover have "x \<in> set (wq_queue (cs_queue st))" if "finish_item c x (po_state p) = (err, st)" for err st
      using finish_item_fields [OF that] dirty by (simp add: Done_def Let_def)
    ultimately show ?thesis by blast
  qed
qed

text \<open>C24: a failed reconciliation is not retried. When a worker finishes an item with an error and
  no event has queued the key meanwhile, the key is in none of the queue's sets afterwards; and in
  no reachable state has the rate limiter recorded a failure, so the back-off that the comment in
  \<open>processNextWorkItem\<close> describes never happens.\<close>

theorem failed_item_dropped:
  assumes "pool_run c threadiness (start_pool k) ls p"
    and "pool_step c threadiness p (Finish w x (Some err)) p'"
    and "x \<notin> wq_dirty (po_queue p)"
  shows "x \<notin> wq_dirty (po_queue p') \<and> x \<notin> wq_processing (po_queue p') \<and>
    x \<notin> set (wq_queue (po_queue p')) \<and>
    (\<forall>y. NumRequeues (cs_limiter (po_state p')) y = 0)"
proof -
  have inv: "pool_inv p'"
    using pool_inv_step [OF assms(2)] pool_inv_run [OF assms(1) pool_inv_start] by blast
  from assms(2) have "po_queue p' = Done x (po_queue p)"
    by (rule finish_stepE) (simp add: finish_item_fields)
  with assms(3) inv show ?thesis by (auto simp: pool_inv_def wq_inv_def NumRequeues_def)
qed

section \<open>Witnesses\<close>

text \<open>Two workers; the key of a service is queued, taken, queued again while it is held, and its
  first reconciliation fails.\<close>

definition failing_controller :: "unit controller" where
  "failing_controller =
     \<lparr>deploymentLister_Get = (\<lambda>_ _ _. Inl (OtherError ''down'')),
      k8sServiceLister_Get = (\<lambda>_ _ _. Inl (OtherError ''down'')),
      serviceLister_of = (\<lambda>_. \<lparr>sl_indexer = (NewThreadSafeStore [])\<lparr>ts_items := [(''shop/cart'', sample_service)]\<rparr>\<rparr>),
      Deployments_Create = (\<lambda>_ d k. (Inr d, k)),
      K8sServices_Create = (\<lambda>_ v k. (Inr v, k))\<rparr>"

abbreviation cart_item :: work_item where
  "cart_item \<equiv> StringItem ''shop/cart''"

abbreviation cart_event :: "unit label" where
  "cart_event \<equiv> Event (OnAdd (ExplicitKey ''shop/cart''))"

lemma cart_fails: "reconcile failing_controller ''shop/cart'' () = (Some (OtherError ''down''), ())"
  by (simp add: reconcile_def SplitMetaNamespaceKey_def failing_controller_def Services_def
      serviceNamespaceLister_Get_def ts_Get_def reconcileDeployment_def)

definition pool1 :: "unit pool" where
  "pool1 = (start_pool ())\<lparr>po_state := (New ())\<lparr>cs_queue := Add cart_item NewNamed\<rparr>\<rparr>"

definition pool2 :: "unit pool" where
  "pool2 = \<lparr>po_state = (New ())\<lparr>cs_queue := snd (Get (Add cart_item NewNamed))\<rparr>, po_holding = [0 \<mapsto> cart_item]\<rparr>"

lemma pool1_run: "pool_run failing_controller 2 (start_pool ()) [cart_event] pool1"
proof -
  have "pool_step failing_controller 2 (start_pool ()) cart_event pool1"
    using event_step [of failing_controller 2 "start_pool ()" "OnAdd (ExplicitKey ''shop/cart'')"]
    by (simp add: pool1_def start_pool_def enqueue_def MetaNamespaceKeyFunc_def New_def)
  then show ?thesis using run_step [OF run_none] by fastforce
qed

lemma pool2_step: "pool_step failing_controller 2 pool1 (Take 0 cart_item) pool2"
  using take_step [of 0 2 pool1 cart_item "snd (Get (Add cart_item NewNamed))" failing_controller]
  by (simp add: pool1_def pool2_def start_pool_def New_def Get_def Add_def NewNamed_def)

lemma pool2_run: "pool_run failing_controller 2 (start_pool ()) [cart_event, Take 0 cart_item] pool2"
  using run_step [OF pool1_run pool2_step] by simp

theorem workers_exclusive_witness:
  "pool_run failing_controller 2 (start_pool ()) [cart_event, Take 0 cart_item] pool2 \<and>
   po_holding pool2 0 = Some cart_item \<and> {w. po_holding pool2 w = Some cart_item} = {0}"
proof -
  have held: "po_holding pool2 0 = Some cart_item" by (simp add: pool2_def)
  from workers_exclusive [OF pool2_run held] pool2_run held show ?thesis by blast
qed

theorem event_not_lost_witness:
  "cart_item \<in> set (wq_queue (po_queue pool1))"
proof -
  have ev: "pool_step failing_controller 2 (start_pool ()) cart_event pool1"
    using event_step [of failing_controller 2 "start_pool ()" "OnAdd (ExplicitKey ''shop/cart'')"]
    by (simp add: pool1_def start_pool_def enqueue_def MetaNamespaceKeyFunc_def New_def)
  have "cart_item \<in> set (wq_queue (po_queue pool1)) \<or>
    (\<exists>w. po_holding pool1 w = Some cart_item \<and>
       (\<forall>err st. finish_item failing_controller cart_item (po_state pool1) = (err, st) \<longrightarrow>
          cart_item \<in> set (wq_queue (cs_queue st))))"
    by (rule event_not_lost [OF run_none ev run_none])
      (simp_all add: MetaNamespaceKeyFunc_def start_pool_def New_def NewNamed_def)
  moreover have "po_holding pool1 = Map.empty" by (simp add: pool1_def start_pool_def)
  ultimately show ?thesis by simp
qed

theorem failed_item_dropped_witness:
  "\<exists>p'. pool_step failing_controller 2 pool2 (Finish 0 cart_item (Some (OtherError ''down''))) p' \<and>
     cart_item \<notin> wq_dirty (po_queue p') \<and> cart_item \<notin> set (wq_queue (po_queue p'))"
proof -
  have held: "po_holding pool2 0 = Some cart_item" by (simp add: pool2_def)
  obtain st where st: "finish_item failing_controller cart_item (po_state pool2) =
      (Some (OtherError ''down''), st)"
    using cart_fails by (simp add: finish_item_def sync_item_def pool2_def New_def)
  have "cart_item \<notin> wq_dirty (po_queue pool2)"
    by (simp add: pool2_def Get_def Add_def NewNamed_def)
  from failed_item_dropped [OF pool2_run finish_step [OF held st] this]
    finish_step [OF held st, where threadiness = 2]
  show ?thesis by blast
qed

section \<open>A worker drains the queue\<close>

text \<open>What the items leave behind when they are processed one after the other.\<close>

definition process_all :: "'k controller \<Rightarrow> work_item list \<Rightarrow> 'k ctl_state \<Rightarrow> 'k ctl_state" where
  "process_all c items st = fold (\<lambda>x st. snd (sync_item c x st)) items st"

lemma sync_item_other_queue:
  "snd (sync_item c x (st\<lparr>cs_queue := q\<rparr>)) = (snd (sync_item c x st))\<lparr>cs_queue := q\<rparr>"
  by (auto simp: sync_item_def split: work_item.splits prod.splits option.splits)

lemma process_all_other_queue:
  "process_all c items (st\<lparr>cs_queue := q\<rparr>) = (process_all c items st)\<lparr>cs_queue := q\<rparr>"
  unfolding process_all_def
  by (induction items arbitrary: st) (simp_all add: sync_item_other_queue)

definition drained :: "work_item workqueue \<Rightarrow> work_item workqueue" where
  "drained q = q\<lparr>wq_queue := [], wq_dirty := wq_dirty q - set (wq_queue q)\<rparr>"

lemma process_one:
  assumes "wq_inv q" "wq_queue q = x # xs" "cs_queue st = q"
  shows "processNextWorkItem c st =
    Some (True, (snd (sync_item c x st))\<lparr>cs_queue := q\<lparr>wq_queue := xs, wq_dirty := wq_dirty q - {x}\<rparr>\<rparr>)"
proof -
  let ?q = "q\<lparr>wq_queue := xs, wq_processing := insert x (wq_processing q), wq_dirty := wq_dirty q - {x}\<rparr>"
  have "x \<notin> wq_processing q" using assms(1,2) by (auto simp: wq_inv_def)
  then have "Done x ?q = q\<lparr>wq_queue := xs, wq_dirty := wq_dirty q - {x}\<rparr>"
    by (simp add: Done_def Let_def)
  moreover have "Get q = (Item x, ?q)" using assms(2) by (simp add: Get_def)
  ultimately show ?thesis
    using assms(3)
    by (simp add: processNextWorkItem_def finish_item_def case_prod_beta Let_def sync_item_other_queue)
qed

lemma runWorker_drains:
  assumes "wq_inv (cs_queue st)" "fuel > Len (cs_queue st)"
  shows "runWorker fuel c st =
    Some ((if wq_shuttingDown (cs_queue st) then Returned else Waiting)
      ((process_all c (wq_queue (cs_queue st)) st)\<lparr>cs_queue := drained (cs_queue st)\<rparr>))"
  using assms
proof (induction "wq_queue (cs_queue st)" arbitrary: st fuel)
  case Nil
  then obtain f where "fuel = Suc f" by (cases fuel) auto
  moreover have "drained (cs_queue st) = cs_queue st" using Nil by (simp add: drained_def)
  ultimately show ?case
    using Nil.hyps [symmetric] by (simp add: processNextWorkItem_def Get_def process_all_def)
next
  case (Cons x xs)
  let ?q = "cs_queue st"
  let ?st = "(snd (sync_item c x st))\<lparr>cs_queue := ?q\<lparr>wq_queue := xs, wq_dirty := wq_dirty ?q - {x}\<rparr>\<rparr>"
  obtain f where f: "fuel = Suc f" using Cons.prems(2) by (cases fuel) auto
  have inv: "wq_inv (cs_queue ?st)"
    using Cons.prems(1) Cons.hyps(2) [symmetric] by (auto simp: wq_inv_def)
  have "f > Len (cs_queue ?st)" using Cons.prems(2) Cons.hyps(2) [symmetric] f by (simp add: Len_def)
  from Cons.hyps(1) [OF _ inv this]
  have "runWorker f c ?st = Some ((if wq_shuttingDown ?q then Returned else Waiting)
      ((process_all c xs ?st)\<lparr>cs_queue := drained (cs_queue ?st)\<rparr>))" by simp
  moreover have "wq_dirty ?q - {x} - set xs = wq_dirty ?q - insert x (set xs)" by auto
  then have "drained (cs_queue ?st) = drained ?q"
    using Cons.hyps(2) [symmetric] by (simp add: drained_def)
  moreover have "process_all c xs ?st = (process_all c (x # xs) st)
      \<lparr>cs_queue := ?q\<lparr>wq_queue := xs, wq_dirty := wq_dirty ?q - {x}\<rparr>\<rparr>"
    by (simp add: process_all_other_queue) (simp add: process_all_def)
  ultimately show ?case
    using process_one [OF Cons.prems(1) Cons.hyps(2) [symmetric] refl, of c] f Cons.hyps(2) by simp
qed

text \<open>C26: a worker left alone returns from its loop after the queue was shut down, and otherwise ends
  up waiting, in both cases after having processed every queued item exactly once, in the order of
  the queue, errors included; one round more than there are queued items is enough fuel.\<close>

theorem runWorker_terminates:
  assumes "wq_inv (cs_queue st)"
  shows "\<exists>st'. runWorker (Suc (Len (cs_queue st))) c st =
      Some (if wq_shuttingDown (cs_queue st) then Returned st' else Waiting st') \<and>
    wq_queue (cs_queue st') = [] \<and> wq_dirty (cs_queue st') \<inter> set (wq_queue (cs_queue st)) = {} \<and>
    cs_world st' = cs_world (process_all c (wq_queue (cs_queue st)) st)"
  using runWorker_drains [OF assms, of "Suc (Len (cs_queue st))" c] by (auto simp: drained_def)

definition queued_state :: "unit ctl_state" where
  "queued_state = (New ())\<lparr>cs_queue := ShutDown (Add (OtherItem 3) (Add cart_item NewNamed))\<rparr>"

theorem runWorker_terminates_witness:
  "\<exists>st'. runWorker 3 failing_controller queued_state = Some (Returned st') \<and>
     wq_queue (cs_queue st') = [] \<and>
     wq_dirty (cs_queue st') \<inter> {cart_item, OtherItem 3} = {}"
proof -
  have inv: "wq_inv (cs_queue queued_state)" by (simp add: queued_state_def)
  have q: "wq_queue (cs_queue queued_state) = [cart_item, OtherItem 3]"
    "wq_shuttingDown (cs_queue queued_state)"
    by (simp_all add: queued_state_def Add_def NewNamed_def)
  have len: "Suc (Len (cs_queue queued_state)) = 3" by (simp add: Len_def q)
  from runWorker_terminates [OF inv, of failing_controller, unfolded len] show ?thesis
    by (auto simp: q)
qed

end
