(* ===== verification/ServiceDeploy.thy ===== *)
theory ServiceDeploy
  imports Cluster ControllerPool
begin

text \<open>
  The controller from an event to the cluster: the workers of the pool (\<open>controller.Run\<close>) over the
  controller on informer stores and API server. Reconciliation of any key keeps a service deployable
  or leaves it established, so an event for the service can always be worked off by the workers alone.
\<close>

section \<open>Services that can be deployed\<close>

definition established :: "Service \<Rightarrow> cluster \<Rightarrow> bool" where
  "established s k \<longleftrightarrow> api_deployment (service_id s) k \<noteq> None \<and>
     (wants_service s \<longrightarrow> api_k8sService (service_id s) k \<noteq> None)"

text \<open>
  The informer's store has the service, the caches show nothing that the API server does not have, and
  the deployment is not one that the cache still misses, since creating that again is refused and ends
  the reconciliation.
\<close>

definition deployable :: "Service \<Rightarrow> cluster \<Rightarrow> bool" where
  "deployable s k \<longleftrightarrow> cluster_inv k \<and> services_keyed k \<and> cached_service (meta_key (service_Meta s)) k s \<and>
     caches_sound k (service_id s) \<and>
     (established s k \<or> deployment_seen k (service_id s) \<or> api_deployment (service_id s) k = None)"

lemma reconcile_frame:
  assumes "reconcile cluster_controller key k = (r, k')"
  shows "cl_deployments k' = cl_deployments k" "cl_k8sServices k' = cl_k8sServices k" "cl_services k' = cl_services k"
proof -
  have api: "cl_deployments k2 = cl_deployments k1 \<and> cl_k8sServices k2 = cl_k8sServices k1 \<and> cl_services k2 = cl_services k1"
    if "on_api f k1 = (x, k2)" for f k1 and x :: 'r and k2
    using that by (auto simp: on_api_def split: prod.splits)
  have d: "cl_deployments k2 = cl_deployments k1 \<and> cl_k8sServices k2 = cl_k8sServices k1 \<and> cl_services k2 = cl_services k1"
    if "reconcileDeployment cluster_controller s k1 = (e, k2, s')" for s k1 e k2 s'
    using that by (auto simp: reconcileDeployment_def cluster_controller_def Let_def dest: api
      split: sum.splits if_splits prod.splits)
  have s: "cl_deployments k2 = cl_deployments k1 \<and> cl_k8sServices k2 = cl_k8sServices k1 \<and> cl_services k2 = cl_services k1"
    if "reconcileK8sService cluster_controller s k1 = (e, k2)" for s k1 e k2
    using that by (auto simp: reconcileK8sService_def cluster_controller_def dest: api
      split: sum.splits if_splits prod.splits)
  from assms have "cl_deployments k' = cl_deployments k \<and> cl_k8sServices k' = cl_k8sServices k \<and> cl_services k' = cl_services k"
    by (auto simp: reconcile_def dest!: d s split: sum.splits if_splits prod.splits option.splits)
  then show "cl_deployments k' = cl_deployments k" "cl_k8sServices k' = cl_k8sServices k" "cl_services k' = cl_services k"
    by simp_all
qed

lemma same_service:
  assumes "cached_service key k s" "cached_service key' k s'" "service_id s' = service_id s"
  shows "s' = s"
  using assms by (auto simp: cached_service_def service_keyed_def meta_key_def service_id_def)

text \<open>Working on the service's own key establishes it.\<close>

lemma reconcile_makes:
  assumes "deployable s k" "reconcile cluster_controller (meta_key (service_Meta s)) k = (r, k')"
  shows "established s k'"
proof -
  from assms(1) have k: "cluster_inv k" "cached_service (meta_key (service_Meta s)) k s" "caches_sound k (service_id s)"
    and ok: "established s k \<or> deployment_seen k (service_id s) \<or> api_deployment (service_id s) k = None"
    by (simp_all add: deployable_def)
  note a = reconcile_adds(2,3) [OF k(1,2) assms(2), of "service_id s"]
  show ?thesis
  proof (cases "established s k")
    case True
    with a show ?thesis by (auto simp: established_def)
  next
    case False
    with ok have "deployment_seen k (service_id s) \<or> api_deployment (service_id s) k = None" by auto
    with reconcile_cached [OF k(1,2)] k(3) assms(2) show ?thesis
      by (auto simp: established_def caches_sound_def simp del: split_paired_All)
  qed
qed

lemma deployable_reconcile:
  assumes "deployable s k" "reconcile cluster_controller key k = (r, k')"
  shows "deployable s k'"
proof -
  from assms(1) have k: "cluster_inv k" "services_keyed k" "cached_service (meta_key (service_Meta s)) k s"
    "caches_sound k (service_id s)" by (simp_all add: deployable_def)
  note f = reconcile_frame [OF assms(2)]
  have same: "services_keyed k' = services_keyed k" "cached_service key k' s = cached_service key k s"
    "deployment_seen k' j = deployment_seen k j" "k8sService_seen k' j = k8sService_seen k j" for key s j
    by (simp_all add: services_keyed_def cached_service_def deployment_seen_def k8sService_seen_def f)
  show ?thesis
  proof (rule reconcile_cases [OF k(2), of key])
    assume "reconcile cluster_controller key k = (None, k)"
    with assms show ?thesis by simp
  next
    fix key' s'
    assume s': "cached_service key' k s'" and eq: "reconcile cluster_controller key k = reconcile cluster_controller key' k"
    note a = reconcile_adds [OF k(1) s' eq [symmetric, unfolded assms(2)]]
    have keep: "caches_sound k' (service_id s)"
      using k(4) a(2,3) [of "service_id s"] by (auto simp: caches_sound_def same)
    show ?thesis
    proof (cases "service_id s' = service_id s")
      case True
      with same_service [OF k(3) s'] s' have "s' = s" "key' = meta_key (service_Meta s)"
        by (auto simp: cached_service_def service_keyed_def)
      with eq assms have "established s k'" using reconcile_makes by metis
      with a(1) k keep show ?thesis by (simp add: deployable_def same)
    next
      case False
      with a(2,3) [of "service_id s"] have "api_deployment (service_id s) k' = api_deployment (service_id s) k"
        "api_k8sService (service_id s) k' = api_k8sService (service_id s) k" by auto
      with assms(1) a(1) keep show ?thesis by (simp add: deployable_def established_def same)
    qed
  qed
qed

section \<open>The workers work it off\<close>

lemma pool_run_append: "pool_run c n p' ls' p'' \<Longrightarrow> pool_run c n p ls p' \<Longrightarrow> pool_run c n p (ls @ ls') p''"
proof (induction rule: pool_run.induct)
  case (run_step p' ls1 p1 l p2)
  from pool_run.run_step [OF run_step.IH [OF run_step.prems] run_step.hyps(2)] show ?case by simp
qed simp

fun worker_label :: "'k label \<Rightarrow> bool" where
  "worker_label (Take w x) = True"
| "worker_label (Finish w x err) = True"
| "worker_label _ = False"

definition works_off :: "Service \<Rightarrow> nat \<Rightarrow> cluster pool \<Rightarrow> bool" where
  "works_off s n p \<longleftrightarrow> (\<exists>ls p'. pool_run cluster_controller n p ls p' \<and> list_all worker_label ls \<and>
     established s (cs_world (po_state p')))"

lemma works_off_now: "established s (cs_world (po_state p)) \<Longrightarrow> works_off s n p"
  unfolding works_off_def by (intro exI [of _ "[]"] exI [of _ p]) (simp add: pool_run.run_none)

lemma works_off_step:
  assumes "pool_step cluster_controller n p l p1" "worker_label l" "works_off s n p1"
  shows "works_off s n p"
proof -
  from assms(3) obtain ls p' where "pool_run cluster_controller n p1 ls p'" "list_all worker_label ls"
    "established s (cs_world (po_state p'))" by (auto simp: works_off_def)
  moreover have "pool_run cluster_controller n p [l] p1"
    using pool_run.run_step [OF pool_run.run_none assms(1)] by simp
  ultimately show ?thesis
    using assms(2) pool_run_append unfolding works_off_def by (intro exI [of _ "l # ls"] exI [of _ p']) fastforce
qed

lemma finish_item_world:
  assumes "deployable s (cs_world st)" "finish_item cluster_controller x st = (err, st')"
  shows "deployable s (cs_world st')"
    "x = StringItem (meta_key (service_Meta s)) \<Longrightarrow> established s (cs_world st')"
proof -
  have "deployable s (cs_world st') \<and> (x = StringItem (meta_key (service_Meta s)) \<longrightarrow> established s (cs_world st'))"
  proof (cases x)
    case (StringItem key)
    obtain r k' where r: "reconcile cluster_controller key (cs_world st) = (r, k')" by force
    then have "cs_world st' = k'"
      using assms(2) StringItem by (auto simp: finish_item_def sync_item_def Let_def split: option.splits)
    with deployable_reconcile [OF assms(1) r] reconcile_makes [OF assms(1)] r StringItem show ?thesis by auto
  next
    case (OtherItem i)
    with assms show ?thesis by (auto simp: finish_item_def sync_item_def Let_def)
  qed
  then show "deployable s (cs_world st')" "x = StringItem (meta_key (service_Meta s)) \<Longrightarrow> established s (cs_world st')"
    by blast+
qed

text \<open>A worker that holds an item finishes it: what is queued stays queued, in its place.\<close>

lemma finish_one:
  assumes "pool_inv p" "po_holding p w = Some x" "deployable s (cs_world (po_state p))"
  shows "\<exists>err p' more. pool_step cluster_controller n p (Finish w x err) p' \<and> pool_inv p' \<and>
    po_holding p' = (po_holding p)(w := None) \<and> deployable s (cs_world (po_state p')) \<and>
    (x = StringItem (meta_key (service_Meta s)) \<longrightarrow> established s (cs_world (po_state p'))) \<and>
    wq_queue (po_queue p') = wq_queue (po_queue p) @ more"
proof -
  obtain err st where f: "finish_item cluster_controller x (po_state p) = (err, st)" by force
  let ?p = "p\<lparr>po_state := st, po_holding := (po_holding p)(w := None)\<rparr>"
  have step: "pool_step cluster_controller n p (Finish w x err) ?p" by (rule finish_step [OF assms(2) f])
  have "cs_queue st = Done x (po_queue p)" using finish_item_fields [OF f] by simp
  then have "wq_queue (po_queue ?p) = wq_queue (po_queue p) @ (if x \<in> wq_dirty (po_queue p) then [x] else [])"
    by (simp add: Done_def Let_def)
  with step pool_inv_step [OF step assms(1)] finish_item_world [OF assms(3) f] show ?thesis
    by (intro exI [of _ err] exI [of _ ?p] exI) auto
qed

text \<open>One free worker takes what is before the key, and then the key.\<close>

lemma one_worker:
  assumes "pool_inv p" "w < n" "po_holding p w = None" "deployable s (cs_world (po_state p))"
    and "wq_queue (po_queue p) = xs @ StringItem (meta_key (service_Meta s)) # ys"
  shows "works_off s n p"
  using assms
proof (induction xs arbitrary: p ys)
  case Nil
  let ?x = "StringItem (meta_key (service_Meta s))"
  obtain q where q: "Get (po_queue p) = (Item ?x, q)" using Nil.prems(5) by (simp add: Get_def)
  let ?p = "p\<lparr>po_state := (po_state p)\<lparr>cs_queue := q\<rparr>, po_holding := (po_holding p)(w \<mapsto> ?x)\<rparr>"
  have take: "pool_step cluster_controller n p (Take w ?x) ?p" by (rule take_step [OF Nil.prems(2,3) q])
  obtain err p' where fin: "pool_step cluster_controller n ?p (Finish w ?x err) p'" "established s (cs_world (po_state p'))"
    using finish_one [OF pool_inv_step [OF take Nil.prems(1)], of w ?x s n] Nil.prems(4) by force
  have "works_off s n p'" using fin(2) by (rule works_off_now)
  then show ?case using works_off_step [OF take _ works_off_step [OF fin(1)]] by simp
next
  case (Cons x xs)
  obtain q where q: "Get (po_queue p) = (Item x, q)" using Cons.prems(5) by (simp add: Get_def)
  let ?p = "p\<lparr>po_state := (po_state p)\<lparr>cs_queue := q\<rparr>, po_holding := (po_holding p)(w \<mapsto> x)\<rparr>"
  have take: "pool_step cluster_controller n p (Take w x) ?p" by (rule take_step [OF Cons.prems(2,3) q])
  obtain err p' more where fin: "pool_step cluster_controller n ?p (Finish w x err) p'" "pool_inv p'"
    "po_holding p' = (po_holding ?p)(w := None)" "deployable s (cs_world (po_state p'))"
    "wq_queue (po_queue p') = wq_queue (po_queue ?p) @ more"
    using finish_one [OF pool_inv_step [OF take Cons.prems(1)], of w x s n] Cons.prems(4) by force
  have "wq_queue (po_queue p') = xs @ StringItem (meta_key (service_Meta s)) # ys @ more"
    using fin(5) q Cons.prems(5) by (auto simp: Get_def)
  moreover have "po_holding p' w = None" by (simp add: fin(3))
  ultimately have "works_off s n p'" using Cons.IH [OF fin(2) Cons.prems(2) _ fin(4)] by blast
  then show ?case using works_off_step [OF take _ works_off_step [OF fin(1)]] by simp
qed

text \<open>Only workers hold items.\<close>

lemma holders: "pool_run c n p ls p' \<Longrightarrow> (\<And>w. n \<le> w \<Longrightarrow> po_holding p w = None) \<Longrightarrow> n \<le> w \<Longrightarrow> po_holding p' w = None"
proof (induction rule: pool_run.induct)
  case (run_step p ls p' l p'')
  from run_step.hyps(2) run_step.IH [OF run_step.prems] show ?case
    by (induction rule: pool_step.induct) (use run_step.prems(2) in auto)
qed

lemma dirty_worked_off:
  assumes "pool_inv p" "0 < n" "\<And>w. n \<le> w \<Longrightarrow> po_holding p w = None" "deployable s (cs_world (po_state p))"
    and dirty: "StringItem (meta_key (service_Meta s)) \<in> wq_dirty (po_queue p)"
  shows "works_off s n p"
proof (cases "StringItem (meta_key (service_Meta s)) \<in> wq_processing (po_queue p)")
  case True
  let ?x = "StringItem (meta_key (service_Meta s))"
  obtain w where w: "po_holding p w = Some ?x" using True assms(1) by (auto simp: pool_inv_def claims_def ran_def)
  have "w < n" using assms(3) [of w] w by (cases "w < n") auto
  obtain err p' where fin: "pool_step cluster_controller n p (Finish w ?x err) p'"
    "established s (cs_world (po_state p'))"
    using finish_one [OF assms(1) w assms(4), of n] by blast
  have "works_off s n p'" using fin(2) by (rule works_off_now)
  then show ?thesis using works_off_step [OF fin(1)] by simp
next
  case False
  with dirty assms(1) have "StringItem (meta_key (service_Meta s)) \<in> set (wq_queue (po_queue p))"
    by (simp add: pool_inv_def wq_inv_def)
  then obtain xs ys where q: "wq_queue (po_queue p) = xs @ StringItem (meta_key (service_Meta s)) # ys"
    by (meson split_list)
  show ?thesis
  proof (cases "po_holding p 0")
    case None
    show ?thesis by (rule one_worker [OF assms(1,2) None assms(4) q])
  next
    case (Some x)
    obtain err p' more where fin: "pool_step cluster_controller n p (Finish 0 x err) p'" "pool_inv p'"
      "po_holding p' = (po_holding p)(0 := None)" "deployable s (cs_world (po_state p'))"
      "wq_queue (po_queue p') = wq_queue (po_queue p) @ more"
      using finish_one [OF assms(1) Some assms(4), of n] by blast
    have "wq_queue (po_queue p') = xs @ StringItem (meta_key (service_Meta s)) # ys @ more" using fin(5) q by simp
    moreover have "po_holding p' 0 = None" by (simp add: fin(3))
    ultimately have "works_off s n p'" using one_worker [OF fin(2) assms(2) _ fin(4)] by blast
    then show ?thesis using works_off_step [OF fin(1)] by simp
  qed
qed

section \<open>From an event to the cluster\<close>

text \<open>What the API server has, the workers leave alone.\<close>

definition cluster_kept :: "cluster \<Rightarrow> cluster \<Rightarrow> bool" where
  "cluster_kept k k' \<longleftrightarrow>
     (\<forall>j d. api_deployment j k = Some d \<longrightarrow> api_deployment j k' = Some d) \<and>
     (\<forall>j v. api_k8sService j k = Some v \<longrightarrow> api_k8sService j k' = Some v)"

lemma reconcile_keeps:
  assumes "cluster_inv k" "services_keyed k" "reconcile cluster_controller key k = (r, k')"
  shows "cluster_kept k k'"
proof (rule reconcile_cases [OF assms(2), of key])
  fix key' s' assume s': "cached_service key' k s'" "reconcile cluster_controller key k = reconcile cluster_controller key' k"
  note a = reconcile_adds(2,3) [OF assms(1) s'(1) s'(2) [symmetric, unfolded assms(3)]]
  show ?thesis
    unfolding cluster_kept_def
  proof (intro conjI allI impI)
    fix j d assume "api_deployment j k = Some d"
    with a(1) [of j] show "api_deployment j k' = Some d" by auto
  next
    fix j v assume "api_k8sService j k = Some v"
    with a(2) [of j] show "api_k8sService j k' = Some v" by auto
  qed
qed (use assms(3) in \<open>simp add: cluster_kept_def\<close>)

lemma workers_keep:
  "pool_run cluster_controller n p ls p' \<Longrightarrow> list_all worker_label ls \<Longrightarrow> deployable s (cs_world (po_state p)) \<Longrightarrow>
   deployable s (cs_world (po_state p')) \<and> cluster_kept (cs_world (po_state p)) (cs_world (po_state p'))"
proof (induction rule: pool_run.induct)
  case (run_step p ls p1 l p2)
  then have d: "deployable s (cs_world (po_state p1))" and kept: "cluster_kept (cs_world (po_state p)) (cs_world (po_state p1))"
    and l: "worker_label l" by simp_all
  from run_step.hyps(2) have "deployable s (cs_world (po_state p2)) \<and> cluster_kept (cs_world (po_state p1)) (cs_world (po_state p2))"
  proof cases
    case (finish_step w x err st)
    have "cluster_kept (cs_world (po_state p1)) (cs_world st)"
    proof (cases x)
      case (StringItem key)
      obtain r k' where r: "reconcile cluster_controller key (cs_world (po_state p1)) = (r, k')" by force
      then have "cs_world st = k'"
        using finish_step(4) StringItem by (auto simp: finish_item_def sync_item_def Let_def split: option.splits)
      with reconcile_keeps [OF _ _ r] d show ?thesis by (simp add: deployable_def)
    next
      case (OtherItem i)
      with finish_step(4) show ?thesis by (auto simp: finish_item_def sync_item_def Let_def cluster_kept_def)
    qed
    with finish_item_world(1) [OF d finish_step(4)] show ?thesis by (simp add: finish_step(2))
  qed (use l d in \<open>auto simp: cluster_kept_def\<close>)
  with kept show ?case by (auto simp: cluster_kept_def)
qed (simp add: cluster_kept_def)

text \<open>A deployable service whose key waits in the queue gets deployed.\<close>

lemma queued_service_deployed:
  assumes run: "pool_run cluster_controller n (start_pool k) ls p" and n: "0 < n"
    and dep: "deployable s (cs_world (po_state p))" and dirty: "StringItem (meta_key (service_Meta s)) \<in> wq_dirty (po_queue p)"
  shows "\<exists>ls' p'. pool_run cluster_controller n (start_pool k) (ls @ ls') p' \<and> list_all worker_label ls' \<and>
    established s (cs_world (po_state p')) \<and> cluster_kept (cs_world (po_state p)) (cs_world (po_state p'))"
proof -
  have inv: "pool_inv p" by (rule pool_inv_run [OF run pool_inv_start])
  have hold: "po_holding p w = None" if "n \<le> w" for w
    by (rule holders [OF run _ that]) (simp add: start_pool_def)
  from dirty_worked_off [OF inv n hold dep dirty] obtain ls' p' where
    w: "pool_run cluster_controller n p ls' p'" "list_all worker_label ls'" "established s (cs_world (po_state p'))"
    by (auto simp: works_off_def)
  with pool_run_append [OF w(1) run] workers_keep [OF w(1,2) dep] show ?thesis by blast
qed

text \<open>C2: a service that is announced gets deployed. Take any run of the controller with at least one worker,
  whatever was queued, processed or failed before, in whose cluster the service is in the informer's
  store and deployable. Once the handler is called for the service, the workers alone, without any
  further event, can go on to a state in which the API server has its deployment and, if the service has
  ports or is a gateway, its Kubernetes service; and nothing that was there before is changed or removed
  on the way there.\<close>

theorem service_gets_deployed:
  assumes run: "pool_run cluster_controller n (start_pool k) ls p" and n: "0 < n"
    and up: "\<not> wq_shuttingDown (po_queue p)" and dep: "deployable s (cs_world (po_state p))"
    and ev: "ev = OnAdd (WithMeta (service_Meta s)) \<or> ev = OnUpdate old (WithMeta (service_Meta s))"
  shows "\<exists>ls' p'. pool_run cluster_controller n (start_pool k) (ls @ Event ev # ls') p' \<and>
    list_all worker_label ls' \<and> established s (cs_world (po_state p')) \<and>
    (\<forall>j d. api_deployment j (cs_world (po_state p)) = Some d \<longrightarrow> api_deployment j (cs_world (po_state p')) = Some d) \<and>
    (\<forall>j v. api_k8sService j (cs_world (po_state p)) = Some v \<longrightarrow> api_k8sService j (cs_world (po_state p')) = Some v)"
proof -
  let ?p1 = "p\<lparr>po_state := (po_state p)\<lparr>cs_queue := service_events ev (po_queue p)\<rparr>\<rparr>"
  let ?x = "StringItem (meta_key (service_Meta s))"
  have step: "pool_step cluster_controller n p (Event ev) ?p1" by (rule event_step)
  have run1: "pool_run cluster_controller n (start_pool k) (ls @ [Event ev]) ?p1" by (rule run_step [OF run step])
  have "queues (Event ev :: cluster label) ?x" using ev by (auto simp: MetaNamespaceKeyFunc_def meta_key_def)
  then have dirty: "?x \<in> wq_dirty (po_queue ?p1)" using queues_dirty [OF step _ up] by blast
  have "deployable s (cs_world (po_state ?p1))" using dep by simp
  from queued_service_deployed [OF run1 n this dirty] obtain ls' p' where
    "pool_run cluster_controller n (start_pool k) ((ls @ [Event ev]) @ ls') p'" "list_all worker_label ls'"
    "established s (cs_world (po_state p'))" "cluster_kept (cs_world (po_state ?p1)) (cs_world (po_state p'))" by blast
  then show ?thesis by (intro exI [of _ ls'] exI [of _ p']) (simp add: cluster_kept_def)
qed

text \<open>The controller starts on a cluster whose informer knows the service.\<close>

theorem service_gets_deployed_witness:
  "\<exists>ls p'. pool_run cluster_controller 2 (start_pool sample_cluster) ls p' \<and>
     api_deployment (''shop'', ''cart'') (cs_world (po_state p')) \<noteq> None"
proof -
  have up: "\<not> wq_shuttingDown (po_queue (start_pool sample_cluster))" by (simp add: start_pool_def New_def NewNamed_def)
  have key: "meta_key (service_Meta sample_service) = ''shop/cart''"
    by (simp add: meta_key_def sample_service_def zero_ObjectMeta_def)
  have "caches_sound sample_cluster (service_id sample_service)" by (simp add: caches_sound_def sample_empty)
  then have "deployable sample_service (cs_world (po_state (start_pool sample_cluster)))"
    by (simp add: deployable_def key sample_cached sample_cluster_inv sample_services_keyed sample_empty start_pool_def New_def)
  from service_gets_deployed [OF run_none _ up this disjI1 [OF refl], of 2]
  obtain ls p' where "pool_run cluster_controller 2 (start_pool sample_cluster) ls p'"
    "established sample_service (cs_world (po_state p'))" by auto
  then show ?thesis by (auto simp: established_def sample_id)
qed

end
