(* ===== verification/XdsStream.thy ===== *)
theory XdsStream
  imports XdsServer
begin

text \<open>
  The streams of the discovery server
  (\<open>vendor/github.com/envoyproxy/go-control-plane/pkg/server/server.go\<close>, which \<open>server.Start\<close> of
  \<open>pkg/xds\<close> registers for aggregated discovery): each Envoy holds a stream, on which the server keeps
  one watch of the snapshot cache per resource type and sends what the cache pushes into the watch's
  channel. All streams, and the updates that set snapshots, work on one cache; the sequence of
  their steps is an explicit list of events. The callbacks are nil, as in the program.
\<close>

section \<open>Messages\<close>

text \<open>An empty type URL is \<open>None\<close>.\<close>

record DiscoveryRequest =
  dr_NodeId :: string
  dr_VersionInfo :: string
  dr_ResourceNames :: "string list"
  dr_TypeUrl :: "xds_type option"
  dr_ResponseNonce :: string

record 'b DiscoveryResponse =
  ds_VersionInfo :: string
  ds_Resources :: "(xds_type \<times> 'b) list"
  ds_TypeUrl :: xds_type
  ds_Nonce :: string

datatype stream_error = Unavailable string | InvalidArgument string | Failed string

text \<open>\<open>proto.Marshal\<close> is the parameter \<open>pm\<close>.\<close>

fun marshal_all :: "(xds_resource \<Rightarrow> string + 'b) \<Rightarrow> xds_type \<Rightarrow> xds_resource list \<Rightarrow>
    string + (xds_type \<times> 'b) list" where
  "marshal_all pm typeURL [] = Inr []"
| "marshal_all pm typeURL (r # rs) =
     (case pm r of
        Inl err \<Rightarrow> Inl err
      | Inr data \<Rightarrow>
          (case marshal_all pm typeURL rs of
             Inl err \<Rightarrow> Inl err
           | Inr resources \<Rightarrow> Inr ((typeURL, data) # resources)))"

definition discovery_response :: "(xds_resource \<Rightarrow> string + 'b) \<Rightarrow> Response \<Rightarrow> xds_type \<Rightarrow>
    string + 'b DiscoveryResponse" where
  "discovery_response pm resp typeURL =
     (case marshal_all pm typeURL (resp_Resources resp) of
        Inl err \<Rightarrow> Inl err
      | Inr resources \<Rightarrow>
          Inr \<lparr>ds_VersionInfo = resp_Version resp, ds_Resources = resources, ds_TypeUrl = typeURL, ds_Nonce = []\<rparr>)"

text \<open>\<open>strconv.FormatInt(n, 10)\<close> of a 64-bit integer.\<close>

definition FormatInt :: "64 word \<Rightarrow> string" where
  "FormatInt n = int_str (sint n)"

section \<open>A stream\<close>

text \<open>
  The fields of \<open>watches\<close> for one type: the channel (nil before the first request), what the cancel
  function needs (nil when the request was answered at once), and the nonce of the last response.
\<close>

record type_watch =
  tw_channel :: "nat option"
  tw_cancel :: "(string \<times> nat) option"
  tw_nonce :: string

datatype stream_end = EndOfInput | EndWith stream_error

text \<open>\<open>st_sent\<close> is what was sent; \<open>st_end\<close> is what \<open>process\<close> returned, once it has.\<close>

record 'b stream =
  st_defaultType :: "xds_type option"
  st_nonce :: "64 word"
  st_watches :: "xds_type \<Rightarrow> type_watch"
  st_sent :: "'b DiscoveryResponse list"
  st_end :: "stream_end option"

definition new_stream :: "xds_type option \<Rightarrow> 'b stream" where
  "new_stream typeURL =
     \<lparr>st_defaultType = typeURL, st_nonce = 0,
      st_watches = (\<lambda>_. \<lparr>tw_channel = None, tw_cancel = None, tw_nonce = []\<rparr>), st_sent = [], st_end = None\<rparr>"

definition cancel_type :: "type_watch \<Rightarrow> snapshotCache \<Rightarrow> snapshotCache" where
  "cancel_type w c = (case tw_cancel w of None \<Rightarrow> c | Some (nodeID, watchID) \<Rightarrow> cancelWatch nodeID watchID c)"

definition Cancel :: "(xds_type \<Rightarrow> type_watch) \<Rightarrow> snapshotCache \<Rightarrow> snapshotCache" where
  "Cancel values c =
     cancel_type (values SecretType) (cancel_type (values ListenerType) (cancel_type (values RouteType)
       (cancel_type (values ClusterType) (cancel_type (values EndpointType) c))))"

text \<open>\<open>send\<close>, and what its caller does with the nonce; \<open>Send\<close> may give an error.\<close>

definition stream_send :: "(xds_resource \<Rightarrow> string + 'b) \<Rightarrow> string option \<Rightarrow> Response \<Rightarrow> xds_type \<Rightarrow>
    'b stream \<Rightarrow> 'b stream" where
  "stream_send pm send_err resp typeURL st =
     (case discovery_response pm resp typeURL of
        Inl err \<Rightarrow> st\<lparr>st_end := Some (EndWith (Failed err))\<rparr>
      | Inr out \<Rightarrow>
          (let streamNonce = st_nonce st + 1; nonce = FormatInt streamNonce
           in case send_err of
                Some err \<Rightarrow> st\<lparr>st_nonce := streamNonce, st_end := Some (EndWith (Failed err))\<rparr>
              | None \<Rightarrow>
                  st\<lparr>st_nonce := streamNonce, st_sent := st_sent st @ [out\<lparr>ds_Nonce := nonce\<rparr>],
                     st_watches := (st_watches st)(typeURL := (st_watches st typeURL)\<lparr>tw_nonce := nonce\<rparr>)\<rparr>))"

definition cache_request :: "xds_type \<Rightarrow> DiscoveryRequest \<Rightarrow> Request" where
  "cache_request typ req =
     \<lparr>req_NodeId = dr_NodeId req, req_VersionInfo = dr_VersionInfo req, req_ResourceNames = dr_ResourceNames req,
      req_TypeUrl = typ, req_ResponseNonce = dr_ResponseNonce req\<rparr>"

text \<open>The switch over the type: the watch of a known type is made anew if the nonce is the last one sent.\<close>

definition accepts :: "xds_type \<Rightarrow> DiscoveryRequest \<Rightarrow> 'b stream \<Rightarrow> bool" where
  "accepts typ req st \<longleftrightarrow>
     typ \<noteq> OtherType \<and>
     (tw_nonce (st_watches st typ) = [] \<or> tw_nonce (st_watches st typ) = dr_ResponseNonce req)"

definition renew_watch :: "(string \<Rightarrow> string option) \<Rightarrow> xds_type \<Rightarrow> DiscoveryRequest \<Rightarrow>
    snapshotCache \<times> 'b stream \<Rightarrow> (snapshotCache \<times> 'b stream) option" where
  "renew_watch hash typ req cst =
     (let (c, st) = cst; w = st_watches st typ
      in if accepts typ req st
         then (case CreateWatch hash (cache_request typ req) (cancel_type w c) of
                 None \<Rightarrow> None
               | Some ((value, cancel), c') \<Rightarrow>
                   Some (c', st\<lparr>st_watches := (st_watches st)
                     (typ := w\<lparr>tw_channel := Some value, tw_cancel := cancel\<rparr>)\<rparr>))
         else Some (c, st))"

text \<open>A received request; \<open>None\<close> is a panic, of the hash.\<close>

definition handle_request :: "(string \<Rightarrow> string option) \<Rightarrow> DiscoveryRequest option \<Rightarrow>
    snapshotCache \<times> 'b stream \<Rightarrow> (snapshotCache \<times> 'b stream) option" where
  "handle_request hash received cst =
     (let (c, st) = cst
      in case received of
           None \<Rightarrow> Some (c, st\<lparr>st_end := Some (EndWith (Unavailable ''empty request''))\<rparr>)
         | Some req \<Rightarrow>
             (case dr_TypeUrl req of
                Some typ \<Rightarrow> renew_watch hash typ req (c, st)
              | None \<Rightarrow>
                  (case st_defaultType st of
                     None \<Rightarrow> Some (c, st\<lparr>st_end := Some (EndWith (InvalidArgument ''type URL is required for ADS''))\<rparr>)
                   | Some typ \<Rightarrow> renew_watch hash typ req (c, st))))"

text \<open>The deferred cancellation when \<open>process\<close> returns.\<close>

definition finish :: "snapshotCache \<times> 'b stream \<Rightarrow> snapshotCache \<times> 'b stream" where
  "finish cst = (let (c, st) = cst in (if st_end st = None then c else Cancel (st_watches st) c, st))"

section \<open>All streams of a server\<close>

record 'b xds_system =
  xs_cache :: snapshotCache
  xs_streams :: "'b stream list"

datatype xds_event =
  OpenStream "xds_type option"
  | Received nat "DiscoveryRequest option"
  | InputEnded nat
  | Deliver nat xds_type "string option"
  | SetSnap string Snapshot

text \<open>
  One event, if it can happen: a stream that has not ended takes a request, the end of its input, or a
  response from one of its channels. The steps of a stream that take the mutex of the cache twice,
  first to cancel a watch and then to make one, are one event: the channel of the cancelled watch is
  the stream's own and is no longer read, so what happens in between could as well happen before.
\<close>

definition with_stream :: "nat \<Rightarrow> 'b xds_system \<Rightarrow>
    (snapshotCache \<times> 'b stream \<Rightarrow> (snapshotCache \<times> 'b stream) option) \<Rightarrow> 'b xds_system option" where
  "with_stream k S f =
     (if k < length (xs_streams S) \<and> st_end (xs_streams S ! k) = None
      then (case f (xs_cache S, xs_streams S ! k) of
              None \<Rightarrow> None
            | Some cst \<Rightarrow>
                (let (c, st) = finish cst
                 in Some \<lparr>xs_cache = c, xs_streams = (xs_streams S)[k := st]\<rparr>))
      else None)"

definition take_response :: "(xds_resource \<Rightarrow> string + 'b) \<Rightarrow> xds_type \<Rightarrow> string option \<Rightarrow>
    snapshotCache \<times> 'b stream \<Rightarrow> (snapshotCache \<times> 'b stream) option" where
  "take_response pm typ send_err cst =
     (let (c, st) = cst
      in case tw_channel (st_watches st typ) of
           None \<Rightarrow> None
         | Some v \<Rightarrow>
             (case sc_channels c v of
                [] \<Rightarrow> None
              | resp # _ \<Rightarrow> Some (receive v c, stream_send pm send_err resp typ st)))"

fun xds_apply :: "(string \<Rightarrow> string option) \<Rightarrow> (xds_resource \<Rightarrow> string + 'b) \<Rightarrow> xds_event \<Rightarrow>
    'b xds_system \<Rightarrow> 'b xds_system option" where
  "xds_apply hash pm (OpenStream typeURL) S = Some (S\<lparr>xs_streams := xs_streams S @ [new_stream typeURL]\<rparr>)"
| "xds_apply hash pm (Received k received) S = with_stream k S (handle_request hash received)"
| "xds_apply hash pm (InputEnded k) S = with_stream k S (\<lambda>(c, st). Some (c, st\<lparr>st_end := Some EndOfInput\<rparr>))"
| "xds_apply hash pm (Deliver k typ send_err) S = with_stream k S (take_response pm typ send_err)"
| "xds_apply hash pm (SetSnap node snapshot) S = Some (S\<lparr>xs_cache := SetSnapshot node snapshot (xs_cache S)\<rparr>)"

definition start_system :: "'b xds_system" where
  "start_system = \<lparr>xs_cache = NewSnapshotCache True, xs_streams = []\<rparr>"

inductive xds_run :: "(string \<Rightarrow> string option) \<Rightarrow> (xds_resource \<Rightarrow> string + 'b) \<Rightarrow> xds_event list \<Rightarrow>
    'b xds_system \<Rightarrow> bool" for hash pm where
  start: "xds_run hash pm [] start_system"
| step: "xds_run hash pm es S \<Longrightarrow> xds_apply hash pm e S = Some S' \<Longrightarrow> xds_run hash pm (es @ [e]) S'"

end
