(* ===== verification/XdsStreamLaws.thy ===== *)
theory XdsStreamLaws
  imports XdsStream
begin

text \<open>
  What holds of the streams in every order of their events: each open watch of the cache belongs to
  one type of one running stream, each response answers a request of its stream from a snapshot that
  was set for the node, and the nonces count the responses. The invariant is kept by the parts an
  event is made of: closing watches, making one, taking a response, setting a snapshot.
\<close>

section \<open>The invariant\<close>

text \<open>A request asks for the type it names, or for the type of its stream when it names none.\<close>

definition requests_type :: "'b stream \<Rightarrow> DiscoveryRequest \<Rightarrow> xds_type \<Rightarrow> bool" where
  "requests_type st req t \<longleftrightarrow>
     (case dr_TypeUrl req of Some u \<Rightarrow> u = t | None \<Rightarrow> st_defaultType st = Some t)"

text \<open>The types with which the streams of a run were opened, in order.\<close>

definition default_types :: "xds_event list \<Rightarrow> xds_type option list" where
  "default_types es = concat (map (\<lambda>e. case e of OpenStream d \<Rightarrow> [d] | _ \<Rightarrow> []) es)"

lemma default_types_simps [simp]:
  "default_types [] = []" "default_types (es @ xs) = default_types es @ default_types xs"
  "default_types [OpenStream d] = [d]" "default_types [Received k m] = []" "default_types [InputEnded k] = []"
  "default_types [Deliver k t e] = []" "default_types [SetSnap n s] = []"
  by (simp_all add: default_types_def)

definition requested :: "xds_event list \<Rightarrow> nat \<Rightarrow> DiscoveryRequest \<Rightarrow> xds_type \<Rightarrow> bool" where
  "requested es k req t \<longleftrightarrow> Received k (Some req) \<in> set es \<and>
     (case dr_TypeUrl req of
        Some u \<Rightarrow> u = t
      | None \<Rightarrow> k < length (default_types es) \<and> default_types es ! k = Some t)"

definition received :: "xds_event list \<Rightarrow> nat \<Rightarrow> xds_type \<Rightarrow> Request \<Rightarrow> bool" where
  "received es k t r \<longleftrightarrow> (\<exists>req. requested es k req t \<and> r = cache_request t req)"

definition answered :: "(string \<Rightarrow> string option) \<Rightarrow> xds_event list \<Rightarrow> nat \<Rightarrow> xds_type \<Rightarrow> Response \<Rightarrow> bool" where
  "answered hash es k t resp \<longleftrightarrow>
     (\<exists>n s r. SetSnap n s \<in> set es \<and> received es k t r \<and> hash (req_NodeId r) = Some n \<and> stale s r \<and>
        answerable True s r \<and> resp = answer s r)"

definition sent_ok :: "(string \<Rightarrow> string option) \<Rightarrow> (xds_resource \<Rightarrow> string + 'b) \<Rightarrow> xds_event list \<Rightarrow> nat \<Rightarrow>
    'b stream \<Rightarrow> bool" where
  "sent_ok hash pm es k st \<longleftrightarrow>
     (\<forall>j d. j < length (st_sent st) \<longrightarrow> d = st_sent st ! j \<longrightarrow>
        (\<exists>resp out. answered hash es k (ds_TypeUrl d) resp \<and> discovery_response pm resp (ds_TypeUrl d) = Inr out \<and>
           d = out\<lparr>ds_Nonce := FormatInt (of_nat (Suc j))\<rparr>)) \<and>
     (st_end st = None \<longrightarrow> st_nonce st = of_nat (length (st_sent st))) \<and>
     (\<forall>t. tw_nonce (st_watches st t) =
        (case find_last (\<lambda>d. ds_TypeUrl d = t) (st_sent st) of None \<Rightarrow> [] | Some d \<Rightarrow> ds_Nonce d))"

text \<open>Type \<open>t\<close> of the running stream \<open>k\<close> holds the watch \<open>i\<close> of node \<open>n\<close>.\<close>

definition owns :: "'b stream list \<Rightarrow> nat \<Rightarrow> xds_type \<Rightarrow> string \<Rightarrow> nat \<Rightarrow> ResponseWatch \<Rightarrow> bool" where
  "owns sts k t n i w \<longleftrightarrow>
     k < length sts \<and> st_end (sts ! k) = None \<and> tw_cancel (st_watches (sts ! k) t) = Some (n, i) \<and>
     tw_channel (st_watches (sts ! k) t) = Some (rw_Response w)"

definition reads :: "'b stream list \<Rightarrow> nat \<Rightarrow> xds_type \<Rightarrow> nat \<Rightarrow> bool" where
  "reads sts k t v \<longleftrightarrow> k < length sts \<and> tw_channel (st_watches (sts ! k) t) = Some v"

definition streams_inv :: "(string \<Rightarrow> string option) \<Rightarrow> (xds_resource \<Rightarrow> string + 'b) \<Rightarrow> xds_event list \<Rightarrow>
    snapshotCache \<Rightarrow> 'b stream list \<Rightarrow> bool" where
  "streams_inv hash pm es c sts \<longleftrightarrow>
     sc_inv c \<and> sc_ads c \<and> map st_defaultType sts = default_types es \<and>
     (\<forall>n s. sc_snapshots c n = Some s \<longrightarrow> SetSnap n s \<in> set es) \<and>
     (\<forall>k t v. reads sts k t v \<longrightarrow> v < sc_nextChannel c \<and> t \<noteq> OtherType \<and>
        (\<forall>resp \<in> set (sc_channels c v). answered hash es k t resp)) \<and>
     (\<forall>k t k' t' v. reads sts k t v \<longrightarrow> reads sts k' t' v \<longrightarrow> k = k' \<and> t = t') \<and>
     (\<forall>n i w. open_watch c n i w \<longrightarrow>
        (\<exists>k t. owns sts k t n i w \<and> received es k t (rw_Request w) \<and> hash (req_NodeId (rw_Request w)) = Some n)) \<and>
     (\<forall>k < length sts. sent_ok hash pm es k (sts ! k))"

lemma owns_reads: "owns sts k t n i w \<Longrightarrow> reads sts k t (rw_Response w)"
  by (simp add: owns_def reads_def)

lemma streams_invD:
  assumes "streams_inv hash pm es c sts"
  shows "sc_inv c" "sc_ads c" "sc_snapshots c n = Some s \<Longrightarrow> SetSnap n s \<in> set es"
    "reads sts k t v \<Longrightarrow> v < sc_nextChannel c \<and> t \<noteq> OtherType"
    "reads sts k t v \<Longrightarrow> resp \<in> set (sc_channels c v) \<Longrightarrow> answered hash es k t resp"
    "reads sts k t v \<Longrightarrow> reads sts k' t' v \<Longrightarrow> k = k' \<and> t = t'"
    "open_watch c n i w \<Longrightarrow> \<exists>k t. owns sts k t n i w \<and> received es k t (rw_Request w) \<and>
       hash (req_NodeId (rw_Request w)) = Some n"
    "k < length sts \<Longrightarrow> sent_ok hash pm es k (sts ! k)"
    "map st_defaultType sts = default_types es"
  using assms unfolding streams_inv_def by blast+

lemma requested_type:
  assumes "streams_inv hash pm es c sts" "k < length sts"
  shows "requested es k req t \<longleftrightarrow> Received k (Some req) \<in> set es \<and> requests_type (sts ! k) req t"
proof -
  note d = streams_invD(9) [OF assms(1)]
  have "length (default_types es) = length sts" "default_types es ! k = st_defaultType (sts ! k)"
    using assms(2) by (simp_all flip: d)
  then show ?thesis using assms(2) by (auto simp: requested_def requests_type_def split: option.split)
qed

lemma received_mono: "received es k t r \<Longrightarrow> received (es @ xs) k t r"
  by (auto simp: received_def requested_def nth_append split: option.splits)

lemma answered_mono: "answered hash es k t resp \<Longrightarrow> answered hash (es @ xs) k t resp"
  unfolding answered_def using received_mono [of es k t _ xs] by auto

lemma sent_ok_mono: "sent_ok hash pm es k st \<Longrightarrow> sent_ok hash pm (es @ xs) k st"
  unfolding sent_ok_def using answered_mono by meson

lemma streams_inv_mono:
  assumes "streams_inv hash pm es c sts" "default_types xs = []"
  shows "streams_inv hash pm (es @ xs) c sts"
proof -
  note D = streams_invD [OF assms(1)]
  have "set es \<subseteq> set (es @ xs)" by simp
  then show ?thesis
    unfolding streams_inv_def
  proof (intro conjI)
    show "map st_defaultType sts = default_types (es @ xs)" using D(9) assms(2) by simp
    show "\<forall>k t v. reads sts k t v \<longrightarrow> v < sc_nextChannel c \<and> t \<noteq> OtherType \<and>
        (\<forall>resp \<in> set (sc_channels c v). answered hash (es @ xs) k t resp)"
      using D(4,5) answered_mono by blast
    show "\<forall>n i w. open_watch c n i w \<longrightarrow> (\<exists>k t. owns sts k t n i w \<and> received (es @ xs) k t (rw_Request w) \<and>
        hash (req_NodeId (rw_Request w)) = Some n)" using D(7) received_mono by blast
    show "\<forall>k < length sts. sent_ok hash pm (es @ xs) k (sts ! k)" using D(8) sent_ok_mono by blast
    show "\<forall>k t k' t' v. reads sts k t v \<longrightarrow> reads sts k' t' v \<longrightarrow> k = k' \<and> t = t'" using D(6) by blast
  qed (use D(1-3) in auto)
qed

section \<open>The parts of an event keep it\<close>

text \<open>Watches are closed, channels emptied, nothing else.\<close>

lemma streams_inv_shrink:
  assumes "streams_inv hash pm es c sts" "sc_inv c'"
    and "\<And>n i w. open_watch c' n i w \<Longrightarrow> open_watch c n i w"
    and "\<And>v. set (sc_channels c' v) \<subseteq> set (sc_channels c v)"
    and "sc_nextChannel c' = sc_nextChannel c" "sc_snapshots c' = sc_snapshots c" "sc_ads c' = sc_ads c"
  shows "streams_inv hash pm es c' sts"
  unfolding streams_inv_def
proof (intro conjI)
  note D = streams_invD [OF assms(1)]
  show "\<forall>k t v. reads sts k t v \<longrightarrow> v < sc_nextChannel c' \<and> t \<noteq> OtherType \<and>
        (\<forall>resp \<in> set (sc_channels c' v). answered hash es k t resp)"
    using D(4,5) assms(4,5) by (metis subsetD)
qed (use streams_invD [OF assms(1)] assms(2,3,6,7) in auto)

lemma cancelWatch_frame [simp]:
  "sc_channels (cancelWatch n i c) = sc_channels c" "sc_nextChannel (cancelWatch n i c) = sc_nextChannel c"
  "sc_snapshots (cancelWatch n i c) = sc_snapshots c" "sc_ads (cancelWatch n i c) = sc_ads c"
  by (simp_all add: cancelWatch_def split: option.split)

lemma streams_inv_cancel:
  assumes "streams_inv hash pm es c sts"
  shows "streams_inv hash pm es (cancelWatch n i c) sts"
  using streams_invD(1) [OF assms]
  by (intro streams_inv_shrink [OF assms]) (auto simp: cancelWatch_open intro: sc_inv_cancelWatch)

lemma streams_inv_cancel_type:
  "streams_inv hash pm es c sts \<Longrightarrow> streams_inv hash pm es (cancel_type w c) sts"
  by (auto simp: cancel_type_def streams_inv_cancel split: option.split)

lemma cancel_type_open:
  "sc_inv c \<Longrightarrow> open_watch (cancel_type w c) n i u \<longleftrightarrow> open_watch c n i u \<and> tw_cancel w \<noteq> Some (n, i)"
  by (auto simp: cancel_type_def cancelWatch_open split: option.split)

lemma cancel_type_frame [simp]:
  "sc_channels (cancel_type w c) = sc_channels c" "sc_nextChannel (cancel_type w c) = sc_nextChannel c"
  "sc_snapshots (cancel_type w c) = sc_snapshots c" "sc_ads (cancel_type w c) = sc_ads c"
  by (simp_all add: cancel_type_def split: option.split)

lemma sc_inv_cancel_type: "sc_inv c \<Longrightarrow> sc_inv (cancel_type w c)"
  by (auto simp: cancel_type_def sc_inv_cancelWatch split: option.split)

lemma streams_inv_Cancel:
  "streams_inv hash pm es c sts \<Longrightarrow> streams_inv hash pm es (Cancel ws c) sts"
  by (simp add: Cancel_def streams_inv_cancel_type)

lemma Cancel_open:
  assumes "sc_inv c"
  shows "open_watch (Cancel ws c) n i w \<longleftrightarrow> open_watch c n i w \<and> (\<forall>t. t \<noteq> OtherType \<longrightarrow> tw_cancel (ws t) \<noteq> Some (n, i))"
proof -
  have "(\<forall>t. t \<noteq> OtherType \<longrightarrow> P t) \<longleftrightarrow> P EndpointType \<and> P ClusterType \<and> P RouteType \<and> P ListenerType \<and> P SecretType"
    for P by (metis xds_type.exhaust xds_type.distinct)
  then show ?thesis
    using assms by (auto simp: Cancel_def cancel_type_open sc_inv_cancel_type)
qed

text \<open>A stream changes, but not what it reads.\<close>

lemma streams_inv_stream:
  assumes inv: "streams_inv hash pm es c sts" and k: "k < length sts"
    and chan: "\<And>t. tw_channel (st_watches st t) = tw_channel (st_watches (sts ! k) t)"
      "\<And>t. tw_cancel (st_watches st t) = tw_cancel (st_watches (sts ! k) t)"
    and ended: "st_end (sts ! k) = None \<Longrightarrow> st_end st = None \<or>
      (\<forall>t n i w. owns sts k t n i w \<longrightarrow> \<not> open_watch c n i w)"
    and sent: "sent_ok hash pm es k st" "st_defaultType st = st_defaultType (sts ! k)"
  shows "streams_inv hash pm es c (sts[k := st])"
proof -
  note D = streams_invD [OF inv]
  have r: "reads (sts[k := st]) k' t v \<longleftrightarrow> reads sts k' t v" for k' t v
    using k chan(1) by (cases "k' = k") (auto simp: reads_def)
  have o': "owns (sts[k := st]) k' t n i w" if "owns sts k' t n i w" "open_watch c n i w" for k' t n i w
    using that ended k chan by (cases "k' = k") (auto simp: owns_def)
  have s: "sent_ok hash pm es k' (sts[k := st] ! k')" if "k' < length (sts[k := st])" for k'
    using that D(8) sent(1) by (cases "k' = k") auto
  show ?thesis
    unfolding streams_inv_def r
  proof (intro conjI)
    show "\<forall>n i w. open_watch c n i w \<longrightarrow> (\<exists>k' t. owns (sts[k := st]) k' t n i w \<and>
        received es k' t (rw_Request w) \<and> hash (req_NodeId (rw_Request w)) = Some n)"
      using D(7) o' by meson
    show "\<forall>k' t v. reads sts k' t v \<longrightarrow> v < sc_nextChannel c \<and> t \<noteq> OtherType \<and>
        (\<forall>resp \<in> set (sc_channels c v). answered hash es k' t resp)"
      by (intro allI impI conjI ballI) (use D(4,5) in blast)+
    show "\<forall>k t k' t' v. reads sts k t v \<longrightarrow> reads sts k' t' v \<longrightarrow> k = k' \<and> t = t'" using D(6) by meson
    show "map st_defaultType (sts[k := st]) = default_types es"
      using D(9) k sent(2) by (metis list_update_id map_update)
  qed (use D(1-3) s in auto)
qed

text \<open>A type of a stream gets a new watch, its old one being closed.\<close>

lemma CreateWatch_ads: "CreateWatch hash r c = Some (res, c') \<Longrightarrow> sc_ads c' = sc_ads c"
  by (auto simp: CreateWatch_def Let_def respond_def split: option.splits if_splits)

text \<open>What a new watch is, in both cases.\<close>

lemma CreateWatch_new:
  assumes "CreateWatch hash r c = Some ((v, cancel), c')"
  obtains n where "hash (req_NodeId r) = Some n" "v = sc_nextChannel c" "sc_nextChannel c' = Suc v"
    "sc_snapshots c' = sc_snapshots c" "\<And>u. u \<noteq> v \<Longrightarrow> sc_channels c' u = sc_channels c u"
    "\<And>m i w. open_watch c' m i w \<Longrightarrow> open_watch c m i w \<or> m = n \<and> cancel = Some (n, i) \<and> w = new_watch r c"
    "\<And>resp. resp \<in> set (sc_channels c' v) \<Longrightarrow>
       \<exists>s. sc_snapshots c n = Some s \<and> stale s r \<and> answerable (sc_ads c) s r \<and> resp = answer s r"
proof -
  obtain n where n: "hash (req_NodeId r) = Some n"
    using assms by (auto simp: CreateWatch_def split: option.splits)
  show ?thesis
  proof (cases "\<forall>s. sc_snapshots c n = Some s \<longrightarrow> \<not> stale s r")
    case True
    note W = CreateWatch_waits [OF n True assms]
    show ?thesis by (rule that [OF n]) (auto simp: W)
  next
    case False
    then obtain s where s: "sc_snapshots c n = Some s" "stale s r" by blast
    note A = CreateWatch_answers [OF n s assms]
    show ?thesis by (rule that [OF n]) (auto simp: A s split: if_splits)
  qed
qed

definition watch_of :: "xds_type \<Rightarrow> nat \<Rightarrow> (string \<times> nat) option \<Rightarrow> 'b stream \<Rightarrow> 'b stream" where
  "watch_of t v cancel st = st\<lparr>st_watches := (st_watches st)
     (t := (st_watches st t)\<lparr>tw_channel := Some v, tw_cancel := cancel\<rparr>)\<rparr>"

lemma sent_ok_watch_of [simp]: "sent_ok hash pm es k (watch_of t v cancel st) = sent_ok hash pm es k st"
  by (auto simp: sent_ok_def watch_of_def)

lemma reads_watch_of:
  "k < length sts \<Longrightarrow> reads (sts[k := watch_of t v cancel (sts ! k)]) k' t' u \<longleftrightarrow>
     (if k' = k \<and> t' = t then u = v else reads sts k' t' u)"
  by (cases "k' = k") (auto simp: reads_def watch_of_def)

lemma owns_watch_of_keep:
  assumes "k < length sts" "owns sts k' t' m i w" "\<not> owns sts k t m i w"
  shows "owns (sts[k := watch_of t v cancel (sts ! k)]) k' t' m i w"
proof -
  have "\<not> (k' = k \<and> t' = t)" using assms by blast
  with assms(1,2) show ?thesis by (cases "k' = k") (auto simp: owns_def watch_of_def)
qed

text \<open>What waits in the channels after a watch is created was answered to requests received.\<close>

lemma created_answered:
  assumes inv: "streams_inv hash pm es c sts" and rec: "received es k t (cache_request t req)"
    and cw: "CreateWatch hash (cache_request t req) c = Some ((v, cancel), c')"
    and rd: "if k' = k \<and> t' = t then u = v else reads sts k' t' u" and resp: "resp \<in> set (sc_channels c' u)"
  shows "answered hash es k' t' resp"
proof -
  note D = streams_invD [OF inv]
  let ?r = "cache_request t req"
  obtain n where n: "hash (req_NodeId ?r) = Some n" "v = sc_nextChannel c"
    and other: "\<And>u. u \<noteq> v \<Longrightarrow> sc_channels c' u = sc_channels c u"
    and new: "\<And>resp. resp \<in> set (sc_channels c' v) \<Longrightarrow>
       \<exists>s. sc_snapshots c n = Some s \<and> stale s ?r \<and> answerable (sc_ads c) s ?r \<and> resp = answer s ?r"
    by (rule CreateWatch_new [OF cw], rule that)
  show ?thesis
  proof (cases "k' = k \<and> t' = t")
    case True
    with rd resp new obtain s where "sc_snapshots c n = Some s" "stale s ?r" "answerable (sc_ads c) s ?r" "resp = answer s ?r"
      by auto
    with D(2,3) rec n(1) True show ?thesis unfolding answered_def by auto
  next
    case False
    with rd have rd': "reads sts k' t' u" by (auto split: if_splits)
    then have "u < v" using D(4) n(2) by blast
    with resp other have "resp \<in> set (sc_channels c u)" by simp
    with D(5) [OF rd'] show ?thesis by blast
  qed
qed

lemma streams_inv_create:
  assumes inv: "streams_inv hash pm es c sts" and k: "k < length sts" "st_end (sts ! k) = None" "t \<noteq> OtherType"
    and req: "requested es k req t"
    and closed: "\<And>n i w. owns sts k t n i w \<Longrightarrow> \<not> open_watch c n i w"
    and cw: "CreateWatch hash (cache_request t req) c = Some ((v, cancel), c')"
  shows "streams_inv hash pm es c' (sts[k := watch_of t v cancel (sts ! k)])" (is "streams_inv _ _ _ _ ?sts")
proof -
  note D = streams_invD [OF inv]
  let ?r = "cache_request t req"
  have rec: "received es k t ?r" using req by (auto simp: received_def)
  obtain n where n: "hash (req_NodeId ?r) = Some n" "v = sc_nextChannel c" "sc_nextChannel c' = Suc v"
    "sc_snapshots c' = sc_snapshots c" and other: "\<And>u. u \<noteq> v \<Longrightarrow> sc_channels c' u = sc_channels c u"
    and opened: "\<And>m i w. open_watch c' m i w \<Longrightarrow> open_watch c m i w \<or> m = n \<and> cancel = Some (n, i) \<and> w = new_watch ?r c"
    and new: "\<And>resp. resp \<in> set (sc_channels c' v) \<Longrightarrow>
       \<exists>s. sc_snapshots c n = Some s \<and> stale s ?r \<and> answerable (sc_ads c) s ?r \<and> resp = answer s ?r"
    by (rule CreateWatch_new [OF cw], rule that)
  note r = reads_watch_of [OF k(1)]
  have fresh: "reads sts k' t' u \<Longrightarrow> u < v" for k' t' u using D(4) n(2) by blast
  have keep: "owns ?sts k' t' m i w" if "owns sts k' t' m i w" "open_watch c m i w" for k' t' m i w
    using owns_watch_of_keep [OF k(1) that(1)] closed that(2) by blast
  have mine: "owns ?sts k t n i (new_watch ?r c)" if "cancel = Some (n, i)" for i
    using that k n(2) by (simp add: owns_def watch_of_def new_watch_def)
  show ?thesis
    unfolding streams_inv_def r
  proof (intro conjI)
    show "sc_inv c'" using sc_inv_CreateWatch [OF D(1) cw] .
    show "sc_ads c'" using CreateWatch_ads [OF cw] D(2) by simp
    show "map st_defaultType ?sts = default_types es"
      using D(9) k(1) by (simp add: watch_of_def map_update) (metis list_update_id map_update)
    show "\<forall>m s. sc_snapshots c' m = Some s \<longrightarrow> SetSnap m s \<in> set es" using D(3) n(4) by simp
    show "\<forall>k' t' u. (if k' = k \<and> t' = t then u = v else reads sts k' t' u) \<longrightarrow>
        u < sc_nextChannel c' \<and> t' \<noteq> OtherType \<and> (\<forall>resp \<in> set (sc_channels c' u). answered hash es k' t' resp)"
    proof (intro allI impI conjI ballI)
      fix k' t' u assume *: "if k' = k \<and> t' = t then u = v else reads sts k' t' u"
      then show "u < sc_nextChannel c'" using n(3) fresh by (auto split: if_splits simp: less_Suc_eq)
      from * show "t' \<noteq> OtherType" using D(4) k(3) by (auto split: if_splits)
      fix resp assume "resp \<in> set (sc_channels c' u)"
      with created_answered [OF inv rec cw *] show "answered hash es k' t' resp" .
    qed
    show "\<forall>k1 t1 k2 t2 u. (if k1 = k \<and> t1 = t then u = v else reads sts k1 t1 u) \<longrightarrow>
        (if k2 = k \<and> t2 = t then u = v else reads sts k2 t2 u) \<longrightarrow> k1 = k2 \<and> t1 = t2"
      using D(6) fresh by (metis less_irrefl)
    show "\<forall>m i w. open_watch c' m i w \<longrightarrow> (\<exists>k' t'. owns ?sts k' t' m i w \<and> received es k' t' (rw_Request w) \<and>
        hash (req_NodeId (rw_Request w)) = Some m)"
    proof (intro allI impI)
      fix m i w assume "open_watch c' m i w"
      with opened consider "open_watch c m i w" | "m = n" "cancel = Some (n, i)" "w = new_watch ?r c" by blast
      then show "\<exists>k' t'. owns ?sts k' t' m i w \<and> received es k' t' (rw_Request w) \<and>
          hash (req_NodeId (rw_Request w)) = Some m"
      proof cases
        case 1
        with D(7) [OF 1] keep show ?thesis by blast
      next
        case 2
        with mine rec n(1) show ?thesis by (intro exI [of _ k] exI [of _ t]) (simp add: new_watch_def)
      qed
    qed
    show "\<forall>k' < length ?sts. sent_ok hash pm es k' (?sts ! k')"
    proof (intro allI impI)
      fix k' assume "k' < length ?sts"
      with D(8) show "sent_ok hash pm es k' (?sts ! k')" by (cases "k' = k") simp_all
    qed
  qed
qed

text \<open>A response is taken from a channel and sent.\<close>

lemma streams_inv_receive:
  assumes "streams_inv hash pm es c sts"
  shows "streams_inv hash pm es (receive v c) sts"
proof (rule streams_inv_shrink [OF assms])
  show "sc_inv (receive v c)" using streams_invD(1) [OF assms] by (rule sc_inv_receive)
  show "set (sc_channels (receive v c) u) \<subseteq> set (sc_channels c u)" for u
    by (cases "sc_channels c u") (auto simp: receive_def)
qed (simp_all add: receive_def open_watch_def)

lemma stream_send_watches:
  "tw_channel (st_watches (stream_send pm e resp typ st) t) = tw_channel (st_watches st t)"
  "tw_cancel (st_watches (stream_send pm e resp typ st) t) = tw_cancel (st_watches st t)"
  by (auto simp: stream_send_def Let_def split: sum.split option.split)

lemma stream_send_default [simp]: "st_defaultType (stream_send pm e resp typ st) = st_defaultType st"
  by (auto simp: stream_send_def Let_def split: sum.split option.split)

lemma discovery_response_type:
  "discovery_response pm resp t = Inr out \<Longrightarrow> ds_TypeUrl out = t \<and> ds_Nonce out = [] \<and> ds_VersionInfo out = resp_Version resp"
  by (auto simp: discovery_response_def split: sum.splits)

lemma sent_ok_send:
  assumes "sent_ok hash pm es k st" "st_end st = None" "answered hash es k typ resp"
  shows "sent_ok hash pm es k (stream_send pm e resp typ st)"
proof (cases "discovery_response pm resp typ")
  case (Inl err)
  with assms(1) show ?thesis by (simp add: stream_send_def sent_ok_def)
next
  case (Inr out)
  note out = discovery_response_type [OF Inr]
  have n: "st_nonce st + 1 = of_nat (Suc (length (st_sent st)))"
    using assms(1,2) by (simp add: sent_ok_def)
  show ?thesis
  proof (cases e)
    case (Some err)
    with Inr assms(1) show ?thesis by (simp add: stream_send_def sent_ok_def)
  next
    case None
    let ?d = "out\<lparr>ds_Nonce := FormatInt (of_nat (Suc (length (st_sent st))))\<rparr>"
    have st: "stream_send pm e resp typ st = st\<lparr>st_nonce := of_nat (Suc (length (st_sent st))), st_sent := st_sent st @ [?d],
        st_watches := (st_watches st)(typ := (st_watches st typ)\<lparr>tw_nonce := ds_Nonce ?d\<rparr>)\<rparr>"
      by (simp only: stream_send_def Inr None sum.case option.case Let_def n) simp
    have "\<exists>resp out. answered hash es k (ds_TypeUrl d) resp \<and> discovery_response pm resp (ds_TypeUrl d) = Inr out \<and>
        d = out\<lparr>ds_Nonce := FormatInt (of_nat (Suc j))\<rparr>" if "j < length (st_sent st @ [?d])" "d = (st_sent st @ [?d]) ! j" for j d
    proof (cases "j < length (st_sent st)")
      case True
      with that assms(1) show ?thesis by (simp add: sent_ok_def nth_append)
    next
      case False
      with that have "j = length (st_sent st)" "d = ?d" by (simp_all add: nth_append)
      with assms(3) Inr out show ?thesis by (intro exI [of _ resp] exI [of _ out]) simp
    qed
    moreover have "ds_TypeUrl ?d = typ" using out by simp
    ultimately show ?thesis
      using assms(1) unfolding st by (auto simp: sent_ok_def find_last_append)
  qed
qed

text \<open>A snapshot is set.\<close>

lemma SetSnapshot_channel_new:
  assumes "sc_inv c" "resp \<in> set (sc_channels (SetSnapshot n s c) v)"
  shows "resp \<in> set (sc_channels c v) \<or>
    (\<exists>i w. open_watch c n i w \<and> rw_Response w = v \<and> stale s (rw_Request w) \<and> answerable (sc_ads c) s (rw_Request w) \<and>
       resp = answer s (rw_Request w))"
proof (cases "\<exists>i w. open_watch c n i w \<and> rw_Response w = v \<and> stale s (rw_Request w) \<and> answerable (sc_ads c) s (rw_Request w)")
  case True
  then obtain i w where w: "open_watch c n i w" "rw_Response w = v" "stale s (rw_Request w)"
    "answerable (sc_ads c) s (rw_Request w)" by blast
  from SetSnapshot_watch [OF assms(1) w(1), of s] w have "sc_channels (SetSnapshot n s c) v = [answer s (rw_Request w)]"
    by (simp add: stale_def)
  with assms(2) w show ?thesis by auto
next
  case False
  with assms(2) have "resp \<in> set (sc_channels c v)" by (simp only: SetSnapshot_channels [OF assms(1)] if_False)
  then show ?thesis ..
qed

lemma streams_inv_SetSnapshot:
  assumes inv: "streams_inv hash pm es c sts"
  shows "streams_inv hash pm (es @ [SetSnap n s]) (SetSnapshot n s c) sts"
proof -
  have "streams_inv hash pm (es @ [SetSnap n s]) c sts" by (rule streams_inv_mono [OF inv]) simp
  note D = streams_invD [OF this]
  have new: "answered hash (es @ [SetSnap n s]) k t resp"
    if r: "reads sts k t v" and resp: "resp \<in> set (sc_channels (SetSnapshot n s c) v)" for k t v resp
    using SetSnapshot_channel_new [OF D(1) resp]
  proof
    assume "\<exists>i w. open_watch c n i w \<and> rw_Response w = v \<and> stale s (rw_Request w) \<and>
        answerable (sc_ads c) s (rw_Request w) \<and> resp = answer s (rw_Request w)"
    then obtain i w where w: "open_watch c n i w" "rw_Response w = v" "stale s (rw_Request w)"
      "answerable (sc_ads c) s (rw_Request w)" "resp = answer s (rw_Request w)" by blast
    from D(7) [OF w(1)] obtain k' t' where o': "owns sts k' t' n i w" "received (es @ [SetSnap n s]) k' t' (rw_Request w)"
      "hash (req_NodeId (rw_Request w)) = Some n" by blast
    from D(6) [OF r] owns_reads [OF o'(1)] w(2) have "k = k'" "t = t'" by blast+
    with o' w D(2) show ?thesis by (auto simp: answered_def)
  qed (use D(5) [OF r] in blast)
  show ?thesis
    unfolding streams_inv_def
  proof (intro conjI)
    show "sc_inv (SetSnapshot n s c)" using D(1) by (rule sc_inv_SetSnapshot)
    show "\<forall>k t v. reads sts k t v \<longrightarrow> v < sc_nextChannel (SetSnapshot n s c) \<and> t \<noteq> OtherType \<and>
        (\<forall>resp \<in> set (sc_channels (SetSnapshot n s c) v). answered hash (es @ [SetSnap n s]) k t resp)"
      using new D(4) by (metis SetSnapshot_frame(3))
    show "\<forall>k t k' t' v. reads sts k t v \<longrightarrow> reads sts k' t' v \<longrightarrow> k = k' \<and> t = t'" using D(6) by blast
    show "\<forall>m i w. open_watch (SetSnapshot n s c) m i w \<longrightarrow> (\<exists>k t. owns sts k t m i w \<and>
        received (es @ [SetSnap n s]) k t (rw_Request w) \<and> hash (req_NodeId (rw_Request w)) = Some m)"
      using D(7) by (simp only: SetSnapshot_open) blast
  qed (use D(2,3,8,9) in auto)
qed

text \<open>A stream is opened.\<close>

lemma sent_ok_new: "sent_ok hash pm es k (new_stream d)"
  by (simp add: sent_ok_def new_stream_def)

lemma streams_inv_open:
  assumes inv: "streams_inv hash pm es c sts"
  shows "streams_inv hash pm (es @ [OpenStream d]) c (sts @ [new_stream d])"
proof -
  note D = streams_invD [OF inv]
  have r: "reads (sts @ [new_stream d]) k t v \<longleftrightarrow> reads sts k t v" for k t v
    by (auto simp: reads_def nth_append new_stream_def)
  have o': "owns (sts @ [new_stream d]) k t n i w \<longleftrightarrow> owns sts k t n i w" for k t n i w
    by (auto simp: owns_def nth_append new_stream_def)
  show ?thesis
    unfolding streams_inv_def r o'
  proof (intro conjI)
    show "map st_defaultType (sts @ [new_stream d]) = default_types (es @ [OpenStream d])"
      using D(9) by (simp add: new_stream_def)
    show "\<forall>k t v. reads sts k t v \<longrightarrow> v < sc_nextChannel c \<and> t \<noteq> OtherType \<and>
        (\<forall>resp \<in> set (sc_channels c v). answered hash (es @ [OpenStream d]) k t resp)"
      using D(4,5) answered_mono by blast
    show "\<forall>n i w. open_watch c n i w \<longrightarrow> (\<exists>k t. owns sts k t n i w \<and> received (es @ [OpenStream d]) k t (rw_Request w) \<and>
        hash (req_NodeId (rw_Request w)) = Some n)" using D(7) received_mono by blast
    show "\<forall>k < length (sts @ [new_stream d]). sent_ok hash pm (es @ [OpenStream d]) k ((sts @ [new_stream d]) ! k)"
      using D(8) by (auto simp: nth_append sent_ok_new intro!: sent_ok_mono)
    show "\<forall>k t k' t' v. reads sts k t v \<longrightarrow> reads sts k' t' v \<longrightarrow> k = k' \<and> t = t'" using D(6) by blast
  qed (use D(1-3) in auto)
qed

section \<open>Every event keeps it\<close>

text \<open>A stream that ends first cancels its watches.\<close>

lemma Cancel_closes:
  assumes "streams_inv hash pm es c sts" "k < length sts" "open_watch (Cancel (st_watches (sts ! k)) c) n i w"
  shows "\<not> owns sts k t n i w"
proof
  assume o': "owns sts k t n i w"
  then have "t \<noteq> OtherType" using streams_invD(4) [OF assms(1) owns_reads] by blast
  with o' assms(3) show False by (simp add: Cancel_open [OF streams_invD(1) [OF assms(1)]] owns_def)
qed

lemma streams_inv_end:
  assumes inv: "streams_inv hash pm es c sts" and k: "k < length sts"
    and st: "st_watches st = st_watches (sts ! k)" "st_sent st = st_sent (sts ! k)" "st_end st \<noteq> None"
      "st_defaultType st = st_defaultType (sts ! k)"
  shows "streams_inv hash pm es (Cancel (st_watches (sts ! k)) c) (sts[k := st])"
proof (rule streams_inv_stream [OF streams_inv_Cancel [OF inv] k])
  show "st_end st = None \<or> (\<forall>t n i w. owns sts k t n i w \<longrightarrow> \<not> open_watch (Cancel (st_watches (sts ! k)) c) n i w)"
    using Cancel_closes [OF inv k] by blast
  show "sent_ok hash pm es k st" using streams_invD(8) [OF inv k] st by (auto simp: sent_ok_def)
qed (simp_all add: st(1,4))

text \<open>The three things a stream does.\<close>

lemma finish_running: "st_end st = None \<Longrightarrow> finish (c, st) = (c, st)"
  by (simp add: finish_def)

lemma finish_ended: "st_end st \<noteq> None \<Longrightarrow> finish (c, st) = (Cancel (st_watches st) c, st)"
  by (auto simp: finish_def)

lemma renew_watch_inv:
  assumes inv: "streams_inv hash pm es c sts" and k: "k < length sts" "st_end (sts ! k) = None"
    and req: "requested es k req typ"
    and r: "renew_watch hash typ req (c, sts ! k) = Some (c', st)"
  shows "st_end st = None" "streams_inv hash pm es c' (sts[k := st])"
proof -
  let ?w = "st_watches (sts ! k) typ"
  have "st_end st = None \<and> streams_inv hash pm es c' (sts[k := st])"
  proof (cases "accepts typ req (sts ! k)")
    case False
    with r have "c' = c" "st = sts ! k" by (simp_all add: renew_watch_def)
    with k inv show ?thesis by simp
  next
    case True
    with r obtain v cancel where cw: "CreateWatch hash (cache_request typ req) (cancel_type ?w c) = Some ((v, cancel), c')"
      and st: "st = watch_of typ v cancel (sts ! k)"
      by (auto simp: renew_watch_def watch_of_def Let_def split: option.splits)
    have "\<not> open_watch (cancel_type ?w c) n i w" if "owns sts k typ n i w" for n i w
      using that by (simp add: cancel_type_open [OF streams_invD(1) [OF inv]] owns_def)
    with streams_inv_create [OF streams_inv_cancel_type [OF inv] k _ req _ cw] True k(2) st show ?thesis
      by (simp add: accepts_def watch_of_def)
  qed
  then show "st_end st = None" "streams_inv hash pm es c' (sts[k := st])" by blast+
qed

lemma streams_inv_Received:
  assumes inv: "streams_inv hash pm es c sts" and k: "k < length sts" "st_end (sts ! k) = None"
    and h: "handle_request hash msg (c, sts ! k) = Some cst"
  shows "streams_inv hash pm (es @ [Received k msg]) (fst (finish cst)) (sts[k := snd (finish cst)])"
proof -
  let ?es = "es @ [Received k msg]"
  have inv': "streams_inv hash pm ?es c sts" by (rule streams_inv_mono [OF inv]) simp
  have ends: "streams_inv hash pm ?es (fst (finish (c, (sts ! k)\<lparr>st_end := Some e\<rparr>)))
      (sts[k := snd (finish (c, (sts ! k)\<lparr>st_end := Some e\<rparr>))])" for e
    using streams_inv_end [OF inv' k(1), of "(sts ! k)\<lparr>st_end := Some e\<rparr>"] by (simp add: finish_def)
  show ?thesis
  proof (cases msg)
    case None
    with h ends show ?thesis by (auto simp: handle_request_def)
  next
    case (Some req)
    have renew: "streams_inv hash pm ?es (fst (finish cst)) (sts[k := snd (finish cst)])"
      if "renew_watch hash typ req (c, sts ! k) = Some cst" "requests_type (sts ! k) req typ" for "typ"
      using renew_watch_inv [OF inv' k, of req "typ" "fst cst" "snd cst"] requested_type [OF inv' k(1)] that Some
      by (cases cst) (simp add: finish_running)
    with h ends Some show ?thesis
      by (auto simp: handle_request_def requests_type_def Let_def split: option.splits)
  qed
qed

lemma streams_inv_Deliver:
  assumes inv: "streams_inv hash pm es c sts" and k: "k < length sts" "st_end (sts ! k) = None"
    and t: "take_response pm typ e (c, sts ! k) = Some cst"
  shows "streams_inv hash pm (es @ [Deliver k typ e]) (fst (finish cst)) (sts[k := snd (finish cst)])"
proof -
  let ?es = "es @ [Deliver k typ e]"
  have inv': "streams_inv hash pm ?es c sts" by (rule streams_inv_mono [OF inv]) simp
  obtain v resp rest where v: "tw_channel (st_watches (sts ! k) typ) = Some v" "sc_channels c v = resp # rest"
    and cst: "cst = (receive v c, stream_send pm e resp typ (sts ! k))"
    using t by (auto simp: take_response_def split: option.splits list.splits)
  let ?st = "stream_send pm e resp typ (sts ! k)"
  have "answered hash ?es k typ resp"
    using streams_invD(5) [OF inv', of k "typ" v resp] v k(1) by (simp add: reads_def)
  then have sent: "sent_ok hash pm ?es k ?st"
    using streams_invD(8) [OF inv' k(1)] k(2) by (simp add: sent_ok_send)
  note inv2 = streams_inv_receive [OF inv', of v]
  show ?thesis
  proof (cases "st_end ?st = None")
    case True
    have "streams_inv hash pm ?es (receive v c) (sts[k := ?st])"
      by (rule streams_inv_stream [OF inv2 k(1)]) (simp_all add: stream_send_watches sent True)
    with True show ?thesis by (simp add: cst finish_running)
  next
    case False
    have same: "Cancel (st_watches ?st) c' = Cancel (st_watches (sts ! k)) c'" for c'
      by (simp add: Cancel_def cancel_type_def stream_send_watches)
    have "streams_inv hash pm ?es (Cancel (st_watches ?st) (receive v c)) (sts[k := ?st])"
      unfolding same using Cancel_closes [OF inv2 k(1)]
      by (intro streams_inv_stream [OF streams_inv_Cancel [OF inv2] k(1)])
        (auto simp: stream_send_watches sent)
    with False show ?thesis by (simp add: cst finish_ended)
  qed
qed

lemma with_stream_Some:
  assumes "with_stream k S f = Some S'"
  obtains cst where "k < length (xs_streams S)" "st_end (xs_streams S ! k) = None"
    "f (xs_cache S, xs_streams S ! k) = Some cst" "xs_cache S' = fst (finish cst)"
    "xs_streams S' = (xs_streams S)[k := snd (finish cst)]"
  using assms by (auto simp: with_stream_def Let_def split: if_splits option.splits prod.splits)

lemma streams_inv_step:
  assumes "streams_inv hash pm es (xs_cache S) (xs_streams S)" "xds_apply hash pm e S = Some S'"
  shows "streams_inv hash pm (es @ [e]) (xs_cache S') (xs_streams S')"
proof (cases e)
  case (OpenStream d)
  with assms(2) streams_inv_open [OF assms(1)] show ?thesis by auto
next
  case (Received k msg)
  from assms(2) [unfolded Received xds_apply.simps] show ?thesis
    by (rule with_stream_Some) (simp add: streams_inv_Received [OF assms(1)] Received)
next
  case (InputEnded k)
  have inv': "streams_inv hash pm (es @ [e]) (xs_cache S) (xs_streams S)"
    by (rule streams_inv_mono [OF assms(1)]) (simp add: InputEnded)
  from assms(2) [unfolded InputEnded xds_apply.simps] show ?thesis
    by (rule with_stream_Some)
      (auto simp: finish_ended intro!: streams_inv_end [OF inv'])
next
  case (Deliver k ty err)
  from assms(2) [unfolded Deliver xds_apply.simps] show ?thesis
    by (rule with_stream_Some) (simp add: streams_inv_Deliver [OF assms(1)] Deliver)
next
  case (SetSnap n s)
  with assms streams_inv_SetSnapshot [OF assms(1)] show ?thesis by auto
qed

lemma streams_inv_run: "xds_run hash pm es S \<Longrightarrow> streams_inv hash pm es (xs_cache S) (xs_streams S)"
proof (induction rule: xds_run.induct)
  case start
  show ?case
    by (simp add: start_system_def streams_inv_def reads_def owns_def sc_inv_New)
      (simp add: NewSnapshotCache_def open_watch_def)
next
  case (step es S e S')
  then show ?case by (blast intro: streams_inv_step)
qed

section \<open>Safety\<close>

text \<open>Where a response comes from.\<close>

lemma sent_explained:
  assumes "xds_run hash pm es S" "k < length (xs_streams S)" "j < length (st_sent (xs_streams S ! k))"
  shows "\<exists>n s req t out. SetSnap n s \<in> set es \<and> Received k (Some req) \<in> set es \<and> requests_type (xs_streams S ! k) req t \<and>
      hash (dr_NodeId req) = Some n \<and> GetVersion s t \<noteq> dr_VersionInfo req \<and> discovery_response pm (answer s (cache_request t req)) t = Inr out \<and>
      st_sent (xs_streams S ! k) ! j = out\<lparr>ds_Nonce := FormatInt (of_nat (Suc j))\<rparr>"
proof -
  let ?d = "st_sent (xs_streams S ! k) ! j"
  from streams_invD(8) [OF streams_inv_run [OF assms(1)] assms(2)] assms(3) obtain resp out where
    r: "answered hash es k (ds_TypeUrl ?d) resp" "discovery_response pm resp (ds_TypeUrl ?d) = Inr out"
    "?d = out\<lparr>ds_Nonce := FormatInt (of_nat (Suc j))\<rparr>"
    unfolding sent_ok_def by blast
  then obtain n s req where q: "SetSnap n s \<in> set es" "requested es k req (ds_TypeUrl ?d)" "hash (dr_NodeId req) = Some n"
    "GetVersion s (ds_TypeUrl ?d) \<noteq> dr_VersionInfo req" "resp = answer s (cache_request (ds_TypeUrl ?d) req)"
    unfolding answered_def received_def by (auto simp: cache_request_def stale_def)
  then have "Received k (Some req) \<in> set es" "requests_type (xs_streams S ! k) req (ds_TypeUrl ?d)"
    using requested_type [OF streams_inv_run [OF assms(1)] assms(2)] by blast+
  with r q show ?thesis by blast
qed

text \<open>C15: an Envoy is only ever sent what was set for it. In every order of the events of any number of
  streams and of snapshots being set: each response on a stream is made from a snapshot that was set for
  the node of a request of the same stream, is of the type for which that request asked (the one it names,
  or else that of its stream), and has a version that the request did not have; the
  nonces of a stream count its responses; every open watch of the cache belongs to exactly one type of
  one running stream, so no two streams answer for each other; and a stream that has ended holds none.\<close>

theorem streams_answer_with_set_snapshots:
  assumes "xds_run hash pm es S"
  shows "(\<forall>k j. k < length (xs_streams S) \<longrightarrow> j < length (st_sent (xs_streams S ! k)) \<longrightarrow>
      (\<exists>n s req t out. SetSnap n s \<in> set es \<and> Received k (Some req) \<in> set es \<and> requests_type (xs_streams S ! k) req t \<and>
         hash (dr_NodeId req) = Some n \<and> GetVersion s t \<noteq> dr_VersionInfo req \<and> discovery_response pm (answer s (cache_request t req)) t = Inr out \<and>
         st_sent (xs_streams S ! k) ! j = out\<lparr>ds_Nonce := FormatInt (of_nat (Suc j))\<rparr>)) \<and>
    (\<forall>n i w. open_watch (xs_cache S) n i w \<longrightarrow> (\<exists>!kt. owns (xs_streams S) (fst kt) (snd kt) n i w)) \<and>
    (\<forall>k t n i w. reads (xs_streams S) k t (rw_Response w) \<longrightarrow> st_end (xs_streams S ! k) \<noteq> None \<longrightarrow>
       \<not> open_watch (xs_cache S) n i w)"
proof (intro conjI allI impI)
  fix k j assume "k < length (xs_streams S)" "j < length (st_sent (xs_streams S ! k))"
  then show "\<exists>n s req t out. SetSnap n s \<in> set es \<and> Received k (Some req) \<in> set es \<and> requests_type (xs_streams S ! k) req t \<and>
      hash (dr_NodeId req) = Some n \<and> GetVersion s t \<noteq> dr_VersionInfo req \<and> discovery_response pm (answer s (cache_request t req)) t = Inr out \<and>
      st_sent (xs_streams S ! k) ! j = out\<lparr>ds_Nonce := FormatInt (of_nat (Suc j))\<rparr>"
    by (rule sent_explained [OF assms])
next
  note D = streams_invD [OF streams_inv_run [OF assms]]
  fix n i w assume op: "open_watch (xs_cache S) n i w"
  from D(7) [OF op] obtain k t where o': "owns (xs_streams S) k t n i w" by blast
  show "\<exists>!kt. owns (xs_streams S) (fst kt) (snd kt) n i w"
  proof (rule ex1I [of _ "(k, t)"])
    fix kt assume "owns (xs_streams S) (fst kt) (snd kt) n i w"
    from D(6) [OF owns_reads [OF this] owns_reads [OF o']] show "kt = (k, t)" by (simp add: prod_eq_iff)
  qed (simp add: o')
next
  note D = streams_invD [OF streams_inv_run [OF assms]]
  fix k t n i and w :: ResponseWatch assume rd: "reads (xs_streams S) k t (rw_Response w)" and ended: "st_end (xs_streams S ! k) \<noteq> None"
  show "\<not> open_watch (xs_cache S) n i w"
  proof
    assume "open_watch (xs_cache S) n i w"
    from D(7) [OF this] obtain k' t' where o': "owns (xs_streams S) k' t' n i w" by blast
    with D(6) [OF rd owns_reads [OF o']] ended show False by (simp add: owns_def)
  qed
qed

section \<open>Progress\<close>

text \<open>What single events do.\<close>

lemma request_accepted:
  assumes "k < length (xs_streams S)" "st_end (xs_streams S ! k) = None" "dr_TypeUrl req = Some ty"
    and "accepts ty req (xs_streams S ! k)"
    and "CreateWatch hash (cache_request ty req) (cancel_type (st_watches (xs_streams S ! k) ty) (xs_cache S)) =
      Some ((v, cancel), c')"
  shows "xds_apply hash pm (Received k (Some req)) S =
    Some \<lparr>xs_cache = c', xs_streams = (xs_streams S)[k := watch_of ty v cancel (xs_streams S ! k)]\<rparr>"
  using assms by (simp add: with_stream_def handle_request_def renew_watch_def finish_def watch_of_def)

definition sent_stream :: "'b DiscoveryResponse \<Rightarrow> 'b stream \<Rightarrow> 'b stream" where
  "sent_stream out st =
     (let nonce = FormatInt (st_nonce st + 1)
      in st\<lparr>st_nonce := st_nonce st + 1, st_sent := st_sent st @ [out\<lparr>ds_Nonce := nonce\<rparr>],
            st_watches := (st_watches st)(ds_TypeUrl out := (st_watches st (ds_TypeUrl out))\<lparr>tw_nonce := nonce\<rparr>)\<rparr>)"

lemma response_delivered:
  assumes "k < length (xs_streams S)" "st_end (xs_streams S ! k) = None"
    and "tw_channel (st_watches (xs_streams S ! k) ty) = Some v" "sc_channels (xs_cache S) v = [resp]"
    and "discovery_response pm resp ty = Inr out"
  shows "xds_apply hash pm (Deliver k ty None) S =
    Some \<lparr>xs_cache = receive v (xs_cache S), xs_streams = (xs_streams S)[k := sent_stream out (xs_streams S ! k)]\<rparr>"
  using assms discovery_response_type [OF assms(5)]
  by (simp add: with_stream_def take_response_def stream_send_def finish_def sent_stream_def Let_def)

lemma discovery_response_total:
  assumes "\<And>r. \<exists>d. pm r = Inr d"
  shows "\<exists>out. discovery_response pm resp t = Inr out"
proof -
  have "\<exists>out. marshal_all pm t rs = Inr out" for rs
  proof (induction rs)
    case (Cons r rs)
    with assms [of r] show ?case by auto
  qed simp
  from this [of "resp_Resources resp"] show ?thesis by (auto simp: discovery_response_def)
qed

text \<open>A stream is settled on a version of its node: it has an open watch that asked with it.\<close>

definition settled :: "'b xds_system \<Rightarrow> nat \<Rightarrow> xds_type \<Rightarrow> string \<Rightarrow> string \<Rightarrow> bool" where
  "settled S k ty n version \<longleftrightarrow>
     (\<exists>i w. open_watch (xs_cache S) n i w \<and> owns (xs_streams S) k ty n i w \<and>
        req_VersionInfo (rw_Request w) = version \<and> req_ResourceNames (rw_Request w) = [] \<and> req_TypeUrl (rw_Request w) = ty)"

definition envoy_asks :: "string \<Rightarrow> string \<Rightarrow> xds_type \<Rightarrow> string \<Rightarrow> DiscoveryRequest" where
  "envoy_asks node version ty nonce =
     \<lparr>dr_NodeId = node, dr_VersionInfo = version, dr_ResourceNames = [], dr_TypeUrl = Some ty, dr_ResponseNonce = nonce\<rparr>"

lemma ask_settles:
  assumes k: "k < length (xs_streams S)" "st_end (xs_streams S ! k) = None" "ty \<noteq> OtherType"
    and n: "hash node = Some n" "sc_snapshots (xs_cache S) n = Some s" "GetVersion s ty = version"
    and nonce: "tw_nonce (st_watches (xs_streams S ! k) ty) = nonce"
  shows "\<exists>S'. xds_apply hash pm (Received k (Some (envoy_asks node version ty nonce))) S = Some S' \<and>
    settled S' k ty n version \<and> st_sent (xs_streams S' ! k) = st_sent (xs_streams S ! k) \<and>
    length (xs_streams S') = length (xs_streams S) \<and> sc_snapshots (xs_cache S') = sc_snapshots (xs_cache S)"
proof -
  let ?req = "envoy_asks node version ty nonce"
  let ?r = "cache_request ty ?req"
  let ?c = "cancel_type (st_watches (xs_streams S ! k) ty) (xs_cache S)"
  have r: "req_NodeId ?r = node" "req_VersionInfo ?r = version" "req_TypeUrl ?r = ty" "req_ResourceNames ?r = []"
    by (simp_all add: cache_request_def envoy_asks_def)
  have h: "hash (req_NodeId ?r) = Some n" using n r by simp
  obtain v cancel c' where cw: "CreateWatch hash ?r ?c = Some ((v, cancel), c')"
    using CreateWatch_total [where hash = hash and r = "?r", OF h] by blast
  have "\<forall>s'. sc_snapshots ?c n = Some s' \<longrightarrow> \<not> stale s' ?r" using n r by (simp add: stale_def)
  note W = CreateWatch_waits [OF h this cw]
  have acc: "accepts ty ?req (xs_streams S ! k)" using k nonce by (simp add: accepts_def envoy_asks_def)
  let ?S = "\<lparr>xs_cache = c', xs_streams = (xs_streams S)[k := watch_of ty v cancel (xs_streams S ! k)]\<rparr>"
  have app: "xds_apply hash pm (Received k (Some ?req)) S = Some ?S"
    using request_accepted [OF k(1,2) _ acc cw] by (simp add: envoy_asks_def)
  have "settled ?S k ty n version"
    unfolding settled_def
    using k r W(1,2)
    by (intro exI [of _ "Suc (sc_watchCount ?c)"] exI [of _ "new_watch ?r ?c"])
      (simp add: W(3) owns_def watch_of_def new_watch_def)
  with app k(1) W(5) show ?thesis by (intro exI [of _ ?S]) (simp add: watch_of_def)
qed

text \<open>A stale request is answered, and the answer delivered.\<close>

lemma ask_answered:
  assumes k: "k < length (xs_streams S)" "st_end (xs_streams S ! k) = None" "ty \<noteq> OtherType"
    and n: "hash node = Some n" "sc_snapshots (xs_cache S) n = Some s" "GetVersion s ty \<noteq> version"
    and nonce: "tw_nonce (st_watches (xs_streams S ! k) ty) = nonce"
    and out: "discovery_response pm (answer s (cache_request ty (envoy_asks node version ty nonce))) ty = Inr out"
  shows "\<exists>S1 S2. xds_apply hash pm (Received k (Some (envoy_asks node version ty nonce))) S = Some S1 \<and>
    xds_apply hash pm (Deliver k ty None) S1 = Some S2 \<and> length (xs_streams S2) = length (xs_streams S) \<and>
    st_end (xs_streams S2 ! k) = None \<and> sc_snapshots (xs_cache S2) = sc_snapshots (xs_cache S) \<and>
    (\<exists>nonce'. tw_nonce (st_watches (xs_streams S2 ! k) ty) = nonce' \<and>
       st_sent (xs_streams S2 ! k) = st_sent (xs_streams S ! k) @ [out\<lparr>ds_Nonce := nonce'\<rparr>])"
proof -
  let ?req = "envoy_asks node version ty nonce"
  let ?r = "cache_request ty ?req"
  let ?c = "cancel_type (st_watches (xs_streams S ! k) ty) (xs_cache S)"
  have r: "req_NodeId ?r = node" "req_VersionInfo ?r = version" "req_TypeUrl ?r = ty" "req_ResourceNames ?r = []"
    by (simp_all add: cache_request_def envoy_asks_def)
  have h: "hash (req_NodeId ?r) = Some n" using n r by simp
  obtain v cancel c' where cw: "CreateWatch hash ?r ?c = Some ((v, cancel), c')"
    using CreateWatch_total [where hash = hash and r = "?r", OF h] by blast
  have st: "sc_snapshots ?c n = Some s" "stale s ?r" "answerable (sc_ads ?c) s ?r"
    using n r by (simp_all add: stale_def answerable_def)
  note A = CreateWatch_answers [OF h st(1,2) cw]
  have acc: "accepts ty ?req (xs_streams S ! k)" using k nonce by (simp add: accepts_def envoy_asks_def)
  let ?S = "\<lparr>xs_cache = c', xs_streams = (xs_streams S)[k := watch_of ty v cancel (xs_streams S ! k)]\<rparr>"
  have app: "xds_apply hash pm (Received k (Some ?req)) S = Some ?S"
    using request_accepted [OF k(1,2) _ acc cw] by (simp add: envoy_asks_def)
  let ?T = "\<lparr>xs_cache = receive v (xs_cache ?S), xs_streams = (xs_streams ?S)[k := sent_stream out (xs_streams ?S ! k)]\<rparr>"
  have chan: "sc_channels c' v = [answer s ?r]" using A(1,4) st(3) by simp
  have del: "xds_apply hash pm (Deliver k ty None) ?S = Some ?T"
    by (rule response_delivered [where resp = "answer s ?r" and v = v])
      (use k chan out in \<open>simp_all add: watch_of_def\<close>)
  have "ds_TypeUrl out = ty" using discovery_response_type [OF out] by blast
  with k(1,2) A(5) have "length (xs_streams ?T) = length (xs_streams S)" "st_end (xs_streams ?T ! k) = None"
    "sc_snapshots (xs_cache ?T) = sc_snapshots (xs_cache S)"
    "st_sent (xs_streams ?T ! k) = st_sent (xs_streams S ! k) @ [out\<lparr>ds_Nonce := tw_nonce (st_watches (xs_streams ?T ! k) ty)\<rparr>]"
    by (simp_all add: sent_stream_def watch_of_def Let_def receive_def)
  with app del show ?thesis by blast
qed

text \<open>A settled stream gets the next snapshot.\<close>

lemma settled_updated:
  assumes inv: "streams_inv hash pm es (xs_cache S) (xs_streams S)"
    and set: "settled S k ty n version" "GetVersion s ty \<noteq> version"
    and pm: "\<And>r. \<exists>d. pm r = Inr d"
  shows "\<exists>S1 S2 d. xds_apply hash pm (SetSnap n s) S = Some S1 \<and> xds_apply hash pm (Deliver k ty None) S1 = Some S2 \<and>
    st_sent (xs_streams S2 ! k) = st_sent (xs_streams S ! k) @ [d] \<and> ds_VersionInfo d = GetVersion s ty \<and>
    ds_TypeUrl d = ty \<and> marshal_all pm ty (map snd (GetResources s ty)) = Inr (ds_Resources d)"
proof -
  note D = streams_invD [OF inv]
  from set(1) obtain i w where w: "open_watch (xs_cache S) n i w" "owns (xs_streams S) k ty n i w"
    "req_VersionInfo (rw_Request w) = version" "req_ResourceNames (rw_Request w) = []" "req_TypeUrl (rw_Request w) = ty"
    by (auto simp: settled_def)
  then have k: "k < length (xs_streams S)" "st_end (xs_streams S ! k) = None"
    "tw_channel (st_watches (xs_streams S ! k) ty) = Some (rw_Response w)" by (simp_all add: owns_def)
  from SetSnapshot_watch [OF D(1) w(1), of s] w set(2)
  have chan: "sc_channels (SetSnapshot n s (xs_cache S)) (rw_Response w) = [answer s (rw_Request w)]"
    by (simp add: answerable_def)
  obtain out where out: "discovery_response pm (answer s (rw_Request w)) ty = Inr out"
    using discovery_response_total [where pm = pm, OF pm] by blast
  let ?S1 = "S\<lparr>xs_cache := SetSnapshot n s (xs_cache S)\<rparr>"
  have del: "xds_apply hash pm (Deliver k ty None) ?S1 =
      Some \<lparr>xs_cache = receive (rw_Response w) (xs_cache ?S1), xs_streams = (xs_streams ?S1)[k := sent_stream out (xs_streams ?S1 ! k)]\<rparr>"
    by (rule response_delivered [where resp = "answer s (rw_Request w)"]) (use k chan out in simp_all)
  have "ds_VersionInfo out = GetVersion s ty" "ds_TypeUrl out = ty"
    "marshal_all pm ty (map snd (GetResources s ty)) = Inr (ds_Resources out)"
    using out w(4,5) by (auto simp: discovery_response_def answer_def createResponse_def split: sum.splits)
  then show ?thesis
    using del k(1)
    by (intro exI [of _ ?S1] exI [of _ "\<lparr>xs_cache = receive (rw_Response w) (xs_cache ?S1),
        xs_streams = (xs_streams ?S1)[k := sent_stream out (xs_streams ?S1 ! k)]\<rparr>"]
        exI [of _ "out\<lparr>ds_Nonce := FormatInt (st_nonce (xs_streams S ! k) + 1)\<rparr>"])
      (simp add: sent_stream_def Let_def)
qed

text \<open>C14: an Envoy that asks and acknowledges converges. Whatever happened before, a running stream that asks
  for a type (by a request that names no resources) with the nonce of the last response, at whatever version, is at the node's snapshot after at
  most one response, which holds all resources of the type at the snapshot's version, and its
  acknowledgement: then it has an open watch at that version. And whenever a snapshot of another
  version is set, the stream's next event can be to send exactly that.\<close>

theorem streams_converge:
  assumes run: "xds_run hash pm es S" and k: "k < length (xs_streams S)" "st_end (xs_streams S ! k) = None" "ty \<noteq> OtherType"
    and n: "hash node = Some n" "sc_snapshots (xs_cache S) n = Some s"
    and pm: "\<And>r. \<exists>d. pm r = Inr d"
  shows "\<exists>es' S' sent. xds_run hash pm (es @ es') S' \<and>
    es' = (if GetVersion s ty = version
           then [Received k (Some (envoy_asks node version ty (tw_nonce (st_watches (xs_streams S ! k) ty))))]
           else [Received k (Some (envoy_asks node version ty (tw_nonce (st_watches (xs_streams S ! k) ty)))),
                 Deliver k ty None, Received k (Some (envoy_asks node (GetVersion s ty) ty (ds_Nonce (hd sent))))]) \<and>
    st_sent (xs_streams S' ! k) = st_sent (xs_streams S ! k) @ sent \<and>
    length sent = (if GetVersion s ty = version then 0 else 1) \<and>
    list_all (\<lambda>d. ds_VersionInfo d = GetVersion s ty \<and> ds_TypeUrl d = ty \<and>
      marshal_all pm ty (map snd (GetResources s ty)) = Inr (ds_Resources d)) sent \<and>
    settled S' k ty n (GetVersion s ty) \<and> sc_snapshots (xs_cache S') = sc_snapshots (xs_cache S) \<and>
    (\<forall>s'. GetVersion s' ty = GetVersion s ty \<or>
       (\<exists>S1 S2 d. xds_apply hash pm (SetSnap n s') S' = Some S1 \<and> xds_apply hash pm (Deliver k ty None) S1 = Some S2 \<and>
          st_sent (xs_streams S2 ! k) = st_sent (xs_streams S' ! k) @ [d] \<and> ds_VersionInfo d = GetVersion s' ty \<and>
          ds_TypeUrl d = ty \<and> marshal_all pm ty (map snd (GetResources s' ty)) = Inr (ds_Resources d)))"
    (is "\<exists>es' S' sent. _ \<and> es' = ?es' sent \<and> _")
proof -
  let ?nonce = "tw_nonce (st_watches (xs_streams S ! k) ty)"
  have updates: "\<forall>s'. GetVersion s' ty = GetVersion s ty \<or>
       (\<exists>S1 S2 d. xds_apply hash pm (SetSnap n s') S' = Some S1 \<and> xds_apply hash pm (Deliver k ty None) S1 = Some S2 \<and>
          st_sent (xs_streams S2 ! k) = st_sent (xs_streams S' ! k) @ [d] \<and> ds_VersionInfo d = GetVersion s' ty \<and>
          ds_TypeUrl d = ty \<and> marshal_all pm ty (map snd (GetResources s' ty)) = Inr (ds_Resources d))"
    if "xds_run hash pm es'' S'" "settled S' k ty n (GetVersion s ty)" for es'' S'
    using settled_updated [OF streams_inv_run [OF that(1)] that(2) _ pm] by blast
  show ?thesis
  proof (cases "GetVersion s ty = version")
    case True
    from ask_settles [where hash = hash and pm = pm and nonce = ?nonce, OF k n True refl] obtain S' where
      S': "xds_apply hash pm (Received k (Some (envoy_asks node version ty ?nonce))) S = Some S'"
      "settled S' k ty n version" "st_sent (xs_streams S' ! k) = st_sent (xs_streams S ! k)"
      "sc_snapshots (xs_cache S') = sc_snapshots (xs_cache S)" by blast
    have "xds_run hash pm (es @ ?es' []) S'" using xds_run.step [OF run S'(1)] True by simp
    moreover note updates [OF this]
    ultimately show ?thesis using S' True by (intro exI [of _ "?es' []"] exI [of _ S'] exI [of _ "[]"]) simp
  next
    case False
    obtain out where out: "discovery_response pm (answer s (cache_request ty (envoy_asks node version ty ?nonce))) ty = Inr out"
      using discovery_response_total [where pm = pm, OF pm] by blast
    from ask_answered [where hash = hash and pm = pm and nonce = ?nonce, OF k n False refl out] obtain S1 S2 nonce' where
      S1: "xds_apply hash pm (Received k (Some (envoy_asks node version ty ?nonce))) S = Some S1"
      and S2: "xds_apply hash pm (Deliver k ty None) S1 = Some S2"
      "length (xs_streams S2) = length (xs_streams S)" "st_end (xs_streams S2 ! k) = None"
      "sc_snapshots (xs_cache S2) = sc_snapshots (xs_cache S)" "tw_nonce (st_watches (xs_streams S2 ! k) ty) = nonce'"
      "st_sent (xs_streams S2 ! k) = st_sent (xs_streams S ! k) @ [out\<lparr>ds_Nonce := nonce'\<rparr>]" by blast
    have k2: "k < length (xs_streams S2)" "sc_snapshots (xs_cache S2) n = Some s" using k(1) n(2) S2 by simp_all
    from ask_settles [where hash = hash and pm = pm, OF k2(1) S2(3) k(3) n(1) k2(2) refl S2(5)] obtain S' where
      S': "xds_apply hash pm (Received k (Some (envoy_asks node (GetVersion s ty) ty nonce'))) S2 = Some S'"
      "settled S' k ty n (GetVersion s ty)" "st_sent (xs_streams S' ! k) = st_sent (xs_streams S2 ! k)"
      "sc_snapshots (xs_cache S') = sc_snapshots (xs_cache S2)" by blast
    let ?sent = "[out\<lparr>ds_Nonce := nonce'\<rparr>]"
    have run': "xds_run hash pm (es @ ?es' ?sent) S'"
      using xds_run.step [OF xds_run.step [OF xds_run.step [OF run S1] S2(1)] S'(1)] False by simp
    have "list_all (\<lambda>d. ds_VersionInfo d = GetVersion s ty \<and> ds_TypeUrl d = ty \<and>
        marshal_all pm ty (map snd (GetResources s ty)) = Inr (ds_Resources d)) ?sent"
      using out by (auto simp: discovery_response_def answer_def createResponse_def cache_request_def envoy_asks_def
          split: sum.splits)
    with run' S' S2 False updates [OF run' S'(2)] show ?thesis
      by (intro exI [of _ "?es' ?sent"] exI [of _ S'] exI [of _ ?sent] conjI) simp_all
  qed
qed

section \<open>A stream of an Envoy\<close>

text \<open>An Envoy opens a stream, and a snapshot is set for its pod.\<close>

definition pod_snapshot :: Snapshot where
  "pod_snapshot = NewSnapshot ''1'' [] [] [] []"

definition pod_system :: "unit xds_system" where
  "pod_system = \<lparr>xs_cache = SetSnapshot ''pod'' pod_snapshot (NewSnapshotCache True), xs_streams = [new_stream None]\<rparr>"

lemma pod_system_run:
  "xds_run server_ID (\<lambda>_. Inr ()) [OpenStream None, SetSnap ''pod'' pod_snapshot] pod_system"
proof -
  note s1 = xds_run.step [OF xds_run.start, where e = "OpenStream None"]
  have "xds_run server_ID (\<lambda>_. Inr ()) [OpenStream None] \<lparr>xs_cache = NewSnapshotCache True, xs_streams = [new_stream None :: unit stream]\<rparr>"
    using s1 by (simp add: start_system_def)
  from xds_run.step [OF this, where e = "SetSnap ''pod'' pod_snapshot" and S' = pod_system] show ?thesis
    by (simp add: pod_system_def)
qed

lemma pod_system_asks:
  "0 < length (xs_streams pod_system)" "st_end (xs_streams pod_system ! 0) = None" "ClusterType \<noteq> OtherType"
  "server_ID ''1@pod'' = Some ''pod''" "sc_snapshots (xs_cache pod_system) ''pod'' = Some pod_snapshot"
  "GetVersion pod_snapshot ClusterType = ''1''" "tw_nonce (st_watches (xs_streams pod_system ! 0) ClusterType) = []"
  by (simp_all add: pod_system_def new_stream_def server_ID_def pod_snapshot_def NewSnapshot_def NewResources_def)

theorem streams_answer_with_set_snapshots_witness:
  "\<exists>es S d. xds_run server_ID (\<lambda>_. Inr ()) es (S :: unit xds_system) \<and> st_sent (xs_streams S ! 0) = [d] \<and> ds_Nonce d = FormatInt 1"
proof -
  let ?req = "envoy_asks ''1@pod'' [] ClusterType []"
  obtain out where out: "discovery_response (\<lambda>_. Inr ()) (answer pod_snapshot (cache_request ClusterType ?req)) ClusterType = Inr out"
    using discovery_response_total [where pm = "\<lambda>_. Inr ()"] by blast
  have "GetVersion pod_snapshot ClusterType \<noteq> []" unfolding pod_system_asks(6) by simp
  from ask_answered [where hash = server_ID and pm = "\<lambda>_. Inr ()", OF pod_system_asks(1-5) this pod_system_asks(7) out]
  obtain S1 S2 nonce where S: "xds_apply server_ID (\<lambda>_. Inr ()) (Received 0 (Some ?req)) pod_system = Some S1"
    "xds_apply server_ID (\<lambda>_. Inr ()) (Deliver 0 ClusterType None) S1 = Some S2"
    "length (xs_streams S2) = length (xs_streams pod_system)"
    "st_sent (xs_streams S2 ! 0) = st_sent (xs_streams pod_system ! 0) @ [out\<lparr>ds_Nonce := nonce\<rparr>]" by blast
  note run = xds_run.step [OF xds_run.step [OF pod_system_run S(1)] S(2)]
  have sent: "st_sent (xs_streams S2 ! 0) = [out\<lparr>ds_Nonce := nonce\<rparr>]" "0 < length (xs_streams S2)"
    using S(3,4) by (simp_all add: pod_system_def new_stream_def)
  from streams_answer_with_set_snapshots [OF run, THEN conjunct1, rule_format, of 0 0] sent
  obtain out' where "st_sent (xs_streams S2 ! 0) ! 0 = out'\<lparr>ds_Nonce := FormatInt (of_nat (Suc 0))\<rparr>" by auto
  then have "ds_Nonce (st_sent (xs_streams S2 ! 0) ! 0) = FormatInt 1" by simp
  then have "ds_Nonce (out\<lparr>ds_Nonce := nonce\<rparr>) = FormatInt 1" by (simp add: sent(1))
  with run sent(1) show ?thesis by blast
qed

theorem streams_converge_witness:
  "\<exists>es S. xds_run server_ID (\<lambda>_. Inr ()) es (S :: unit xds_system) \<and> length es = 5 \<and> settled S 0 ClusterType ''pod'' ''1''"
proof -
  have pm: "\<exists>d. (\<lambda>_. Inr () :: string + unit) r = Inr d" for r :: xds_resource by simp
  from streams_converge [where version = "[]", OF pod_system_run pod_system_asks(1-5) pm]
  obtain es' S' where "xds_run server_ID (\<lambda>_. Inr ()) ([OpenStream None, SetSnap ''pod'' pod_snapshot] @ es') S'"
    "length es' = 3" "settled S' 0 ClusterType ''pod'' ''1''"
    unfolding pod_system_asks(6) by fastforce
  then show ?thesis by (intro exI [of _ "[OpenStream None, SetSnap ''pod'' pod_snapshot] @ es'"] exI [of _ S']) simp
qed

end
