(* ===== verification/Discovery.thy ===== *)
theory Discovery
  imports XdsStreamLaws
begin

text \<open>
  The discovery server as a whole: the configuration handlers of \<open>pkg/xds/server.go\<close>, the streams of the
  Envoys and the snapshot cache between them, with the informers changing the stores that the handlers
  read. A run is any sequence of these events. Every run is simulated by a run of the streams alone in
  which each snapshot that is set was made from a rule of a configuration that a handler found in its
  store; with it the laws of the streams become statements on rules and Envoys.
\<close>

section \<open>Runs of the server\<close>

record 'b discovery =
  dy_server :: server
  dy_streams :: "'b stream list"

datatype discovery_event =
  ConfigurationEvent configuration_event
  | StoresChange "Configuration threadSafeMap" "Pod threadSafeMap"
  | StreamEvent xds_event

text \<open>Snapshots are set by the handlers only, and the hash of the cache is the server's \<open>ID\<close>.\<close>

fun of_stream :: "xds_event \<Rightarrow> bool" where
  "of_stream (SetSnap n s) = False"
| "of_stream _ = True"

definition stream_system :: "'b discovery \<Rightarrow> 'b xds_system" where
  "stream_system d = \<lparr>xs_cache = sv_snapshotCache (dy_server d), xs_streams = dy_streams d\<rparr>"

fun discovery_apply :: "(xds_resource \<Rightarrow> string + 'b) \<Rightarrow> discovery_event \<Rightarrow> 'b discovery \<Rightarrow> 'b discovery option" where
  "discovery_apply pm (ConfigurationEvent ev) d = Some (d\<lparr>dy_server := configuration_events ev (dy_server d)\<rparr>)"
| "discovery_apply pm (StoresChange configurations pods) d =
     Some (d\<lparr>dy_server := (dy_server d)\<lparr>sv_configurationLister := NewConfigurationLister configurations, sv_pods := pods\<rparr>\<rparr>)"
| "discovery_apply pm (StreamEvent e) d =
     (if of_stream e
      then (case xds_apply server_ID pm e (stream_system d) of
              None \<Rightarrow> None
            | Some S \<Rightarrow>
                Some \<lparr>dy_server = (dy_server d)\<lparr>sv_snapshotCache := xs_cache S\<rparr>, dy_streams = xs_streams S\<rparr>)
      else None)"

inductive discovery_run :: "(xds_resource \<Rightarrow> string + 'b) \<Rightarrow> discovery_event list \<Rightarrow> 'b discovery \<Rightarrow> bool" for pm where
  start: "discovery_run pm [] \<lparr>dy_server = NewServer configurations pods, dy_streams = []\<rparr>"
| step: "discovery_run pm es d \<Longrightarrow> discovery_apply pm e d = Some d' \<Longrightarrow> discovery_run pm (es @ [e]) d'"

section \<open>The streams see rules\<close>

text \<open>
  In the run \<open>es\<close> a handler met the configuration in its store under the key of the object it got, and the
  rule selected a pod with the node's name: \<open>s\<close> is the snapshot of the rule.
\<close>

definition configured :: "(xds_resource \<Rightarrow> string + 'b) \<Rightarrow> discovery_event list \<Rightarrow> string \<Rightarrow> Snapshot \<Rightarrow> bool" where
  "configured pm es n s \<longleftrightarrow>
     (\<exists>es1 ev es2 d key conf rule. es = es1 @ ConfigurationEvent ev # es2 \<and> discovery_run pm es1 d \<and>
        ts_Get key (cl_indexer (sv_configurationLister (dy_server d))) = Some conf \<and>
        rule \<in> set (cs_Rules (conf_Spec conf)) \<and> rule_selects (sv_pods (dy_server d)) n rule \<and>
        s = rule_snapshot (om_ResourceVersion (conf_Meta conf)) rule)"

lemma configured_append: "configured pm es n s \<Longrightarrow> configured pm (es @ es') n s"
  unfolding configured_def by (metis append.assoc append_Cons)

text \<open>A handler is a sequence of snapshots set from one configuration.\<close>

lemma update_writes:
  obtains (ignored) "update obj s = s"
  | (writes) key conf where "ts_Get key (cl_indexer (sv_configurationLister s)) = Some conf"
      "update obj s = s\<lparr>sv_snapshotCache := write_all (rule_writes (sv_pods s) (om_ResourceVersion (conf_Meta conf))
         (cs_Rules (conf_Spec conf))) (sv_snapshotCache s)\<rparr>"
proof (cases "update obj s = s")
  case False
  then obtain key namespace name conf where k: "MetaNamespaceKeyFunc obj = Inr key" "SplitMetaNamespaceKey key = Inr (namespace, name)"
    "configurationNamespaceLister_Get (Configurations (sv_configurationLister s) namespace) name = Inr conf"
    by (auto simp: update_def split: sum.splits)
  then have "ts_Get (namespace @ ''/'' @ name) (cl_indexer (sv_configurationLister s)) = Some conf"
    by (simp add: configurationNamespaceLister_Get_def Configurations_def split: option.splits)
  moreover have "update obj s = s\<lparr>sv_snapshotCache := write_all (rule_writes (sv_pods s) (om_ResourceVersion (conf_Meta conf))
         (cs_Rules (conf_Spec conf))) (sv_snapshotCache s)\<rparr>"
    using k by (simp add: update_def apply_rules_writes)
  ultimately show ?thesis by (rule writes)
qed (rule ignored)

lemma set_rule_writes:
  "(n, s) \<in> set (rule_writes podStore v rules) \<longleftrightarrow> (\<exists>r \<in> set rules. rule_selects podStore n r \<and> s = rule_snapshot v r)"
  by (auto simp: rule_writes_def rule_selects_def list_ex_iff)

lemma xds_run_writes:
  "xds_run hash pm xs S \<Longrightarrow>
   xds_run hash pm (xs @ map (\<lambda>(n, s). SetSnap n s) ws) (S\<lparr>xs_cache := write_all ws (xs_cache S)\<rparr>)"
proof (induction ws arbitrary: xs S)
  case (Cons w ws)
  obtain n s where w: "w = (n, s)" by force
  have "xds_run hash pm (xs @ [SetSnap n s]) (S\<lparr>xs_cache := SetSnapshot n s (xs_cache S)\<rparr>)"
    using xds_run.step [OF Cons.prems, where e = "SetSnap n s"] by simp
  from Cons.IH [OF this] show ?case by (simp add: w)
qed simp

text \<open>The simulation.\<close>

definition simulates :: "(xds_resource \<Rightarrow> string + 'b) \<Rightarrow> discovery_event list \<Rightarrow> 'b discovery \<Rightarrow> xds_event list \<Rightarrow> bool" where
  "simulates pm es d xs \<longleftrightarrow>
     xds_run server_ID pm xs (stream_system d) \<and>
     (\<forall>n s. SetSnap n s \<in> set xs \<longrightarrow> configured pm es n s) \<and>
     filter of_stream xs = concat (map (\<lambda>e. case e of StreamEvent x \<Rightarrow> [x] | _ \<Rightarrow> []) es)"

lemma filter_writes [simp]: "filter of_stream (map (\<lambda>(n, s). SetSnap n s) ws) = []"
  by (induction ws) auto

lemma simulates_other:
  assumes "simulates pm es d xs" "stream_system d' = stream_system d" "\<And>x. e \<noteq> StreamEvent x"
  shows "simulates pm (es @ [e]) d' xs"
  using assms configured_append [of pm es _ _ "[e]"] unfolding simulates_def by (cases e) auto

lemma simulates_update:
  assumes sim: "simulates pm es d xs" and run: "discovery_run pm es d"
    and ev: "configuration_events ev (dy_server d) = update obj (dy_server d)"
  shows "\<exists>xs'. simulates pm (es @ [ConfigurationEvent ev]) (d\<lparr>dy_server := configuration_events ev (dy_server d)\<rparr>) xs'"
proof (rule update_writes [of obj "dy_server d"])
  assume "update obj (dy_server d) = dy_server d"
  with ev have "simulates pm (es @ [ConfigurationEvent ev]) (d\<lparr>dy_server := configuration_events ev (dy_server d)\<rparr>) xs"
    by (intro simulates_other [OF sim]) (simp_all add: stream_system_def)
  then show ?thesis ..
next
  fix key and conf :: Configuration
  let ?s = "dy_server d" and ?v = "om_ResourceVersion (conf_Meta conf)"
  let ?ws = "rule_writes (sv_pods ?s) ?v (cs_Rules (conf_Spec conf))"
  assume conf: "ts_Get key (cl_indexer (sv_configurationLister ?s)) = Some conf"
    and u: "update obj ?s = ?s\<lparr>sv_snapshotCache := write_all ?ws (sv_snapshotCache ?s)\<rparr>"
  let ?xs = "xs @ map (\<lambda>(n, s). SetSnap n s) ?ws" and ?es = "es @ [ConfigurationEvent ev]"
  have "configured pm ?es n s" if "SetSnap n s \<in> set ?xs" for n s
  proof (cases "SetSnap n s \<in> set xs")
    case True
    with sim show ?thesis by (simp add: simulates_def configured_append)
  next
    case False
    with that have "(n, s) \<in> set ?ws" by auto
    with run conf show ?thesis
      unfolding configured_def set_rule_writes by (metis append_Nil2 append_Cons)
  qed
  with sim xds_run_writes [where S = "stream_system d" and xs = xs and ws = ?ws] show ?thesis
    by (intro exI [of _ ?xs]) (simp add: simulates_def stream_system_def ev u)
qed

lemma discovery_simulated: "discovery_run pm es d \<Longrightarrow> \<exists>xs. simulates pm es d xs"
proof (induction rule: discovery_run.induct)
  case (start configurations pods)
  have "xds_run server_ID pm [] (start_system :: 'a xds_system)" by (rule xds_run.start)
  then show ?case
    by (intro exI [of _ "[]"]) (simp add: simulates_def stream_system_def start_system_def NewServer_def)
next
  case (step es d e d')
  then obtain xs where xs: "simulates pm es d xs" by blast
  show ?case
  proof (cases e)
    case (ConfigurationEvent ev)
    with step.hyps(2) have d': "d' = d\<lparr>dy_server := configuration_events ev (dy_server d)\<rparr>" by simp
    show ?thesis
    proof (cases ev)
      case (ConfDelete obj)
      have "simulates pm (es @ [e]) d' xs"
        by (intro simulates_other [OF xs]) (simp_all add: d' ConfDelete ConfigurationEvent stream_system_def)
      then show ?thesis ..
    qed (use simulates_update [OF xs step.hyps(1), of ev] d' ConfigurationEvent in auto)
  next
    case (StoresChange configurations pods)
    with step.hyps(2) have "simulates pm (es @ [e]) d' xs"
      by (intro simulates_other [OF xs]) (auto simp: stream_system_def)
    then show ?thesis ..
  next
    case (StreamEvent x)
    with step.hyps(2) obtain S where S: "of_stream x" "xds_apply server_ID pm x (stream_system d) = Some S"
      "d' = \<lparr>dy_server = (dy_server d)\<lparr>sv_snapshotCache := xs_cache S\<rparr>, dy_streams = xs_streams S\<rparr>"
      by (auto split: if_splits option.splits)
    have "stream_system d' = S" by (simp add: S(3) stream_system_def)
    moreover have "xds_run server_ID pm (xs @ [x]) S"
      using xs xds_run.step [OF _ S(2)] by (simp add: simulates_def)
    ultimately show ?thesis
      using xs S(1) configured_append [of pm es _ _ "[e]"] unfolding StreamEvent
      by (intro exI [of _ "xs @ [x]"]) (auto simp: simulates_def)
  qed
qed

lemma simulated_events:
  assumes "simulates pm es d xs" "of_stream x"
  shows "x \<in> set xs \<longleftrightarrow> StreamEvent x \<in> set es"
proof -
  have "x \<in> set xs \<longleftrightarrow> x \<in> set (filter of_stream xs)" using assms(2) by simp
  also have "\<dots> \<longleftrightarrow> StreamEvent x \<in> set es"
    using assms(1) by (auto simp: simulates_def split: discovery_event.splits)
  finally show ?thesis .
qed

section \<open>What Envoys receive\<close>

text \<open>A response of a run, traced back to a rule.\<close>

lemma sent_from_rule:
  assumes "discovery_run pm es d" "k < length (dy_streams d)" "j < length (st_sent (dy_streams d ! k))"
  obtains n s req t out where "configured pm es n s" "StreamEvent (Received k (Some req)) \<in> set es"
    "requests_type (dy_streams d ! k) req t" "server_ID (dr_NodeId req) = Some n" "GetVersion s t \<noteq> dr_VersionInfo req"
    "discovery_response pm (answer s (cache_request t req)) t = Inr out"
    "st_sent (dy_streams d ! k) ! j = out\<lparr>ds_Nonce := FormatInt (of_nat (Suc j))\<rparr>"
proof -
  obtain xs where xs: "simulates pm es d xs" using discovery_simulated [OF assms(1)] by blast
  then have "xds_run server_ID pm xs (stream_system d)" by (simp add: simulates_def)
  from sent_explained [OF this, of k j] assms(2,3) obtain n s req t out where
    r: "SetSnap n s \<in> set xs" "Received k (Some req) \<in> set xs" "requests_type (dy_streams d ! k) req t" "server_ID (dr_NodeId req) = Some n"
    "GetVersion s t \<noteq> dr_VersionInfo req" "discovery_response pm (answer s (cache_request t req)) t = Inr out"
    "st_sent (dy_streams d ! k) ! j = out\<lparr>ds_Nonce := FormatInt (of_nat (Suc j))\<rparr>"
    by (auto simp: stream_system_def)
  have "configured pm es n s" using xs r(1) by (simp add: simulates_def)
  moreover have "StreamEvent (Received k (Some req)) \<in> set es"
    using r(2) simulated_events [OF xs, of "Received k (Some req)"] by simp
  ultimately show ?thesis using r that by blast
qed

text \<open>C11: Envoys receive rules that select them. In every run of the discovery server, each response on each
  stream is the answer, to a request of that stream and of the type that this request asked for, made from
  the snapshot of a rule of a configuration that a handler found in its informer's store earlier in the run, at the resource version of that
  configuration; and that rule selected, among the pods known at that time, one with the name that the
  Envoy's node id carries.\<close>

theorem envoys_receive_rules:
  assumes "discovery_run pm es d" "k < length (dy_streams d)" "j < length (st_sent (dy_streams d ! k))"
  shows "\<exists>es1 ev es2 d1 key conf rule n req t out.
    es = es1 @ ConfigurationEvent ev # es2 \<and> discovery_run pm es1 d1 \<and>
    ts_Get key (cl_indexer (sv_configurationLister (dy_server d1))) = Some conf \<and>
    rule \<in> set (cs_Rules (conf_Spec conf)) \<and> rule_selects (sv_pods (dy_server d1)) n rule \<and>
    StreamEvent (Received k (Some req)) \<in> set es \<and> requests_type (dy_streams d ! k) req t \<and> server_ID (dr_NodeId req) = Some n \<and>
    discovery_response pm (answer (rule_snapshot (om_ResourceVersion (conf_Meta conf)) rule) (cache_request t req)) t = Inr out \<and>
    st_sent (dy_streams d ! k) ! j = out\<lparr>ds_Nonce := FormatInt (of_nat (Suc j))\<rparr>"
proof -
  from assms obtain n s req t out where r: "configured pm es n s" "StreamEvent (Received k (Some req)) \<in> set es"
    "requests_type (dy_streams d ! k) req t" "server_ID (dr_NodeId req) = Some n" "discovery_response pm (answer s (cache_request t req)) t = Inr out"
    "st_sent (dy_streams d ! k) ! j = out\<lparr>ds_Nonce := FormatInt (of_nat (Suc j))\<rparr>" by (rule sent_from_rule)
  from r(1) obtain es1 ev es2 d1 key conf rule where
    c: "es = es1 @ ConfigurationEvent ev # es2" "discovery_run pm es1 d1"
    "ts_Get key (cl_indexer (sv_configurationLister (dy_server d1))) = Some conf"
    "rule \<in> set (cs_Rules (conf_Spec conf))" "rule_selects (sv_pods (dy_server d1)) n rule"
    "s = rule_snapshot (om_ResourceVersion (conf_Meta conf)) rule" unfolding configured_def by blast
  show ?thesis
    by (rule exI [of _ es1], rule exI [of _ ev], rule exI [of _ es2], rule exI [of _ d1], rule exI [of _ key],
      rule exI [of _ conf], rule exI [of _ rule], rule exI [of _ n], rule exI [of _ req], rule exI [of _ t],
      rule exI [of _ out]) (use c r in simp)
qed

section \<open>Types\<close>

fun resource_type :: "xds_resource \<Rightarrow> xds_type" where
  "resource_type (EndpointRes _) = EndpointType"
| "resource_type (ClusterRes _) = ClusterType"
| "resource_type (RouteRes _) = RouteType"
| "resource_type (ListenerRes _) = ListenerType"
| "resource_type (SecretRes _) = SecretType"

definition well_typed :: "Snapshot \<Rightarrow> bool" where
  "well_typed s \<longleftrightarrow> (\<forall>t. \<forall>r \<in> snd ` set (GetResources s t). resource_type r = t)"

lemma index_resources_items: "snd ` set (index_resources acc rs) \<subseteq> snd ` set acc \<union> set rs"
proof (induction rs arbitrary: acc)
  case (Cons r rs)
  have "snd ` set (AList.update (GetResourceName r) r acc) \<subseteq> snd ` set acc \<union> {r}"
    by (induction acc) auto
  with Cons [of "AList.update (GetResourceName r) r acc"] show ?case by auto
qed simp

lemma rule_snapshot_typed: "well_typed (rule_snapshot v rule)"
proof -
  have named: "x \<in> set (IndexResourcesByName rs) \<Longrightarrow> snd x \<in> set rs" for rs and x :: "string \<times> xds_resource"
    using index_resources_items [of "[]" rs] by (auto simp: IndexResourcesByName_def)
  have items: "snd x \<in> set (rule_resources t rule)" if "x \<in> set (GetResources (rule_snapshot v rule) t)" for x t
    using that named [of x] named [of x "[]"]
    by (cases t) (auto simp: rule_snapshot_def NewSnapshot_def NewResources_def zero_Snapshot_def zero_Resources_def
        rule_resources_def)
  have "resource_type r = t" if "r \<in> set (rule_resources t rule)" for r t
    using that by (auto simp: rule_resources_def buildClusters_map buildListeners_def split: if_splits)
  with items show ?thesis by (auto simp: well_typed_def)
qed

text \<open>The items of a snapshot are filed under their names.\<close>

lemma index_resources_names:
  "(\<And>x. x \<in> set acc \<Longrightarrow> GetResourceName (snd x) = fst x) \<Longrightarrow> x \<in> set (index_resources acc rs) \<Longrightarrow>
   GetResourceName (snd x) = fst x"
proof (induction rs arbitrary: acc)
  case (Cons r rs)
  have "GetResourceName (snd y) = fst y" if "y \<in> set (AList.update (GetResourceName r) r acc)" for y
    using that Cons.prems(1) by (induction acc) (auto split: if_splits)
  from Cons.IH [OF this] Cons.prems(2) show ?case by simp
qed simp

lemma rule_snapshot_named:
  "(name, x) \<in> set (GetResources (rule_snapshot v rule) t) \<Longrightarrow> GetResourceName x = name"
  using index_resources_names [of "[]" "(name, x)"]
  by (cases t) (auto simp: rule_snapshot_def NewSnapshot_def NewResources_def zero_Snapshot_def zero_Resources_def
      IndexResourcesByName_def)

lemma answer_resources: "set (resp_Resources (answer s r)) \<subseteq> snd ` set (GetResources s (req_TypeUrl r))"
  by (auto simp: answer_def createResponse_def)

lemma marshal_all_items:
  "marshal_all pm t rs = Inr items \<Longrightarrow> (u, data) \<in> set items \<Longrightarrow> u = t \<and> (\<exists>r \<in> set rs. pm r = Inr data)"
proof (induction rs arbitrary: items)
  case (Cons r rs)
  from Cons.prems(1) obtain x xs where "pm r = Inr x" "marshal_all pm t rs = Inr xs" "items = (t, x) # xs"
    by (auto split: sum.splits)
  with Cons.IH Cons.prems(2) show ?case by auto
qed simp

lemma answer_of_rule:
  assumes "x \<in> set (resp_Resources (answer (rule_snapshot v rule) r))"
  shows "resource_type x = req_TypeUrl r \<and> (req_ResourceNames r = [] \<or> GetResourceName x \<in> set (req_ResourceNames r))"
  using assms answer_resources [of "rule_snapshot v rule" r] rule_snapshot_typed [of v rule]
    rule_snapshot_named [of _ x v rule "req_TypeUrl r"]
  by (auto simp: well_typed_def answer_def createResponse_def split: if_splits)

text \<open>C40: responses carry what was asked for. In every run of the discovery server, each response on each
  stream answers one request of that stream. It is announced under the type for which this request asked
  (the one it names, or else the one of its stream), it is the answer made from a snapshot that was
  configured for the request's node, and every resource in it is announced under that type, encodes a
  resource of that type, and is among those that this request named, when it named any.\<close>

theorem responses_well_typed:
  assumes "discovery_run pm es d" "k < length (dy_streams d)" "j < length (st_sent (dy_streams d ! k))"
  shows "\<exists>req n s out. StreamEvent (Received k (Some req)) \<in> set es \<and>
    requests_type (dy_streams d ! k) req (ds_TypeUrl (st_sent (dy_streams d ! k) ! j)) \<and>
    server_ID (dr_NodeId req) = Some n \<and> configured pm es n s \<and>
    discovery_response pm (answer s (cache_request (ds_TypeUrl (st_sent (dy_streams d ! k) ! j)) req))
      (ds_TypeUrl (st_sent (dy_streams d ! k) ! j)) = Inr out \<and>
    st_sent (dy_streams d ! k) ! j = out\<lparr>ds_Nonce := FormatInt (of_nat (Suc j))\<rparr> \<and>
    (\<forall>(t, data) \<in> set (ds_Resources (st_sent (dy_streams d ! k) ! j)).
       t = ds_TypeUrl (st_sent (dy_streams d ! k) ! j) \<and>
       (\<exists>r. pm r = Inr data \<and> resource_type r = t \<and>
          (dr_ResourceNames req = [] \<or> GetResourceName r \<in> set (dr_ResourceNames req))))"
proof -
  let ?sent = "st_sent (dy_streams d ! k) ! j"
  from assms(1-3) obtain n s req u out where r: "configured pm es n s" "StreamEvent (Received k (Some req)) \<in> set es"
    "requests_type (dy_streams d ! k) req u" "server_ID (dr_NodeId req) = Some n"
    "discovery_response pm (answer s (cache_request u req)) u = Inr out"
    "?sent = out\<lparr>ds_Nonce := FormatInt (of_nat (Suc j))\<rparr>" by (rule sent_from_rule)
  let ?a = "answer s (cache_request u req)"
  have out: "ds_TypeUrl out = u" "marshal_all pm u (resp_Resources ?a) = Inr (ds_Resources out)"
    using r(5) by (auto simp: discovery_response_def split: sum.splits)
  obtain v rule where s: "s = rule_snapshot v rule" using r(1) by (auto simp: configured_def)
  have "t = u \<and> (\<exists>x. pm x = Inr data \<and> resource_type x = t \<and>
      (dr_ResourceNames req = [] \<or> GetResourceName x \<in> set (dr_ResourceNames req)))"
    if "(t, data) \<in> set (ds_Resources ?sent)" for t data
  proof -
    from marshal_all_items [OF out(2)] that r(6) obtain x where x: "t = u" "x \<in> set (resp_Resources ?a)" "pm x = Inr data"
      by auto
    then show ?thesis using answer_of_rule [of x v rule "cache_request u req"] by (auto simp: s cache_request_def)
  qed
  then show ?thesis using r out(1)
    by (intro exI [of _ req] exI [of _ n] exI [of _ s] exI [of _ out]) auto
qed

section \<open>From a configuration to an Envoy\<close>

lemma discovery_stream:
  assumes "discovery_run pm es d" "of_stream x" "xds_apply server_ID pm x (stream_system d) = Some S"
  shows "discovery_run pm (es @ [StreamEvent x])
    \<lparr>dy_server = (dy_server d)\<lparr>sv_snapshotCache := xs_cache S\<rparr>, dy_streams = xs_streams S\<rparr>"
  using discovery_run.step [OF assms(1), where e = "StreamEvent x"] assms(2,3) by simp

lemma configuration_delivered:
  assumes run: "discovery_run pm es d" and k: "k < length (dy_streams d)" "st_end (dy_streams d ! k) = None"
    and conf: "cached_configuration (dy_server d) conf"
    and ev: "ev = ConfAdd (WithMeta (conf_Meta conf)) \<or> ev = ConfUpdate old (WithMeta (conf_Meta conf))"
    and rule: "find_last (rule_selects (sv_pods (dy_server d)) n) (cs_Rules (conf_Spec conf)) = Some rule"
      "distinct (map cluster_Name (rule_Clusters rule))"
    and ask: "server_ID node = Some n" "ty = ClusterType \<or> ty = ListenerType" "version \<noteq> om_ResourceVersion (conf_Meta conf)"
    and pm: "\<And>r. \<exists>data. pm r = Inr data"
  shows "\<exists>d' out. discovery_run pm (es @ [ConfigurationEvent ev,
        StreamEvent (Received k (Some (envoy_asks node version ty (tw_nonce (st_watches (dy_streams d ! k) ty))))),
        StreamEvent (Deliver k ty None)]) d' \<and>
      st_sent (dy_streams d' ! k) = st_sent (dy_streams d ! k) @ [out] \<and>
      ds_VersionInfo out = om_ResourceVersion (conf_Meta conf) \<and> ds_TypeUrl out = ty \<and>
      marshal_all pm ty (if ty = ClusterType then buildClusters (rule_Clusters rule)
                         else buildListeners (rule_Filters rule)) = Inr (ds_Resources out)"
proof -
  let ?v = "om_ResourceVersion (conf_Meta conf)" and ?s = "dy_server d"
  let ?d1 = "d\<lparr>dy_server := update (WithMeta (conf_Meta conf)) ?s\<rparr>" and ?es = "es @ [ConfigurationEvent ev]"
  let ?req = "envoy_asks node version ty (tw_nonce (st_watches (dy_streams d ! k) ty))"
  have run1: "discovery_run pm ?es ?d1"
    using discovery_run.step [OF run, where e = "ConfigurationEvent ev"] ev by auto
  let ?S = "stream_system ?d1"
  have snap: "sc_snapshots (xs_cache ?S) n = Some (rule_snapshot ?v rule)"
    using server_snapshot [OF conf rule(1)] by (simp add: stream_system_def)
  have version: "GetVersion (rule_snapshot ?v rule) ty \<noteq> version" using ask(2,3) by (auto simp: versioned_def)
  have streams: "k < length (xs_streams ?S)" "st_end (xs_streams ?S ! k) = None" "ty \<noteq> OtherType"
    "tw_nonce (st_watches (xs_streams ?S ! k) ty) = tw_nonce (st_watches (dy_streams d ! k) ty)"
    using k ask(2) by (auto simp: stream_system_def)
  obtain out where out: "discovery_response pm (answer (rule_snapshot ?v rule) (cache_request ty ?req)) ty = Inr out"
    using discovery_response_total [where pm = pm, OF pm] by blast
  from ask_answered [where hash = server_ID and pm = pm, OF streams(1-3) ask(1) snap version streams(4) out]
  obtain S1 S2 nonce where S: "xds_apply server_ID pm (Received k (Some ?req)) ?S = Some S1"
    "xds_apply server_ID pm (Deliver k ty None) S1 = Some S2"
    "st_sent (xs_streams S2 ! k) = st_sent (xs_streams ?S ! k) @ [out\<lparr>ds_Nonce := nonce\<rparr>]" by blast
  note run2 = discovery_stream [OF run1 _ S(1)]
  have "stream_system \<lparr>dy_server = (dy_server ?d1)\<lparr>sv_snapshotCache := xs_cache S1\<rparr>, dy_streams = xs_streams S1\<rparr> = S1"
    by (simp add: stream_system_def)
  with discovery_stream [OF run2, of "Deliver k ty None" S2] S(2) obtain d' where
    d': "discovery_run pm (?es @ [StreamEvent (Received k (Some ?req))] @ [StreamEvent (Deliver k ty None)]) d'"
    "dy_streams d' = xs_streams S2" by force
  have "resp_Resources (answer (rule_snapshot ?v rule) (cache_request ty ?req)) = rule_resources ty rule"
    using rule_snapshot_resources [OF rule(2), of ?v ty]
    by (simp add: answer_def createResponse_def cache_request_def envoy_asks_def)
  with out ask(2) have "ds_VersionInfo out = ?v" "ds_TypeUrl out = ty" "marshal_all pm ty (rule_resources ty rule) = Inr (ds_Resources out)"
    by (auto simp: discovery_response_def answer_def createResponse_def cache_request_def envoy_asks_def versioned_def
        split: sum.splits)
  moreover have "rule_resources ty rule =
      (if ty = ClusterType then buildClusters (rule_Clusters rule) else buildListeners (rule_Filters rule))"
    using ask(2) by (auto simp: rule_resources_def)
  ultimately show ?thesis
    using d' S(3) by (intro exI [of _ d'] exI [of _ "out\<lparr>ds_Nonce := nonce\<rparr>"]) (simp add: stream_system_def)
qed

text \<open>C10: a configuration reaches the Envoys it selects. Whatever happened before, once a handler has been
  called for a configuration that its informer's store holds, an Envoy whose node id names a pod that the
  rules select and that asks for its clusters or listeners at an older version is sent, as the very next
  response, all clusters or listeners of the last rule that selects the pod, at the configuration's
  version. It asks without naming resources and with the nonce of the last response of that type; the
  rule's clusters have distinct names, and marshalling succeeds.\<close>

theorem configuration_reaches_envoy:
  assumes run: "discovery_run pm es d" and k: "k < length (dy_streams d)" "st_end (dy_streams d ! k) = None"
    and conf: "cached_configuration (dy_server d) conf"
    and ev: "ev = ConfAdd (WithMeta (conf_Meta conf)) \<or> ev = ConfUpdate old (WithMeta (conf_Meta conf))"
    and rule: "find_last (rule_selects (sv_pods (dy_server d)) n) (cs_Rules (conf_Spec conf)) = Some rule"
      "distinct (map cluster_Name (rule_Clusters rule))"
    and ask: "server_ID node = Some n" "ty = ClusterType \<or> ty = ListenerType" "version \<noteq> om_ResourceVersion (conf_Meta conf)"
    and pm: "\<And>r. \<exists>data. pm r = Inr data"
  shows "\<exists>d' out. discovery_run pm (es @ [ConfigurationEvent ev,
        StreamEvent (Received k (Some (envoy_asks node version ty (tw_nonce (st_watches (dy_streams d ! k) ty))))),
        StreamEvent (Deliver k ty None)]) d' \<and>
      st_sent (dy_streams d' ! k) = st_sent (dy_streams d ! k) @ [out] \<and>
      ds_VersionInfo out = om_ResourceVersion (conf_Meta conf) \<and> ds_TypeUrl out = ty \<and>
      marshal_all pm ty (if ty = ClusterType then buildClusters (rule_Clusters rule)
                         else buildListeners (rule_Filters rule)) = Inr (ds_Resources out)"
  using assms by (rule configuration_delivered)

section \<open>A pod gets its configuration\<close>

text \<open>Streams are numbered in the order in which they were opened.\<close>

lemma xds_streams_length:
  "xds_apply hash pm e S = Some S' \<Longrightarrow>
   length (xs_streams S') = length (xs_streams S) + (case e of OpenStream _ \<Rightarrow> 1 | _ \<Rightarrow> 0)"
  by (cases e) (auto elim!: with_stream_Some)

lemma discovery_streams_kept:
  "discovery_run pm es d \<Longrightarrow>
   length (dy_streams d) = length (filter (\<lambda>e. case e of StreamEvent (OpenStream _) \<Rightarrow> True | _ \<Rightarrow> False) es)"
proof (induction rule: discovery_run.induct)
  case (step es d e d')
  show ?case
  proof (cases e)
    case (StreamEvent x)
    with step.hyps(2) obtain S where "xds_apply server_ID pm x (stream_system d) = Some S" "dy_streams d' = xs_streams S"
      by (auto split: if_splits option.splits)
    with xds_streams_length [of server_ID pm x "stream_system d" S] step.IH StreamEvent show ?thesis
      by (cases x) (auto simp: stream_system_def)
  qed (use step in auto)
qed simp

text \<open>An Envoy opens its stream, and the configuration of the pod comes in.\<close>

definition sample_events :: "discovery_event list" where
  "sample_events = [StreamEvent (OpenStream None), ConfigurationEvent (ConfAdd (WithMeta (conf_Meta sample_configuration))),
     StreamEvent (Received 0 (Some (envoy_asks ''10.0.0.1@cart-0'' ''6'' ClusterType []))),
     StreamEvent (Deliver 0 ClusterType None)]"

definition sample_open :: "xds_resource discovery" where
  "sample_open = \<lparr>dy_server = sample_server, dy_streams = [new_stream None]\<rparr>"

lemma sample_open_run: "discovery_run Inr [StreamEvent (OpenStream None)] sample_open"
proof -
  have "discovery_run Inr [] \<lparr>dy_server = sample_server, dy_streams = []\<rparr>"
    unfolding sample_server_def by (rule discovery_run.start)
  from discovery_run.step [OF this, where e = "StreamEvent (OpenStream None)" and d' = sample_open] show ?thesis
    by (simp add: sample_open_def stream_system_def)
qed

lemma sample_asks:
  "0 < length (dy_streams sample_open)" "st_end (dy_streams sample_open ! 0) = None"
  "tw_nonce (st_watches (dy_streams sample_open ! 0) t) = []" "st_sent (dy_streams sample_open ! 0) = []"
  "cached_configuration (dy_server sample_open) sample_configuration"
  "find_last (rule_selects (sv_pods (dy_server sample_open)) ''cart-0'') (cs_Rules (conf_Spec sample_configuration)) =
     Some (sample_rule ''cart'' ''db2'')"
  "distinct (map cluster_Name (rule_Clusters (sample_rule ''cart'' ''db2'')))"
  "server_ID ''10.0.0.1@cart-0'' = Some ''cart-0''" "''6'' \<noteq> om_ResourceVersion (conf_Meta sample_configuration)"
  "\<exists>data. Inr r = (Inr data :: string + xds_resource)"
  by (simp_all add: sample_open_def new_stream_def sample_configuration_cached sample_last_rule sample_version server_ID_def
      sample_rule_def)

lemma marshal_all_Inr: "marshal_all Inr t rs = Inr (map (Pair t) rs)"
  by (induction rs) simp_all

lemma sample_delivery:
  obtains d' out where "discovery_run Inr sample_events d'" "0 < length (dy_streams d')" "st_sent (dy_streams d' ! 0) = [out]"
    "ds_TypeUrl out = ClusterType"
    "ds_Resources out = map (Pair ClusterType) (buildClusters (rule_Clusters (sample_rule ''cart'' ''db2'')))"
proof -
  from configuration_delivered [where ty = ClusterType, OF sample_open_run sample_asks(1,2,5) disjI1 [OF refl]
      sample_asks(6,7,8) disjI1 [OF refl] sample_asks(9,10)]
  obtain d' out where d': "discovery_run Inr sample_events d'" "st_sent (dy_streams d' ! 0) = [out]" "ds_TypeUrl out = ClusterType"
    "marshal_all Inr ClusterType (buildClusters (rule_Clusters (sample_rule ''cart'' ''db2''))) = Inr (ds_Resources out)"
    by (auto simp: sample_asks(3,4) sample_events_def)
  have "0 < length (dy_streams d')" using discovery_streams_kept [OF d'(1)] by (simp add: sample_events_def)
  with d' show ?thesis by (intro that [of d' out]) (simp_all add: marshal_all_Inr)
qed

theorem configuration_reaches_envoy_witness:
  "\<exists>d' out. discovery_run Inr sample_events d' \<and> st_sent (dy_streams d' ! 0) = [out] \<and>
     map snd (ds_Resources out) = buildClusters (rule_Clusters (sample_rule ''cart'' ''db2''))"
proof -
  from configuration_reaches_envoy [where ty = ClusterType, OF sample_open_run sample_asks(1,2,5) disjI1 [OF refl]
      sample_asks(6,7,8) disjI1 [OF refl] sample_asks(9,10)]
  obtain d' out where d': "discovery_run Inr sample_events d'" "st_sent (dy_streams d' ! 0) = [out]"
    "marshal_all Inr ClusterType (buildClusters (rule_Clusters (sample_rule ''cart'' ''db2''))) = Inr (ds_Resources out)"
    by (auto simp: sample_asks(3,4) sample_events_def)
  then have "ds_Resources out = map (Pair ClusterType) (buildClusters (rule_Clusters (sample_rule ''cart'' ''db2'')))"
    by (simp add: marshal_all_Inr)
  with d' show ?thesis by (intro exI [of _ d'] exI [of _ out]) (simp add: comp_def)
qed

theorem envoys_receive_rules_witness:
  "\<exists>d' n. discovery_run Inr sample_events (d' :: xds_resource discovery) \<and> length (st_sent (dy_streams d' ! 0)) = 1 \<and>
     server_ID ''10.0.0.1@cart-0'' = Some n"
proof -
  obtain d' out where d': "discovery_run Inr sample_events d'" "0 < length (dy_streams d')" "st_sent (dy_streams d' ! 0) = [out]"
    by (rule sample_delivery)
  from envoys_receive_rules [OF d'(1,2), of 0] d'(3) obtain req n where
    "StreamEvent (Received 0 (Some req)) \<in> set sample_events" "server_ID (dr_NodeId req) = Some n" by auto
  then have "server_ID ''10.0.0.1@cart-0'' = Some n" by (auto simp: sample_events_def envoy_asks_def)
  with d' show ?thesis by auto
qed

theorem responses_well_typed_witness:
  "\<exists>d'. discovery_run Inr sample_events d' \<and> requests_type (dy_streams d' ! 0) (envoy_asks ''10.0.0.1@cart-0'' ''6'' ClusterType []) ClusterType \<and>
     (\<exists>r. (ClusterType, r) \<in> set (ds_Resources (st_sent (dy_streams d' ! 0) ! 0)) \<and> resource_type r = ClusterType)"
proof -
  obtain d' out where d': "discovery_run Inr sample_events d'" "0 < length (dy_streams d')" "st_sent (dy_streams d' ! 0) = [out]"
    "ds_TypeUrl out = ClusterType"
    "ds_Resources out = map (Pair ClusterType) (buildClusters (rule_Clusters (sample_rule ''cart'' ''db2'')))"
    by (rule sample_delivery)
  then obtain r where r: "(ClusterType, r) \<in> set (ds_Resources (st_sent (dy_streams d' ! 0) ! 0))"
    by (auto simp: sample_rule_def buildClusters_map)
  from responses_well_typed [OF d'(1,2), of 0] d'(3,4) obtain req where
    "StreamEvent (Received 0 (Some req)) \<in> set sample_events" "requests_type (dy_streams d' ! 0) req ClusterType"
    "\<forall>(t, data) \<in> set (ds_Resources (st_sent (dy_streams d' ! 0) ! 0)). resource_type data = t" by fastforce
  with d'(1) r show ?thesis by (fastforce simp: sample_events_def)
qed

end
