(* ===== verification/InformerFeeds.thy ===== *)
theory InformerFeeds
  imports InformerSynced ServiceDeploy Discovery
begin

text \<open>
  What the informers feed: the notifications of the service informer call the handlers of the controller,
  those of the configuration informer the handlers of the discovery server. Both register no handler for
  deletions, and both rely on the periodic resync of their informer: the controller to come back to a
  service whose reconciliation failed, the discovery server to see pods that appeared after the
  configuration did.
\<close>

section \<open>Handlers\<close>

fun deleted_iface :: "('o \<Rightarrow> ObjectMeta) \<Rightarrow> 'o deleted_object \<Rightarrow> obj_iface" where
  "deleted_iface meta (LastSeen x) = WithMeta (meta x)"
| "deleted_iface meta (FinalStateUnknown key obj) = NoMeta"

fun service_call :: "Service notification \<Rightarrow> informer_event" where
  "service_call (AddNotification x) = OnAdd (WithMeta (service_Meta x))"
| "service_call (UpdateNotification old x) = OnUpdate (WithMeta (service_Meta old)) (WithMeta (service_Meta x))"
| "service_call (DeleteNotification d) = OnDelete (deleted_iface service_Meta d)"

fun configuration_call :: "Configuration notification \<Rightarrow> configuration_event" where
  "configuration_call (AddNotification x) = ConfAdd (WithMeta (conf_Meta x))"
| "configuration_call (UpdateNotification old x) = ConfUpdate (WithMeta (conf_Meta old)) (WithMeta (conf_Meta x))"
| "configuration_call (DeleteNotification d) = ConfDelete (deleted_iface conf_Meta d)"

section \<open>Clients of an informer\<close>

text \<open>
  A program that handles notifications: it serves an object of which it is told while it is ready for it,
  and no notification undoes either. Then it serves every stored object after a resync.
\<close>

locale informer_client =
  fixes meta :: "'o \<Rightarrow> ObjectMeta" and handle :: "'o notification \<Rightarrow> 's \<Rightarrow> 's"
    and ready :: "'s \<Rightarrow> 'o \<Rightarrow> bool" and served :: "'s \<Rightarrow> 'o \<Rightarrow> bool"
  assumes ready_kept: "ready s x \<Longrightarrow> ready (handle m s) x"
    and served_kept: "served s x \<Longrightarrow> served (handle m s) x"
    and serves: "ready s x \<Longrightarrow> announces m x \<Longrightarrow> served (handle m s) x"
begin

lemma served_all: "served s x \<Longrightarrow> served (fold handle ms s) x"
  by (induction ms arbitrary: s) (simp_all add: served_kept)

lemma announced_served: "ready s x \<Longrightarrow> \<exists>m \<in> set ms. announces m x \<Longrightarrow> served (fold handle ms s) x"
proof (induction ms arbitrary: s)
  case (Cons m ms)
  then show ?case using served_all [OF serves, of s x m ms] ready_kept by (cases "announces m x") auto
qed simp

lemma resync_serves:
  assumes "sound_setup period indexers regs now"
    and "informer_steps meta is (started_informer meta period indexers regs now) = Some r"
    and "informer_step meta (ResyncFires t) r = Some r1" "j < length regs"
  shows "\<exists>r' new. informer_steps meta (drain r1) r1 = Some r' \<and>
    waiting (listeners r' ! j) = waiting (listeners r ! j) @ new \<and>
    (lists_clean meta is (started_informer meta period indexers regs now) \<longrightarrow> store_of r' = told meta is) \<and>
    (\<forall>s x. ts_Get (meta_key (meta x)) (ii_indexer (ir_informer r')) = Some x \<longrightarrow> ready s x \<longrightarrow> served (fold handle new s) x)"
proof -
  from resync_tells [OF assms] obtain r' new where
    r': "informer_steps meta (drain r1) r1 = Some r'" "waiting (listeners r' ! j) = waiting (listeners r ! j) @ new"
    "store_of r' = expected r" "\<forall>k x. store_of r' k = Some x \<longrightarrow> (\<exists>m \<in> set new. announces m x)" by blast
  note S = started_informer_laws(1,2) [OF assms(1), where meta = meta]
  have "store_of r' = told meta is" if "lists_clean meta is (started_informer meta period indexers regs now)"
    using expected_told [OF S(1) assms(2) that] by (simp add: r'(3) S(2) told_def)
  moreover from r'(4) announced_served have "ready s x \<Longrightarrow> served (fold handle new s) x"
    if "ts_Get (meta_key (meta x)) (ii_indexer (ir_informer r')) = Some x" for s x
    using that by (simp add: store_of_def stored_objects_def)
  ultimately show ?thesis using r'(1,2) by blast
qed

end

section \<open>The controller\<close>

interpretation services: informer_client service_Meta "\<lambda>m. service_events (service_call m)"
  "\<lambda>q s. \<not> wq_shuttingDown q" "\<lambda>q s. StringItem (meta_key (service_Meta s)) \<in> wq_dirty q"
proof
  fix m and s :: Service and q :: "work_item workqueue"
  assume "\<not> wq_shuttingDown q" "announces m s"
  then show "StringItem (meta_key (service_Meta s)) \<in> wq_dirty (service_events (service_call m) q)"
    by (cases m) (auto simp: enqueue_def MetaNamespaceKeyFunc_def meta_key_def)
qed simp_all

lemma pool_run_events:
  "pool_run c n p0 ls p \<Longrightarrow>
   pool_run c n p0 (ls @ map Event evs) (p\<lparr>po_state := (po_state p)\<lparr>cs_queue := fold service_events evs (po_queue p)\<rparr>\<rparr>)"
proof (induction evs arbitrary: ls p)
  case (Cons ev evs)
  from Cons.IH [OF run_step [OF Cons.prems event_step]] show ?case by simp
qed simp

text \<open>C4: every resync of the service informer makes the controller retry. In any run of the informer, when its
  resync timer fires and the process loop has emptied the queue, the handlers called for the new
  notifications lead the controller, after whatever it queued, processed, failed at or dropped before, to a
  state from which the workers alone can establish any deployable service that the informer stores; and if
  its lists were clean, it stores exactly the services that the API server has told it of.\<close>

theorem resync_retries_services:
  assumes sound: "sound_setup period indexers regs now"
    and steps: "informer_steps service_Meta is (started_informer service_Meta period indexers regs now) = Some r"
    and tick: "informer_step service_Meta (ResyncFires t) r = Some r1" and j: "j < length regs"
    and run: "pool_run cluster_controller n (start_pool k) ls p" and n: "0 < n" and up: "\<not> wq_shuttingDown (po_queue p)"
  shows "\<exists>r' new. informer_steps service_Meta (drain r1) r1 = Some r' \<and>
    waiting (listeners r' ! j) = waiting (listeners r ! j) @ new \<and>
    (lists_clean service_Meta is (started_informer service_Meta period indexers regs now) \<longrightarrow>
       store_of r' = told service_Meta is) \<and>
    (cl_services (cs_world (po_state p)) = ii_indexer (ir_informer r') \<longrightarrow>
     (\<forall>s. deployable s (cs_world (po_state p)) \<longrightarrow>
       (\<exists>ls' p'. pool_run cluster_controller n (start_pool k) (ls @ map (Event \<circ> service_call) new @ ls') p' \<and>
          list_all worker_label ls' \<and> established s (cs_world (po_state p')))))"
proof -
  from services.resync_serves [OF sound steps tick j] obtain r' new where
    r': "informer_steps service_Meta (drain r1) r1 = Some r'" "waiting (listeners r' ! j) = waiting (listeners r ! j) @ new"
    "lists_clean service_Meta is (started_informer service_Meta period indexers regs now) \<longrightarrow> store_of r' = told service_Meta is"
    "\<And>s q. ts_Get (meta_key (service_Meta s)) (ii_indexer (ir_informer r')) = Some s \<Longrightarrow> \<not> wq_shuttingDown q \<Longrightarrow>
       StringItem (meta_key (service_Meta s)) \<in> wq_dirty (fold (\<lambda>m. service_events (service_call m)) new q)" by blast
  let ?p1 = "p\<lparr>po_state := (po_state p)\<lparr>cs_queue := fold service_events (map service_call new) (po_queue p)\<rparr>\<rparr>"
  have run1: "pool_run cluster_controller n (start_pool k) (ls @ map Event (map service_call new)) ?p1"
    by (rule pool_run_events [OF run])
  have "\<exists>ls' p'. pool_run cluster_controller n (start_pool k) (ls @ map (Event \<circ> service_call) new @ ls') p' \<and>
      list_all worker_label ls' \<and> established s (cs_world (po_state p'))"
    if same: "cl_services (cs_world (po_state p)) = ii_indexer (ir_informer r')" and dep: "deployable s (cs_world (po_state p))" for s
  proof -
    have "ts_Get (meta_key (service_Meta s)) (ii_indexer (ir_informer r')) = Some s"
      using dep by (simp add: deployable_def cached_service_def same)
    from r'(4) [OF this up] dep queued_service_deployed [OF run1 n, of s] show ?thesis by (auto simp: fold_map comp_def)
  qed
  with r'(1-3) show ?thesis by blast
qed

lemma sample_resync:
  "\<exists>r r1 r'. informer_steps meta (sample_inputs x) (sample_start meta) = Some r \<and>
     informer_step meta (ResyncFires 30000000000) r = Some r1 \<and> informer_steps meta (drain r1) r1 = Some r' \<and>
     stored_objects (ii_indexer (ir_informer r')) = [meta_key (meta x) \<mapsto> x]"
proof -
  obtain r where r: "informer_steps meta (sample_inputs x) (sample_start meta) = Some r"
    "expected r = [meta_key (meta x) \<mapsto> x]" "ir_resyncTimer r = Some 30000000000" "ir_clock r = 0"
    unfolding sample_run by (simp add: expected_def settle_def store_of_def stored_objects_def df_deltas_def ts_Get_def fun_eq_iff)
  then obtain r1 where r1: "informer_step meta (ResyncFires 30000000000) r = Some r1" by simp
  from resync_tells [OF sample_setup r(1) [unfolded sample_start_def] r1, of 0] r(1,2) r1 show ?thesis
    by (fastforce simp: store_of_def)
qed

theorem resync_retries_services_witness:
  "\<exists>(r' :: Service informer_run) new ls p'. store_of r' = told service_Meta (sample_inputs sample_service) \<and>
     pool_run cluster_controller 1 (start_pool (sample_cluster\<lparr>cl_services := ii_indexer (ir_informer r')\<rparr>))
       (map (Event \<circ> service_call) new @ ls) p' \<and>
     api_deployment (''shop'', ''cart'') (cs_world (po_state p')) \<noteq> None"
proof -
  have key: "meta_key (service_Meta sample_service) = ''shop/cart''"
    by (simp add: meta_key_def sample_service_def zero_ObjectMeta_def)
  obtain r r1 r' where r: "informer_steps service_Meta (sample_inputs sample_service) (sample_start service_Meta) = Some r"
    "informer_step service_Meta (ResyncFires 30000000000) r = Some r1" "informer_steps service_Meta (drain r1) r1 = Some r'"
    "stored_objects (ii_indexer (ir_informer r')) = [''shop/cart'' \<mapsto> sample_service]"
    using sample_resync [of service_Meta sample_service] by (auto simp only: key)
  let ?k = "sample_cluster\<lparr>cl_services := ii_indexer (ir_informer r')\<rparr>"
  have up: "\<not> wq_shuttingDown (po_queue (start_pool ?k))" by (simp add: start_pool_def New_def NewNamed_def)
  have get: "ts_Get i (cl_services ?k) = (if i = ''shop/cart'' then Some sample_service else None)" for i
    using fun_cong [OF r(4), of i] by (simp add: stored_objects_def)
  have keyed: "service_keyed ''shop/cart'' sample_service" using sample_cached by (simp add: cached_service_def)
  have same: "deployment_seen ?k j = deployment_seen sample_cluster j" "k8sService_seen ?k j = k8sService_seen sample_cluster j"
    "api_deployment j ?k = api_deployment j sample_cluster" "api_k8sService j ?k = api_k8sService j sample_cluster" for j
    by (simp_all add: deployment_seen_def k8sService_seen_def api_deployment_def api_k8sService_def)
  have "cluster_inv ?k" using sample_cluster_inv by (simp add: cluster_inv_def)
  moreover have "services_keyed ?k" "cached_service ''shop/cart'' ?k sample_service"
    using keyed by (auto simp only: services_keyed_def cached_service_def get split: if_splits)
  moreover have "caches_sound ?k (service_id sample_service)" by (simp add: caches_sound_def same sample_empty)
  ultimately have "deployable sample_service ?k" by (simp add: deployable_def key same sample_empty del: cluster.simps)
  then have "deployable sample_service (cs_world (po_state (start_pool ?k)))" by (simp add: start_pool_def New_def)
  with resync_retries_services [OF sample_setup r(1) [unfolded sample_start_def] r(2) _ run_none _ up, of 0 1] r(3)
    sample_lists_clean(2) [of service_Meta sample_service, unfolded sample_start_def]
  obtain new ls p' where p': "store_of r' = told service_Meta (sample_inputs sample_service)"
    "pool_run cluster_controller 1 (start_pool ?k) (map (Event \<circ> service_call) new @ ls) p'"
    "established sample_service (cs_world (po_state p'))"
    by (auto simp: start_pool_def New_def)
  then have "api_deployment (''shop'', ''cart'') (cs_world (po_state p')) \<noteq> None"
    by (auto simp: established_def sample_id)
  with p'(1,2) show ?thesis by blast
qed

section \<open>The discovery server\<close>

text \<open>The snapshot under a node name is that of a stored rule which selects it.\<close>

definition up_to_date :: "server \<Rightarrow> string \<Rightarrow> bool" where
  "up_to_date sv node \<longleftrightarrow> (\<exists>key conf rule. ts_Get key (cl_indexer (sv_configurationLister sv)) = Some conf \<and>
     rule \<in> set (cs_Rules (conf_Spec conf)) \<and> rule_selects (sv_pods sv) node rule \<and>
     sc_snapshots (sv_snapshotCache sv) node = Some (rule_snapshot (om_ResourceVersion (conf_Meta conf)) rule))"

lemma update_stores [simp]:
  "sv_configurationLister (update obj sv) = sv_configurationLister sv" "sv_pods (update obj sv) = sv_pods sv"
  by (rule update_writes [of obj sv]; simp)+

lemma configuration_events_stores [simp]:
  "sv_configurationLister (configuration_events ev sv) = sv_configurationLister sv"
  "sv_pods (configuration_events ev sv) = sv_pods sv"
  by (cases ev; simp)+

lemma handled_pods [simp]: "sv_pods (fold (\<lambda>m. configuration_events (configuration_call m)) ms sv) = sv_pods sv"
  by (induction ms arbitrary: sv) simp_all

lemma find_last_Some_D: "find_last P xs = Some x \<Longrightarrow> x \<in> set xs \<and> P x"
  by (induction xs) (auto split: option.splits if_splits)

lemma up_to_date_written:
  assumes "ts_Get key (cl_indexer (sv_configurationLister sv)) = Some conf"
    and "up_to_date sv node \<or> (\<exists>rule \<in> set (cs_Rules (conf_Spec conf)). rule_selects (sv_pods sv) node rule)"
  shows "up_to_date (sv\<lparr>sv_snapshotCache := write_all (rule_writes (sv_pods sv) (om_ResourceVersion (conf_Meta conf))
         (cs_Rules (conf_Spec conf))) (sv_snapshotCache sv)\<rparr>) node"
proof (cases "find_last (rule_selects (sv_pods sv) node) (cs_Rules (conf_Spec conf))")
  case None
  then have "\<not> (\<exists>rule \<in> set (cs_Rules (conf_Spec conf)). rule_selects (sv_pods sv) node rule)"
    by (simp add: find_last_None_iff)
  with assms(2) None show ?thesis by (simp add: up_to_date_def write_all_snapshots find_last_writes)
next
  case (Some rule)
  with find_last_Some_D [OF Some] assms(1) show ?thesis
    unfolding up_to_date_def by (intro exI [of _ key] exI [of _ conf] exI [of _ rule]) (simp add: write_all_snapshots find_last_writes)
qed

lemma up_to_date_update: "up_to_date sv node \<Longrightarrow> up_to_date (update obj sv) node"
  by (rule update_writes [of obj sv]) (auto intro: up_to_date_written)

definition covered :: "server \<Rightarrow> Configuration \<Rightarrow> bool" where
  "covered sv conf \<longleftrightarrow> (\<forall>rule \<in> set (cs_Rules (conf_Spec conf)). \<forall>node. rule_selects (sv_pods sv) node rule \<longrightarrow> up_to_date sv node)"

interpretation configurations: informer_client conf_Meta "\<lambda>m. configuration_events (configuration_call m)"
  cached_configuration covered
proof
  fix sv m and conf :: Configuration
  show "cached_configuration sv conf \<Longrightarrow> cached_configuration (configuration_events (configuration_call m) sv) conf"
    by (simp add: cached_configuration_def)
  show "covered sv conf \<Longrightarrow> covered (configuration_events (configuration_call m) sv) conf"
    by (cases "configuration_call m") (auto simp: covered_def up_to_date_update)
  assume c: "cached_configuration sv conf" and "announces m conf"
  then have "configuration_events (configuration_call m) sv = update (WithMeta (conf_Meta conf)) sv" by (cases m) auto
  then show "covered (configuration_events (configuration_call m) sv) conf"
    using up_to_date_written [of _ sv conf] c unfolding update_cached [OF c]
    by (auto simp: covered_def cached_configuration_def)
qed

text \<open>C5: pods that appear late get configured by the next resync. The discovery server has no handler for
  pods. In any run of its configuration informer, when the resync timer fires and the process loop has
  emptied the queue, the handlers called for the new notifications bring every pod that a rule of a stored
  configuration selects by now up to date: its node's snapshot is that of a rule of a stored configuration
  which selects it, at that configuration's version; and if the lists were clean, the stored configurations
  are exactly those that the API server has told the informer of.\<close>

theorem resync_configures_pods:
  assumes sound: "sound_setup period indexers regs now"
    and steps: "informer_steps conf_Meta is (started_informer conf_Meta period indexers regs now) = Some r"
    and tick: "informer_step conf_Meta (ResyncFires t) r = Some r1" and j: "j < length regs"
  shows "\<exists>r' new. informer_steps conf_Meta (drain r1) r1 = Some r' \<and>
    waiting (listeners r' ! j) = waiting (listeners r ! j) @ new \<and>
    (lists_clean conf_Meta is (started_informer conf_Meta period indexers regs now) \<longrightarrow>
       store_of r' = told conf_Meta is) \<and>
    (\<forall>sv. cl_indexer (sv_configurationLister sv) = ii_indexer (ir_informer r') \<longrightarrow>
     (\<forall>conf rule node. cached_configuration sv conf \<and> rule \<in> set (cs_Rules (conf_Spec conf)) \<and>
        rule_selects (sv_pods sv) node rule \<longrightarrow>
        up_to_date (fold configuration_events (map configuration_call new) sv) node))"
proof -
  from configurations.resync_serves [OF sound steps tick j] obtain r' new where
    r': "informer_steps conf_Meta (drain r1) r1 = Some r'" "waiting (listeners r' ! j) = waiting (listeners r ! j) @ new"
    "lists_clean conf_Meta is (started_informer conf_Meta period indexers regs now) \<longrightarrow> store_of r' = told conf_Meta is"
    "\<And>conf sv. ts_Get (meta_key (conf_Meta conf)) (ii_indexer (ir_informer r')) = Some conf \<Longrightarrow> cached_configuration sv conf \<Longrightarrow>
       covered (fold (\<lambda>m. configuration_events (configuration_call m)) new sv) conf" by blast
  have "up_to_date (fold configuration_events (map configuration_call new) sv) node"
    if sv: "cl_indexer (sv_configurationLister sv) = ii_indexer (ir_informer r')" and conf: "cached_configuration sv conf"
      and rule: "rule \<in> set (cs_Rules (conf_Spec conf))" "rule_selects (sv_pods sv) node rule" for sv conf rule node
  proof -
    have "ts_Get (meta_key (conf_Meta conf)) (ii_indexer (ir_informer r')) = Some conf"
      using conf by (simp add: cached_configuration_def sv)
    from r'(4) [OF this conf] rule show ?thesis by (simp add: covered_def fold_map comp_def)
  qed
  with r'(1-3) show ?thesis by blast
qed

text \<open>The configuration of the sample server, listed and then announced again by a resync.\<close>

theorem resync_configures_pods_witness:
  "\<exists>(r' :: Configuration informer_run) new. store_of r' = told conf_Meta (sample_inputs sample_configuration) \<and>
     up_to_date (fold configuration_events (map configuration_call new)
       (NewServer (ii_indexer (ir_informer r')) (sv_pods sample_server))) ''cart-0''"
proof -
  have key: "meta_key (conf_Meta sample_configuration) = ''shop/mesh''"
    by (simp add: meta_key_def sample_configuration_def zero_ObjectMeta_def)
  obtain r r1 r' where r: "informer_steps conf_Meta (sample_inputs sample_configuration) (sample_start conf_Meta) = Some r"
    "informer_step conf_Meta (ResyncFires 30000000000) r = Some r1" "informer_steps conf_Meta (drain r1) r1 = Some r'"
    "stored_objects (ii_indexer (ir_informer r')) = [''shop/mesh'' \<mapsto> sample_configuration]"
    using sample_resync [of conf_Meta sample_configuration] by (auto simp only: key)
  let ?sv = "NewServer (ii_indexer (ir_informer r')) (sv_pods sample_server)"
  have "cached_configuration ?sv sample_configuration"
    using fun_cong [OF r(4), of "''shop/mesh''"] sample_configuration_cached
    by (simp add: cached_configuration_def key NewServer_def NewConfigurationLister_def stored_objects_def)
  moreover have "sample_rule ''cart'' ''db1'' \<in> set (cs_Rules (conf_Spec sample_configuration))"
    by (simp add: sample_configuration_def)
  moreover have "rule_selects (sv_pods ?sv) ''cart-0'' (sample_rule ''cart'' ''db1'')"
    using sample_selects [of "''cart-0''"] by (simp add: NewServer_def)
  moreover have "cl_indexer (sv_configurationLister ?sv) = ii_indexer (ir_informer r')"
    by (simp add: NewServer_def NewConfigurationLister_def)
  moreover obtain r2 new where told: "informer_steps conf_Meta (drain r1) r1 = Some r2"
    "store_of r2 = told conf_Meta (sample_inputs sample_configuration)"
    "\<forall>sv. cl_indexer (sv_configurationLister sv) = ii_indexer (ir_informer r2) \<longrightarrow>
     (\<forall>conf rule node. cached_configuration sv conf \<and> rule \<in> set (cs_Rules (conf_Spec conf)) \<and>
        rule_selects (sv_pods sv) node rule \<longrightarrow>
        up_to_date (fold configuration_events (map configuration_call new) sv) node)"
    using resync_configures_pods [OF sample_setup r(1) [unfolded sample_start_def] r(2), of 0]
      sample_lists_clean(2) [of conf_Meta sample_configuration, unfolded sample_start_def] by auto
  ultimately have "up_to_date (fold configuration_events (map configuration_call new) ?sv) ''cart-0''"
    using r(3) by simp
  with told(1,2) r(3) show ?thesis by auto
qed

end
