(* ===== verification/Spec2Isabelle.thy ===== *)
theory Spec2Isabelle
  imports EnvoyBootstrap FakeClientLaws InformerFactoryLaws DeepCopyLaws Mains InformerFeeds
begin

text \<open>
  lite-mesh is a small service mesh for Kubernetes: a controller turns mesh \<open>Service\<close> objects into
  deployments with an Envoy side-car and Kubernetes services; a discovery server turns mesh
  \<open>Configuration\<close> objects into listeners and clusters and serves them to the side-cars over xDS; and
  \<open>envoy-bootstrap\<close> starts Envoy in the side-car with the identity of its pod. Both servers are fed by
  informers and talk to the API server through generated clients. This library models these programs
  and the parts of their libraries on which their behaviour rests, and proves what makes them correct.

  \<^bold>\<open>How the parts interact.\<close> An informer lists and watches objects of one kind, brings what it learns through
  a queue of deltas into an indexed store, tells the registered handlers, and tells them of every object
  again at each resync. The mains (\<open>cmd/controller\<close>, \<open>cmd/discovery\<close>) make clients and informer
  factories, wait for the caches and start the work. In the controller an informer event puts a key on the
  work queue, a worker takes it and reconciles: it reads listers, builds objects and creates them through
  the clients. In the discovery server an informer event calls \<open>update\<close>, which selects pods by label and
  stores one snapshot per pod in the snapshot cache; the streams of the Envoys hold watches of that cache.
  The side-car's arguments, environment and node id tie the two programs together.

  \<^bold>\<open>The theories and the source.\<close>
  \<^item> \<open>Prelude\<close>: strings, decimal formatting, Go maps as association lists, results as sums.
  \<^item> \<open>KubeTypes\<close>, \<open>MeshTypes\<close>: the objects of \<open>pkg/apis/mesh\<close> and what apimachinery gives them:
    metadata, owner references, group/version names, API errors.
  \<^item> \<open>Workqueue\<close> (\<open>client-go/util/workqueue\<close>), \<open>Labels\<close> (\<open>apimachinery/pkg/labels\<close>), \<open>Store\<close>,
    \<open>Listers\<close> and \<open>IndexQueries\<close> (\<open>client-go/tools/cache\<close>, \<open>pkg/client/listers\<close>): the queue with its three
    sets, selectors and label validation, the indexed store, the listers over it, and reading by an index.
  \<^item> \<open>DeltaFifo\<close>, \<open>DeltaFifoLaws\<close> (\<open>delta_fifo.go\<close> of \<open>client-go/tools/cache\<close>), \<open>SharedInformer\<close>,
    \<open>SharedInformerLaws\<close>, \<open>InformerRuns\<close>, \<open>InformerProps\<close>, \<open>InformerSynced\<close> (\<open>shared_informer.go\<close>, \<open>reflector.go\<close>):
    the delta queue, and a shared informer with its goroutines as steps over one state, driven by the answers
    of the API server, the clock and the scheduler. \<open>InformerFeeds\<close>: the notifications of an informer as calls
    of the handlers of the controller and of the discovery server.
  \<^item> \<open>Schemes\<close> (\<open>register.go\<close> of the API group and of both clientsets): the kinds that are registered.
  \<^item> \<open>Resources\<close> (\<open>pkg/controller/resource.go\<close>, \<open>meta.go\<close>), \<open>Controller\<close>, \<open>Cluster\<close>, \<open>ControllerPool\<close>, \<open>ServiceDeploy\<close>
    (\<open>controller.go\<close>): object construction, reconciliation over any clients, reconciliation over an API
    server, the workers as a step relation, and the way from an event to the cluster.
  \<^item> \<open>Tracker\<close>, \<open>TrackerWatch\<close> (\<open>client-go/testing\<close>), \<open>FakeClient\<close>, \<open>FakeClientLaws\<close>
    (\<open>pkg/client/clientset/versioned/fake\<close>): the object tracker and the generated fakes.
  \<^item> \<open>EnvoyMessages\<close>, \<open>XdsServer\<close> (\<open>pkg/xds/server.go\<close>), \<open>SnapshotCache\<close>
    (\<open>go-control-plane/pkg/cache\<close>), \<open>XdsStream\<close>, \<open>XdsStreamLaws\<close> (\<open>go-control-plane/pkg/server\<close>),
    \<open>Discovery\<close>: listeners and clusters, updates, the cache with its watches and channels, any number of
    streams over it, and the runs of the whole server.
  \<^item> \<open>EnvoyBootstrap\<close> (\<open>cmd/envoy-bootstrap\<close>): flags, environment, rendering into a file that may be too
    small, and \<open>main\<close> with the order of its effects.
  \<^item> \<open>RestRequest\<close>, \<open>RestClient\<close>, \<open>RestClientLaws\<close> (\<open>client-go/rest\<close>), \<open>TypedClients\<close>, \<open>TypedClientsLaws\<close>,
    \<open>Clientset\<close> (\<open>pkg/client/clientset/versioned\<close>): requests, sending, every generated method, constructors.
  \<^item> \<open>InformerFactory\<close>, \<open>InformerFactoryLaws\<close> (\<open>pkg/client/informers\<close>), \<open>DeepCopyHeap\<close>, \<open>DeepCopy\<close>,
    \<open>DeepCopyLaws\<close> (\<open>zz_generated.deepcopy.go\<close>): sharing and starting of informers; copying on a memory of
    cells, so that aliasing can be stated.
  \<^item> \<open>Signals\<close> (\<open>pkg/signals\<close>), \<open>Mains\<close> (\<open>cmd/controller\<close>, \<open>cmd/discovery\<close>): goroutines, signals, informers,
    and the reads of listers by workers and handlers, as step relations.
  \<^item> This theory: properties that span the controller, the side-car and the discovery server.

  A Go struct is a record, a method a function on its state that returns the new one, an error or a panic a
  branch of the result. Goroutines are step relations or event lists in which every interleaving of their
  steps under the code's locks is a run. Pointers that matter (informers, channels, memory of deep copies)
  are numbers or addresses; elsewhere a pointer is the value it points to. A Go map that is iterated is an
  association list in the order of insertion, one of the orders that Go may choose.

  \<^bold>\<open>What the lemmas show.\<close> Each stateful component has an invariant that all its operations keep, and
  contracts stated as locales: a keyed store (the indexed store, the snapshot cache), a work queue, an API
  of objects (the tracker, the fakes), a factory of informers, a client of an informer, a typed client, a deep
  copier; each is interpreted on the code's own definitions. On them rest the outcome of reconciliation and
  that it only adds owned objects, that no queued key is lost and no two workers hold one, that informers
  follow the API server except for two cases of a second list, that handlers see the history of the store and
  each resync leads to retried services and configured pods, the outcome of an update, that each response
  answers a request for its type from a set snapshot, that Envoys receive exactly rules that select them and
  converge, the round trip of request paths, and independence of deep copies; that the controller reads synced
  caches only, while the discovery server serves after its caches were synced but fills snapshots from its
  event handler, which may read the pods earlier; and that \<open>envoy-bootstrap\<close> starts Envoy on the file that
  it wrote, complete or not, since the error of the rendering is ignored.

  \<^bold>\<open>Bounds and fuel.\<close> \<open>runWorker\<close> takes fuel; one round per queued key and one to see the empty queue are
  enough, which \<open>runWorker_terminates\<close> proves. The loop that sends a request stops after ten attempts, as
  in the code. Other recursions are structural or have a proved measure. Ports and the nonces of a
  stream have their machine width; counters of watches and retries, durations and rates are unbounded.

  \<^bold>\<open>Parameters.\<close> Answers from outside are arguments: the operating system and the template package in \<open>envoy-bootstrap\<close>,
  \<open>BuildConfigFromFlags\<close>, the constructor of the Kubernetes clientset, transports, encoders and URL and media
  type parsing of the REST client, protobuf encoding in a stream, strategic merges and selector parsers of
  the fakes, the copiers of Kubernetes' own types. Hypotheses on them are stated where a property needs
  them, and witnesses discharge them on concrete functions.

  \<^bold>\<open>Not modelled.\<close> gRPC below a stream, accepting connections and the fetch methods that the program does not
  register; of informers the cache mutation detector, panics of handlers, handlers added after the start
  in the runs, and a resync that overlaps the next list; requests of the discovery client; protobuf beyond
  what the program builds; the overflow of fake watch channels at 100 events; durations of back-off and
  throttling; metrics, logging and timestamps; JSON tags, \<open>TypeMeta\<close> and list metadata except in deep copies;
  conversion functions of a scheme; list objects given to the fake clientset.
  Interfaces and expansion types of generated code declare methods only.
\<close>

section \<open>The informers of the programs\<close>

text \<open>
  What the factories of both programs make of each informer meets the assumptions of the theorems on runs
  of informers: every index is total and the period is long enough.
\<close>

lemma program_informers_sound:
  assumes "period = 30 * 10 ^ 9 \<or> period = 10 * 10 ^ 9" "\<forall>t \<in> set regs. t \<le> now"
  shows "sound_setup (ii_resync (query_new q client period)) (ii_indexers (query_new q client period)) regs now"
  using assms
  by (cases q) (auto simp: sound_setup_def minimumResyncPeriod_def kube_defaultInformer_def service_defaultInformer_def
      configuration_defaultInformer_def NewFilteredServiceInformer_def NewFilteredConfigurationInformer_def
      namespace_indexers_def go_map_def total_indexers_def MetaNamespaceIndexFunc_def)

section \<open>From the deployment to the side-car\<close>

text \<open>
  The environment that the kubelet gives a container whose variables refer to fields of its pod:
  \<open>fields\<close> says what each field path resolves to.
\<close>

definition resolve_env :: "EnvVar list \<Rightarrow> (string \<Rightarrow> string) \<Rightarrow> string \<Rightarrow> string" where
  "resolve_env env pod_field name =
     (case find_last (\<lambda>v. ev_Name v = name) env of
        None \<Rightarrow> []
      | Some v \<Rightarrow>
          (case ev_ValueFrom v of
             None \<Rightarrow> ev_Value v
           | Some src \<Rightarrow>
               (case es_FieldRef src of None \<Rightarrow> [] | Some ref \<Rightarrow> pod_field (fs_FieldPath ref))))"

definition sidecar :: "Service \<Rightarrow> Container" where
  "sidecar s = hd (pt_Containers (dep_Template (fst (CreateServiceDeployment s))))"

lemma sidecar_envoy: "sidecar s = envoy_container s"
  by (simp add: sidecar_def CreateServiceDeployment_fields)

lemma sidecar_env:
  "resolve_env (c_Env (sidecar s)) pod_field ''POD_NAME'' = pod_field ''metadata.name''"
  "resolve_env (c_Env (sidecar s)) pod_field ''POD_IP'' = pod_field ''status.podIP''"
  by (simp_all add: sidecar_envoy envoy_container_def resolve_env_def field_env_def)

definition sidecar_flags :: "Service \<Rightarrow> bootstrap_flags" where
  "sidecar_flags s = init_flags
     \<lparr>bootstrapTemplate := ''/etc/conf/envoy-bootstrap-template.yaml'',
      bootstrapConfig := ''/etc/conf/envoy-bootstrap.yaml'',
      envoyBinary := ''/usr/local/bin/envoy'',
      logLevel := envoyLogLevel s,
      serviceCluster := om_Name (service_Meta s),
      discoveryAddress := envoyDiscoveryAddress s,
      discoveryPort := envoyDiscoveryPort s\<rparr>"

lemma sidecar_args: "flag_Parse (c_Args (sidecar s)) init_flags = Inr (sidecar_flags s)"
  by (simp add: sidecar_envoy envoy_container_def envoy_args_def sidecar_flags_def flag_Parse_known
      del: flag_Parse.simps(2))

text \<open>C23: the side-car of a created deployment knows who it is and whom to ask. Its arguments parse
  without error, whatever strings the user put into the service; in the environment the kubelet
  builds from its field references, the node id it presents hashes to the name of its pod, under
  which the discovery server stores snapshots; and its bootstrap configuration names the mesh
  service as cluster and the service's discovery address and port.\<close>

theorem sidecar_bootstraps:
  assumes "CHR ''@'' \<notin> set (pod_field ''status.podIP'')" "CHR ''@'' \<notin> set (pod_field ''metadata.name'')"
  shows "\<exists>f. flag_Parse (c_Args (sidecar s)) init_flags = Inr f \<and>
    (let cfg = build_config (resolve_env (c_Env (sidecar s)) pod_field) f
     in server_ID (NodeId cfg) = Some (pod_field ''metadata.name'') \<and>
        ServiceCluster cfg = om_Name (service_Meta s) \<and>
        Address (Xds cfg) = envoyDiscoveryAddress s \<and> Port (Xds cfg) = envoyDiscoveryPort s \<and>
        envoyBinary f = ''/usr/local/bin/envoy'' \<and> logLevel f = envoyLogLevel s)"
  using assms
  by (simp add: sidecar_args Let_def build_config_def buildNodeId_def sidecar_env server_ID_def
      sidecar_flags_def)

definition sample_fields :: "string \<Rightarrow> string" where
  "sample_fields path = (if path = ''metadata.name'' then ''cart-0'' else ''10.0.0.1'')"

theorem sidecar_bootstraps_witness:
  "server_ID (NodeId (build_config (resolve_env (c_Env (sidecar sample_service)) sample_fields)
     (sidecar_flags sample_service))) = Some ''cart-0''"
  using sidecar_bootstraps [of sample_fields sample_service]
  by (simp add: sidecar_args Let_def) (simp add: sample_fields_def)

section \<open>From the configuration to the side-car\<close>

text \<open>C13: a pod of a mesh service gets the configuration meant for it. Take a pod with the labels of
  the deployment created for a service, and a configuration whose last rule asks only for labels
  that the controller gives that service. After the discovery server has processed the
  configuration, the snapshot under the identity that the pod's side-car presents is the one of
  that rule.\<close>

theorem service_pod_is_configured:
  assumes "cached_configuration srv conf" "cs_Rules (conf_Spec conf) = rules @ [r]"
    and "go_map (rule_Match r)" "map_of (rule_Match r) \<subseteq>\<^sub>m map_of (createLabels s)"
    and "p \<in> set (ts_List (sv_pods srv))" "pod_of_template (fst (CreateServiceDeployment s)) (om_Labels (pod_Meta p))"
    and "pod_field ''metadata.name'' = om_Name (pod_Meta p)"
    and "CHR ''@'' \<notin> set (pod_field ''status.podIP'')" "CHR ''@'' \<notin> set (om_Name (pod_Meta p))"
  shows "\<exists>node. server_ID (NodeId (build_config (resolve_env (c_Env (sidecar s)) pod_field) (sidecar_flags s))) = Some node \<and>
    sc_snapshots (sv_snapshotCache (update (WithMeta (conf_Meta conf)) srv)) node =
      Some (rule_snapshot (om_ResourceVersion (conf_Meta conf)) r)"
proof -
  have labels: "map_of (om_Labels (pod_Meta p)) k = Some v" if "(k, v) \<in> set (rule_Match r)" for k v
  proof -
    have "map_of (rule_Match r) k = Some v" using that assms(3) by (simp add: go_map_def)
    then have "map_of (createLabels s) k = Some v" using assms(4) by (auto simp: map_le_def dom_def)
    then have "(k, v) \<in> set (createLabels s)" by (rule map_of_SomeD)
    then show ?thesis
      using assms(6) by (auto simp: pod_of_template_def CreateServiceDeployment_fields list_all_iff)
  qed
  then have "rule_selects (sv_pods srv) (om_Name (pod_Meta p)) r"
    using assms(5) by (auto simp: rule_selects_def rule_pods_def list_ex_iff selected_by_def)
  then have "find_last (rule_selects (sv_pods srv) (om_Name (pod_Meta p))) (cs_Rules (conf_Spec conf)) = Some r"
    by (simp add: assms(2) find_last_def)
  from server_snapshot [OF assms(1) this]
  have "sc_snapshots (sv_snapshotCache (update (WithMeta (conf_Meta conf)) srv)) (om_Name (pod_Meta p)) =
      Some (rule_snapshot (om_ResourceVersion (conf_Meta conf)) r)" .
  moreover have "server_ID (NodeId (build_config (resolve_env (c_Env (sidecar s)) pod_field) (sidecar_flags s))) =
      Some (om_Name (pod_Meta p))"
    using assms(7-9) by (simp add: build_config_def buildNodeId_def sidecar_env server_ID_def)
  ultimately show ?thesis by blast
qed

definition cart_service :: Service where
  "cart_service = sample_service
     \<lparr>service_Meta := zero_ObjectMeta\<lparr>om_Name := ''cart'', om_Namespace := ''shop''\<rparr>\<rparr>"

theorem service_pod_is_configured_witness:
  "\<exists>node. sc_snapshots (sv_snapshotCache (update (WithMeta (conf_Meta sample_configuration)) sample_server)) node =
     Some (rule_snapshot ''7'' (sample_rule ''cart'' ''db2''))"
proof -
  have labels: "createLabels cart_service = [(''app'', ''cart'')]"
    by (simp add: createLabels_def cart_service_def zero_ObjectMeta_def)
  have rules: "cs_Rules (conf_Spec sample_configuration) = [sample_rule ''cart'' ''db1''] @ [sample_rule ''cart'' ''db2'']"
    by (simp add: sample_configuration_def)
  have match: "go_map (rule_Match (sample_rule ''cart'' ''db2''))"
    "map_of (rule_Match (sample_rule ''cart'' ''db2'')) \<subseteq>\<^sub>m map_of (createLabels cart_service)"
    by (simp_all add: sample_rule_def labels)
  have pod: "sample_pod \<in> set (ts_List (sv_pods sample_server))"
    "pod_of_template (fst (CreateServiceDeployment cart_service)) (om_Labels (pod_Meta sample_pod))"
    "sample_fields ''metadata.name'' = om_Name (pod_Meta sample_pod)"
    by (simp_all add: sample_server_def NewServer_def ts_List_def sample_pod_def zero_ObjectMeta_def
        pod_of_template_def CreateServiceDeployment_fields labels sample_fields_def)
  have "om_Name (pod_Meta sample_pod) = ''cart-0''" by (simp add: sample_pod_def zero_ObjectMeta_def)
  then have at: "CHR ''@'' \<notin> set (sample_fields ''status.podIP'')" "CHR ''@'' \<notin> set (om_Name (pod_Meta sample_pod))"
    by (simp_all add: sample_fields_def)
  show ?thesis
    using service_pod_is_configured [OF sample_configuration_cached rules match pod at]
    by (auto simp: sample_version)
qed

end
